(* ===== verification/PyValues.thy ===== *)
theory PyValues
  imports Main "HOL-Library.AList" "HOL-Library.Multiset" "HOL-Library.Char_ord" "HOL-Library.List_Lexorder"
begin

text \<open>
  The prelude. The program keeps its state in JSON-shaped Python values: a run record is a
  dictionary of strings, booleans, numbers, lists and dictionaries. This theory models those
  values and the operations of the language the sources use on them: truth value, \<open>or\<close>,
  \<open>str\<close>, \<open>strip\<close>, \<open>lower\<close>, \<open>casefold\<close>, \<open>int\<close>, \<open>float\<close>, \<open>list\<close>, \<open>==\<close>,
  dictionary \<open>get\<close>, assignment and \<open>pop\<close>, and exceptions as values of a sum type.

  Conventions. A dictionary is an association list in insertion order (\<open>AList.update\<close>
  keeps the position of an existing key and appends a new one, as Python does); its keys are
  strings, as in JSON. A list also stands for a tuple. A float is the decimal
  number \<open>m / 10 ^ k\<close> of its shortest representation, so no infinities and no NaN.
  A character is a code point below 256. \<open>NoReturn\<close> is no exception of Python: it is the outcome of a
  call that does not return.
\<close>

section \<open>Values\<close>

datatype py =
    PNone
  | PBool bool
  | PInt int
  | PFloat int nat
  | PStr string
  | PList "py list"
  | PDict "(string \<times> py) list"

type_synonym dict = "(string \<times> py) list"

datatype pyexc =
    ValueError string
  | TypeError string
  | KeyError string
  | AttributeError string
  | RuntimeError string
  | RunConflict string
  | RunNotFound string
  | DatabaseError string
  | NoReturn

type_synonym 'a res = "pyexc + 'a"

named_theorems py_simps \<open>unfolding rules for the operations of the language\<close>

section \<open>Exceptions\<close>

definition bind_res :: "'a res \<Rightarrow> ('a \<Rightarrow> 'b res) \<Rightarrow> 'b res" where
  "bind_res m f = (case m of Inl e \<Rightarrow> Inl e | Inr x \<Rightarrow> f x)"

lemma bind_res_simps [simp]:
  "bind_res (Inl e) f = Inl e"
  "bind_res (Inr x) f = f x"
  by (simp_all add: bind_res_def)

lemma bind_res_eq_Inr: "bind_res m f = Inr y \<longleftrightarrow> (\<exists>x. m = Inr x \<and> f x = Inr y)"
  by (cases m) auto

lemma bind_res_eq_Inl: "bind_res m f = Inl e \<longleftrightarrow> m = Inl e \<or> (\<exists>x. m = Inr x \<and> f x = Inl e)"
  by (cases m) auto

lemma bind_res_cong [fundef_cong]:
  "m = m' \<Longrightarrow> (\<And>x. m' = Inr x \<Longrightarrow> f x = f' x) \<Longrightarrow> bind_res m f = bind_res m' f'"
  by (cases m') auto

text \<open>A comprehension whose body may raise: the first exception wins.\<close>

fun map_res :: "('a \<Rightarrow> 'b res) \<Rightarrow> 'a list \<Rightarrow> 'b list res" where
  "map_res f [] = Inr []"
| "map_res f (x # xs) = bind_res (f x) (\<lambda>y. bind_res (map_res f xs) (\<lambda>ys. Inr (y # ys)))"

lemma map_res_cong [fundef_cong]:
  "xs = ys \<Longrightarrow> (\<And>x. x \<in> set ys \<Longrightarrow> f x = g x) \<Longrightarrow> map_res f xs = map_res g ys"
  by (induction ys arbitrary: xs) auto

lemma map_res_Inr_iff: "map_res f xs = Inr ys \<longleftrightarrow> list_all2 (\<lambda>x y. f x = Inr y) xs ys"
  by (induction xs arbitrary: ys) (auto simp: bind_res_eq_Inr list_all2_Cons1)

lemma map_res_Inr: "map_res (\<lambda>x. Inr (f x)) xs = Inr (map f xs)"
  by (induction xs) auto

lemma map_res_all: "(\<And>x. x \<in> set xs \<Longrightarrow> f x = Inr (g x)) \<Longrightarrow> map_res f xs = Inr (map g xs)"
  by (induction xs) auto

lemma map_res_in_set: "map_res f xs = Inr ys \<Longrightarrow> y \<in> set ys \<Longrightarrow> \<exists>x \<in> set xs. f x = Inr y"
  by (induction xs arbitrary: ys) (auto simp: bind_res_eq_Inr)

lemma map_res_length: "map_res f xs = Inr ys \<Longrightarrow> length ys = length xs"
  by (simp add: map_res_Inr_iff list_all2_lengthD)

lemma map_res_keys:
  "map_res (\<lambda>(key, x). bind_res (f key x) (\<lambda>y. Inr (key, y))) xs = Inr ys \<Longrightarrow> map fst ys = map fst xs"
  by (induction xs arbitrary: ys) (auto simp: bind_res_eq_Inr)

section \<open>Characters and strings\<close>

abbreviation code_of :: "char \<Rightarrow> nat" where
  "code_of c \<equiv> of_char c"

definition is_space :: "char \<Rightarrow> bool" where
  "is_space c = (let n = code_of c in
     (9 \<le> n \<and> n \<le> 13) \<or> (28 \<le> n \<and> n \<le> 32) \<or> n = 133 \<or> n = 160)"

definition py_strip :: "string \<Rightarrow> string" where
  "py_strip s = rev (dropWhile is_space (rev (dropWhile is_space s)))"

lemma hd_dropWhile_rev: "dropWhile P (rev (dropWhile P (rev (dropWhile P s)))) = rev (dropWhile P (rev (dropWhile P s)))"
proof -
  let ?t = "dropWhile P s" and ?u = "rev (dropWhile P (rev (dropWhile P s)))"
  have split: "?t = ?u @ rev (takeWhile P (rev ?t))"
    by (metis rev_append rev_rev_ident takeWhile_dropWhile_id)
  show ?thesis
  proof (cases ?u)
    case Nil
    then show ?thesis by (simp only: dropWhile.simps)
  next
    case (Cons c us)
    with split have "?t = c # us @ rev (takeWhile P (rev ?t))" by simp
    then have "hd ?t = c" "?t \<noteq> []" by (metis list.sel(1), metis list.distinct(1))
    then have "\<not> P c" using hd_dropWhile [of P s] by simp
    with Cons show ?thesis by simp
  qed
qed

lemma py_strip_idem [simp]: "py_strip (py_strip s) = py_strip s"
  unfolding py_strip_def by (simp add: hd_dropWhile_rev dropWhile_idem)

definition lower_char :: "char \<Rightarrow> char" where
  "lower_char c = (let n = code_of c in
     if (65 \<le> n \<and> n \<le> 90) \<or> (192 \<le> n \<and> n \<le> 222 \<and> n \<noteq> 215) then char_of (n + 32) else c)"

definition py_lower :: "string \<Rightarrow> string" where
  "py_lower s = map lower_char s"

definition py_casefold :: "string \<Rightarrow> string" where
  "py_casefold s = concat (map (\<lambda>c. if code_of c = 223 then ''ss'' else [lower_char c]) s)"

text \<open>\<open>s.split()\<close>: the maximal runs of characters that are no white space.\<close>

function py_split :: "string \<Rightarrow> string list" where
  "py_split s = (let t = dropWhile is_space s in
     if t = [] then []
     else takeWhile (\<lambda>c. \<not> is_space c) t # py_split (dropWhile (\<lambda>c. \<not> is_space c) t))"
  by pat_completeness auto

lemma dropWhile_not_space_shorter:
  assumes "dropWhile is_space s \<noteq> []"
  shows "length (dropWhile (\<lambda>c. \<not> is_space c) (dropWhile is_space s)) < length s"
proof -
  from assms have "\<not> is_space (hd (dropWhile is_space s))"
    by (rule hd_dropWhile)
  with assms obtain c t where "dropWhile is_space s = c # t" and "\<not> is_space c"
    by (cases "dropWhile is_space s") auto
  then show ?thesis
    using length_dropWhile_le [of "\<lambda>c. \<not> is_space c" t] length_dropWhile_le [of is_space s]
    by simp
qed

termination py_split
  by (relation "measure length") (auto simp: dropWhile_not_space_shorter)

declare py_split.simps [simp del]

fun py_join :: "string \<Rightarrow> string list \<Rightarrow> string" where
  "py_join sep [] = []"
| "py_join sep [x] = x"
| "py_join sep (x # y # ys) = x @ sep @ py_join sep (y # ys)"

definition starts_with :: "string \<Rightarrow> string \<Rightarrow> bool" where
  "starts_with p s = (take (length p) s = p)"

text \<open>\<open>s.split(":", 1)[0]\<close>: everything before the first colon.\<close>

definition before_colon :: "string \<Rightarrow> string" where
  "before_colon s = takeWhile (\<lambda>c. c \<noteq> CHR '':'') s"

section \<open>Numbers as text\<close>

definition digit_char :: "nat \<Rightarrow> char" where
  "digit_char d = char_of (48 + d)"

definition is_digit :: "char \<Rightarrow> bool" where
  "is_digit c = (48 \<le> code_of c \<and> code_of c \<le> 57)"

definition digit_val :: "char \<Rightarrow> nat" where
  "digit_val c = code_of c - 48"

fun nat_str :: "nat \<Rightarrow> string" where
  "nat_str n = (if n < 10 then [digit_char n] else nat_str (n div 10) @ [digit_char (n mod 10)])"

declare nat_str.simps [simp del]

definition int_str :: "int \<Rightarrow> string" where
  "int_str i = (if i < 0 then CHR ''-'' # nat_str (nat (- i)) else nat_str (nat i))"

text \<open>The last \<open>k\<close> decimal digits of \<open>n\<close>, with leading zeros.\<close>

fun frac_str :: "nat \<Rightarrow> nat \<Rightarrow> string" where
  "frac_str 0 n = []"
| "frac_str (Suc k) n = frac_str k (n div 10) @ [digit_char (n mod 10)]"

definition float_str :: "int \<Rightarrow> nat \<Rightarrow> string" where
  "float_str m k = (let a = nat \<bar>m\<bar> in
     (if m < 0 then ''-'' else []) @ nat_str (a div 10 ^ k) @ ''.'' @
     (if k = 0 then ''0'' else frac_str k (a mod 10 ^ k)))"

text \<open>
  The integer literals \<open>int(s)\<close> accepts: an optional sign and digits, single underscores
  between digits.
\<close>

fun read_digits :: "nat \<Rightarrow> string \<Rightarrow> nat option" where
  "read_digits acc [] = Some acc"
| "read_digits acc (c # cs) =
     (if is_digit c then read_digits (10 * acc + digit_val c) cs
      else if c = CHR ''_'' then
        (case cs of [] \<Rightarrow> None
         | d # _ \<Rightarrow> if is_digit d then read_digits acc cs else None)
      else None)"

definition read_nat :: "string \<Rightarrow> nat option" where
  "read_nat s = (case s of [] \<Rightarrow> None | c # _ \<Rightarrow> if is_digit c then read_digits 0 s else None)"

definition read_int :: "string \<Rightarrow> int option" where
  "read_int s = (case s of
     [] \<Rightarrow> None
   | c # cs \<Rightarrow>
       if c = CHR ''-'' then map_option (\<lambda>n. - int n) (read_nat cs)
       else if c = CHR ''+'' then map_option int (read_nat cs)
       else map_option int (read_nat s))"

text \<open>The normal form of a decimal: no trailing zero after the point.\<close>

fun norm_dec :: "int \<Rightarrow> nat \<Rightarrow> int \<times> nat" where
  "norm_dec m 0 = (m, 0)"
| "norm_dec m (Suc k) = (if m mod 10 = 0 then norm_dec (m div 10) k else (m, Suc k))"

text \<open>The decimal literals \<open>float(s)\<close> accepts, without exponent and without special names.\<close>

definition read_float :: "string \<Rightarrow> (int \<times> nat) option" where
  "read_float s =
    (let neg = (s \<noteq> [] \<and> hd s = CHR ''-'');
         t = (if s \<noteq> [] \<and> (hd s = CHR ''-'' \<or> hd s = CHR ''+'') then tl s else s);
         ip = takeWhile (\<lambda>c. c \<noteq> CHR ''.'') t;
         fp = drop (Suc (length ip)) t;
         whole = (if ip = [] then Some 0 else read_nat ip);
         frac = (if fp = [] then Some 0 else read_nat fp)
     in if ip = [] \<and> fp = [] then None
        else if CHR ''_'' \<in> set t then None
        else (case (whole, frac) of
            (Some w, Some f) \<Rightarrow>
              (let m = int (w * 10 ^ length fp + f)
               in Some (norm_dec (if neg then - m else m) (length fp)))
          | _ \<Rightarrow> None))"

section \<open>Truth value, text and conversions\<close>

fun truthy :: "py \<Rightarrow> bool" where
  "truthy PNone = False"
| "truthy (PBool b) = b"
| "truthy (PInt i) = (i \<noteq> 0)"
| "truthy (PFloat m k) = (m \<noteq> 0)"
| "truthy (PStr s) = (s \<noteq> [])"
| "truthy (PList xs) = (xs \<noteq> [])"
| "truthy (PDict d) = (d \<noteq> [])"

definition py_or :: "py \<Rightarrow> py \<Rightarrow> py" where
  "py_or x y = (if truthy x then x else y)"

lemma size_dict_value: "(k, v) \<in> set d \<Longrightarrow> size v < Suc (size_list (size_prod (\<lambda>_. 0) size) d)"
  by (induction d) auto

lemma size_list_value: "v \<in> set xs \<Longrightarrow> size v < Suc (size_list size xs)"
  by (induction xs) auto

text \<open>\<open>repr\<close> of a string: single quotes unless only a single quote occurs inside.\<close>

definition hex_digit :: "nat \<Rightarrow> char" where
  "hex_digit n = (if n < 10 then char_of (48 + n) else char_of (87 + n))"

definition repr_char :: "char \<Rightarrow> char \<Rightarrow> string" where
  "repr_char q c = (let n = code_of c in
     if c = q \<or> n = 92 then [CHR 0x5C, c]
     else if n = 10 then [CHR 0x5C, CHR ''n'']
     else if n = 13 then [CHR 0x5C, CHR ''r'']
     else if n = 9 then [CHR 0x5C, CHR ''t'']
     else if n < 32 \<or> (127 \<le> n \<and> n \<le> 160) \<or> n = 173
       then [CHR 0x5C, CHR ''x'', hex_digit (n div 16), hex_digit (n mod 16)]
     else [c])"

definition repr_str :: "string \<Rightarrow> string" where
  "repr_str s = (let q = (if CHR 0x27 \<in> set s \<and> CHR 0x22 \<notin> set s then CHR 0x22 else CHR 0x27)
     in [q] @ concat (map (repr_char q) s) @ [q])"

fun py_repr :: "py \<Rightarrow> string" where
  "py_repr PNone = ''None''"
| "py_repr (PBool b) = (if b then ''True'' else ''False'')"
| "py_repr (PInt i) = int_str i"
| "py_repr (PFloat m k) = float_str m k"
| "py_repr (PStr s) = repr_str s"
| "py_repr (PList xs) = ''['' @ py_join '', '' (map py_repr xs) @ '']''"
| "py_repr (PDict d) =
     ''{'' @ py_join '', '' (map (\<lambda>(k, v). repr_str k @ '': '' @ py_repr v) d) @ ''}''"

definition py_str :: "py \<Rightarrow> string" where
  "py_str v = (case v of PStr s \<Rightarrow> s | _ \<Rightarrow> py_repr v)"

lemma py_str_PStr [simp]: "py_str (PStr s) = s"
  by (simp add: py_str_def)

text \<open>\<open>str(value or "")\<close>, and the same stripped.\<close>

definition str_or_empty :: "py \<Rightarrow> string" where
  "str_or_empty v = py_str (py_or v (PStr []))"

definition text_of :: "py \<Rightarrow> string" where
  "text_of v = py_strip (str_or_empty v)"

lemma str_or_empty_PStr [simp]: "str_or_empty (PStr s) = s"
  by (cases s) (simp_all add: str_or_empty_def py_or_def)

lemma str_or_empty_PNone [simp]: "str_or_empty PNone = []"
  by (simp add: str_or_empty_def py_or_def)

lemma py_strip_Nil [simp]: "py_strip [] = []"
  by (simp add: py_strip_def)

lemma text_of_PNone [simp]: "text_of PNone = []"
  by (simp add: text_of_def)

lemma text_of_PStr [simp]: "text_of (PStr s) = py_strip s"
  by (simp add: text_of_def)

definition type_name :: "py \<Rightarrow> string" where
  "type_name v = (case v of PNone \<Rightarrow> ''NoneType'' | PBool _ \<Rightarrow> ''bool'' | PInt _ \<Rightarrow> ''int''
     | PFloat _ _ \<Rightarrow> ''float'' | PStr _ \<Rightarrow> ''str'' | PList _ \<Rightarrow> ''list'' | PDict _ \<Rightarrow> ''dict'')"

definition quoted :: "string \<Rightarrow> string" where
  "quoted s = [CHR 0x27] @ s @ [CHR 0x27]"

definition py_int :: "py \<Rightarrow> int res" where
  "py_int v = (case v of
     PBool b \<Rightarrow> Inr (if b then 1 else 0)
   | PInt i \<Rightarrow> Inr i
   | PFloat m k \<Rightarrow> Inr (sgn m * (\<bar>m\<bar> div 10 ^ k))
   | PStr s \<Rightarrow> (case read_int (py_strip s) of
        None \<Rightarrow> Inl (ValueError (''invalid literal for int() with base 10: '' @ repr_str s))
      | Some i \<Rightarrow> Inr i)
   | _ \<Rightarrow> Inl (TypeError (''int() argument must be a string, a bytes-like object or a real number, not '' @
        quoted (type_name v))))"

definition py_float :: "py \<Rightarrow> (int \<times> nat) res" where
  "py_float v = (case v of
     PBool b \<Rightarrow> Inr (if b then 1 else 0, 0)
   | PInt i \<Rightarrow> Inr (i, 0)
   | PFloat m k \<Rightarrow> Inr (m, k)
   | PStr s \<Rightarrow> (case read_float (py_strip s) of
        None \<Rightarrow> Inl (ValueError (''could not convert string to float: '' @ repr_str s))
      | Some x \<Rightarrow> Inr x)
   | _ \<Rightarrow> Inl (TypeError (''float() argument must be a string or a real number, not '' @
        quoted (type_name v))))"

definition dec_eq :: "int \<times> nat \<Rightarrow> int \<times> nat \<Rightarrow> bool" where
  "dec_eq x y = (fst x * 10 ^ snd y = fst y * 10 ^ snd x)"

definition dec_less :: "int \<times> nat \<Rightarrow> int \<times> nat \<Rightarrow> bool" where
  "dec_less x y = (fst x * 10 ^ snd y < fst y * 10 ^ snd x)"

text \<open>\<open>list(value)\<close> and \<open>list(value or [])\<close>.\<close>

definition py_iter :: "py \<Rightarrow> py list res" where
  "py_iter v = (case v of
     PList xs \<Rightarrow> Inr xs
   | PStr s \<Rightarrow> Inr (map (\<lambda>c. PStr [c]) s)
   | PDict d \<Rightarrow> Inr (map (\<lambda>(k, _). PStr k) d)
   | _ \<Rightarrow> Inl (TypeError (quoted (type_name v) @ '' object is not iterable'')))"

definition list_or_empty :: "py \<Rightarrow> py list res" where
  "list_or_empty v = (if truthy v then py_iter v else Inr [])"

lemma list_or_empty_PList [simp]: "list_or_empty (PList xs) = Inr xs"
  by (cases xs) (simp_all add: list_or_empty_def py_iter_def)

lemma list_or_empty_PNone [simp]: "list_or_empty PNone = Inr []"
  by (simp add: list_or_empty_def)

text \<open>\<open>round((n / whole) * 100, 2)\<close>; for an odd \<open>whole\<close> no value is half way between two.\<close>

definition percent_of :: "nat \<Rightarrow> nat \<Rightarrow> int \<times> nat" where
  "percent_of n whole = norm_dec (int ((20000 * n + whole) div (2 * whole))) 2"

definition percent_value :: "nat \<Rightarrow> nat \<Rightarrow> py" where
  "percent_value n whole = (case percent_of n whole of (m, k) \<Rightarrow> PFloat m k)"

lemma percent_value_full:
  assumes "0 < n"
  shows "percent_value n n = PFloat 100 0"
proof -
  have "(20000 * n + n) div (2 * n) = (20001 * n) div (2 * n)" by simp
  also have "\<dots> = 10000" using assms by (subst div_mult_mult2) simp_all
  finally have "percent_of n n = norm_dec 10000 (Suc (Suc 0))"
    by (simp add: percent_of_def numeral_2_eq_2)
  then show ?thesis by (simp add: percent_value_def)
qed

section \<open>Dictionaries\<close>

abbreviation dset :: "dict \<Rightarrow> string \<Rightarrow> py \<Rightarrow> dict" where
  "dset d k v \<equiv> AList.update k v d"

abbreviation dpop :: "dict \<Rightarrow> string \<Rightarrow> dict" where
  "dpop d k \<equiv> AList.delete k d"

abbreviation has_key :: "dict \<Rightarrow> string \<Rightarrow> bool" where
  "has_key d k \<equiv> map_of d k \<noteq> None"

text \<open>\<open>d.get(k)\<close>: \<open>None\<close> when the key is missing.\<close>

definition dget :: "dict \<Rightarrow> string \<Rightarrow> py" where
  "dget d k = (case map_of d k of None \<Rightarrow> PNone | Some v \<Rightarrow> v)"

text \<open>\<open>d[k]\<close>: raises \<open>KeyError\<close> when the key is missing.\<close>

definition dindex :: "dict \<Rightarrow> string \<Rightarrow> py res" where
  "dindex d k = (case map_of d k of None \<Rightarrow> Inl (KeyError k) | Some v \<Rightarrow> Inr v)"

text \<open>\<open>d.update(e)\<close> and the display \<open>{**d, ...}\<close>.\<close>

definition dupdate :: "dict \<Rightarrow> dict \<Rightarrow> dict" where
  "dupdate d e = fold (\<lambda>(k, v) acc. dset acc k v) e d"

definition dsetdefault :: "dict \<Rightarrow> string \<Rightarrow> py \<Rightarrow> dict" where
  "dsetdefault d k v = (if has_key d k then d else dset d k v)"

text \<open>\<open>value if isinstance(value, Mapping) else {}\<close>.\<close>

definition as_dict :: "py \<Rightarrow> dict" where
  "as_dict v = (case v of PDict d \<Rightarrow> d | _ \<Rightarrow> [])"

definition is_dict :: "py \<Rightarrow> bool" where
  "is_dict v = (case v of PDict _ \<Rightarrow> True | _ \<Rightarrow> False)"

text \<open>\<open>(value or {})\<close> used as a dictionary: anything else has no \<open>get\<close>.\<close>

definition dict_or_empty :: "py \<Rightarrow> dict res" where
  "dict_or_empty v = (if truthy v then
     (case v of PDict d \<Rightarrow> Inr d | _ \<Rightarrow> Inl (AttributeError (quoted (type_name v) @ '' object has no attribute '' @ quoted ''get''))) else Inr [])"

definition is_list :: "py \<Rightarrow> bool" where
  "is_list v = (case v of PList _ \<Rightarrow> True | _ \<Rightarrow> False)"

lemma as_dict_PDict [simp]: "as_dict (PDict d) = d"
  by (simp add: as_dict_def)

lemma is_dict_simps [simp]:
  "is_dict (PDict d)" "\<not> is_dict PNone" "\<not> is_dict (PStr s)" "\<not> is_dict (PList xs)"
  by (simp_all add: is_dict_def)

lemma is_dict_iff: "is_dict v \<longleftrightarrow> (\<exists>d. v = PDict d)"
  by (cases v) (simp_all add: is_dict_def)

lemma dget_dset [simp]: "dget (dset d k v) k' = (if k' = k then v else dget d k')"
  by (simp add: dget_def update_conv')

lemma dget_dpop [simp]: "dget (dpop d k) k' = (if k' = k then PNone else dget d k')"
  by (simp add: dget_def delete_conv')

lemma dindex_dset [simp]: "dindex (dset d k v) k' = (if k' = k then Inr v else dindex d k')"
  by (simp add: dindex_def update_conv')

lemma map_of_dset [simp]: "map_of (dset d k v) k' = (if k' = k then Some v else map_of d k')"
  by (simp add: update_conv')

lemma map_of_dpop [simp]: "map_of (dpop d k) k' = (if k' = k then None else map_of d k')"
  by (simp add: delete_conv')

lemma dget_Nil [simp]: "dget [] k = PNone"
  by (simp add: dget_def)

lemma dget_Cons [simp]: "dget ((k, v) # d) k' = (if k' = k then v else dget d k')"
  by (simp add: dget_def)

lemma dindex_Inr_dget: "dindex d k = Inr v \<Longrightarrow> dget d k = v"
  by (auto simp: dindex_def dget_def split: option.splits)

text \<open>Reading a key of a merged dictionary: the right operand wins.\<close>

lemma dupdate_Nil [simp]: "dupdate d [] = d"
  by (simp add: dupdate_def)

lemma dupdate_Cons [simp]: "dupdate d ((k, v) # e) = dupdate (dset d k v) e"
  by (simp add: dupdate_def)

lemma map_of_dupdate: "distinct (map fst e) \<Longrightarrow>
   map_of (dupdate d e) k = (case map_of e k of None \<Rightarrow> map_of d k | Some v \<Rightarrow> Some v)"
proof (induction e arbitrary: d)
  case Nil
  then show ?case by simp
next
  case (Cons p e)
  obtain a b where p: "p = (a, b)" by (cases p)
  from Cons.prems p have none: "map_of e a = None"
    by (simp add: map_of_eq_None_iff)
  from Cons.IH [of "dset d a b"] Cons.prems
  have "map_of (dupdate (dset d a b) e) k =
      (case map_of e k of None \<Rightarrow> map_of (dset d a b) k | Some v \<Rightarrow> Some v)"
    by simp
  with none p show ?case
    by (cases "k = a") (auto split: option.splits)
qed

lemma dset_append: "map_of d k = None \<Longrightarrow> dset d k v = d @ [(k, v)]"
  by (induction d) auto

lemma dpop_absent: "map_of d k = None \<Longrightarrow> dpop d k = d"
  by (induction d) auto

lemma dget_append: "dget (d @ e) k = (case map_of d k of None \<Rightarrow> dget e k | Some v \<Rightarrow> v)"
  by (simp add: dget_def map_add_def split: option.split)

lemma distinct_keys_dset: "distinct (map fst d) \<Longrightarrow> distinct (map fst (dset d k v))"
  by (rule distinct_update)

lemma distinct_keys_dpop: "distinct (map fst d) \<Longrightarrow> distinct (map fst (dpop d k))"
  by (rule distinct_delete)

lemma set_dset: "set (dset d k v) \<subseteq> insert (k, v) (set d)"
  by (induction d) auto

lemma set_dpop: "set (dpop d k) \<subseteq> set d"
  by (induction d) auto

section \<open>Equality\<close>

definition num_of :: "py \<Rightarrow> (int \<times> nat) option" where
  "num_of v = (case v of
     PBool b \<Rightarrow> Some (if b then 1 else 0, 0)
   | PInt i \<Rightarrow> Some (i, 0)
   | PFloat m k \<Rightarrow> Some (m, k)
   | _ \<Rightarrow> None)"

text \<open>
  Python's \<open>==\<close>: numbers and booleans by value, lists by position, dictionaries by key
  whatever the order.
\<close>

function py_eq :: "py \<Rightarrow> py \<Rightarrow> bool" where
  "py_eq v w =
    (case v of
       PNone \<Rightarrow> w = PNone
     | PStr s \<Rightarrow> w = PStr s
     | PList xs \<Rightarrow> (case w of PList ys \<Rightarrow>
           length xs = length ys \<and> list_all (\<lambda>(x, y). py_eq x y) (zip xs ys)
         | _ \<Rightarrow> False)
     | PDict d \<Rightarrow> (case w of PDict e \<Rightarrow>
           length d = length e \<and>
           list_all (\<lambda>(k, x). case map_of e k of None \<Rightarrow> False | Some y \<Rightarrow> py_eq x y) d
         | _ \<Rightarrow> False)
     | _ \<Rightarrow> (case num_of w of None \<Rightarrow> False | Some y \<Rightarrow> dec_eq (the (num_of v)) y))"
  by pat_completeness auto
termination
proof (relation "measure (\<lambda>(v, w). size v)", goal_cases)
  case (2 v w xs ys z x y)
  then have "x \<in> set xs" by (auto dest: set_zip_leftD)
  with 2 show ?case by (auto dest: size_list_value)
next
  case (3 v w d e z k x y)
  then show ?case by (auto dest: size_dict_value)
qed simp

declare py_eq.simps [simp del]

text \<open>Well-formed values: no dictionary holds a key twice, and floats are in normal form.\<close>

fun wf_py :: "py \<Rightarrow> bool" where
  "wf_py (PList xs) = list_all wf_py xs"
| "wf_py (PDict d) = (distinct (map fst d) \<and> list_all (\<lambda>(k, v). wf_py v) d)"
| "wf_py (PFloat m k) = (k = 0 \<or> m mod 10 \<noteq> 0)"
| "wf_py _ = True"

lemma dec_eq_refl [simp]: "dec_eq x x"
  by (simp add: dec_eq_def)

lemma py_eq_refl: "wf_py v \<Longrightarrow> py_eq v v"
proof (induction v rule: wf_py.induct)
  case (1 xs)
  then show ?case
    by (auto simp: py_eq.simps [of "PList xs"] list_all_iff in_set_zip)
next
  case (2 d)
  then show ?case
    by (auto simp: py_eq.simps [of "PDict d"] list_all_iff)
qed (simp_all add: py_eq.simps num_of_def)

text \<open>Equal dictionaries have the same keys with equal values; numbers are equal by value.\<close>

lemma py_eq_dict_lookup:
  assumes eq: "py_eq (PDict d) (PDict e)" and "distinct (map fst d)" and k: "k \<in> fst ` set e"
  obtains x y where "map_of d k = Some x" "map_of e k = Some y" "py_eq x y"
proof -
  have each: "\<exists>y. map_of e n = Some y \<and> py_eq x y" if "(n, x) \<in> set d" for n x
    using eq that by (auto simp: py_eq.simps [of "PDict d"] list_all_iff split: option.splits)
  have len: "length d = length e" using eq by (simp add: py_eq.simps [of "PDict d"])
  have "fst ` set d \<subseteq> fst ` set e"
  proof
    fix n assume "n \<in> fst ` set d"
    then obtain x where "(n, x) \<in> set d" by auto
    then obtain y where "map_of e n = Some y" using each by blast
    then show "n \<in> fst ` set e" by (metis map_of_SomeD fst_conv image_eqI)
  qed
  moreover have "card (fst ` set e) \<le> card (fst ` set d)"
    using distinct_card [OF assms(2)] card_length [of "map fst e"] len by simp
  ultimately have "fst ` set d = fst ` set e" by (intro card_seteq) simp_all
  then obtain x where "map_of d k = Some x" using k by (metis map_of_eq_None_iff option.exhaust)
  with each [OF map_of_SomeD] that show thesis by blast
qed

lemma py_eq_str: "py_eq v (PStr s) \<Longrightarrow> v = PStr s"
  by (cases v) (auto simp: py_eq.simps num_of_def)

lemma py_eq_int_unique: "py_eq v (PInt m) \<Longrightarrow> py_eq v (PInt n) \<Longrightarrow> m = n"
  by (cases v) (auto simp: py_eq.simps num_of_def dec_eq_def)

end
