(* ===== verification/CanonicalJson.thy ===== *)
theory CanonicalJson
  imports PyValues
begin

text \<open>
  The canonical JSON text of a value and the integrity digest over it
  (\<open>nico/comprehensive_run_record.py\<close>, \<open>_bounded_native_json\<close>,
  \<open>_canonical_hash_chunks\<close> and \<open>_canonical_hash\<close>).

  \<open>json_dumps\<close> is the language's \<open>json.dumps(..., sort_keys=True,
  separators=(",", ":"), ensure_ascii=False)\<close>. The program does not call it for the digest:
  it walks the value with an explicit stack of frames, hands small subtrees to the native
  encoder, gives up on deep inputs and batches the chunks before they reach the hash. The
  theorems show that all of this computes the digest of \<open>json_dumps\<close>, and that what is
  handed to the native encoder is bounded as the constants say. The hash function itself is a
  parameter: every statement holds for all of them.
\<close>

section \<open>The reference encoding\<close>

definition json_char :: "char \<Rightarrow> string" where
  "json_char c = (let n = code_of c in
     if n = 34 \<or> n = 92 then [CHR 0x5C, c]
     else if n = 10 then [CHR 0x5C, CHR ''n'']
     else if n = 13 then [CHR 0x5C, CHR ''r'']
     else if n = 9 then [CHR 0x5C, CHR ''t'']
     else if n = 12 then [CHR 0x5C, CHR ''f'']
     else if n = 8 then [CHR 0x5C, CHR ''b'']
     else if n < 32
       then [CHR 0x5C, CHR ''u'', CHR ''0'', CHR ''0'', hex_digit (n div 16), hex_digit (n mod 16)]
     else [c])"

definition json_str :: "string \<Rightarrow> string" where
  "json_str s = [CHR 0x22] @ concat (map json_char s) @ [CHR 0x22]"

definition sort_items :: "(string \<times> 'a) list \<Rightarrow> (string \<times> 'a) list" where
  "sort_items d = sort_key fst d"

fun json_dumps :: "py \<Rightarrow> string" where
  "json_dumps PNone = ''null''"
| "json_dumps (PBool b) = (if b then ''true'' else ''false'')"
| "json_dumps (PInt i) = int_str i"
| "json_dumps (PFloat m k) = float_str m k"
| "json_dumps (PStr s) = json_str s"
| "json_dumps (PList xs) = ''['' @ py_join '','' (map json_dumps xs) @ '']''"
| "json_dumps (PDict d) =
     ''{'' @ py_join '','' (map (\<lambda>(k, t). json_str k @ '':'' @ t)
              (sort_items (map (\<lambda>(k, v). (k, json_dumps v)) d))) @ ''}''"

text \<open>\<open>text.encode("utf-8")\<close> on code points below 256.\<close>

definition utf8_char :: "char \<Rightarrow> string" where
  "utf8_char c = (let n = code_of c in
     if n < 128 then [c] else [char_of (192 + n div 64), char_of (128 + n mod 64)])"

definition utf8 :: "string \<Rightarrow> string" where
  "utf8 s = concat (map utf8_char s)"

section \<open>The bound on native encoding\<close>

definition HASH_BATCH_BYTES :: nat where
  "HASH_BATCH_BYTES = 64 * 1024"

definition HASH_NATIVE_NODE_LIMIT :: int where
  "HASH_NATIVE_NODE_LIMIT = 8192"

definition HASH_NATIVE_BYTES_LIMIT :: int where
  "HASH_NATIVE_BYTES_LIMIT = 1024 * 1024"

fun nat_bit_length :: "nat \<Rightarrow> nat" where
  "nat_bit_length n = (if n = 0 then 0 else Suc (nat_bit_length (n div 2)))"

declare nat_bit_length.simps [simp del]

definition bit_length :: "int \<Rightarrow> nat" where
  "bit_length i = nat_bit_length (nat \<bar>i\<bar>)"

text \<open>
  The worklist loop. The source keeps the items and their depths in two parallel lists and pops
  from the end; here they are one list of pairs whose head is popped, so the pushed items
  appear reversed. \<open>n\<close> and \<open>b\<close> are \<open>nodes_left\<close> and \<open>bytes_left\<close> before the pop.
\<close>

definition is_container :: "py \<Rightarrow> bool" where
  "is_container v = (is_dict v \<or> is_list v)"

definition item_bytes :: "py \<Rightarrow> int" where
  "item_bytes v = (case v of
     PDict d \<Rightarrow> 2 + 2 * int (length d)
   | PList xs \<Rightarrow> 2 + int (length xs)
   | PStr s \<Rightarrow> 2 + 6 * int (length s)
   | PInt i \<Rightarrow> 3 + int (bit_length i) div 3
   | PFloat m k \<Rightarrow> 32
   | _ \<Rightarrow> 5)"

definition child_count :: "py \<Rightarrow> nat" where
  "child_count v = (case v of PDict d \<Rightarrow> 2 * length d | PList xs \<Rightarrow> length xs | _ \<Rightarrow> 0)"

definition pushed_items :: "py \<Rightarrow> py list" where
  "pushed_items v = (case v of
     PDict d \<Rightarrow> rev (map (\<lambda>(k, _). PStr k) d @ map snd d)
   | PList xs \<Rightarrow> rev xs
   | _ \<Rightarrow> [])"

function native_loop :: "nat \<Rightarrow> (py \<times> nat) list \<Rightarrow> int \<Rightarrow> int \<Rightarrow> bool" where
  "native_loop max_depth [] n b = True"
| "native_loop max_depth ((v, depth) # pending) n b =
     (if n - 1 < 0 then False
      else if is_container v \<and> depth \<ge> max_depth then False
      else if is_container v \<and> int (length pending) + int (child_count v) > n - 1 then False
      else if b - item_bytes v < 0 then False
      else native_loop max_depth (map (\<lambda>x. (x, Suc depth)) (pushed_items v) @ pending)
             (n - 1) (b - item_bytes v))"
  by pat_completeness auto
termination
  by (relation "measure (\<lambda>(_, _, n, _). nat n)") auto

definition bounded_native_json :: "py \<Rightarrow> nat \<Rightarrow> bool" where
  "bounded_native_json v max_depth =
     native_loop max_depth [(v, 0)] HASH_NATIVE_NODE_LIMIT HASH_NATIVE_BYTES_LIMIT"

section \<open>The chunk generator\<close>

datatype frame =
    FValue py
  | FClose string
  | FDictItems "(string \<times> py) list" nat
  | FListItems "py list" nat

text \<open>
  \<open>_canonical_hash_chunks\<close>: the chunks it yields, or \<open>None\<close> when it raises
  \<open>_LegacyHashEncodingRequired\<close>. Values are trees, so the identity check against
  \<open>ancestors\<close> never fires and only the size of that set, \<open>anc\<close>, matters. A float that is
  not encoded natively would be iterated as a list, which raises; \<open>float_is_native\<close> below
  shows that the case does not arise.
\<close>

definition frame_size :: "frame \<Rightarrow> nat" where
  "frame_size f = (case f of
     FValue v \<Rightarrow> 3 * size v + 1
   | FClose _ \<Rightarrow> 1
   | FDictItems its _ \<Rightarrow> 3 * size_list (size_prod (\<lambda>_. 0) size) its + 1
   | FListItems xs _ \<Rightarrow> 3 * size_list size xs + 1)"

lemma size_list_sort_items:
  "size_list f (sort_items d) = size_list f d"
proof -
  have "\<And>x ys. size_list f (insort_key fst x ys) = f x + 1 + size_list f ys"
    subgoal for x ys by (induction ys) auto
    done
  then show ?thesis by (induction d) (simp_all add: sort_items_def)
qed

function hash_chunks :: "frame list \<Rightarrow> nat \<Rightarrow> string list option" where
  "hash_chunks [] anc = Some []"
| "hash_chunks (FClose closing # frames) anc =
     map_option (\<lambda>cs. closing # cs) (hash_chunks frames (anc - 1))"
| "hash_chunks (FDictItems [] i # frames) anc = hash_chunks frames anc"
| "hash_chunks (FDictItems ((k, v) # its) i # frames) anc =
     map_option (\<lambda>cs. (if i \<noteq> 0 then ['',''] else []) @ [json_str k, '':''] @ cs)
       (hash_chunks (FValue v # FDictItems its (Suc i) # frames) anc)"
| "hash_chunks (FListItems [] i # frames) anc = hash_chunks frames anc"
| "hash_chunks (FListItems (x # xs) i # frames) anc =
     map_option (\<lambda>cs. (if i \<noteq> 0 then ['',''] else []) @ cs)
       (hash_chunks (FValue x # FListItems xs (Suc i) # frames) anc)"
| "hash_chunks (FValue v # frames) anc =
     (case v of
        PStr s \<Rightarrow> map_option (\<lambda>cs. json_str s # cs) (hash_chunks frames anc)
      | PInt i \<Rightarrow> map_option (\<lambda>cs. int_str i # cs) (hash_chunks frames anc)
      | PBool b \<Rightarrow> map_option (\<lambda>cs. (if b then ''true'' else ''false'') # cs) (hash_chunks frames anc)
      | PNone \<Rightarrow> map_option (\<lambda>cs. ''null'' # cs) (hash_chunks frames anc)
      | _ \<Rightarrow>
        (if anc \<ge> 64 then None
         else if bounded_native_json v (64 - anc)
           then map_option (\<lambda>cs. json_dumps v # cs) (hash_chunks frames anc)
         else (case v of
             PDict d \<Rightarrow> map_option (\<lambda>cs. ''{'' # cs)
                (hash_chunks (FDictItems (sort_items d) 0 # FClose ''}'' # frames) (Suc anc))
           | PList xs \<Rightarrow> map_option (\<lambda>cs. ''['' # cs)
                (hash_chunks (FListItems xs 0 # FClose '']'' # frames) (Suc anc))
           | _ \<Rightarrow> None)))"
  by pat_completeness auto
termination
  by (relation "measure (\<lambda>(fs, _). sum_list (map frame_size fs))")
    (auto simp: frame_size_def size_list_sort_items)

section \<open>Batching and the digest\<close>

text \<open>
  The digest object is the sequence of bytes it was fed. The loop state is what it
  was fed so far and the pending batch.
\<close>

definition feed_chunk :: "string \<times> string \<Rightarrow> string \<Rightarrow> string \<times> string" where
  "feed_chunk st chunk = (let (fed, pending) = st; encoded = utf8 chunk in
     if length encoded \<ge> HASH_BATCH_BYTES then (fed @ pending @ encoded, [])
     else if length pending + length encoded > HASH_BATCH_BYTES then (fed @ pending, encoded)
     else (fed, pending @ encoded))"

definition digest_bytes :: "string list \<Rightarrow> string" where
  "digest_bytes chunks = (let (fed, pending) = foldl feed_chunk ([], []) chunks in fed @ pending)"

definition canonical_hash :: "(string \<Rightarrow> string) \<Rightarrow> py \<Rightarrow> string" where
  "canonical_hash sha payload =
     (case hash_chunks [FValue payload] 0 of
        Some chunks \<Rightarrow> sha (digest_bytes chunks)
      | None \<Rightarrow> sha (utf8 (json_dumps payload)))"

text \<open>The digest of the reference text, the specification of every digest of the program.\<close>

definition json_digest :: "(string \<Rightarrow> string) \<Rightarrow> py \<Rightarrow> string" where
  "json_digest sha v = sha (utf8 (json_dumps v))"

section \<open>The generator writes the reference text\<close>

lemma py_join_Cons: "py_join sep (x # xs) = x @ concat (map (\<lambda>y. sep @ y) xs)"
  by (induction xs arbitrary: x) auto

lemma insort_items_map:
  "map (\<lambda>p. (fst p, f (snd p))) (insort_key fst q d) =
   insort_key fst (fst q, f (snd q)) (map (\<lambda>p. (fst p, f (snd p))) d)"
  by (induction d) auto

lemma sort_items_map:
  "sort_items (map (\<lambda>p. (fst p, f (snd p))) d) = map (\<lambda>p. (fst p, f (snd p))) (sort_items d)"
  by (induction d) (simp_all add: sort_items_def insort_items_map)

definition item_text :: "string \<times> py \<Rightarrow> string" where
  "item_text p = json_str (fst p) @ '':'' @ json_dumps (snd p)"

lemma json_dumps_dict:
  "json_dumps (PDict d) = ''{'' @ py_join '','' (map item_text (sort_items d)) @ ''}''"
  by (simp add: sort_items_map item_text_def [abs_def] split_def comp_def)

text \<open>The text does not depend on the order of the keys.\<close>

lemma json_dumps_perm:
  assumes "mset d = mset e" and "distinct (map fst d)"
  shows "json_dumps (PDict d) = json_dumps (PDict e)"
proof -
  have "sort_items d = sort_items e"
    unfolding sort_items_def using assms by (intro sort_key_inj_key_eq) (simp_all add: distinct_map)
  then show ?thesis by (simp only: json_dumps_dict)
qed

lemma json_dumps_list:
  "json_dumps (PList xs) = ''['' @ py_join '','' (map json_dumps xs) @ '']''"
  by simp

declare json_dumps.simps(6,7) [simp del]

text \<open>What a stack of frames still has to write.\<close>

definition frame_text :: "frame \<Rightarrow> string" where
  "frame_text f = (case f of
     FValue v \<Rightarrow> json_dumps v
   | FClose c \<Rightarrow> c
   | FDictItems its i \<Rightarrow>
       (if i = 0 then py_join '','' (map item_text its)
        else concat (map (\<lambda>p. '','' @ item_text p) its))
   | FListItems xs i \<Rightarrow>
       (if i = 0 then py_join '','' (map json_dumps xs)
        else concat (map (\<lambda>x. '','' @ json_dumps x) xs)))"

lemma frame_text_simps [simp]:
  "frame_text (FValue v) = json_dumps v"
  "frame_text (FClose c) = c"
  "frame_text (FDictItems [] i) = []"
  "frame_text (FListItems [] i) = []"
  "frame_text (FDictItems its (Suc i)) = concat (map (\<lambda>p. '','' @ item_text p) its)"
  "frame_text (FListItems xs (Suc i)) = concat (map (\<lambda>x. '','' @ json_dumps x) xs)"
  by (simp_all add: frame_text_def)

lemma frame_text_DictItems_Cons:
  "frame_text (FDictItems ((k, v) # its) i) =
     (if i \<noteq> 0 then '','' else []) @ json_str k @ '':'' @ json_dumps v
       @ frame_text (FDictItems its (Suc i))"
  by (simp add: frame_text_def py_join_Cons item_text_def comp_def)

lemma frame_text_ListItems_Cons:
  "frame_text (FListItems (x # xs) i) =
     (if i \<noteq> 0 then '','' else []) @ json_dumps x @ frame_text (FListItems xs (Suc i))"
  by (simp add: frame_text_def py_join_Cons comp_def)

lemma frame_text_start:
  "''{'' @ frame_text (FDictItems (sort_items d) 0) @ ''}'' = json_dumps (PDict d)"
  "''['' @ frame_text (FListItems xs 0) @ '']'' = json_dumps (PList xs)"
  by (simp_all add: frame_text_def json_dumps_dict json_dumps_list)

lemma hash_chunks_text:
  "hash_chunks frames anc = Some cs \<Longrightarrow> concat cs = concat (map frame_text frames)"
proof (induction frames anc arbitrary: cs rule: hash_chunks.induct)
  case (4 k v its i frames anc)
  then obtain cs' where "hash_chunks (FValue v # FDictItems its (Suc i) # frames) anc = Some cs'"
    and "cs = (if i \<noteq> 0 then ['',''] else []) @ [json_str k, '':''] @ cs'"
    by auto
  with 4 show ?case by (auto simp: frame_text_DictItems_Cons)
next
  case (6 x xs i frames anc)
  then obtain cs' where "hash_chunks (FValue x # FListItems xs (Suc i) # frames) anc = Some cs'"
    and "cs = (if i \<noteq> 0 then ['',''] else []) @ cs'"
    by auto
  with 6 show ?case by (auto simp: frame_text_ListItems_Cons)
next
  case (7 v frames anc)
  show ?case
  proof (cases v)
    case (PDict d)
    with 7 show ?thesis
      by (auto split: if_splits simp flip: frame_text_start)
  next
    case (PList xs)
    with 7 show ?thesis
      by (auto split: if_splits simp flip: frame_text_start)
  qed (use 7 in \<open>auto split: if_splits\<close>)
qed auto

section \<open>Batching feeds the same bytes\<close>

lemma utf8_append [simp]: "utf8 (s @ t) = utf8 s @ utf8 t"
  by (simp add: utf8_def)

lemma utf8_Nil [simp]: "utf8 [] = []"
  by (simp add: utf8_def)

lemma feed_chunk_bytes:
  "(let (fed, pending) = feed_chunk (fed, pending) c in fed @ pending) = fed @ pending @ utf8 c"
  by (simp add: feed_chunk_def Let_def)

lemma feed_chunks_bytes:
  "(let (fed', pending') = foldl feed_chunk (fed, pending) cs in fed' @ pending') =
     fed @ pending @ utf8 (concat cs)"
proof (induction cs arbitrary: fed pending)
  case Nil
  then show ?case by simp
next
  case (Cons c cs)
  obtain f p where fp: "feed_chunk (fed, pending) c = (f, p)"
    by (cases "feed_chunk (fed, pending) c")
  then have "f @ p = fed @ pending @ utf8 c"
    using feed_chunk_bytes [of fed pending c] by simp
  then show ?case
    using Cons.IH [of f p] fp by simp
qed

lemma digest_bytes_concat: "digest_bytes cs = utf8 (concat cs)"
  using feed_chunks_bytes [of "[]" "[]" cs] by (simp add: digest_bytes_def)

text \<open>No batch handed to the hash exceeds the batch size unless it is one oversized chunk.\<close>

lemma feed_chunk_pending_bound:
  "length (snd st) \<le> HASH_BATCH_BYTES \<Longrightarrow> length (snd (feed_chunk st c)) \<le> HASH_BATCH_BYTES"
  by (auto simp: feed_chunk_def Let_def split: prod.splits)

lemma canonical_hash_eq_json_digest: "canonical_hash sha v = json_digest sha v"
proof (cases "hash_chunks [FValue v] 0")
  case None
  then show ?thesis unfolding canonical_hash_def json_digest_def by (simp only: option.case)
next
  case (Some cs)
  then have "concat cs = json_dumps v" using hash_chunks_text by fastforce
  with Some show ?thesis
    unfolding canonical_hash_def json_digest_def by (simp only: option.case digest_bytes_concat)
qed

text \<open>
  C5. The streamed digest is the digest of the canonical JSON text: whatever mixture of
  frames, native encoding, batching and fallback a value takes, \<open>_canonical_hash\<close> returns the
  hash of \<open>json.dumps(payload, sort_keys=True, ...)\<close> encoded as UTF-8.
\<close>

theorem canonical_hash_is_json_digest: "canonical_hash sha v = sha (utf8 (json_dumps v))"
  by (simp add: canonical_hash_eq_json_digest json_digest_def)

section \<open>What the native encoder is given is bounded\<close>

lemma length_nat_str_bits: "3 * length (nat_str n) \<le> nat_bit_length n + 3"
proof (induction n rule: less_induct)
  case (less n)
  show ?case
  proof (cases "n < 10")
    case True
    then show ?thesis by (simp add: nat_str.simps [of n])
  next
    case False
    then have bits: "nat_bit_length n = 3 + nat_bit_length (n div 8)"
      by (subst nat_bit_length.simps, subst nat_bit_length.simps, subst nat_bit_length.simps)
        (simp add: div_mult2_eq [symmetric])
    have mono: "a \<le> b \<Longrightarrow> nat_bit_length a \<le> nat_bit_length b" for a b
    proof (induction b arbitrary: a rule: nat_bit_length.induct)
      case (1 b)
      show ?case
      proof (cases "b = 0 \<or> a = 0")
        case True
        with 1 show ?thesis by (auto simp: nat_bit_length.simps [of 0])
      next
        case False
        with 1 have "nat_bit_length (a div 2) \<le> nat_bit_length (b div 2)" by (simp add: div_le_mono)
        with False show ?thesis by (simp add: nat_bit_length.simps [of a] nat_bit_length.simps [of b])
      qed
    qed
    have "n div 10 \<le> n div 8" by (rule div_le_mono2) simp_all
    then have "nat_bit_length (n div 10) \<le> nat_bit_length (n div 8)" by (rule mono)
    moreover from False less.IH [of "n div 10"]
    have "3 * length (nat_str (n div 10)) \<le> nat_bit_length (n div 10) + 3" by simp
    moreover from False have "nat_str n = nat_str (n div 10) @ [digit_char (n mod 10)]"
      by (simp add: nat_str.simps [of n])
    ultimately show ?thesis using bits by simp
  qed
qed

lemma utf8_Cons: "utf8 (c # s) = utf8_char c @ utf8 s"
  by (simp add: utf8_def)

lemma length_utf8_char: "length (utf8_char c) = (if code_of c < 128 then 1 else 2)"
  by (simp add: utf8_char_def Let_def)

lemma utf8_ascii: "\<forall>c \<in> set s. code_of c < 128 \<Longrightarrow> utf8 s = s"
  by (induction s) (simp_all add: utf8_Cons utf8_char_def Let_def)

lemma digit_char_ascii: "d < 10 \<Longrightarrow> code_of (digit_char d) < 128"
  by (simp add: digit_char_def)

lemma nat_str_ascii: "c \<in> set (nat_str n) \<Longrightarrow> code_of c < 128"
proof (induction n rule: nat_str.induct)
  case (1 n)
  then show ?case
    by (cases "n < 10") (auto simp: nat_str.simps [of n] digit_char_ascii)
qed

lemma int_str_ascii: "c \<in> set (int_str i) \<Longrightarrow> code_of c < 128"
  by (auto simp: int_str_def nat_str_ascii split: if_splits)

lemma length_int_str: "int (length (int_str i)) \<le> 3 + int (bit_length i) div 3"
proof -
  have "3 * length (nat_str (nat \<bar>i\<bar>)) \<le> bit_length i + 3"
    by (simp add: bit_length_def length_nat_str_bits)
  then show ?thesis by (auto simp: int_str_def abs_if split: if_splits)
qed

lemma hex_digit_ascii: "n < 16 \<Longrightarrow> code_of (hex_digit n) < 128"
  by (simp add: hex_digit_def)

lemma length_utf8_json_char: "length (utf8 (json_char c)) \<le> 6"
  by (simp add: json_char_def Let_def utf8_Cons length_utf8_char hex_digit_ascii less_Suc_eq_le)

lemma length_utf8_json_str: "length (utf8 (json_str s)) \<le> 2 + 6 * length s"
proof -
  have "length (utf8 (concat (map json_char s))) \<le> 6 * length s"
  proof (induction s)
    case (Cons c s)
    then show ?case using length_utf8_json_char [of c] by simp
  qed simp
  then show ?thesis by (simp add: json_str_def utf8_Cons length_utf8_char)
qed

lemma utf8_py_join: "utf8 (py_join sep xs) = py_join (utf8 sep) (map utf8 xs)"
  by (induction sep xs rule: py_join.induct) simp_all

lemma length_py_join:
  "length (py_join sep xs) \<le> sum_list (map length xs) + length sep * length xs"
  by (induction sep xs rule: py_join.induct) simp_all

definition encoded_length :: "py \<Rightarrow> int" where
  "encoded_length v = int (length (utf8 (json_dumps v)))"

text \<open>The text of a binary floating point number has at most 24 characters; 32 are budgeted.\<close>

fun short_floats :: "py \<Rightarrow> bool" where
  "short_floats (PFloat m k) = (length (float_str m k) \<le> 32)"
| "short_floats (PList xs) = list_all short_floats xs"
| "short_floats (PDict d) = list_all (\<lambda>(k, v). short_floats v) d"
| "short_floats _ = True"

lemma frac_str_ascii: "c \<in> set (frac_str k n) \<Longrightarrow> code_of c < 128"
  by (induction k arbitrary: n) (auto simp: digit_char_ascii)

lemma float_str_ascii: "c \<in> set (float_str m k) \<Longrightarrow> code_of c < 128"
  by (auto simp: float_str_def Let_def nat_str_ascii frac_str_ascii split: if_splits)

lemma utf8_comma [simp]: "utf8_char (CHR '','') = '',''"
  by (simp add: utf8_char_def)

lemma encoded_length_dict:
  "encoded_length (PDict d) \<le> 2 + 2 * int (length d) +
     sum_list (map (\<lambda>p. encoded_length (PStr (fst p)) + encoded_length (snd p)) d)"
proof -
  have "sum_list (map (\<lambda>p. length (utf8 (item_text p))) (sort_items d)) =
        sum_list (map (\<lambda>p. length (utf8 (item_text p))) d)"
    by (simp add: sort_items_def flip: sum_mset_sum_list)
  moreover have "length (sort_items d) = length d"
    by (simp add: sort_items_def)
  moreover have "int (sum_list (map (\<lambda>p. length (utf8 (item_text p))) d)) =
      int (length d) + sum_list (map (\<lambda>p. encoded_length (PStr (fst p)) + encoded_length (snd p)) d)"
    by (induction d) (simp_all add: item_text_def encoded_length_def utf8_Cons length_utf8_char)
  ultimately show ?thesis
    using length_py_join [of "'',''" "map (\<lambda>p. utf8 (item_text p)) (sort_items d)"]
    by (simp add: encoded_length_def json_dumps_dict utf8_py_join comp_def utf8_comma
        utf8_Cons length_utf8_char)
qed

lemma encoded_length_list:
  "encoded_length (PList xs) \<le> 2 + int (length xs) + sum_list (map encoded_length xs)"
proof -
  have "int (sum_list (map (\<lambda>x. length (utf8 (json_dumps x))) xs)) = sum_list (map encoded_length xs)"
    by (induction xs) (simp_all add: encoded_length_def)
  then show ?thesis
    using length_py_join [of "'',''" "map (\<lambda>x. utf8 (json_dumps x)) xs"]
    by (simp add: encoded_length_def json_dumps_list utf8_py_join comp_def utf8_comma
        utf8_Cons length_utf8_char)
qed

lemma encoded_length_step:
  assumes "short_floats v"
  shows "encoded_length v \<le> item_bytes v + sum_list (map encoded_length (pushed_items v))"
proof (cases v)
  case (PDict d)
  have "sum_list (map encoded_length (pushed_items v)) =
    sum_list (map (\<lambda>p. encoded_length (PStr (fst p)) + encoded_length (snd p)) d)"
    by (simp add: PDict pushed_items_def sum_list_addf comp_def rev_map [symmetric] sum_list_rev split_def)
  with PDict encoded_length_dict [of d] show ?thesis by (simp add: item_bytes_def)
next
  case (PList xs)
  with encoded_length_list [of xs] show ?thesis
    by (simp add: item_bytes_def pushed_items_def rev_map [symmetric] sum_list_rev)
next
  case (PInt i)
  then show ?thesis
    using length_int_str [of i]
    by (simp add: item_bytes_def pushed_items_def encoded_length_def utf8_ascii int_str_ascii)
next
  case (PFloat m k)
  with assms show ?thesis
    by (simp add: item_bytes_def pushed_items_def encoded_length_def utf8_ascii float_str_ascii)
next
  case (PStr s)
  then show ?thesis
    using length_utf8_json_str [of s]
    by (simp add: item_bytes_def pushed_items_def encoded_length_def)
next
  case (PBool b)
  then show ?thesis
    by (cases b) (simp_all add: item_bytes_def pushed_items_def encoded_length_def utf8_ascii)
qed (simp add: item_bytes_def pushed_items_def encoded_length_def utf8_ascii)

lemma short_floats_pushed: "short_floats v \<Longrightarrow> x \<in> set (pushed_items v) \<Longrightarrow> short_floats x"
  by (cases v) (auto simp: pushed_items_def list_all_iff)

text \<open>One turn of the loop, inverted.\<close>

lemma native_loop_ConsD:
  assumes "native_loop max_depth ((v, depth) # pending) n b"
  shows "\<not> n - 1 < 0"
    and "\<not> (is_container v \<and> depth \<ge> max_depth)"
    and "\<not> (is_container v \<and> int (length pending) + int (child_count v) > n - 1)"
    and "\<not> b - item_bytes v < 0"
    and "native_loop max_depth (map (\<lambda>x. (x, Suc depth)) (pushed_items v) @ pending)
           (n - 1) (b - item_bytes v)"
  using assms by (auto split: if_splits)

lemma native_loop_bytes:
  "native_loop max_depth pending n b \<Longrightarrow> 0 \<le> b \<Longrightarrow> \<forall>p \<in> set pending. short_floats (fst p) \<Longrightarrow>
   (\<Sum>p\<leftarrow>pending. encoded_length (fst p)) \<le> b"
proof (induction max_depth pending n b rule: native_loop.induct)
  case (1 max_depth n b)
  then show ?case by simp
next
  case (2 max_depth v depth pending n b)
  note step = native_loop_ConsD [OF 2(2)]
  have "(\<Sum>p\<leftarrow>map (\<lambda>x. (x, Suc depth)) (pushed_items v) @ pending. encoded_length (fst p))
      \<le> b - item_bytes v"
    by (rule 2(1) [OF step]) (use step(4) 2(4) in \<open>auto simp: short_floats_pushed\<close>)
  with encoded_length_step [of v] 2(4) show ?case by (simp add: comp_def)
qed

fun node_count :: "py \<Rightarrow> nat" where
  "node_count (PList xs) = Suc (sum_list (map node_count xs))"
| "node_count (PDict d) = Suc (sum_list (map (\<lambda>(k, v). Suc (node_count v)) d))"
| "node_count _ = 1"

lemma node_count_pushed: "node_count v = Suc (sum_list (map node_count (pushed_items v)))"
proof (cases v)
  case (PDict d)
  have "(\<Sum>p\<leftarrow>d. Suc (node_count (snd p))) = (\<Sum>p\<leftarrow>d. Suc 0) + (\<Sum>p\<leftarrow>d. node_count (snd p))"
    by (induction d) auto
  with PDict show ?thesis
    by (simp add: pushed_items_def rev_map [symmetric] sum_list_rev comp_def split_def)
qed (simp_all add: pushed_items_def rev_map [symmetric] sum_list_rev)

lemma native_loop_nodes:
  "native_loop max_depth pending n b \<Longrightarrow> 0 \<le> n \<Longrightarrow>
   int (\<Sum>p\<leftarrow>pending. node_count (fst p)) \<le> n"
proof (induction max_depth pending n b rule: native_loop.induct)
  case (1 max_depth n b)
  then show ?case by simp
next
  case (2 max_depth v depth pending n b)
  note step = native_loop_ConsD [OF 2(2)]
  have "int (\<Sum>p\<leftarrow>map (\<lambda>x. (x, Suc depth)) (pushed_items v) @ pending. node_count (fst p)) \<le> n - 1"
    by (rule 2(1) [OF step]) (use step(1) in simp)
  then show ?case by (simp add: comp_def node_count_pushed [of v])
qed

text \<open>
  Whatever \<open>_bounded_native_json\<close> accepts is small: at most 8192 nodes, and at most one
  mebibyte of encoded text, escapes and multi-byte characters included.
\<close>

theorem bounded_native_json_is_small:
  assumes "bounded_native_json v max_depth" and "short_floats v"
  shows "length (utf8 (json_dumps v)) \<le> 1024 * 1024 \<and> node_count v \<le> 8192"
  using native_loop_bytes [of max_depth "[(v, 0)]" HASH_NATIVE_NODE_LIMIT HASH_NATIVE_BYTES_LIMIT]
    native_loop_nodes [of max_depth "[(v, 0)]" HASH_NATIVE_NODE_LIMIT HASH_NATIVE_BYTES_LIMIT] assms
  by (simp add: bounded_native_json_def encoded_length_def HASH_NATIVE_NODE_LIMIT_def
      HASH_NATIVE_BYTES_LIMIT_def)

theorem bounded_native_json_is_small_witness:
  "bounded_native_json (PDict [(''b'', PInt 12), (''a'', PList [PNone])]) 64 \<and>
   length (utf8 (json_dumps (PDict [(''b'', PInt 12), (''a'', PList [PNone])]))) \<le> 1024 * 1024 \<and>
   node_count (PDict [(''b'', PInt 12), (''a'', PList [PNone])]) \<le> 8192"
proof -
  have h: "bounded_native_json (PDict [(''b'', PInt 12), (''a'', PList [PNone])]) 64"
    by code_simp
  have f: "short_floats (PDict [(''b'', PInt 12), (''a'', PList [PNone])])"
    by simp
  show ?thesis using h bounded_native_json_is_small [OF h f] by blast
qed

end
