(* ===== verification/StageContract.thy ===== *)
theory StageContract
  imports CanonicalJson
begin

text \<open>
  The stage contract of a Comprehensive run (\<open>nico/comprehensive_orchestration_contract.py\<close>),
  the registry of the capabilities that serve the stages
  (\<open>nico/comprehensive_capability_registry.py\<close>) and the adapter that binds executors to stages
  and runs them in order (\<open>nico/comprehensive_stage_adapter.py\<close>). Executors are parameters: a
  function from the stage context to a result dictionary, or an exception.
\<close>

section \<open>The contract\<close>

definition EXPRESS_STAGES :: "string list" where
  "EXPRESS_STAGES = [
     ''authorization_and_scope'',
     ''immutable_repository_snapshot'',
     ''repository_and_delivery_evidence'',
     ''dependency_security_static_analysis'',
     ''ci_cd_architecture_complexity_velocity'',
     ''evidence_reconciliation_and_scoring'',
     ''decision_report_generation'']"

definition COMPREHENSIVE_ONLY_STAGES :: "string list" where
  "COMPREHENSIVE_ONLY_STAGES = [
     ''deep_scanner_triage'',
     ''functional_qa'',
     ''platform_parity'',
     ''deployment_and_infrastructure'',
     ''architecture_and_data_flow'',
     ''developer_delivery_process'',
     ''stakeholder_and_business_alignment'',
     ''requirements_traceability'',
     ''historical_trends_and_change_failure'',
     ''six_month_roadmap'',
     ''staffing_sequencing_and_cost'',
     ''risk_reduction_and_executive_briefing'',
     ''final_comprehensive_report_generation'']"

definition TERMINAL_STAGES :: "string list" where
  "TERMINAL_STAGES = [
     ''cross_format_truth_verification'',
     ''human_review_request'',
     ''client_acceptance_pending'']"

definition COMPREHENSIVE_STAGES :: "string list" where
  "COMPREHENSIVE_STAGES = EXPRESS_STAGES @ COMPREHENSIVE_ONLY_STAGES @ TERMINAL_STAGES"

definition contract_blockers :: "string \<Rightarrow> bool \<Rightarrow> string option \<Rightarrow> string list" where
  "contract_blockers repository authorized commit_sha =
     (if py_strip repository = [] then [''repository_required''] else []) @
     (if \<not> authorized then [''explicit_authorization_required''] else []) @
     (case commit_sha of
        None \<Rightarrow> []
      | Some sha \<Rightarrow> if py_strip sha = [] then [''commit_sha_must_not_be_blank''] else [])"

definition build_comprehensive_contract :: "string \<Rightarrow> bool \<Rightarrow> string option \<Rightarrow> dict" where
  "build_comprehensive_contract repository authorized commit_sha =
    (let blockers = contract_blockers repository authorized commit_sha;
         stages = map (\<lambda>stage. PDict [
             (''id'', PStr stage),
             (''status'', PStr (if blockers \<noteq> [] then ''blocked'' else ''pending'')),
             (''required'', PBool True),
             (''customer_visible'', PBool True)]) COMPREHENSIVE_STAGES
     in [(''artifact_schema'', PStr ''nico.comprehensive_orchestration_contract.v2''),
         (''service_id'', PStr ''comprehensive''),
         (''customer_service_name'', PStr ''NICO Comprehensive Technical Assessment''),
         (''repository'', PStr (py_strip repository)),
         (''commit_sha'', (case commit_sha of Some sha \<Rightarrow> PStr (py_strip sha) | None \<Rightarrow> PNone)),
         (''authorized'', PBool authorized),
         (''status'', PStr (if blockers \<noteq> [] then ''blocked'' else ''ready'')),
         (''blockers'', PList (map PStr blockers)),
         (''one_snapshot'', PBool True),
         (''one_run_id'', PBool True),
         (''one_evidence_ledger'', PBool True),
         (''one_canonical_score'', PBool True),
         (''one_final_report_package'', PBool True),
         (''includes_everything_in_express'',
            PBool (take (length EXPRESS_STAGES) COMPREHENSIVE_STAGES = EXPRESS_STAGES)),
         (''stages'', PList stages),
         (''human_review_required'', PBool True),
         (''client_delivery_allowed'', PBool False)])"

definition contract_stage_ids :: "dict \<Rightarrow> string list res" where
  "contract_stage_ids contract =
     bind_res (list_or_empty (dget contract ''stages'')) (\<lambda>items.
       Inr (concat (map (\<lambda>item. case item of
          PDict d \<Rightarrow> [py_str (dget d ''id'')] | _ \<Rightarrow> []) items)))"

definition contract_violations :: "dict \<Rightarrow> string list \<Rightarrow> string list" where
  "contract_violations contract stage_ids =
    (let missing = (\<lambda>wanted. filter (\<lambda>stage. stage \<notin> set stage_ids) wanted);
         duplicates = filter (\<lambda>stage. count_list stage_ids stage > 1) stage_ids
     in (if dget contract ''service_id'' \<noteq> PStr ''comprehensive''
           then [''service_id_must_be_comprehensive''] else []) @
        (if missing EXPRESS_STAGES \<noteq> [] then [''missing_express_stages''] else []) @
        (if missing COMPREHENSIVE_ONLY_STAGES \<noteq> [] then [''missing_comprehensive_stages''] else []) @
        (if missing TERMINAL_STAGES \<noteq> [] then [''missing_terminal_stages''] else []) @
        (if duplicates \<noteq> [] then [''duplicate_stages''] else []) @
        (if dget contract ''human_review_required'' \<noteq> PBool True
           then [''human_review_required''] else []) @
        (if dget contract ''client_delivery_allowed'' \<noteq> PBool False
           then [''client_delivery_must_remain_blocked''] else []) @
        concat (map (\<lambda>field. if dget contract field \<noteq> PBool True then [field @ ''_required''] else [])
          [''one_snapshot'', ''one_run_id'', ''one_evidence_ledger'', ''one_canonical_score'',
           ''one_final_report_package'']))"

definition validate_comprehensive_contract :: "dict \<Rightarrow> dict res" where
  "validate_comprehensive_contract contract =
     bind_res (contract_stage_ids contract) (\<lambda>stage_ids.
       let violations = contract_violations contract stage_ids;
           missing = (\<lambda>wanted. PList (map PStr (filter (\<lambda>stage. stage \<notin> set stage_ids) wanted)))
       in Inr [
         (''status'', PStr (if violations = [] then ''valid'' else ''invalid'')),
         (''artifact_schema'', PStr ''nico.comprehensive_orchestration_validation.v2''),
         (''violations'', PList (map PStr violations)),
         (''missing_express_stages'', missing EXPRESS_STAGES),
         (''missing_comprehensive_stages'', missing COMPREHENSIVE_ONLY_STAGES),
         (''missing_terminal_stages'', missing TERMINAL_STAGES),
         (''duplicate_stages'',
            PList (map PStr (sort (remdups (filter (\<lambda>s. count_list stage_ids s > 1) stage_ids))))),
         (''stage_count'', PInt (int (length stage_ids))),
         (''expected_stage_count'', PInt (int (length COMPREHENSIVE_STAGES)))])"

text \<open>The first stage item with the wanted id.\<close>

fun first_stage_item :: "string \<Rightarrow> py list \<Rightarrow> dict option" where
  "first_stage_item stage_id [] = None"
| "first_stage_item stage_id (item # items) =
     (case item of
        PDict d \<Rightarrow> if dget d ''id'' = PStr stage_id then Some d else first_stage_item stage_id items
      | _ \<Rightarrow> first_stage_item stage_id items)"

definition stage_contract :: "dict \<Rightarrow> string \<Rightarrow> dict option res" where
  "stage_contract contract stage_id =
     bind_res (list_or_empty (dget contract ''stages'')) (\<lambda>items. Inr (first_stage_item stage_id items))"

section \<open>The capability registry\<close>

definition registry_entry :: "string \<Rightarrow> string list \<Rightarrow> py" where
  "registry_entry capability sources = PDict [
     (''capability'', PStr capability),
     (''required'', PBool True),
     (''sources'', PList (map PStr sources))]"

definition CAPABILITY_REGISTRY :: dict where
  "CAPABILITY_REGISTRY = [
     (''authorization_and_scope'', registry_entry ''authorization'' [''hosted_assessment'']),
     (''immutable_repository_snapshot'', registry_entry ''snapshot'' [''repository_snapshot'']),
     (''repository_and_delivery_evidence'', registry_entry ''repository_evidence'' [''snapshot_repository_evidence'']),
     (''dependency_security_static_analysis'', registry_entry ''scanner_suite'' [''snapshot_scanner_worker'']),
     (''ci_cd_architecture_complexity_velocity'', registry_entry ''technical_analysis'' [''snapshot_repository_evidence'', ''full_assessment_complexity_evidence'']),
     (''evidence_reconciliation_and_scoring'', registry_entry ''canonical_scoring'' [''assessment_quality'']),
     (''decision_report_generation'', registry_entry ''report_generation'' [''comprehensive_report_package'']),
     (''deep_scanner_triage'', registry_entry ''scanner_triage'' [''snapshot_scanner_worker'']),
     (''functional_qa'', registry_entry ''functional_qa'' [''snapshot_repository_evidence'']),
     (''platform_parity'', registry_entry ''platform_parity'' [''snapshot_repository_evidence'']),
     (''deployment_and_infrastructure'', registry_entry ''deployment_review'' [''snapshot_repository_evidence'']),
     (''architecture_and_data_flow'', registry_entry ''architecture_data_flow'' [''snapshot_repository_evidence'']),
     (''developer_delivery_process'', registry_entry ''delivery_process'' [''snapshot_repository_evidence'']),
     (''stakeholder_and_business_alignment'', registry_entry ''stakeholder_alignment'' [''human_context_boundary'']),
     (''requirements_traceability'', registry_entry ''requirements_traceability'' [''snapshot_repository_evidence'', ''human_context_boundary'']),
     (''historical_trends_and_change_failure'', registry_entry ''historical_trends'' [''snapshot_repository_evidence'']),
     (''six_month_roadmap'', registry_entry ''roadmap'' [''comprehensive_repair_intelligence'']),
     (''staffing_sequencing_and_cost'', registry_entry ''resourcing'' [''comprehensive_repair_intelligence'']),
     (''risk_reduction_and_executive_briefing'', registry_entry ''executive_briefing'' [''comprehensive_repair_intelligence'']),
     (''final_comprehensive_report_generation'', registry_entry ''final_report_generation'' [''comprehensive_report_package'']),
     (''cross_format_truth_verification'', registry_entry ''cross_format_verification'' [''comprehensive_report_package'']),
     (''human_review_request'', registry_entry ''human_review'' [''comprehensive_review_request'']),
     (''client_acceptance_pending'', registry_entry ''acceptance_gate'' [''comprehensive_review_request''])]"

text \<open>The checks of one registry item, in order; a stage may be reported more than once.\<close>

definition registry_item_invalid :: "string \<Rightarrow> py \<Rightarrow> string list res" where
  "registry_item_invalid stage item = (case item of
     PDict d \<Rightarrow>
       bind_res (list_or_empty (dget d ''sources'')) (\<lambda>sources.
         Inr ((if text_of (dget d ''capability'') = [] then [stage] else []) @
              (if dget d ''required'' \<noteq> PBool True then [stage] else []) @
              (if filter (\<lambda>source. py_strip (py_str source) \<noteq> []) sources = [] then [stage] else [])))
   | _ \<Rightarrow> Inr [stage])"

definition validate_capability_registry :: "dict \<Rightarrow> dict res" where
  "validate_capability_registry registry =
    (let candidate = (if registry = [] then CAPABILITY_REGISTRY else registry);
         missing = filter (\<lambda>stage. \<not> has_key candidate stage) COMPREHENSIVE_STAGES;
         unknown = filter (\<lambda>stage. stage \<notin> set COMPREHENSIVE_STAGES) (map fst candidate);
         express_prefix = (take (length EXPRESS_STAGES) (map fst candidate) = EXPRESS_STAGES)
     in bind_res (map_res (\<lambda>(stage, item). registry_item_invalid stage item) candidate) (\<lambda>parts.
       let invalid = concat parts in Inr [
         (''status'', PStr (if missing = [] \<and> unknown = [] \<and> invalid = [] \<and> express_prefix
                           then ''valid'' else ''invalid'')),
         (''artifact_schema'', PStr ''nico.comprehensive_capability_registry.v2''),
         (''missing_stages'', PList (map PStr missing)),
         (''unknown_stages'', PList (map PStr unknown)),
         (''invalid_stages'', PList (map PStr (sort (remdups invalid)))),
         (''express_stages_first'', PBool express_prefix),
         (''stage_count'', PInt (int (length candidate))),
         (''expected_stage_count'', PInt (int (length COMPREHENSIVE_STAGES))),
         (''customer_service_id'', PStr ''comprehensive''),
         (''human_review_required'', PBool True),
         (''client_delivery_allowed'', PBool False)]))"

definition execution_plan :: "dict list" where
  "execution_plan =
     map (\<lambda>(index, stage). dupdate [(''order'', PInt (int index + 1)), (''stage_id'', PStr stage)]
            (as_dict (dget CAPABILITY_REGISTRY stage)))
       (zip [0..<length COMPREHENSIVE_STAGES] COMPREHENSIVE_STAGES)"

section \<open>Properties of the contract\<close>

lemma distinct_stages: "distinct COMPREHENSIVE_STAGES"
  by code_simp

lemma length_stages: "length COMPREHENSIVE_STAGES = 23"
  by code_simp

lemma express_prefix: "take (length EXPRESS_STAGES) COMPREHENSIVE_STAGES = EXPRESS_STAGES"
  by (simp add: COMPREHENSIVE_STAGES_def)

lemma contract_stage_ids_build:
  "contract_stage_ids (build_comprehensive_contract repository authorized commit_sha) =
     Inr COMPREHENSIVE_STAGES"
  by (simp add: contract_stage_ids_def build_comprehensive_contract_def Let_def comp_def)

lemma count_list_distinct: "distinct xs \<Longrightarrow> count_list xs x \<le> 1"
  by (induction xs) auto

text \<open>
  Every contract the program builds passes its own validation: no violation, all 23 stages
  of the three groups exactly once, review required and delivery blocked, whether or not the
  request itself is blocked.
\<close>

theorem build_contract_validates:
  "\<exists>report. validate_comprehensive_contract
      (build_comprehensive_contract repository authorized commit_sha) = Inr report \<and>
    dget report ''status'' = PStr ''valid'' \<and> dget report ''violations'' = PList [] \<and>
    dget report ''stage_count'' = PInt 23"
proof -
  let ?c = "build_comprehensive_contract repository authorized commit_sha"
  have dup: "filter (\<lambda>s. 1 < count_list COMPREHENSIVE_STAGES s) COMPREHENSIVE_STAGES = []"
    using count_list_distinct [OF distinct_stages] by (simp add: filter_empty_conv not_less)
  have missing: "filter (\<lambda>s. s \<notin> set COMPREHENSIVE_STAGES) part = []"
    if "set part \<subseteq> set COMPREHENSIVE_STAGES" for part
    using that by (auto simp: filter_empty_conv)
  have "contract_violations ?c COMPREHENSIVE_STAGES = []"
    unfolding contract_violations_def Let_def dup
    by (simp add: missing COMPREHENSIVE_STAGES_def)
      (simp add: build_comprehensive_contract_def Let_def)
  then show ?thesis
    by (simp add: validate_comprehensive_contract_def contract_stage_ids_build Let_def length_stages)
qed

lemma registry_valid:
  "\<exists>report. validate_capability_registry [] = Inr report \<and> dget report ''status'' = PStr ''valid''"
proof -
  have "dget (case validate_capability_registry [] of Inr d \<Rightarrow> d | Inl _ \<Rightarrow> []) ''status'' = PStr ''valid''"
    by code_simp
  then show ?thesis by (auto split: sum.splits)
qed

end
