(* ===== verification/StageAdapter.thy ===== *)
theory StageAdapter
  imports StageContract
begin

text \<open>
  The stage adapter (\<open>nico/comprehensive_stage_adapter.py\<close>): the initial run state, the binding
  of capability executors to stages, and the loop that runs the stages in contract order. An
  executor is a parameter, a function from its context to a result or an exception.
\<close>

type_synonym executor = "dict \<Rightarrow> dict res"
type_synonym capability_executor = "dict \<Rightarrow> py res"

definition TERMINAL_FAILURE_STATES :: "string list" where
  "TERMINAL_FAILURE_STATES = [''blocked'', ''failed'', ''error'', ''timed_out'', ''unavailable'']"

definition FINAL_REPORT_STAGE_ID :: string where
  "FINAL_REPORT_STAGE_ID = ''final_comprehensive_report_generation''"

definition IDENTITY_FIELDS :: "string list" where
  "IDENTITY_FIELDS = [''run_id'', ''repository'', ''commit_sha'', ''evidence_ledger_id'']"

record comprehensive_identity =
  ci_run_id :: string
  ci_repository :: string
  ci_commit_sha :: string
  ci_evidence_ledger_id :: string

definition identity_as_dict :: "comprehensive_identity \<Rightarrow> dict" where
  "identity_as_dict i = [
     (''run_id'', PStr (ci_run_id i)),
     (''repository'', PStr (ci_repository i)),
     (''commit_sha'', PStr (ci_commit_sha i)),
     (''evidence_ledger_id'', PStr (ci_evidence_ledger_id i))]"

definition required_text :: "py \<Rightarrow> string \<Rightarrow> string res" where
  "required_text value field =
    (let normalized = text_of value
     in if normalized = [] then Inl (ValueError (field @ ''_required'')) else Inr normalized)"

definition build_comprehensive_run_state ::
    "string \<Rightarrow> string \<Rightarrow> string \<Rightarrow> string \<Rightarrow> bool \<Rightarrow> dict res" where
  "build_comprehensive_run_state run_id repository commit_sha evidence_ledger_id authorized =
     bind_res (required_text (PStr run_id) ''run_id'') (\<lambda>r.
     bind_res (required_text (PStr repository) ''repository'') (\<lambda>repo.
     bind_res (required_text (PStr commit_sha) ''commit_sha'') (\<lambda>commit.
     bind_res (required_text (PStr evidence_ledger_id) ''evidence_ledger_id'') (\<lambda>ledger.
     let identity = \<lparr>ci_run_id = r, ci_repository = repo, ci_commit_sha = commit,
           ci_evidence_ledger_id = ledger\<rparr>;
         contract = build_comprehensive_contract repo authorized (Some commit)
     in bind_res (validate_capability_registry []) (\<lambda>registry_validation.
     bind_res (py_iter (dget contract ''blockers'')) (\<lambda>contract_blockers.
     let blockers = contract_blockers @
           (if dget registry_validation ''status'' \<noteq> PStr ''valid''
            then [PStr ''comprehensive_capability_registry_invalid''] else [])
     in Inr [
       (''artifact_schema'', PStr ''nico.comprehensive_stage_adapter.v3''),
       (''service_id'', PStr ''comprehensive''),
       (''status'', PStr (if blockers \<noteq> [] then ''blocked'' else ''ready'')),
       (''identity'', PDict (identity_as_dict identity)),
       (''contract'', PDict contract),
       (''capability_registry_validation'', PDict registry_validation),
       (''execution_plan'', PList (map PDict execution_plan)),
       (''current_stage'', PNone),
       (''completed_stages'', PList []),
       (''stage_results'', PDict []),
       (''blockers'', PList blockers),
       (''human_review_required'', PBool True),
       (''client_delivery_allowed'', PBool False)]))))))"

text \<open>
  \<open>bind_capability_executors\<close>. The payload is a copy of the context, so as a value it is the
  context with the capability added.
\<close>

definition stage_executor :: "string \<Rightarrow> capability_executor \<Rightarrow> executor" where
  "stage_executor capability ex context =
     bind_res (ex (dset context ''capability'' (PStr capability))) (\<lambda>result.
       case result of
         PDict d \<Rightarrow> Inr d
       | _ \<Rightarrow> Inl (TypeError (''capability_executor_must_return_dict:'' @ capability)))"

definition bind_capability_executors ::
    "(string \<Rightarrow> capability_executor option) \<Rightarrow> (string \<times> executor) list" where
  "bind_capability_executors capability_executors =
     fold (\<lambda>item bound.
       let stage_id = py_str (dget item ''stage_id'');
           capability = py_str (dget item ''capability'')
       in case capability_executors capability of
            None \<Rightarrow> bound
          | Some ex \<Rightarrow> AList.update stage_id (stage_executor capability ex) bound)
       execution_plan []"

text \<open>The first identity field on which the result disagrees, if any.\<close>

fun assert_identity_fields :: "dict \<Rightarrow> dict \<Rightarrow> string \<Rightarrow> string list \<Rightarrow> unit res" where
  "assert_identity_fields expected result stage_id [] = Inr ()"
| "assert_identity_fields expected result stage_id (field # rest) =
     bind_res (dindex expected field) (\<lambda>wanted.
       let actual = py_strip (py_str (py_or (dget result field) wanted))
       in if PStr actual \<noteq> wanted
          then Inl (ValueError (stage_id @ '':'' @ field @ ''_identity_drift''))
          else assert_identity_fields expected result stage_id rest)"

definition assert_identity :: "dict \<Rightarrow> dict \<Rightarrow> string \<Rightarrow> unit res" where
  "assert_identity expected result stage_id =
     assert_identity_fields expected result stage_id IDENTITY_FIELDS"

definition result_status :: "dict \<Rightarrow> string" where
  "result_status result =
     py_lower (py_strip (py_str (py_or (dget result ''status'') (PStr ''complete''))))"

definition normalized_stage_result :: "string \<Rightarrow> dict \<Rightarrow> dict \<Rightarrow> dict res" where
  "normalized_stage_result stage_id raw identity =
     bind_res (assert_identity identity raw stage_id) (\<lambda>_.
     bind_res (dindex identity ''run_id'') (\<lambda>run_id.
     bind_res (dindex identity ''repository'') (\<lambda>repository.
     bind_res (dindex identity ''commit_sha'') (\<lambda>commit_sha.
     bind_res (dindex identity ''evidence_ledger_id'') (\<lambda>evidence_ledger_id.
       Inr (dupdate raw [
         (''stage_id'', PStr stage_id),
         (''status'', PStr (result_status raw)),
         (''run_id'', run_id),
         (''repository'', repository),
         (''commit_sha'', commit_sha),
         (''evidence_ledger_id'', evidence_ledger_id),
         (''human_review_required'', PBool True),
         (''client_delivery_allowed'', PBool False)]))))))"

text \<open>\<open>updated.setdefault("blockers", []).append(blocker)\<close>.\<close>

definition append_blocker :: "dict \<Rightarrow> string \<Rightarrow> dict res" where
  "append_blocker d blocker = (case map_of d ''blockers'' of
     None \<Rightarrow> Inr (dset d ''blockers'' (PList [PStr blocker]))
   | Some (PList xs) \<Rightarrow> Inr (dset d ''blockers'' (PList (xs @ [PStr blocker])))
   | Some _ \<Rightarrow> Inl (AttributeError ''append''))"

definition stage_context :: "string \<Rightarrow> dict \<Rightarrow> dict \<Rightarrow> dict" where
  "stage_context stage_id identity stage_results =
     dupdate (dupdate [(''service_id'', PStr ''comprehensive''), (''stage_id'', PStr stage_id)] identity)
       [(''prior_stage_results'', PDict stage_results),
        (''human_review_required'', PBool True),
        (''client_delivery_allowed'', PBool False)]"

text \<open>
  The \<open>for ... else\<close> loop over the stages. Its state is the run state, the completed stages and
  the stage results; the result is that state where the loop stops.
\<close>

fun run_stage_loop :: "(string \<Rightarrow> executor option) \<Rightarrow> string option \<Rightarrow> dict \<Rightarrow> string list \<Rightarrow>
    dict \<times> py list \<times> dict \<Rightarrow> (dict \<times> py list \<times> dict) res" where
  "run_stage_loop executors stop_after identity [] (updated, completed, stage_results) =
     Inr (dset (dset updated ''status'' (PStr ''review_required''))
            ''current_stage'' (PStr ''human_review_request''), completed, stage_results)"
| "run_stage_loop executors stop_after identity (stage_id # stages) (updated, completed, stage_results) =
     (if PStr stage_id \<in> set completed
      then run_stage_loop executors stop_after identity stages (updated, completed, stage_results)
      else case executors stage_id of
        None \<Rightarrow>
          bind_res (append_blocker
              (dset (dset updated ''status'' (PStr ''blocked'')) ''current_stage'' (PStr stage_id))
              (''missing_executor:'' @ stage_id)) (\<lambda>u. Inr (u, completed, stage_results))
      | Some ex \<Rightarrow>
          (let running = dset (dset updated ''status'' (PStr ''running''))
                 ''current_stage'' (PStr stage_id)
           in bind_res (ex (stage_context stage_id identity stage_results)) (\<lambda>raw.
              bind_res (normalized_stage_result stage_id raw identity) (\<lambda>result.
                let results = dset stage_results stage_id (PDict result);
                    status = py_str (dget result ''status'')
                in if status \<in> set TERMINAL_FAILURE_STATES
                   then bind_res (append_blocker (dset running ''status'' (PStr ''blocked''))
                          (''stage_failed:'' @ stage_id @ '':'' @ status))
                          (\<lambda>u. Inr (u, completed, results))
                   else
                     let ran = completed @ [PStr stage_id];
                         u = dset (dset running ''completed_stages'' (PList ran))
                               ''stage_results'' (PDict results)
                     in if stop_after = Some stage_id
                        then Inr (dset u ''status'' (PStr ''paused''), ran, results)
                        else run_stage_loop executors stop_after identity stages (u, ran, results)))))"

definition finish_stage_run :: "dict \<times> py list \<times> dict \<Rightarrow> dict" where
  "finish_stage_run st = (case st of (updated, completed, stage_results) \<Rightarrow>
     dupdate updated [
       (''completed_stages'', PList completed),
       (''stage_results'', PDict stage_results),
       (''progress_percent'', percent_value (length completed) (length COMPREHENSIVE_STAGES)),
       (''human_review_required'', PBool True),
       (''client_delivery_allowed'', PBool False)])"

definition run_comprehensive_stages ::
    "dict \<Rightarrow> (string \<Rightarrow> executor option) \<Rightarrow> string option \<Rightarrow> dict res" where
  "run_comprehensive_stages state executors stop_after =
     bind_res (dict_or_empty (dget state ''identity'')) (\<lambda>identity.
     bind_res (map_res (\<lambda>field. required_text (dget identity field) field) IDENTITY_FIELDS) (\<lambda>_.
     if dget state ''service_id'' \<noteq> PStr ''comprehensive''
     then Inl (ValueError ''service_id_must_be_comprehensive'')
     else if dget state ''client_delivery_allowed'' \<noteq> PBool False
     then Inl (ValueError ''client_delivery_must_remain_blocked'')
     else if dget state ''human_review_required'' \<noteq> PBool True
     then Inl (ValueError ''human_review_required'')
     else bind_res (validate_capability_registry []) (\<lambda>registry_validation.
       if dget registry_validation ''status'' \<noteq> PStr ''valid''
       then append_blocker (dset state ''status'' (PStr ''blocked''))
              ''comprehensive_capability_registry_invalid''
       else if truthy (dget state ''blockers'')
       then Inr (dset state ''status'' (PStr ''blocked''))
       else
         bind_res (list_or_empty (dget state ''completed_stages'')) (\<lambda>completed.
         bind_res (dict_or_empty (dget state ''stage_results'')) (\<lambda>stage_results.
         bind_res (run_stage_loop executors stop_after identity COMPREHENSIVE_STAGES
                     (state, completed, stage_results)) (\<lambda>st.
           Inr (finish_stage_run st)))))))"

section \<open>What a run of the adapter guarantees\<close>

lemma normalized_stage_result_fields:
  assumes "normalized_stage_result stage_id raw identity = Inr result"
  shows "dget result ''status'' = PStr (result_status raw)"
    and "f \<in> set IDENTITY_FIELDS \<Longrightarrow> dget result f = dget identity f"
    and "dget result ''client_delivery_allowed'' = PBool False"
    and "dget result ''human_review_required'' = PBool True"
  using assms
  by (auto simp: normalized_stage_result_def bind_res_eq_Inr IDENTITY_FIELDS_def dindex_Inr_dget)

definition stage_done :: "dict \<Rightarrow> dict \<Rightarrow> string \<Rightarrow> bool" where
  "stage_done identity results stage \<longleftrightarrow>
     (\<exists>r. map_of results stage = Some (PDict r) \<and>
        py_str (dget r ''status'') \<notin> set TERMINAL_FAILURE_STATES \<and>
        (\<forall>f \<in> set IDENTITY_FIELDS. dget r f = dget identity f) \<and>
        dget r ''client_delivery_allowed'' = PBool False)"

lemma stage_done_other: "stage \<noteq> other \<Longrightarrow> stage_done identity results stage \<Longrightarrow>
   stage_done identity (dset results other v) stage"
  by (simp add: stage_done_def)

lemma append_blocker_dget:
  "append_blocker d b = Inr d' \<Longrightarrow> k \<noteq> ''blockers'' \<Longrightarrow> dget d' k = dget d k"
  by (auto simp: append_blocker_def split: option.splits py.splits)

text \<open>What the loop keeps: the completed stages are a prefix of the contract, each with its result.\<close>

lemma run_stage_loop_prefix:
  assumes "run_stage_loop executors stop_after identity stages (updated, map PStr before, results)
      = Inr (updated', completed', results')"
    and "distinct (before @ stages)"
    and "\<forall>stage \<in> set before. stage_done identity results stage"
  shows "\<exists>ran. completed' = map PStr (before @ ran) \<and> (\<exists>rest. stages = ran @ rest) \<and>
     (\<forall>stage \<in> set (before @ ran). stage_done identity results' stage) \<and>
     (dget updated' ''status'' = PStr ''review_required'' \<longrightarrow> ran = stages) \<and>
     dget updated' ''identity'' = dget updated ''identity''"
  using assms
proof (induction stages arbitrary: updated before results)
  case Nil
  then show ?case by auto
next
  case (Cons stage stages)
  from Cons.prems(2) have fresh: "PStr stage \<notin> set (map PStr before)" by auto
  show ?case
  proof (cases "executors stage")
    case None
    with Cons.prems fresh show ?thesis
      by (auto simp: bind_res_eq_Inr append_blocker_dget)
  next
    case (Some ex)
    let ?running = "dset (dset updated ''status'' (PStr ''running'')) ''current_stage'' (PStr stage)"
    from Cons.prems(1) fresh Some obtain raw result where
      raw: "ex (stage_context stage identity results) = Inr raw" and
      result: "normalized_stage_result stage raw identity = Inr result"
      by (auto simp: bind_res_eq_Inr Let_def)
    let ?results = "dset results stage (PDict result)"
    have kept: "\<forall>s \<in> set before. stage_done identity ?results s"
      using Cons.prems(2,3) by (auto intro: stage_done_other)
    show ?thesis
    proof (cases "py_str (dget result ''status'') \<in> set TERMINAL_FAILURE_STATES")
      case True
      with Cons.prems(1) fresh Some raw result kept show ?thesis
        by (auto simp: bind_res_eq_Inr Let_def append_blocker_dget)
    next
      case False
      have new: "stage_done identity ?results stage"
        using False normalized_stage_result_fields [OF result] by (simp add: stage_done_def)
      let ?u = "dset (dset ?running ''completed_stages'' (PList (map PStr before @ [PStr stage])))
          ''stage_results'' (PDict ?results)"
      show ?thesis
      proof (cases "stop_after = Some stage")
        case True
        with Cons.prems(1) fresh Some raw result False
        have "completed' = map PStr (before @ [stage])" "results' = ?results"
            "updated' = dset ?u ''status'' (PStr ''paused'')"
          by (auto simp: Let_def)
        with kept new show ?thesis
          by (intro exI [of _ "[stage]"]) simp
      next
        case go: False
        with Cons.prems(1) fresh Some raw result False
        have "run_stage_loop executors stop_after identity stages
            (?u, map PStr (before @ [stage]), ?results) = Inr (updated', completed', results')"
          by (simp add: Let_def)
        from Cons.IH [OF this] Cons.prems(2) kept new obtain ran where
          "completed' = map PStr ((before @ [stage]) @ ran)" "\<exists>rest. stages = ran @ rest"
          "\<forall>s \<in> set ((before @ [stage]) @ ran). stage_done identity results' s"
          "dget updated' ''status'' = PStr ''review_required'' \<longrightarrow> ran = stages"
          "dget updated' ''identity'' = dget ?u ''identity''"
          by auto
        then show ?thesis
          by (intro exI [of _ "stage # ran"]) auto
      qed
    qed
  qed
qed

text \<open>
  Conversely the loop reaches review whenever every executor returns a result that keeps the
  identity and whose status is not one of the failure states.
\<close>

definition accepted_result :: "dict \<Rightarrow> string \<Rightarrow> dict \<Rightarrow> bool" where
  "accepted_result identity stage raw \<longleftrightarrow>
     (\<exists>result. normalized_stage_result stage raw identity = Inr result) \<and>
     result_status raw \<notin> set TERMINAL_FAILURE_STATES"

lemma run_stage_loop_completes:
  assumes "\<forall>stage \<in> set stages. \<exists>ex. executors stage = Some ex \<and>
      (\<forall>context. \<exists>raw. ex context = Inr raw \<and> accepted_result identity stage raw)"
    and "distinct (before @ stages)"
  shows "\<exists>updated' results'. run_stage_loop executors None identity stages
      (updated, map PStr before, results) = Inr (updated', map PStr (before @ stages), results') \<and>
      dget updated' ''status'' = PStr ''review_required''"
  using assms
proof (induction stages arbitrary: updated before results)
  case Nil
  then show ?case by simp
next
  case (Cons stage stages)
  from Cons.prems(1) obtain ex raw result where ex: "executors stage = Some ex"
    and raw: "ex (stage_context stage identity results) = Inr raw"
    and result: "normalized_stage_result stage raw identity = Inr result"
    and ok: "result_status raw \<notin> set TERMINAL_FAILURE_STATES"
    by (fastforce simp: accepted_result_def)
  have status: "py_str (dget result ''status'') = result_status raw"
    using normalized_stage_result_fields(1) [OF result] by simp
  have "PStr stage \<notin> set (map PStr before)" using Cons.prems(2) by auto
  then have "run_stage_loop executors None identity (stage # stages) (updated, map PStr before, results)
     = run_stage_loop executors None identity stages
        (dset (dset (dset (dset updated ''status'' (PStr ''running'')) ''current_stage'' (PStr stage))
            ''completed_stages'' (PList (map PStr before @ [PStr stage])))
          ''stage_results'' (PDict (dset results stage (PDict result))),
         map PStr (before @ [stage]), dset results stage (PDict result))"
    using ex raw result ok status by (simp add: Let_def)
  then show ?case
    using Cons.IH [of "before @ [stage]"] Cons.prems by auto
qed

lemma adapter_run_completes:
  assumes ident: "dget state ''identity'' = PDict identity"
    and present: "\<forall>f \<in> set IDENTITY_FIELDS. text_of (dget identity f) \<noteq> []"
    and guards: "dget state ''service_id'' = PStr ''comprehensive''"
      "dget state ''client_delivery_allowed'' = PBool False"
      "dget state ''human_review_required'' = PBool True"
    and fresh: "dget state ''completed_stages'' = PList []"
      "dget state ''stage_results'' = PDict []"
    and open_run: "\<not> truthy (dget state ''blockers'')"
    and work: "\<forall>stage \<in> set COMPREHENSIVE_STAGES. \<exists>ex. executors stage = Some ex \<and>
      (\<forall>context. \<exists>raw. ex context = Inr raw \<and> accepted_result identity stage raw)"
  shows "\<exists>out. run_comprehensive_stages state executors None = Inr out \<and>
      dget out ''status'' = PStr ''review_required'' \<and>
      dget out ''completed_stages'' = PList (map PStr COMPREHENSIVE_STAGES) \<and>
      dget out ''progress_percent'' = PFloat 100 0"
proof -
  obtain report where report: "validate_capability_registry [] = Inr report"
      "dget report ''status'' = PStr ''valid''"
    using registry_valid by blast
  have ne: "identity \<noteq> []" using present by (auto simp: IDENTITY_FIELDS_def)
  have req: "\<exists>ys. map_res (\<lambda>f. required_text (dget identity f) f) IDENTITY_FIELDS = Inr ys"
    using present by (simp add: IDENTITY_FIELDS_def required_text_def Let_def)
  obtain updated' results' where loop:
    "run_stage_loop executors None identity COMPREHENSIVE_STAGES (state, [], []) =
       Inr (updated', map PStr COMPREHENSIVE_STAGES, results')"
    "dget updated' ''status'' = PStr ''review_required''"
    using run_stage_loop_completes [of COMPREHENSIVE_STAGES executors identity "[]" state "[]"]
      work distinct_stages by auto
  from report ne req loop ident guards fresh open_run show ?thesis
    by (auto simp: run_comprehensive_stages_def dict_or_empty_def finish_stage_run_def
        length_stages percent_value_full)
qed

definition sample_identity :: dict where
  "sample_identity = [(''run_id'', PStr ''r1''), (''repository'', PStr ''o/r''),
     (''commit_sha'', PStr ''c''), (''evidence_ledger_id'', PStr ''l'')]"

definition sample_state :: dict where
  "sample_state = [(''service_id'', PStr ''comprehensive''), (''identity'', PDict sample_identity),
     (''completed_stages'', PList []), (''stage_results'', PDict []),
     (''human_review_required'', PBool True), (''client_delivery_allowed'', PBool False)]"

lemma sample_identity_accepts:
  assumes "text \<notin> set TERMINAL_FAILURE_STATES" and "py_lower (py_strip text) = text" and "text \<noteq> []"
  shows "accepted_result sample_identity stage [(''status'', PStr text)]"
proof -
  have "map (\<lambda>f. dget sample_identity f) IDENTITY_FIELDS = map (\<lambda>s. PStr s) [''r1'', ''o/r'', ''c'', ''l'']"
    by (simp add: sample_identity_def IDENTITY_FIELDS_def)
  moreover have "py_strip ''r1'' = ''r1''" "py_strip ''o/r'' = ''o/r''" "py_strip ''c'' = ''c''" "py_strip ''l'' = ''l''"
    by code_simp+
  ultimately show ?thesis using assms
    by (simp add: accepted_result_def result_status_def py_or_def normalized_stage_result_def
       assert_identity_def IDENTITY_FIELDS_def dindex_def sample_identity_def Let_def)
qed

lemma sample_run_completes:
  assumes "text \<notin> set TERMINAL_FAILURE_STATES" and "py_lower (py_strip text) = text" and "text \<noteq> []"
  shows "\<exists>out. run_comprehensive_stages sample_state
       (\<lambda>_. Some (\<lambda>_. Inr [(''status'', PStr text)])) None = Inr out \<and>
     dget out ''status'' = PStr ''review_required'' \<and>
     dget out ''completed_stages'' = PList (map PStr COMPREHENSIVE_STAGES) \<and>
     dget out ''progress_percent'' = PFloat 100 0"
proof (rule adapter_run_completes [where identity = sample_identity])
  show "\<forall>stage \<in> set COMPREHENSIVE_STAGES. \<exists>ex.
      (Some (\<lambda>_::dict. Inr [(''status'', PStr text)]) :: executor option) = Some ex \<and>
      (\<forall>context. \<exists>raw. ex context = Inr raw \<and> accepted_result sample_identity stage raw)"
    using sample_identity_accepts [OF assms] by auto
  show "\<forall>f \<in> set IDENTITY_FIELDS. text_of (dget sample_identity f) \<noteq> []"
    by code_simp
qed (simp_all add: sample_state_def)

text \<open>
  C15. A fresh run driven by the adapter has completed a prefix of the contract, every completed
  stage has a stored result that is not a failure and carries the identity of the run, and the
  run asks for review only when that prefix is the whole contract. Review stays required and
  delivery stays blocked.
\<close>

theorem adapter_review_only_after_every_stage:
  assumes run: "run_comprehensive_stages state executors stop_after = Inr out"
    and fresh: "dget state ''completed_stages'' = PList []"
    and open_run: "\<not> truthy (dget state ''blockers'')"
  shows "\<exists>n results. dget out ''completed_stages'' = PList (map PStr (take n COMPREHENSIVE_STAGES)) \<and>
      dget out ''stage_results'' = PDict results \<and>
      (\<forall>stage \<in> set (take n COMPREHENSIVE_STAGES).
         stage_done (as_dict (dget state ''identity'')) results stage) \<and>
      (dget out ''status'' = PStr ''review_required'' \<longrightarrow> take n COMPREHENSIVE_STAGES = COMPREHENSIVE_STAGES) \<and>
      dget out ''identity'' = dget state ''identity'' \<and>
      dget out ''human_review_required'' = PBool True \<and>
      dget out ''client_delivery_allowed'' = PBool False"
proof -
  obtain report where report: "validate_capability_registry [] = Inr report"
      "dget report ''status'' = PStr ''valid''"
    using registry_valid by blast
  from run fresh open_run report obtain identity results0 updated' completed' results' where
    ident: "dict_or_empty (dget state ''identity'') = Inr identity" and
    loop: "run_stage_loop executors stop_after identity COMPREHENSIVE_STAGES
        (state, map PStr [], results0) = Inr (updated', completed', results')" and
    out: "out = finish_stage_run (updated', completed', results')"
    by (auto simp: run_comprehensive_stages_def bind_res_eq_Inr split: if_splits)
  from ident have idd: "identity = as_dict (dget state ''identity'')"
    by (cases "dget state ''identity''") (auto simp: dict_or_empty_def as_dict_def split: if_splits)
  from run_stage_loop_prefix [OF loop] distinct_stages obtain ran rest where
    d: "completed' = map PStr ran" "COMPREHENSIVE_STAGES = ran @ rest"
      "\<forall>stage \<in> set ran. stage_done identity results' stage"
      "dget updated' ''status'' = PStr ''review_required'' \<longrightarrow> ran = COMPREHENSIVE_STAGES"
      "dget updated' ''identity'' = dget state ''identity''"
    by auto
  have "take (length ran) COMPREHENSIVE_STAGES = ran" by (simp add: d(2))
  with d out idd show ?thesis
    by (intro exI [of _ "length ran"] exI [of _ results']) (simp add: finish_stage_run_def)
qed


theorem adapter_review_only_after_every_stage_witness:
  "\<exists>out n results.
     run_comprehensive_stages sample_state
       (\<lambda>_. Some (\<lambda>_. Inr [(''status'', PStr ''complete'')])) None = Inr out \<and>
     dget out ''completed_stages'' = PList (map PStr (take n COMPREHENSIVE_STAGES)) \<and>
     dget out ''stage_results'' = PDict results \<and>
     (\<forall>stage \<in> set (take n COMPREHENSIVE_STAGES). stage_done sample_identity results stage) \<and>
     dget out ''client_delivery_allowed'' = PBool False"
proof -
  have "''complete'' \<notin> set TERMINAL_FAILURE_STATES" "py_lower (py_strip ''complete'') = ''complete''"
    by code_simp+
  then obtain out where run: "run_comprehensive_stages sample_state
      (\<lambda>_. Some (\<lambda>_. Inr [(''status'', PStr ''complete'')])) None = Inr out"
    using sample_run_completes by blast
  have fresh: "dget sample_state ''completed_stages'' = PList []"
    and open_run: "\<not> truthy (dget sample_state ''blockers'')"
    and ident: "as_dict (dget sample_state ''identity'') = sample_identity"
    by (simp_all add: sample_state_def)
  show ?thesis
    using run adapter_review_only_after_every_stage [OF run fresh open_run] unfolding ident by blast
qed

text \<open>
  C16. The adapter counts a stage that is still running as completed: from every fresh run whose
  identity is given and that has no blockers, when each executor answers with status \<open>running\<close> and
  its answer passes the identity check, the run reaches \<open>review_required\<close> at 100 percent with
  every stage counted. The evidence rules of the README (a queued or running analyzer is not
  complete) and the run record, which only counts success states, treat such a stage as
  unfinished.
\<close>

theorem adapter_counts_running_stage_as_complete:
  assumes "dget state ''identity'' = PDict identity" and "\<forall>f \<in> set IDENTITY_FIELDS. text_of (dget identity f) \<noteq> []"
    and "dget state ''service_id'' = PStr ''comprehensive''" and "dget state ''client_delivery_allowed'' = PBool False"
    and "dget state ''human_review_required'' = PBool True" and "dget state ''completed_stages'' = PList []"
    and "dget state ''stage_results'' = PDict []" and "\<not> truthy (dget state ''blockers'')"
    and "\<forall>stage \<in> set COMPREHENSIVE_STAGES. \<exists>ex. executors stage = Some ex \<and>
      (\<forall>context. \<exists>raw. ex context = Inr raw \<and> result_status raw = ''running'' \<and>
        (\<exists>result. normalized_stage_result stage raw identity = Inr result))"
  shows "\<exists>out. run_comprehensive_stages state executors None = Inr out \<and>
     dget out ''status'' = PStr ''review_required'' \<and>
     dget out ''completed_stages'' = PList (map PStr COMPREHENSIVE_STAGES) \<and>
     dget out ''progress_percent'' = PFloat 100 0"
proof (rule adapter_run_completes [OF assms(1-8)])
  have "''running'' \<notin> set TERMINAL_FAILURE_STATES" by code_simp
  then show "\<forall>stage \<in> set COMPREHENSIVE_STAGES. \<exists>ex. executors stage = Some ex \<and>
      (\<forall>context. \<exists>raw. ex context = Inr raw \<and> accepted_result identity stage raw)"
    using assms(9) unfolding accepted_result_def by metis
qed

theorem adapter_counts_running_stage_as_complete_witness:
  "\<exists>out. run_comprehensive_stages sample_state (\<lambda>_. Some (\<lambda>_. Inr [(''status'', PStr ''running'')])) None = Inr out \<and>
     dget out ''status'' = PStr ''review_required'' \<and>
     dget out ''completed_stages'' = PList (map PStr COMPREHENSIVE_STAGES) \<and>
     dget out ''progress_percent'' = PFloat 100 0"
proof (rule adapter_counts_running_stage_as_complete [where identity = sample_identity])
  show "\<forall>f \<in> set IDENTITY_FIELDS. text_of (dget sample_identity f) \<noteq> []"
    by code_simp
  have running: "''running'' \<notin> set TERMINAL_FAILURE_STATES" "py_lower (py_strip ''running'') = ''running''"
    by code_simp+
  have "result_status [(''status'', PStr ''running'')] = ''running''"
    by (simp add: result_status_def py_or_def running(2))
  moreover have "\<exists>result. normalized_stage_result stage [(''status'', PStr ''running'')] sample_identity = Inr result" for stage
    using sample_identity_accepts [OF running, of stage] by (simp add: accepted_result_def)
  ultimately show "\<forall>stage \<in> set COMPREHENSIVE_STAGES. \<exists>ex.
      (Some (\<lambda>_::dict. Inr [(''status'', PStr ''running'')]) :: executor option) = Some ex \<and>
      (\<forall>context. \<exists>raw. ex context = Inr raw \<and> result_status raw = ''running'' \<and>
        (\<exists>result. normalized_stage_result stage raw sample_identity = Inr result))"
    by auto
qed (simp_all add: sample_state_def)

end
