(* ===== verification/JsonText.thy ===== *)
theory JsonText
  imports CanonicalJson
begin

text \<open>
  \<open>json.loads\<close> of the standard library, the inverse of the canonical text: the run store, the
  storage codec and the report boundary read retained JSON with it. The scanner follows
  the grammar of the library (no literal control characters in strings, greedy numbers, no
  trailing comma). \<open>hook\<close> is the \<open>object_pairs_hook\<close>, which may raise. The parser has fuel;
  \<open>parse_value_fuel\<close> shows that the length of the text is enough. Text whose escapes
  name a code point above 255 is outside the modelled character range and is refused, as are
  the non-finite constants.
\<close>

section \<open>The scanner\<close>

datatype json_error = JSyntax | JHook pyexc

type_synonym pairs_hook = "(string \<times> py) list \<Rightarrow> py res"

definition is_ws :: "char \<Rightarrow> bool" where
  "is_ws c = (c = CHR '' '' \<or> code_of c = 9 \<or> code_of c = 10 \<or> code_of c = 13)"

definition skip_ws :: "string \<Rightarrow> string" where
  "skip_ws s = dropWhile is_ws s"

definition hex_val :: "char \<Rightarrow> nat option" where
  "hex_val c = (let n = code_of c in
     if 48 \<le> n \<and> n \<le> 57 then Some (n - 48)
     else if 97 \<le> n \<and> n \<le> 102 then Some (n - 87)
     else if 65 \<le> n \<and> n \<le> 70 then Some (n - 55)
     else None)"

definition unescape :: "char \<Rightarrow> char option" where
  "unescape c = (let n = code_of c in
     if n = 34 \<or> n = 92 \<or> n = 47 then Some c
     else if c = CHR ''b'' then Some (CHR 0x08)
     else if c = CHR ''f'' then Some (CHR 0x0C)
     else if c = CHR ''n'' then Some (CHR 0x0A)
     else if c = CHR ''r'' then Some (CHR 0x0D)
     else if c = CHR ''t'' then Some (CHR 0x09)
     else None)"

definition hex4 :: "char \<Rightarrow> char \<Rightarrow> char \<Rightarrow> char \<Rightarrow> nat option" where
  "hex4 a b c d = (case (hex_val a, hex_val b, hex_val c, hex_val d) of
     (Some w, Some x, Some y, Some z) \<Rightarrow> Some (((w * 16 + x) * 16 + y) * 16 + z)
   | _ \<Rightarrow> None)"

text \<open>The rest of a string literal after its opening quote.\<close>

fun read_str :: "string \<Rightarrow> (string \<times> string) option" where
  "read_str [] = None"
| "read_str (c # cs) =
    (if code_of c = 34 then Some ([], cs)
     else if code_of c = 92 then
       (case cs of
          [] \<Rightarrow> None
        | e # r \<Rightarrow>
           (if e = CHR ''u'' then
              (case r of
                 h1 # h2 # h3 # h4 # r' \<Rightarrow>
                   (case hex4 h1 h2 h3 h4 of
                      Some n \<Rightarrow> if n < 256 then map_option (\<lambda>(t, z). (char_of n # t, z)) (read_str r') else None
                    | None \<Rightarrow> None)
               | _ \<Rightarrow> None)
            else (case unescape e of
                Some x \<Rightarrow> map_option (\<lambda>(t, z). (x # t, z)) (read_str r)
              | None \<Rightarrow> None)))
     else if code_of c < 32 then None
     else map_option (\<lambda>(t, z). (c # t, z)) (read_str cs))"

definition dec_val :: "string \<Rightarrow> nat" where
  "dec_val ds = foldl (\<lambda>a c. 10 * a + digit_val c) 0 ds"

text \<open>The exponent of a number literal, when one follows, and the text after it.\<close>

definition read_exp :: "string \<Rightarrow> (int \<times> string) option" where
  "read_exp s = (case s of
     c # r \<Rightarrow>
       if c = CHR ''e'' \<or> c = CHR ''E'' then
         (let neg = (r \<noteq> [] \<and> hd r = CHR ''-'');
              t = (if r \<noteq> [] \<and> (hd r = CHR ''-'' \<or> hd r = CHR ''+'') then tl r else r);
              ds = takeWhile is_digit t
          in if ds = [] then None
             else Some ((if neg then - int (dec_val ds) else int (dec_val ds)), dropWhile is_digit t))
       else None
   | [] \<Rightarrow> None)"

definition read_frac :: "string \<Rightarrow> (string \<times> string) option" where
  "read_frac s = (case s of
     c # r \<Rightarrow> if c = CHR ''.'' \<and> takeWhile is_digit r \<noteq> []
              then Some (takeWhile is_digit r, dropWhile is_digit r) else None
   | [] \<Rightarrow> None)"

text \<open>The digits before the point: a leading zero stands alone.\<close>

definition int_part :: "string \<Rightarrow> string" where
  "int_part t = (let ds = takeWhile is_digit t
     in if ds \<noteq> [] \<and> hd ds = CHR ''0'' then take 1 ds else ds)"

text \<open>A point or an exponent makes the literal a float.\<close>

definition number_value :: "int \<Rightarrow> string \<Rightarrow> string \<Rightarrow> py \<times> string" where
  "number_value sign whole rest =
    (let (f, r) = (case read_frac rest of Some p \<Rightarrow> p | None \<Rightarrow> ([], rest));
         (e, r') = (case read_exp r of Some p \<Rightarrow> p | None \<Rightarrow> (0, r));
         m = sign * int (dec_val (whole @ f));
         k = int (length f) - e;
         (m', k') = (if k < 0 then (m * 10 ^ nat (- k), 0) else norm_dec m (nat k))
     in if r' = rest then (PInt m, rest) else (PFloat m' k', r'))"

definition read_number :: "string \<Rightarrow> (py \<times> string) option" where
  "read_number s =
    (let neg = (s \<noteq> [] \<and> hd s = CHR ''-'');
         t = (if neg then tl s else s);
         whole = int_part t
     in if whole = [] then None
        else Some (number_value (if neg then -1 else 1) whole (drop (length whole) t)))"

definition read_word :: "string \<Rightarrow> (py \<times> string) option" where
  "read_word s =
    (if take 4 s = ''null'' then Some (PNone, drop 4 s)
     else if take 4 s = ''true'' then Some (PBool True, drop 4 s)
     else if take 5 s = ''false'' then Some (PBool False, drop 5 s)
     else None)"

section \<open>The parser\<close>

text \<open>
  \<open>parse_items\<close> and \<open>parse_members\<close> read what follows the first element: elements after
  a comma up to the closing bracket. A value starts at the first character of its text.
\<close>

fun parse_value :: "nat \<Rightarrow> pairs_hook \<Rightarrow> string \<Rightarrow> json_error + py \<times> string"
and parse_items :: "nat \<Rightarrow> pairs_hook \<Rightarrow> string \<Rightarrow> json_error + py list \<times> string"
and parse_members :: "nat \<Rightarrow> pairs_hook \<Rightarrow> string \<Rightarrow> json_error + (string \<times> py) list \<times> string"
where
  "parse_value 0 hook s = Inl JSyntax"
| "parse_value (Suc n) hook s = (case s of
     [] \<Rightarrow> Inl JSyntax
   | c # cs \<Rightarrow>
      (if c = CHR 0x22 then
         (case read_str cs of Some (t, r) \<Rightarrow> Inr (PStr t, r) | None \<Rightarrow> Inl JSyntax)
       else if c = CHR ''['' then
         (if skip_ws cs \<noteq> [] \<and> hd (skip_ws cs) = CHR '']'' then Inr (PList [], tl (skip_ws cs))
          else (case parse_items n hook (skip_ws cs) of
              Inl e \<Rightarrow> Inl e | Inr (xs, r) \<Rightarrow> Inr (PList xs, r)))
       else if c = CHR ''{'' then
         (if skip_ws cs \<noteq> [] \<and> hd (skip_ws cs) = CHR ''}'' then
            (case hook [] of Inl e \<Rightarrow> Inl (JHook e) | Inr v \<Rightarrow> Inr (v, tl (skip_ws cs)))
          else (case parse_members n hook (skip_ws cs) of
              Inl e \<Rightarrow> Inl e
            | Inr (kvs, r) \<Rightarrow> (case hook kvs of Inl e \<Rightarrow> Inl (JHook e) | Inr v \<Rightarrow> Inr (v, r))))
       else (case read_word s of
           Some p \<Rightarrow> Inr p
         | None \<Rightarrow> (case read_number s of Some p \<Rightarrow> Inr p | None \<Rightarrow> Inl JSyntax))))"
| "parse_items 0 hook s = Inl JSyntax"
| "parse_items (Suc n) hook s = (case parse_value n hook s of
     Inl e \<Rightarrow> Inl e
   | Inr (x, r) \<Rightarrow> (case skip_ws r of
        [] \<Rightarrow> Inl JSyntax
      | c # cs \<Rightarrow>
         (if c = CHR '']'' then Inr ([x], cs)
          else if c = CHR '','' then
            (case parse_items n hook (skip_ws cs) of
               Inl e \<Rightarrow> Inl e | Inr (xs, r') \<Rightarrow> Inr (x # xs, r'))
          else Inl JSyntax)))"
| "parse_members 0 hook s = Inl JSyntax"
| "parse_members (Suc n) hook s = (case s of
     [] \<Rightarrow> Inl JSyntax
   | q # ks \<Rightarrow>
      (if q \<noteq> CHR 0x22 then Inl JSyntax
       else (case read_str ks of
          None \<Rightarrow> Inl JSyntax
        | Some (k, r0) \<Rightarrow> (case skip_ws r0 of
            [] \<Rightarrow> Inl JSyntax
          | colon # r1 \<Rightarrow>
             (if colon \<noteq> CHR '':'' then Inl JSyntax
              else (case parse_value n hook (skip_ws r1) of
                Inl e \<Rightarrow> Inl e
              | Inr (v, r) \<Rightarrow> (case skip_ws r of
                  [] \<Rightarrow> Inl JSyntax
                | c # cs \<Rightarrow>
                   (if c = CHR ''}'' then Inr ([(k, v)], cs)
                    else if c = CHR '','' then
                      (case parse_members n hook (skip_ws cs) of
                         Inl e \<Rightarrow> Inl e | Inr (kvs, r') \<Rightarrow> Inr ((k, v) # kvs, r'))
                    else Inl JSyntax))))))))"

definition loads_hook :: "pairs_hook \<Rightarrow> string \<Rightarrow> json_error + py" where
  "loads_hook hook s =
    (let t = skip_ws s in
     case parse_value (Suc (2 * length t)) hook t of
       Inl e \<Rightarrow> Inl e
     | Inr (v, r) \<Rightarrow> if skip_ws r = [] then Inr v else Inl JSyntax)"

text \<open>Without a hook an object is a dictionary: a repeated key keeps its last value.\<close>

definition json_loads :: "string \<Rightarrow> py option" where
  "json_loads s = (case loads_hook (\<lambda>kvs. Inr (PDict (dupdate [] kvs))) s of
     Inr v \<Rightarrow> Some v | Inl _ \<Rightarrow> None)"

section \<open>The parser reads the canonical text back\<close>

subsection \<open>Strings\<close>

lemma hex_val_hex_digit: "n < 16 \<Longrightarrow> hex_val (hex_digit n) = Some n"
  by (auto simp: hex_val_def hex_digit_def Let_def)

lemma code_of_eq: "code_of d = n \<Longrightarrow> code_of c = n \<longleftrightarrow> c = d"
  using of_char_eq_iff by fastforce

lemma json_char_escapes:
  "json_char (CHR 0x22) = [CHR 0x5C, CHR 0x22]" "json_char (CHR 0x5C) = [CHR 0x5C, CHR 0x5C]"
  "json_char (CHR 0x08) = [CHR 0x5C, CHR ''b'']" "json_char (CHR 0x09) = [CHR 0x5C, CHR ''t'']"
  "json_char (CHR 0x0A) = [CHR 0x5C, CHR ''n'']" "json_char (CHR 0x0C) = [CHR 0x5C, CHR ''f'']"
  "json_char (CHR 0x0D) = [CHR 0x5C, CHR ''r'']"
  by (simp_all add: json_char_def)

lemma read_str_json_char:
  "read_str (json_char c @ s) = map_option (\<lambda>(t, z). (c # t, z)) (read_str s)"
proof (cases "c \<in> {CHR 0x22, CHR 0x5C, CHR 0x08, CHR 0x09, CHR 0x0A, CHR 0x0C, CHR 0x0D}")
  case True
  then show ?thesis by (auto simp: json_char_escapes unescape_def)
next
  case False
  then have no: "code_of c \<noteq> 34" "code_of c \<noteq> 92" "code_of c \<noteq> 8" "code_of c \<noteq> 9"
      "code_of c \<noteq> 10" "code_of c \<noteq> 12" "code_of c \<noteq> 13"
    by (auto simp: code_of_eq [of "CHR 0x22"] code_of_eq [of "CHR 0x5C"] code_of_eq [of "CHR 0x08"]
        code_of_eq [of "CHR 0x09"] code_of_eq [of "CHR 0x0A"] code_of_eq [of "CHR 0x0C"]
        code_of_eq [of "CHR 0x0D"])
  show ?thesis
  proof (cases "code_of c < 32")
    case True
    let ?a = "hex_digit (code_of c div 16)" and ?b = "hex_digit (code_of c mod 16)"
    have "hex4 (CHR ''0'') (CHR ''0'') ?a ?b = Some (code_of c)"
      using True by (simp add: hex4_def hex_val_hex_digit) (simp add: hex_val_def)
    moreover have "json_char c = [CHR 0x5C, CHR ''u'', CHR ''0'', CHR ''0'', ?a, ?b]"
      using no True by (simp add: json_char_def Let_def)
    ultimately show ?thesis using True by simp
  next
    case False
    then have "json_char c = [c]" using no by (simp add: json_char_def)
    then show ?thesis using no False by simp
  qed
qed

definition str_tail :: "string \<Rightarrow> string" where
  "str_tail s = concat (map json_char s) @ [CHR 0x22]"

lemma json_str_Cons: "json_str s = CHR 0x22 # str_tail s"
  by (simp add: json_str_def str_tail_def)

lemma read_str_tail: "read_str (str_tail s @ r) = Some (s, r)"
  by (induction s) (simp_all add: str_tail_def read_str_json_char)

subsection \<open>Numbers\<close>

lemma is_digit_digit_char [simp]: "d < 10 \<Longrightarrow> is_digit (digit_char d)"
  by (simp add: is_digit_def digit_char_def)

lemma digit_val_digit_char [simp]: "d < 10 \<Longrightarrow> digit_val (digit_char d) = d"
  by (simp add: digit_val_def digit_char_def)

lemma nat_str_digits: "c \<in> set (nat_str n) \<Longrightarrow> is_digit c"
proof (induction n rule: nat_str.induct)
  case (1 n)
  then show ?case by (cases "n < 10") (auto simp: nat_str.simps [of n])
qed

lemma nat_str_nonempty [simp]: "nat_str n \<noteq> []"
  by (simp add: nat_str.simps [of n])

lemma dec_val_append: "dec_val (xs @ [c]) = 10 * dec_val xs + digit_val c"
  by (simp add: dec_val_def)

lemma dec_val_nat_str: "dec_val (nat_str n) = n"
proof (induction n rule: nat_str.induct)
  case (1 n)
  show ?case
  proof (cases "n < 10")
    case True
    then show ?thesis by (simp add: nat_str.simps [of n] dec_val_def)
  next
    case False
    with 1 show ?thesis by (simp add: nat_str.simps [of n] dec_val_append)
  qed
qed

lemma hd_nat_str: "hd (nat_str n) = CHR ''0'' \<longleftrightarrow> n = 0"
proof (induction n rule: nat_str.induct)
  case (1 n)
  show ?case
  proof (cases "n < 10")
    case True
    have "digit_char n = CHR ''0'' \<longleftrightarrow> code_of (digit_char n) = 48"
      by (simp add: code_of_eq [of "CHR ''0''"])
    with True show ?thesis by (simp add: nat_str.simps [of n] digit_char_def)
  next
    case False
    with 1 show ?thesis by (simp add: nat_str.simps [of n] hd_append)
  qed
qed

lemma nat_str_0: "nat_str 0 = ''0''"
  by code_simp

lemma frac_str_digits: "c \<in> set (frac_str k n) \<Longrightarrow> is_digit c"
  by (induction k arbitrary: n) auto

lemma length_frac_str [simp]: "length (frac_str k n) = k"
  by (induction k arbitrary: n) auto

lemma dec_val_frac_str: "n < 10 ^ k \<Longrightarrow> dec_val (xs @ frac_str k n) = dec_val xs * 10 ^ k + n"
proof (induction k arbitrary: n)
  case 0
  then show ?case by simp
next
  case (Suc k)
  then have "n div 10 < 10 ^ k" by (simp add: less_mult_imp_div_less mult.commute)
  with Suc show ?case
    by (simp add: dec_val_append flip: append_assoc)
qed

text \<open>What may follow a number without becoming part of it.\<close>

definition number_end :: "string \<Rightarrow> bool" where
  "number_end r = (r = [] \<or> (\<not> is_digit (hd r) \<and> hd r \<noteq> CHR ''.'' \<and> hd r \<noteq> CHR ''e'' \<and> hd r \<noteq> CHR ''E''))"

lemma takeWhile_digits:
  assumes "\<And>c. c \<in> set ds \<Longrightarrow> is_digit c" and "r = [] \<or> \<not> is_digit (hd r)"
  shows "takeWhile is_digit (ds @ r) = ds" and "dropWhile is_digit (ds @ r) = r"
  using assms by (induction ds) (auto, (cases r; simp)+)

lemma number_end_no_tail: "number_end r \<Longrightarrow> read_frac r = None \<and> read_exp r = None"
  by (cases r) (auto simp: number_end_def read_frac_def read_exp_def)

lemma int_part_nat_str:
  assumes "r = [] \<or> \<not> is_digit (hd r)"
  shows "int_part (nat_str n @ r) = nat_str n"
proof -
  have "takeWhile is_digit (nat_str n @ r) = nat_str n"
    using takeWhile_digits(1) [OF nat_str_digits assms] .
  then show ?thesis by (auto simp: int_part_def Let_def hd_nat_str nat_str_0)
qed

lemma hd_nat_str_not_minus: "hd (nat_str n @ r) \<noteq> CHR ''-''"
proof -
  have "is_digit (hd (nat_str n))" by (rule nat_str_digits [of _ n]) simp
  then show ?thesis by (auto simp: is_digit_def)
qed

lemma read_number_text:
  assumes "r = [] \<or> \<not> is_digit (hd r)"
  shows "read_number ((if neg then ''-'' else []) @ nat_str n @ r) =
    Some (number_value (if neg then -1 else 1) (nat_str n) r)"
  using int_part_nat_str [OF assms, of n] hd_nat_str_not_minus [of n r]
  by (auto simp: read_number_def Let_def)

lemma read_number_int_str:
  assumes "number_end r"
  shows "read_number (int_str i @ r) = Some (PInt i, r)"
proof -
  have nd: "r = [] \<or> \<not> is_digit (hd r)" using assms by (auto simp: number_end_def)
  have "int_str i = (if i < 0 then ''-'' else []) @ nat_str (nat \<bar>i\<bar>)"
    by (simp add: int_str_def)
  moreover have "number_value (if i < 0 then -1 else 1) (nat_str (nat \<bar>i\<bar>)) r = (PInt i, r)"
    using number_end_no_tail [OF assms] by (simp add: number_value_def dec_val_nat_str)
  ultimately show ?thesis using read_number_text [OF nd, of "i < 0" "nat \<bar>i\<bar>"] by simp
qed

lemma norm_dec_id: "k = 0 \<or> m mod 10 \<noteq> 0 \<Longrightarrow> norm_dec m k = (m, k)"
  by (cases k) auto

definition frac_digits :: "nat \<Rightarrow> nat \<Rightarrow> string" where
  "frac_digits a k = (if k = 0 then ''0'' else frac_str k (a mod 10 ^ k))"

lemma dec_val_frac_digits:
  "dec_val (nat_str (a div 10 ^ k) @ frac_digits a k) = (if k = 0 then 10 * a else a)"
proof (cases "k = 0")
  case True
  then show ?thesis by (simp add: frac_digits_def dec_val_append dec_val_nat_str digit_val_def)
next
  case False
  then show ?thesis by (simp add: frac_digits_def dec_val_frac_str dec_val_nat_str div_mult_mod_eq)
qed

lemma length_frac_digits: "length (frac_digits a k) = (if k = 0 then 1 else k)"
  by (simp add: frac_digits_def)

lemma read_frac_digits:
  assumes "number_end r"
  shows "read_frac (CHR ''.'' # frac_digits a k @ r) = Some (frac_digits a k, r)"
proof -
  have nd: "r = [] \<or> \<not> is_digit (hd r)" using assms by (auto simp: number_end_def)
  have fd: "c \<in> set (frac_digits a k) \<Longrightarrow> is_digit c" for c
    by (auto simp: frac_digits_def is_digit_def [of "CHR ''0''"] dest: frac_str_digits split: if_splits)
  have "frac_digits a k \<noteq> []" using length_frac_digits [of a k] by (auto split: if_splits)
  then show ?thesis
    using takeWhile_digits [OF fd nd] by (simp add: read_frac_def)
qed

lemma float_str_digits:
  "float_str m k = (if m < 0 then ''-'' else []) @ nat_str (nat \<bar>m\<bar> div 10 ^ k) @
     CHR ''.'' # frac_digits (nat \<bar>m\<bar>) k"
  by (simp add: float_str_def frac_digits_def Let_def)

lemma read_number_float_str:
  assumes e: "number_end r" and norm: "k = 0 \<or> m mod 10 \<noteq> 0"
  shows "read_number (float_str m k @ r) = Some (PFloat m k, r)"
proof -
  let ?f = "frac_digits (nat \<bar>m\<bar>) k" and ?w = "nat_str (nat \<bar>m\<bar> div 10 ^ k)"
  let ?s = "if m < 0 then -1 else 1 :: int"
  have "norm_dec (?s * int (dec_val (?w @ ?f))) (length ?f) = (m, k)"
    using norm norm_dec_id [of k m] by (auto simp: dec_val_frac_digits length_frac_digits)
  then have "number_value ?s ?w (CHR ''.'' # ?f @ r) = (PFloat m k, r)"
    using number_end_no_tail [OF e]
    by (simp add: number_value_def read_frac_digits [OF e])
  then show ?thesis
    using read_number_text [of "CHR ''.'' # ?f @ r" "m < 0" "nat \<bar>m\<bar> div 10 ^ k"]
    by (simp add: float_str_digits is_digit_def)
qed

subsection \<open>Values\<close>

text \<open>What a reader gets back: every dictionary in the order of its keys.\<close>

fun canon :: "py \<Rightarrow> py" where
  "canon (PList xs) = PList (map canon xs)"
| "canon (PDict d) = PDict (sort_items (map (\<lambda>(k, v). (k, canon v)) d))"
| "canon v = v"

abbreviation dict_hook :: pairs_hook where
  "dict_hook \<equiv> \<lambda>kvs. Inr (PDict (dupdate [] kvs))"

definition reads_back :: "py \<Rightarrow> bool" where
  "reads_back v \<longleftrightarrow> (\<forall>n rest. number_end rest \<longrightarrow> length (json_dumps v) \<le> n \<longrightarrow>
     parse_value n dict_hook (json_dumps v @ rest) = Inr (canon v, rest))"

lemma is_ws_cases: "is_ws c \<Longrightarrow> code_of c \<in> {9, 10, 13, 32}"
  by (auto simp: is_ws_def)

lemma skip_ws_Cons [simp]: "\<not> is_ws c \<Longrightarrow> skip_ws (c # s) = c # s"
  by (simp add: skip_ws_def)

lemma is_ws_simps [simp]:
  "\<not> is_ws (CHR '','')" "\<not> is_ws (CHR '']'')" "\<not> is_ws (CHR ''}'')" "\<not> is_ws (CHR '':'')"
  "\<not> is_ws (CHR 0x22)"
  by (simp_all add: is_ws_def)

lemma digit_or_minus: "is_digit c \<or> c = CHR ''-'' \<Longrightarrow>
   \<not> is_ws c \<and> c \<noteq> CHR 0x22 \<and> c \<noteq> CHR ''['' \<and> c \<noteq> CHR ''{'' \<and> c \<noteq> CHR '']'' \<and> c \<noteq> CHR ''}'' \<and>
   c \<noteq> CHR ''n'' \<and> c \<noteq> CHR ''t'' \<and> c \<noteq> CHR ''f''"
  by (auto simp: is_digit_def is_ws_def)

lemma number_text_start:
  "\<exists>c t. int_str i = c # t \<and> (is_digit c \<or> c = CHR ''-'')"
  "\<exists>c t. float_str m k = c # t \<and> (is_digit c \<or> c = CHR ''-'')"
proof -
  have *: "\<exists>c t. nat_str n @ r = c # t \<and> is_digit c" for n r
    using nat_str_digits [of "hd (nat_str n)" n] by (cases "nat_str n") auto
  show "\<exists>c t. int_str i = c # t \<and> (is_digit c \<or> c = CHR ''-'')"
    using * [of "nat i" "[]"] by (auto simp: int_str_def)
  show "\<exists>c t. float_str m k = c # t \<and> (is_digit c \<or> c = CHR ''-'')"
    using * [of "nat m div 10 ^ k" "CHR ''.'' # frac_digits (nat m) k"]
    by (auto simp: float_str_digits)
qed

lemma read_word_number: "is_digit c \<or> c = CHR ''-'' \<Longrightarrow> read_word (c # t) = None"
  using digit_or_minus [of c] by (auto simp: read_word_def)

lemma reads_back_number:
  assumes "\<exists>c t. json_dumps v = c # t \<and> (is_digit c \<or> c = CHR ''-'')" and "canon v = v"
    and "\<And>r. number_end r \<Longrightarrow> read_number (json_dumps v @ r) = Some (v, r)"
  shows "reads_back v"
  unfolding reads_back_def
proof (intro allI impI)
  fix n rest assume "number_end rest" and n: "length (json_dumps v) \<le> n"
  from assms(1) obtain c t where st: "json_dumps v = c # t" "is_digit c \<or> c = CHR ''-''" by blast
  from n st obtain m where "n = Suc m" by (cases n) auto
  then show "parse_value n dict_hook (json_dumps v @ rest) = Inr (canon v, rest)"
    using assms(2) assms(3) [OF \<open>number_end rest\<close>] digit_or_minus [OF st(2)] read_word_number [OF st(2)]
    by (simp add: st(1))
qed

lemma dumps_start:
  "\<exists>c t. json_dumps v = c # t \<and> \<not> is_ws c \<and> c \<noteq> CHR '']'' \<and> c \<noteq> CHR ''}''"
proof (cases v)
  case (PInt i)
  then show ?thesis using number_text_start(1) [of i] digit_or_minus by auto
next
  case (PFloat m k)
  then show ?thesis using number_text_start(2) [of m k] digit_or_minus by auto
qed (auto simp: json_str_def json_dumps_list json_dumps_dict is_ws_def)

lemma number_end_simps [simp]:
  "number_end []" "number_end (CHR '','' # r)" "number_end (CHR '']'' # r)" "number_end (CHR ''}'' # r)"
  by (simp_all add: number_end_def is_digit_def)

lemma parse_items_dumps:
  assumes "list_all reads_back (x # xs)" and "length (py_join '','' (map json_dumps (x # xs))) < n"
  shows "parse_items n dict_hook (py_join '','' (map json_dumps (x # xs)) @ CHR '']'' # rest) =
    Inr (map canon (x # xs), rest)"
  using assms
proof (induction xs arbitrary: x n)
  case Nil
  then show ?case by (cases n) (auto simp: reads_back_def)
next
  case (Cons y ys)
  from Cons.prems obtain m where n: "n = Suc m" by (cases n) auto
  let ?rest = "CHR '','' # py_join '','' (map json_dumps (y # ys)) @ CHR '']'' # rest"
  have "parse_value m dict_hook (json_dumps x @ ?rest) = Inr (canon x, ?rest)"
    using Cons.prems n by (simp add: reads_back_def)
  moreover obtain c t where "json_dumps y = c # t" "\<not> is_ws c" using dumps_start [of y] by blast
  then have "skip_ws (py_join '','' (map json_dumps (y # ys)) @ CHR '']'' # rest) =
      py_join '','' (map json_dumps (y # ys)) @ CHR '']'' # rest"
    by (cases ys) auto
  moreover have "parse_items m dict_hook (py_join '','' (map json_dumps (y # ys)) @ CHR '']'' # rest) =
      Inr (map canon (y # ys), rest)"
    using Cons.prems n by (intro Cons.IH) auto
  ultimately show ?case using n by simp
qed

lemma parse_members_dumps:
  assumes "list_all (\<lambda>p. reads_back (snd p)) (p # ps)"
    and "length (py_join '','' (map item_text (p # ps))) < n"
  shows "parse_members n dict_hook (py_join '','' (map item_text (p # ps)) @ CHR ''}'' # rest) =
    Inr (map (\<lambda>(k, v). (k, canon v)) (p # ps), rest)"
  using assms
proof (induction ps arbitrary: p n)
  case Nil
  obtain k v where p: "p = (k, v)" by (cases p)
  from Nil p obtain m where n: "n = Suc m" "length (json_dumps v) \<le> m"
    by (cases n) (auto simp: item_text_def)
  obtain c t where "json_dumps v = c # t" "\<not> is_ws c" using dumps_start [of v] by blast
  then have "skip_ws (json_dumps v @ CHR ''}'' # rest) = json_dumps v @ CHR ''}'' # rest" by simp
  then show ?case using Nil p n
    by (simp add: item_text_def reads_back_def json_str_Cons read_str_tail) 
next
  case (Cons q ps)
  obtain k v where p: "p = (k, v)" by (cases p)
  let ?tail = "py_join '','' (map item_text (q # ps)) @ CHR ''}'' # rest"
  from Cons.prems p obtain m where n: "n = Suc m" "length (json_dumps v) \<le> m"
    by (cases n) (auto simp: item_text_def)
  obtain c t where "json_dumps v = c # t" "\<not> is_ws c" using dumps_start [of v] by blast
  then have "skip_ws (json_dumps v @ CHR '','' # ?tail) = json_dumps v @ CHR '','' # ?tail" by simp
  moreover have "skip_ws ?tail = ?tail"
    by (cases ps) (simp_all add: item_text_def json_str_Cons)
  moreover have "parse_members m dict_hook ?tail = Inr (map (\<lambda>(k, v). (k, canon v)) (q # ps), rest)"
    using Cons.prems n by (intro Cons.IH) auto
  moreover have "parse_value m dict_hook (json_dumps v @ CHR '','' # ?tail) = Inr (canon v, CHR '','' # ?tail)"
    using Cons.prems n p by (simp add: reads_back_def)
  moreover have "item_text p = CHR 0x22 # str_tail k @ CHR '':'' # json_dumps v"
    by (simp add: item_text_def p json_str_Cons)
  ultimately show ?case using p n by (simp add: read_str_tail)
qed

lemma dupdate_Nil_distinct: "distinct (map fst kvs) \<Longrightarrow> dupdate [] kvs = kvs"
proof -
  have "distinct (map fst (acc @ kvs)) \<Longrightarrow> dupdate acc kvs = acc @ kvs" for acc :: dict
  proof (induction kvs arbitrary: acc)
    case Nil
    then show ?case by simp
  next
    case (Cons p kvs)
    obtain k v where p: "p = (k, v)" by (cases p)
    from Cons.prems p have "k \<notin> fst ` set acc" by auto
    then have "dset acc k v = acc @ [(k, v)]" by (induction acc) auto
    then show ?case using Cons.IH [of "acc @ [(k, v)]"] Cons.prems p by simp
  qed
  from this [of "[]"] show "distinct (map fst kvs) \<Longrightarrow> dupdate [] kvs = kvs" by simp
qed

lemma set_sort_items [simp]: "set (sort_items d) = set d"
  by (simp add: sort_items_def)

lemma distinct_keys_sort_items: "distinct (map fst d) \<Longrightarrow> distinct (map fst (sort_items d))"
proof -
  assume "distinct (map fst d)"
  moreover have "mset (map fst (sort_items d)) = mset (map fst d)" by (simp add: sort_items_def)
  ultimately show ?thesis using mset_eq_imp_distinct_iff by blast
qed

lemma canon_dict: "canon (PDict d) = PDict (map (\<lambda>p. (fst p, canon (snd p))) (sort_items d))"
  by (simp add: split_def sort_items_map)

lemma wf_reads_back: "wf_py v \<Longrightarrow> reads_back v"
proof (induction v rule: wf_py.induct [case_names list dict float none bool int str])
  case (list xs)
  show ?case
  proof (cases xs)
    case Nil
    have "parse_value n dict_hook (CHR ''['' # CHR '']'' # rest) = Inr (PList [], rest)" if "2 \<le> n" for n rest
      using that by (cases n) auto
    with Nil show ?thesis by (simp add: reads_back_def json_dumps_list)
  next
    case (Cons x ys)
    have all: "list_all reads_back (x # ys)" using list Cons by (auto simp: list_all_iff)
    obtain c t where st: "json_dumps x = c # t" "\<not> is_ws c" "c \<noteq> CHR '']''"
      using dumps_start [of x] by blast
    have "parse_value n dict_hook (json_dumps (PList xs) @ rest) = Inr (canon (PList xs), rest)"
      if n: "length (json_dumps (PList xs)) \<le> n" for n rest
    proof -
      let ?s = "py_join '','' (map json_dumps (x # ys)) @ CHR '']'' # rest"
      from n obtain m where m: "n = Suc m" "length (py_join '','' (map json_dumps (x # ys))) < m"
        using Cons by (cases n) (auto simp: json_dumps_list)
      have head: "skip_ws ?s = ?s" "?s \<noteq> []" "hd ?s \<noteq> CHR '']''" using st by (cases ys; auto)+
      have split: "json_dumps (PList xs) @ rest = CHR ''['' # ?s" using Cons by (simp add: json_dumps_list)
      show ?thesis unfolding split m(1)
        using parse_items_dumps [OF all m(2)] head Cons
        by (simp only: parse_value.simps list.case if_False if_True sum.case prod.case) auto
    qed
    then show ?thesis by (simp add: reads_back_def)
  qed
next
  case (dict d)
  show ?case
  proof (cases "sort_items d")
    case Nil
    then have "d = []" using set_sort_items [of d] by (metis set_empty)
    have "parse_value n dict_hook (CHR ''{'' # CHR ''}'' # rest) = Inr (PDict [], rest)" if "2 \<le> n" for n rest
      using that by (cases n) auto
    with \<open>d = []\<close> show ?thesis by (simp add: reads_back_def json_dumps_dict sort_items_def)
  next
    case (Cons p ps)
    have all: "list_all (\<lambda>p. reads_back (snd p)) (p # ps)"
      using dict set_sort_items [of d] unfolding Cons by (fastforce simp: list_all_iff)
    have keys: "distinct (map fst (map (\<lambda>(k, v). (k, canon v)) (p # ps)))"
      using dict distinct_keys_sort_items [of d] unfolding Cons by (simp add: comp_def split_def)
    have "parse_value n dict_hook (json_dumps (PDict d) @ rest) = Inr (canon (PDict d), rest)"
      if n: "length (json_dumps (PDict d)) \<le> n" for n rest
    proof -
      let ?s = "py_join '','' (map item_text (p # ps)) @ CHR ''}'' # rest"
      from n obtain m where m: "n = Suc m" "length (py_join '','' (map item_text (p # ps))) < m"
        using Cons by (cases n) (auto simp: json_dumps_dict)
      have head: "skip_ws ?s = ?s" "?s \<noteq> []" "hd ?s \<noteq> CHR ''}''"
        by (cases ps; simp add: item_text_def json_str_Cons)+
      have split: "json_dumps (PDict d) @ rest = CHR ''{'' # ?s" using Cons by (simp add: json_dumps_dict)
      show ?thesis unfolding split m(1)
        using parse_members_dumps [OF all m(2)] head dupdate_Nil_distinct [OF keys]
        by (simp only: parse_value.simps list.case if_False if_True sum.case prod.case canon_dict Cons)
          (auto simp: split_def)
    qed
    then show ?thesis by (simp add: reads_back_def)
  qed
next
  case (float m k)
  then show ?case using number_text_start(2) [of m k] read_number_float_str
    by (intro reads_back_number) auto
next
  case none
  show ?case by (auto simp: reads_back_def read_word_def dest!: Suc_le_D)
next
  case (bool b)
  show ?case by (cases b) (auto simp: reads_back_def read_word_def dest!: Suc_le_D)
next
  case (int i)
  then show ?case using number_text_start(1) [of i] read_number_int_str
    by (intro reads_back_number) auto
next
  case (str s)
  show ?case by (auto simp: reads_back_def json_str_Cons read_str_tail dest!: Suc_le_D)
qed

lemma reads_backD: "reads_back v \<Longrightarrow> number_end rest \<Longrightarrow> length (json_dumps v) \<le> n \<Longrightarrow>
   parse_value n dict_hook (json_dumps v @ rest) = Inr (canon v, rest)"
  by (simp only: reads_back_def)

lemma wf_PDict_iff: "wf_py (PDict d) \<longleftrightarrow> distinct (map fst d) \<and> (\<forall>x \<in> set d. wf_py (snd x))"
  by (auto simp: list_all_iff)

lemma wf_dset: "wf_py (PDict d) \<Longrightarrow> wf_py v \<Longrightarrow> wf_py (PDict (dset d k v))"
  unfolding wf_PDict_iff using set_dset [of k v d] distinct_keys_dset [of d k v] by fastforce

lemma wf_dpop: "wf_py (PDict d) \<Longrightarrow> wf_py (PDict (dpop d k))"
  unfolding wf_PDict_iff using set_dpop [of k d] distinct_keys_dpop [of d k] by fastforce

lemma loads_dumps: "wf_py v \<Longrightarrow> json_loads (json_dumps v) = Some (canon v)"
proof -
  assume "wf_py v"
  then have "parse_value (Suc (2 * length (json_dumps v))) dict_hook (json_dumps v @ []) = Inr (canon v, [])"
    by (intro reads_backD wf_reads_back) simp_all
  moreover have "skip_ws (json_dumps v) = json_dumps v" using dumps_start [of v] by auto
  ultimately show ?thesis
    by (simp add: json_loads_def loads_hook_def skip_ws_def [of "[]"] del: parse_value.simps)
qed

section \<open>The parser shortens its text and its fuel is enough\<close>

lemma length_skip_ws: "length (skip_ws s) \<le> length s"
  by (simp add: skip_ws_def length_dropWhile_le)

lemma skip_ws_length: "skip_ws r = c # cs \<Longrightarrow> length cs < length r"
  using length_skip_ws [of r] by simp

lemma tl_skip_ws: "skip_ws cs \<noteq> [] \<Longrightarrow> length (tl (skip_ws cs)) < length cs"
  using length_skip_ws [of cs] by (cases "skip_ws cs") auto

lemma read_str_length: "read_str s = Some (t, r) \<Longrightarrow> length t + length r < length s"
proof (induction s arbitrary: t r rule: read_str.induct)
  case (2 c cs)
  then show ?case
    by (auto split: if_splits list.splits option.splits) fastforce+
qed simp

lemma read_frac_length: "read_frac s = Some (f, r) \<Longrightarrow> length r < length s"
  by (auto simp: read_frac_def length_dropWhile_le less_Suc_eq_le split: list.splits if_splits)

lemma read_exp_length: "read_exp s = Some (e, r) \<Longrightarrow> length r < length s"
  by (auto simp: read_exp_def Let_def less_Suc_eq_le split: list.splits if_splits
     intro: length_dropWhile_le order_trans [OF length_dropWhile_le])

lemma number_value_length: "number_value sign whole rest = (v, r) \<Longrightarrow> length r \<le> length rest"
  by (auto simp: number_value_def Let_def split: option.splits if_splits prod.splits
     dest!: read_frac_length read_exp_length)

lemma int_part_length: "length (int_part t) \<le> length t"
  using length_takeWhile_le [of is_digit t] by (simp add: int_part_def Let_def min.coboundedI1)

lemma read_number_length:
  assumes "read_number s = Some (v, r)"
  shows "length r < length s"
proof -
  let ?neg = "s \<noteq> [] \<and> hd s = CHR ''-''"
  define t where "t = (if ?neg then tl s else s)"
  from assms have "length t \<le> length s" "int_part t \<noteq> []"
      "number_value (if ?neg then -1 else 1) (int_part t) (drop (length (int_part t)) t) = (v, r)"
    by (auto simp: read_number_def t_def Let_def split: if_splits)
  moreover from this have "length r \<le> length t - length (int_part t)"
    using number_value_length by fastforce
  moreover have "0 < length (int_part t)" using \<open>int_part t \<noteq> []\<close> by simp
  ultimately show ?thesis using int_part_length [of t] by linarith
qed

lemma read_word_length: "read_word s = Some (v, r) \<Longrightarrow> length r < length s"
  by (cases s) (auto simp: read_word_def split: if_splits)

text \<open>The size of a value as a share of the text it can come from.\<close>

fun py_weight :: "py \<Rightarrow> nat" where
  "py_weight (PStr s) = Suc (length s)"
| "py_weight (PList xs) = Suc (sum_list (map py_weight xs))"
| "py_weight (PDict d) = Suc (sum_list (map (\<lambda>(k, v). py_weight v) d))"
| "py_weight v = 0"

abbreviation items_weight :: "(string \<times> py) list \<Rightarrow> nat" where
  "items_weight d \<equiv> sum_list (map (\<lambda>(k, v). py_weight v) d)"

definition light_hook :: "pairs_hook \<Rightarrow> bool" where
  "light_hook hook \<longleftrightarrow> (\<forall>kvs v. hook kvs = Inr v \<longrightarrow> py_weight v \<le> Suc (items_weight kvs))"

lemma read_number_weight: "read_number s = Some (v, r) \<Longrightarrow> py_weight v = 0"
  by (auto simp: read_number_def number_value_def Let_def split: if_splits option.splits prod.splits)

lemma read_word_weight: "read_word s = Some (v, r) \<Longrightarrow> py_weight v = 0"
  by (auto simp: read_word_def split: if_splits)

text \<open>The ways a value, an element list and a member list can be read.\<close>

lemma parse_value_SucE:
  assumes "parse_value (Suc n) hook s = Inr (v, r)"
  obtains (str) cs t where "s = CHR 0x22 # cs" "read_str cs = Some (t, r)" "v = PStr t"
  | (nil) cs where "s = CHR ''['' # cs" "length r < length cs" "v = PList []"
  | (items) cs xs where "s = CHR ''['' # cs" "parse_items n hook (skip_ws cs) = Inr (xs, r)" "v = PList xs"
  | (empty) cs where "s = CHR ''{'' # cs" "length r < length cs" "hook [] = Inr v"
  | (members) cs kvs where "s = CHR ''{'' # cs" "parse_members n hook (skip_ws cs) = Inr (kvs, r)" "hook kvs = Inr v"
  | (word) "read_word s = Some (v, r)"
  | (number) "read_number s = Some (v, r)"
  using assms
  by (auto dest: tl_skip_ws simp del: length_tl split: list.splits if_splits option.splits sum.splits prod.splits)

lemma parse_items_SucE:
  assumes "parse_items (Suc n) hook s = Inr (xs, r)"
  obtains (last) x r0 where "parse_value n hook s = Inr (x, r0)" "length r < length r0" "xs = [x]"
  | (more) x r0 cs ys where "parse_value n hook s = Inr (x, r0)" "length cs < length r0"
      "parse_items n hook (skip_ws cs) = Inr (ys, r)" "xs = x # ys"
  using assms
  by (auto split: list.splits if_splits sum.splits prod.splits dest!: skip_ws_length)

lemma parse_members_SucE:
  assumes "parse_members (Suc n) hook s = Inr (kvs, r)"
  obtains (last) t k v r0 where "length t < length s" "parse_value n hook (skip_ws t) = Inr (v, r0)"
      "length r < length r0" "kvs = [(k, v)]"
  | (more) t k v r0 cs ys where "length t < length s" "parse_value n hook (skip_ws t) = Inr (v, r0)"
      "length cs < length r0" "parse_members n hook (skip_ws cs) = Inr (ys, r)" "kvs = (k, v) # ys"
proof -
  from assms obtain ks k r0 c r1 where s: "s = CHR 0x22 # ks" "read_str ks = Some (k, r0)"
     "skip_ws r0 = c # r1" 
    by (auto split: list.splits if_splits sum.splits prod.splits option.splits)
  then have "length r1 < length s" using read_str_length [OF s(2)] skip_ws_length [OF s(3)] by simp
  with assms s that show thesis
    by (auto split: list.splits if_splits sum.splits prod.splits dest!: skip_ws_length)
qed

declare parse_value.simps [simp del] parse_items.simps [simp del] parse_members.simps [simp del]

lemma skip_ws_less: "n < length (skip_ws s) \<Longrightarrow> n < length s"
  using length_skip_ws [of s] by simp

lemma parse_weight:
  assumes "light_hook hook"
  shows "parse_value n hook s = Inr (v, r) \<Longrightarrow> py_weight v + length r < length s"
  "parse_items n hook s = Inr (xs, r) \<Longrightarrow> sum_list (map py_weight xs) + length r < length s"
  "parse_members n hook s = Inr (kvs, r) \<Longrightarrow> items_weight kvs + length r < length s"
proof (induction n arbitrary: s v r xs kvs)
  case 0
  { case 1 then show ?case by (simp add: parse_value.simps) }
  { case 2 then show ?case by (simp add: parse_items.simps) }
  { case 3 then show ?case by (simp add: parse_members.simps) }
next
  case (Suc n)
  { case 1 then show ?case
    proof (cases rule: parse_value_SucE)
      case (items cs xs)
      from Suc.IH(2) [OF items(2)] have "sum_list (map py_weight xs) + length r < length cs"
        by (rule skip_ws_less)
      with items show ?thesis by simp
    next
      case (members cs kvs)
      from Suc.IH(3) [OF members(2)] have "items_weight kvs + length r < length cs"
        by (rule skip_ws_less)
      moreover have "py_weight v \<le> Suc (items_weight kvs)" using assms members(3) by (simp add: light_hook_def)
      ultimately show ?thesis using members by simp
    next
      case (empty cs)
      then have "py_weight v \<le> Suc 0" using assms by (fastforce simp: light_hook_def)
      with empty show ?thesis by simp
    qed (use read_str_length read_number_length read_number_weight read_word_length read_word_weight in fastforce)+ }
  { case 2 then show ?case
    proof (cases rule: parse_items_SucE)
      case (last x r0)
      with Suc.IH(1) [OF last(1)] show ?thesis by simp
    next
      case (more x r0 cs ys)
      from Suc.IH(2) [OF more(3)] have "sum_list (map py_weight ys) + length r < length cs"
        by (rule skip_ws_less)
      with more Suc.IH(1) [OF more(1)] show ?thesis by simp
    qed }
  { case 3 then show ?case
    proof (cases rule: parse_members_SucE)
      case (last t k v r0)
      from Suc.IH(1) [OF last(2)] have "py_weight v + length r0 < length t" by (rule skip_ws_less)
      with last show ?thesis by simp
    next
      case (more t k v r0 cs ys)
      from Suc.IH(3) [OF more(4)] have "items_weight ys + length r < length cs" by (rule skip_ws_less)
      moreover from Suc.IH(1) [OF more(2)] have "py_weight v + length r0 < length t" by (rule skip_ws_less)
      ultimately show ?thesis using more by simp
    qed }
qed

lemma parse_value_length:
  "light_hook hook \<Longrightarrow> parse_value n hook s = Inr (v, r) \<Longrightarrow> length r < length s"
  using parse_weight(1) by fastforce

lemma parse_fuel:
  assumes "light_hook hook"
  shows "2 * length s < n \<Longrightarrow> 2 * length s < m \<Longrightarrow> parse_value n hook s = parse_value m hook s"
  "2 * length s + 1 < n \<Longrightarrow> 2 * length s + 1 < m \<Longrightarrow> parse_items n hook s = parse_items m hook s"
  "2 * length s + 1 < n \<Longrightarrow> 2 * length s + 1 < m \<Longrightarrow> parse_members n hook s = parse_members m hook s"
proof (induction n arbitrary: m s)
  case (Suc n)
  { case 1
    then obtain m' where m: "m = Suc m'" by (cases m) auto
    show ?case
    proof (cases s)
      case Nil
      then show ?thesis by (simp add: m parse_value.simps)
    next
      case (Cons c cs)
      have "parse_items n hook (skip_ws cs) = parse_items m' hook (skip_ws cs)"
        "parse_members n hook (skip_ws cs) = parse_members m' hook (skip_ws cs)"
        using Cons 1 m length_skip_ws [of cs] by (intro Suc.IH; simp)+
      then show ?thesis by (simp only: m parse_value.simps Cons list.case)
    qed }
  { case 2
    then obtain m' where m: "m = Suc m'" by (cases m) auto
    have val: "parse_value n hook s = parse_value m' hook s" using 2 m by (intro Suc.IH) auto
    have rest: "parse_items n hook (skip_ws cs) = parse_items m' hook (skip_ws cs)"
      if "parse_value m' hook s = Inr (x, r)" and "skip_ws r = c # cs" for x r c cs
      using parse_value_length [OF assms that(1)] skip_ws_length [OF that(2)] length_skip_ws [of cs] 2 m
      by (intro Suc.IH) auto
    then show ?case
      unfolding m parse_items.simps val by (simp split: list.split sum.split prod.split) }
  { case 3
    then obtain m' where m: "m = Suc m'" by (cases m) auto
    have val: "parse_value n hook (skip_ws r1) = parse_value m' hook (skip_ws r1)"
      if "s = q # ks" "read_str ks = Some (k, r0)" "skip_ws r0 = c # r1" for q ks k r0 c r1
      using that read_str_length [OF that(2)] skip_ws_length [OF that(3)] length_skip_ws [of r1] 3 m
      by (intro Suc.IH) auto
    have rest: "parse_members n hook (skip_ws cs) = parse_members m' hook (skip_ws cs)"
      if "s = q # ks" "read_str ks = Some (k, r0)" "skip_ws r0 = c # r1"
        "parse_value m' hook (skip_ws r1) = Inr (x, r)" "skip_ws r = c' # cs" for q ks k r0 c r1 x r c' cs
      using that read_str_length [OF that(2)] skip_ws_length [OF that(3)] length_skip_ws [of r1]
        parse_value_length [OF assms that(4)] skip_ws_length [OF that(5)] length_skip_ws [of cs] 3 m
      by (intro Suc.IH) auto
    show ?case
      unfolding m parse_members.simps
      by (simp add: val split: list.split option.split sum.split prod.split)
        (intro allI conjI impI notI; (drule (4) rest)?; auto dest: rest) }
qed auto

lemma dict_hook_light: "light_hook dict_hook"
proof -
  have upd: "items_weight (dset d k v) \<le> py_weight v + items_weight d" for d :: dict and k v
    by (induction d) auto
  have "items_weight (dupdate d kvs) \<le> items_weight d + items_weight kvs" for d kvs
  proof (induction kvs arbitrary: d)
    case (Cons p kvs)
    obtain k v where p: "p = (k, v)" by (cases p)
    then show ?case using Cons.IH [of "dset d k v"] upd [where d = d and k = k and v = v] by simp
  qed simp
  from this [of "[]"] show ?thesis by (auto simp: light_hook_def)
qed

lemma loads_hook_weight:
  assumes "light_hook hook" and "loads_hook hook s = Inr v"
  shows "py_weight v < length s"
proof -
  from assms(2) obtain r where "parse_value (Suc (2 * length (skip_ws s))) hook (skip_ws s) = Inr (v, r)"
    by (auto simp: loads_hook_def Let_def split: sum.splits if_splits)
  from parse_weight(1) [OF assms(1) this] length_skip_ws [of s] show ?thesis by simp
qed

section \<open>Two values have the same text exactly when they agree up to the order of keys\<close>

lemma sort_items_idem [simp]: "sort_items (sort_items d) = sort_items d"
  by (simp add: sort_items_def sort_key_id_if_sorted)

lemma json_dumps_canon: "json_dumps (canon v) = json_dumps v"
proof (induction v rule: canon.induct)
  case (1 xs)
  then have "map json_dumps (map canon xs) = map json_dumps xs" by simp
  then show ?case by (simp only: canon.simps json_dumps_list)
next
  case (2 d)
  let ?f = "\<lambda>p. (fst p, canon (snd p))"
  have "map item_text (map ?f (sort_items d)) = map item_text (sort_items d)"
    using 2 by (auto simp: item_text_def)
  moreover have "sort_items (map ?f (sort_items d)) = map ?f (sort_items d)"
    by (simp add: sort_items_map)
  ultimately show ?case by (simp only: canon_dict json_dumps_dict)
qed simp_all

lemma dumps_eq_iff_canon:
  "wf_py v \<Longrightarrow> wf_py w \<Longrightarrow> json_dumps v = json_dumps w \<longleftrightarrow> canon v = canon w"
  by (metis json_dumps_canon loads_dumps option.inject)

lemma map_of_sort_items: "distinct (map fst d) \<Longrightarrow> map_of (sort_items d) = map_of d"
  using map_of_inject_set [of "sort_items d" d] distinct_keys_sort_items by auto

lemma map_of_map_snd: "map_of (map (\<lambda>p. (fst p, f (snd p))) d) k = map_option f (map_of d k)"
  by (induction d) auto

text \<open>Dictionaries that agree up to order hold the same keys with agreeing values.\<close>

lemma canon_dict_lookup:
  assumes "canon (PDict d) = canon (PDict e)" and "distinct (map fst d)" and "distinct (map fst e)"
  shows "map_option canon (map_of d k) = map_option canon (map_of e k)"
proof -
  have "map_option canon (map_of (sort_items d) k) = map_option canon (map_of (sort_items e) k)"
    using assms(1) by (simp only: canon_dict py.inject flip: map_of_map_snd)
  then show ?thesis by (simp add: map_of_sort_items assms(2,3))
qed

section \<open>The encoding of text is injective\<close>

lemma code_of_less: "code_of c < 256"
  using of_char_of [where ?'a = nat, of "code_of c"] char_of_char [of c] by (metis mod_less_divisor zero_less_numeral)

lemma utf8_char_prefix: "utf8_char c @ s = utf8_char d @ t \<Longrightarrow> c = d \<and> s = t"
proof -
  assume eq: "utf8_char c @ s = utf8_char d @ t"
  have hc: "code_of (hd (utf8_char x)) < 128 \<longleftrightarrow> code_of x < 128" for x
    using less_mult_imp_div_less [of "code_of x" 4 64] code_of_less [of x]
    by (auto simp: utf8_char_def Let_def)
  have "hd (utf8_char c) = hd (utf8_char d)"
    using arg_cong [OF eq, of hd] by (simp add: utf8_char_def Let_def split: if_splits)
  then have both: "code_of c < 128 \<longleftrightarrow> code_of d < 128" using hc [of c] hc [of d] by simp
  show ?thesis
  proof (cases "code_of c < 128")
    case True
    then show ?thesis using eq both by (simp add: utf8_char_def)
  next
    case False
    with eq both have "char_of (192 + code_of c div 64) = (char_of (192 + code_of d div 64) :: char)"
      "char_of (128 + code_of c mod 64) = (char_of (128 + code_of d mod 64) :: char)" "s = t"
      by (auto simp: utf8_char_def Let_def)
    then have "192 + code_of c div 64 = 192 + code_of d div 64" "128 + code_of c mod 64 = 128 + code_of d mod 64"
      using code_of_less [of c] code_of_less [of d] by (auto dest!: arg_cong [of _ _ code_of])
    then have "code_of c = code_of d" by (metis add_left_cancel div_mult_mod_eq)
    with \<open>s = t\<close> show ?thesis by simp
  qed
qed

lemma utf8_inj: "utf8 s = utf8 t \<Longrightarrow> s = t"
proof (induction s arbitrary: t)
  case Nil
  then show ?case by (cases t) (auto simp: utf8_Cons utf8_char_def Let_def split: if_splits)
next
  case (Cons c s)
  show ?case
  proof (cases t)
    case Nil
    with Cons.prems show ?thesis by (auto simp: utf8_Cons utf8_char_def Let_def split: if_splits)
  next
    case (Cons d t')
    with Cons.prems Cons.IH utf8_char_prefix [of c "utf8 s" d "utf8 t'"] show ?thesis
      by (auto simp: utf8_Cons)
  qed
qed

end
