(* ===== verification/Seals.thy ===== *)
theory Seals
  imports JsonText
begin

text \<open>
  Digests that protect retained dictionaries. The record, the evidence packages, the accepted
  edition, its review certificate and the delivery authorization all keep the digest of a
  dictionary in a field of that dictionary. The locale \<open>digest_seal\<close> is the contract of such
  a check; every component that seals a dictionary interprets it on its own check.
\<close>

section \<open>Tamper evidence of a digest\<close>

text \<open>
  SHA-256 is not injective, so tamper evidence cannot promise equal content outright: what it
  promises is that the encoded texts of these two values would have to be different texts with
  one digest. The predicate names the two texts, so it is a statement about them and not about
  the hash function at large.
\<close>

definition texts_collide :: "(string \<Rightarrow> string) \<Rightarrow> py \<Rightarrow> py \<Rightarrow> bool" where
  "texts_collide sha v w \<longleftrightarrow> utf8 (json_dumps v) \<noteq> utf8 (json_dumps w) \<and>
     sha (utf8 (json_dumps v)) = sha (utf8 (json_dumps w))"

lemma same_digest_agree:
  assumes "wf_py v" and "wf_py w" and "json_digest sha v = json_digest sha w"
  shows "canon v = canon w \<or> texts_collide sha v w"
  using dumps_eq_iff_canon [OF assms(1,2)] utf8_inj [of "json_dumps v" "json_dumps w"] assms(3)
  by (auto simp: json_digest_def texts_collide_def)

text \<open>
  C6. The digest of a retained value is tamper evident: two values with the same digest agree up
  to the order of dictionary keys, unless the two encoded texts are a collision of the
  hash function; and the order of keys never changes a digest.
\<close>

theorem canonical_hash_tamper_evident:
  assumes "wf_py v" and "wf_py w"
  shows "(canonical_hash sha v = canonical_hash sha w \<longrightarrow>
      canon v = canon w \<or>
      (utf8 (json_dumps v) \<noteq> utf8 (json_dumps w) \<and> sha (utf8 (json_dumps v)) = sha (utf8 (json_dumps w)))) \<and>
    (canon v = canon w \<longrightarrow> canonical_hash sha v = canonical_hash sha w)"
  using dumps_eq_iff_canon [OF assms] utf8_inj [of "json_dumps v" "json_dumps w"]
  by (auto simp: canonical_hash_eq_json_digest json_digest_def)

theorem canonical_hash_tamper_evident_witness:
  "canonical_hash (\<lambda>s. s) (PDict [(''a'', PInt 1), (''b'', PNone)]) =
   canonical_hash (\<lambda>s. s) (PDict [(''b'', PNone), (''a'', PInt 1)])"
  using canonical_hash_tamper_evident [of "PDict [(''a'', PInt 1), (''b'', PNone)]"
      "PDict [(''b'', PNone), (''a'', PInt 1)]" "\<lambda>s. s"]
  by (simp add: sort_items_def)

section \<open>Sealed dictionaries\<close>

text \<open>
  The check of a digest kept as text: the field is popped, read with \<open>str(value or "")\<close> and has
  to be the digest of the rest.
\<close>

definition field_seal_valid :: "(string \<Rightarrow> string) \<Rightarrow> string \<Rightarrow> dict \<Rightarrow> bool" where
  "field_seal_valid sha field d =
    (let claimed = str_or_empty (dget d field)
     in claimed \<noteq> [] \<and> claimed = json_digest sha (PDict (dpop d field)))"

text \<open>
  The contract: a dictionary whose field holds the (non-empty) digest of the rest passes, and
  a dictionary that passes holds that digest.
\<close>

locale digest_seal =
  fixes sha :: "string \<Rightarrow> string" and field :: string and valid :: "dict \<Rightarrow> bool"
  assumes accepts: "dget d field = PStr (json_digest sha (PDict (dpop d field))) \<Longrightarrow>
      json_digest sha (PDict (dpop d field)) \<noteq> [] \<Longrightarrow> valid d"
    and holds_digest: "valid d \<Longrightarrow> str_or_empty (dget d field) = json_digest sha (PDict (dpop d field))"
begin

lemma dpop_seal: "dpop (dset d field v) field = dpop d field"
  by (induction d) auto

lemma seal_valid:
  assumes "\<And>x. sha x \<noteq> []"
  shows "valid (dset d field (PStr (json_digest sha (PDict (dpop d field)))))"
  using assms by (intro accepts) (simp_all add: dpop_seal json_digest_def)

lemma seal_fresh:
  assumes "\<forall>x. sha x \<noteq> []" and "map_of d field = None"
  shows "valid (dset d field (PStr (json_digest sha (PDict d))))"
  using seal_valid [of d] assms by (simp add: dpop_absent)

text \<open>Two valid dictionaries with the same claim agree, or their texts collide.\<close>

lemma same_claim:
  assumes "valid d" and "valid e" and "str_or_empty (dget d field) = str_or_empty (dget e field)"
    and "wf_py (PDict (dpop d field))" and "wf_py (PDict (dpop e field))"
  shows "canon (PDict (dpop d field)) = canon (PDict (dpop e field)) \<or>
    texts_collide sha (PDict (dpop d field)) (PDict (dpop e field))"
  using holds_digest [OF assms(1)] holds_digest [OF assms(2)] assms(3)
  by (intro same_digest_agree [OF assms(4,5)]) simp

text \<open>Changing the value of a sealed key breaks the seal, or the two texts collide.\<close>

lemma change_detected:
  assumes "valid d" and "valid (dset d k v)" and "k \<noteq> field"
    and "wf_py (PDict (dpop d field))" and "wf_py (PDict (dpop (dset d k v) field))"
  shows "map_option canon (map_of d k) = Some (canon v) \<or>
    texts_collide sha (PDict (dpop d field)) (PDict (dpop (dset d k v) field))"
proof -
  have "str_or_empty (dget d field) = str_or_empty (dget (dset d k v) field)" using assms(3) by simp
  from same_claim [OF assms(1,2) this assms(4,5)] show ?thesis
  proof
    assume eq: "canon (PDict (dpop d field)) = canon (PDict (dpop (dset d k v) field))"
    have "map_option canon (map_of (dpop d field) k) = map_option canon (map_of (dpop (dset d k v) field) k)"
      using assms(4,5) by (intro canon_dict_lookup [OF eq]) simp_all
    then show ?thesis using assms(3) by simp
  qed simp
qed

end

lemma field_seal_is_seal: "digest_seal sha field (field_seal_valid sha field)"
  by unfold_locales (simp_all add: field_seal_valid_def Let_def)

interpretation field_seal: digest_seal sha field "field_seal_valid sha field"
  for sha :: "string \<Rightarrow> string" and field :: string
  by (rule field_seal_is_seal)

end
