(* ===== verification/ReportBoundary.thy ===== *)
theory ReportBoundary
  imports Seals
begin

text \<open>
  The boundary that keeps report bundles out of the single-PDF review path
  (\<open>nico/ordinary_bundle_boundary_v2.py\<close>): the accepted edition, its guard, the review decision
  and the delivery authorization all start by refusing a value in which a bundle marker occurs
  in a report-owned container. A serialized report in the \<open>json\<close> slot is parsed, with duplicate keys
  refused, and inspected in turn. Values are trees here, so the set of visited object
  identities, which only skips objects seen before, has no counterpart; that the worklist
  loop ends is shown by the weight of the pending values.
\<close>

section \<open>The inspection\<close>

definition BUNDLE_ERROR :: string where
  "BUNDLE_ERROR = ''report_bundle_requires_v2_boundary''"

definition MAX_REPORT_JSON_BYTES :: nat where
  "MAX_REPORT_JSON_BYTES = 8 * 1024 * 1024"

definition SCHEMA_PREFIXES :: "string list" where
  "SCHEMA_PREFIXES = [''nico.ordinary-review-bundle.'', ''nico.ordinary-report-files.'']"

definition CONTAINERS :: "string list" where
  "CONTAINERS = [''json'', ''report_package'', ''reports'', ''report'', ''artifacts'', ''manifest'',
     ''accepted_edition'', ''operator_approved_edition'', ''operator_delivery_edition'']"

definition REPORT_STAGES :: "string list" where
  "REPORT_STAGES = [''final_comprehensive_report_generation'', ''risk_reduction_and_executive_briefing'',
     ''decision_report_generation'']"

text \<open>\<open>object_pairs\<close>: the first repeated key raises.\<close>

definition object_pairs :: pairs_hook where
  "object_pairs kvs =
    (if distinct (map fst kvs) then Inr (PDict kvs)
     else Inl (ValueError ''report_json_duplicate_key_at_legacy_boundary''))"

definition report_json :: "string \<Rightarrow> dict res" where
  "report_json value =
    (if length value > MAX_REPORT_JSON_BYTES \<or> length (utf8 value) > MAX_REPORT_JSON_BYTES
     then Inl (ValueError ''report_json_size_limit_at_legacy_boundary'')
     else (case loads_hook object_pairs value of
         Inl (JHook e) \<Rightarrow> Inl e
       | Inl JSyntax \<Rightarrow> Inl (ValueError ''report_json_invalid_at_legacy_boundary'')
       | Inr (PDict d) \<Rightarrow> Inr d
       | Inr _ \<Rightarrow> Inl (ValueError ''report_json_object_required_at_legacy_boundary'')))"

definition marks_bundle :: "dict \<Rightarrow> bool" where
  "marks_bundle item = (has_key item ''report_bundle'' \<or> has_key item ''report_bundle_schema'' \<or>
     (case dget item ''artifact_schema'' of
        PStr schema \<Rightarrow> list_ex (\<lambda>prefix. starts_with prefix schema) SCHEMA_PREFIXES
      | _ \<Rightarrow> False))"

definition container_child :: "dict \<Rightarrow> string \<Rightarrow> py res" where
  "container_child item key =
    (case dget item key of
       PStr s \<Rightarrow> if key = ''json'' \<and> s \<noteq> [] then map_sum id PDict (report_json s) else Inr (PStr s)
     | child \<Rightarrow> Inr child)"

definition report_children :: "dict \<Rightarrow> py list res" where
  "report_children item =
     bind_res (map_res (container_child item) CONTAINERS) (\<lambda>children.
       Inr (children @ (case dget item ''stage_results'' of
          PDict stages \<Rightarrow> map (dget stages) REPORT_STAGES | _ \<Rightarrow> [])))"

text \<open>The loads of a report slot are lighter than the slot.\<close>

lemma object_pairs_light: "light_hook object_pairs"
  by (auto simp: light_hook_def object_pairs_def)

lemma report_json_weight: "report_json s = Inr d \<Longrightarrow> py_weight (PDict d) < length s"
  using loads_hook_weight [OF object_pairs_light, of s "PDict d"]
  by (auto simp: report_json_def split: if_splits sum.splits json_error.splits py.splits)

lemma container_child_weight:
  assumes "container_child item key = Inr v"
  shows "py_weight v \<le> py_weight (dget item key)"
proof (cases "\<exists>s. dget item key = PStr s \<and> key = ''json'' \<and> s \<noteq> []")
  case True
  then obtain s where s: "dget item key = PStr s" "key = ''json''" "s \<noteq> []" by blast
  with assms obtain d where "report_json s = Inr d" "v = PDict d"
    by (cases "report_json s") (auto simp: container_child_def)
  with report_json_weight [of s d] s(1) show ?thesis by simp
next
  case False
  then have "v = dget item key" using assms by (cases "dget item key") (auto simp: container_child_def)
  then show ?thesis by simp
qed

lemma weight_keys_le:
  "distinct keys \<Longrightarrow> sum_list (map (\<lambda>k. py_weight (dget d k)) keys) \<le> items_weight d"
proof (induction d arbitrary: keys)
  case Nil
  then show ?case by (induction keys) simp_all
next
  case (Cons p d)
  obtain k v where p: "p = (k, v)" by (cases p)
  have "sum_list (map (\<lambda>j. py_weight (dget (p # d) j)) keys) \<le>
      py_weight v + sum_list (map (\<lambda>j. py_weight (dget d j)) (removeAll k keys))"
    using Cons.prems
  proof (induction keys)
    case (Cons j js)
    have "k \<notin> set js \<Longrightarrow> (\<Sum>j\<leftarrow>js. py_weight (dget (p # d) j)) = (\<Sum>j\<leftarrow>js. py_weight (dget d j))"
      by (rule arg_cong [of _ _ sum_list]) (auto simp: p)
    with Cons show ?case by (cases "j = k") (auto simp: p)
  qed simp
  also have "\<dots> \<le> py_weight v + items_weight d"
    using Cons.IH [of "removeAll k keys"] Cons.prems by (simp add: distinct_removeAll)
  finally show ?case by (simp add: p)
qed

lemma map_res_sum_le:
  assumes "map_res f xs = Inr ys" and "\<And>x y. x \<in> set xs \<Longrightarrow> f x = Inr y \<Longrightarrow> g y \<le> (h x :: nat)"
  shows "sum_list (map g ys) \<le> sum_list (map h xs)"
  using assms by (induction xs arbitrary: ys) (fastforce simp: bind_res_eq_Inr intro: add_mono)+

lemma report_children_weight:
  assumes "report_children item = Inr cs"
  shows "sum_list (map py_weight cs) \<le> items_weight item"
proof -
  let ?stages = "case dget item ''stage_results'' of PDict stages \<Rightarrow> map (dget stages) REPORT_STAGES | _ \<Rightarrow> []"
  from assms obtain ys where ys: "map_res (container_child item) CONTAINERS = Inr ys" "cs = ys @ ?stages"
    by (auto simp: report_children_def bind_res_eq_Inr)
  have "sum_list (map py_weight ys) \<le> sum_list (map (\<lambda>k. py_weight (dget item k)) CONTAINERS)"
    using ys(1) by (rule map_res_sum_le) (rule container_child_weight)
  moreover have "sum_list (map py_weight ?stages) \<le> py_weight (dget item ''stage_results'')"
    using weight_keys_le [of REPORT_STAGES]
    by (auto simp: comp_def REPORT_STAGES_def intro: le_SucI split: py.split)
  moreover have "sum_list (map (\<lambda>k. py_weight (dget item k)) (''stage_results'' # CONTAINERS)) \<le> items_weight item"
    by (rule weight_keys_le) (simp add: CONTAINERS_def)
  ultimately show ?thesis by (simp add: ys(2))
qed

function bundle_loop :: "py list \<Rightarrow> bool res" where
  "bundle_loop [] = Inr False"
| "bundle_loop (item # pending) =
    (case item of
       PDict d \<Rightarrow>
         if marks_bundle d then Inr True
         else (case report_children d of
             Inl e \<Rightarrow> Inl e
           | Inr children \<Rightarrow> bundle_loop (rev children @ pending))
     | _ \<Rightarrow> bundle_loop pending)"
  by pat_completeness auto
termination
proof (relation "measures [\<lambda>ps. sum_list (map py_weight ps), length]", goal_cases)
  case (8 item pending d children)
  then show ?case using report_children_weight [of d children] by (simp flip: rev_map)
qed auto

declare bundle_loop.simps(2) [simp del]

definition has_report_bundle :: "py \<Rightarrow> bool res" where
  "has_report_bundle value = bundle_loop [value]"

fun require_legacy_single_pdf :: "py list \<Rightarrow> unit res" where
  "require_legacy_single_pdf [] = Inr ()"
| "require_legacy_single_pdf (value # values) =
     bind_res (has_report_bundle value) (\<lambda>found.
       if found then Inl (ValueError BUNDLE_ERROR) else require_legacy_single_pdf values)"

section \<open>The inspection finds exactly the markers of report-owned containers\<close>

text \<open>The dictionaries a value owns as reports: itself, and what its report slots own.\<close>

inductive report_owned :: "py \<Rightarrow> dict \<Rightarrow> bool" where
  owned_self: "report_owned (PDict d) d"
| owned_slot: "report_children d = Inr children \<Longrightarrow> child \<in> set children \<Longrightarrow> report_owned child e \<Longrightarrow>
    report_owned (PDict d) e"

inductive_cases report_owned_PDictE: "report_owned (PDict d) e"

lemma report_owned_is_dict: "report_owned v e \<Longrightarrow> is_dict v"
  by (induction rule: report_owned.induct) simp_all

lemma bundle_loop_found:
  "bundle_loop ps = Inr found \<Longrightarrow> found \<longleftrightarrow> (\<exists>p \<in> set ps. \<exists>d. report_owned p d \<and> marks_bundle d)"
proof (induction ps rule: bundle_loop.induct)
  case 1
  then show ?case by simp
next
  case (2 item pending)
  show ?case
  proof (cases "is_dict item")
    case False
    then have "bundle_loop (item # pending) = bundle_loop pending"
      by (cases item) (simp_all add: bundle_loop.simps(2))
    moreover have "\<not> report_owned item d" for d using False report_owned_is_dict by blast
    ultimately show ?thesis using 2 False by (cases item) auto
  next
    case True
    then obtain d where item: "item = PDict d" by (auto simp: is_dict_iff)
    show ?thesis
    proof (cases "marks_bundle d")
      case True
      with 2(8) item have found by (simp add: bundle_loop.simps(2))
      with True item show ?thesis by (auto intro: owned_self)
    next
      case False
      with 2(8) item obtain children where cs: "report_children d = Inr children"
          "bundle_loop (rev children @ pending) = Inr found"
        by (auto simp: bundle_loop.simps(2) split: sum.splits)
      have "(\<exists>e. report_owned (PDict d) e \<and> marks_bundle e) \<longleftrightarrow>
          (\<exists>c \<in> set children. \<exists>e. report_owned c e \<and> marks_bundle e)"
        using False cs(1) by (auto elim!: report_owned_PDictE intro: owned_slot)
      then show ?thesis using 2(7) [OF item False cs] item by auto
    qed
  qed
qed

lemma bundle_loop_append:
  "bundle_loop (xs @ ys) = (case bundle_loop xs of Inr False \<Rightarrow> bundle_loop ys | r \<Rightarrow> r)"
proof (induction xs rule: bundle_loop.induct)
  case 1
  then show ?case by simp
next
  case (2 item pending)
  show ?case
  proof (cases item)
    case (PDict d)
    show ?thesis
    proof (cases "marks_bundle d")
      case False
      then show ?thesis
        using 2(7) [OF PDict False] PDict by (cases "report_children d") (simp_all add: bundle_loop.simps(2))
    qed (simp add: PDict bundle_loop.simps(2))
  qed (use 2 in \<open>simp_all add: bundle_loop.simps(2)\<close>)
qed

lemma bundle_loop_clean_iff: "bundle_loop xs = Inr False \<longleftrightarrow> (\<forall>x \<in> set xs. has_report_bundle x = Inr False)"
proof (induction xs)
  case (Cons x xs)
  then show ?case
    using bundle_loop_append [of "[x]" xs] by (auto simp: has_report_bundle_def split: sum.splits bool.splits)
qed simp

text \<open>Every report slot of a value that passes passes on its own.\<close>

lemma clean_children:
  assumes "has_report_bundle (PDict d) = Inr False"
  obtains children where "report_children d = Inr children"
    and "\<And>c. c \<in> set children \<Longrightarrow> has_report_bundle c = Inr False"
  using assms bundle_loop_clean_iff
  by (auto simp: has_report_bundle_def [of "PDict d"] bundle_loop.simps(2) split: if_splits sum.splits)

lemma clean_slot:
  assumes "has_report_bundle (PDict d) = Inr False" and "k \<in> set CONTAINERS" and "is_dict (dget d k)"
  shows "has_report_bundle (dget d k) = Inr False"
  using assms(1)
proof (rule clean_children)
  fix children
  assume cs: "report_children d = Inr children"
    and clean: "\<And>c. c \<in> set children \<Longrightarrow> has_report_bundle c = Inr False"
  then obtain ys where ys: "map_res (container_child d) CONTAINERS = Inr ys" "set ys \<subseteq> set children"
    by (auto simp: report_children_def bind_res_eq_Inr)
  have "container_child d k = Inr (dget d k)"
    using assms(3) by (auto simp: is_dict_iff container_child_def)
  moreover have "\<exists>y \<in> set ys. container_child d k = Inr y"
    using assms(2) ys(1) by (auto simp: map_res_Inr_iff list_all2_conv_all_nth in_set_conv_nth)
  ultimately show ?thesis using ys(2) clean by auto
qed

lemma clean_stage:
  assumes "has_report_bundle (PDict d) = Inr False" and "dget d ''stage_results'' = PDict stages"
    and "k \<in> set REPORT_STAGES"
  shows "has_report_bundle (dget stages k) = Inr False"
  using assms(1)
  by (rule clean_children) (use assms(2,3) in \<open>auto simp: report_children_def bind_res_eq_Inr\<close>)

text \<open>
  C13. The worklist inspection decides exactly whether a bundle marker occurs in a report-owned
  container of the value: it always ends, and unless a serialized report in it is refused it
  answers true precisely when such a container exists.
\<close>

theorem has_report_bundle_iff_marked:
  assumes "has_report_bundle value = Inr found"
  shows "found \<longleftrightarrow> (\<exists>d. report_owned value d \<and> marks_bundle d)"
  using bundle_loop_found [of "[value]" found] assms by (simp add: has_report_bundle_def)

theorem has_report_bundle_iff_marked_witness:
  "\<exists>d. report_owned (PDict [(''report_bundle'', PNone)]) d \<and> marks_bundle d"
proof -
  have "has_report_bundle (PDict [(''report_bundle'', PNone)]) = Inr True"
    by (simp add: has_report_bundle_def bundle_loop.simps marks_bundle_def)
  from has_report_bundle_iff_marked [OF this] show ?thesis by simp
qed

end
