(* ===== verification/AcceptedEdition.thy ===== *)
theory AcceptedEdition
  imports ReportBoundary
begin

text \<open>
  The accepted edition of a report: the manifest a human decision binds to the exact report
  artifacts (\<open>nico/decision_grade_accepted_edition_v2.py\<close>), the guard that compares a manifest
  with the current report (\<open>nico/decision_grade_accepted_edition_guard_v1.py\<close>), the reviewer
  identity rules (\<open>nico/comprehensive_client_delivery_contract_v1.py\<close>) and the review decision that
  builds the manifest from a run record (\<open>nico/comprehensive_review_decision_v1.py\<close>).

  An artifact is a JSON value or a byte string. The hash function and the human-review ledger
  (\<open>comprehensive_review_work_v2.ledger_for_record\<close>) are parameters.
\<close>

section \<open>Artifacts\<close>

datatype artifact = Value py | Bytes string

definition artifact_bytes :: "artifact \<Rightarrow> string" where
  "artifact_bytes a = (case a of
     Bytes b \<Rightarrow> b
   | Value v \<Rightarrow> (case v of PStr s \<Rightarrow> utf8 s | _ \<Rightarrow> utf8 (json_dumps v)))"

text \<open>\<open>value in (None, "", b"")\<close>.\<close>

definition artifact_missing :: "artifact \<Rightarrow> bool" where
  "artifact_missing a = (a = Value PNone \<or> a = Value (PStr []) \<or> a = Bytes [])"

definition artifact_entry :: "(string \<Rightarrow> string) \<Rightarrow> artifact \<Rightarrow> py" where
  "artifact_entry sha a = PDict [
     (''sha256'', PStr (sha (artifact_bytes a))),
     (''size_bytes'', PInt (int (length (artifact_bytes a))))]"

text \<open>\<open>base64.b64decode(text, validate=True)\<close>; \<open>None\<close> when it raises.\<close>

definition b64_val :: "char \<Rightarrow> nat option" where
  "b64_val c = (let n = code_of c in
     if 65 \<le> n \<and> n \<le> 90 then Some (n - 65)
     else if 97 \<le> n \<and> n \<le> 122 then Some (n - 71)
     else if 48 \<le> n \<and> n \<le> 57 then Some (n + 4)
     else if n = 43 then Some 62
     else if n = 47 then Some 63
     else None)"

fun b64decode :: "string \<Rightarrow> string option" where
  "b64decode [] = Some []"
| "b64decode (a # b # c # d # rest) =
    (case (b64_val a, b64_val b) of
       (Some w, Some x) \<Rightarrow>
         (let first = char_of (w * 4 + x div 16) in
          if c = CHR ''='' then
            (if d = CHR ''='' \<and> rest = [] then Some [first] else None)
          else (case b64_val c of
              None \<Rightarrow> None
            | Some y \<Rightarrow>
                (let second = char_of ((x mod 16) * 16 + y div 4) in
                 if d = CHR ''='' then (if rest = [] then Some [first, second] else None)
                 else (case b64_val d of
                     None \<Rightarrow> None
                   | Some z \<Rightarrow> map_option (\<lambda>out. first # second # char_of ((y mod 4) * 64 + z) # out)
                       (b64decode rest)))))
     | _ \<Rightarrow> None)"
| "b64decode _ = None"

definition package_pdf :: "dict \<Rightarrow> string" where
  "package_pdf package = (case b64decode (str_or_empty (dget package ''pdf_base64'')) of
     Some b \<Rightarrow> b | None \<Rightarrow> [])"

section \<open>The manifest of a reviewed edition\<close>

definition ACCEPTED_EDITION_VERSION :: string where
  "ACCEPTED_EDITION_VERSION = ''nico.decision_grade_accepted_edition.v2''"

definition REQUIRED_ARTIFACTS :: "string list" where
  "REQUIRED_ARTIFACTS = [''markdown'', ''html'', ''pdf'', ''json'']"

definition ALLOWED_DECISIONS :: "string list" where
  "ALLOWED_DECISIONS = [''approved'', ''rejected'', ''request_more_evidence'']"

record edition_request =
  req_repository :: string
  req_commit_sha :: string
  req_tree_sha :: string
  req_run_id :: string
  req_scanner_run_id :: string
  req_evidence_bundle_hash :: string
  req_report_language :: string
  req_assessment_depth :: string
  req_artifacts :: "(string \<times> artifact) list"
  req_reviewer :: string
  req_reviewer_role :: string
  req_decision :: string
  req_decision_reason :: string
  req_decided_at :: "string option"

definition edition_identity :: "edition_request \<Rightarrow> (string \<times> string) list" where
  "edition_identity r = [
     (''repository'', py_strip (req_repository r)),
     (''commit_sha'', py_strip (req_commit_sha r)),
     (''tree_sha'', py_strip (req_tree_sha r)),
     (''run_id'', py_strip (req_run_id r)),
     (''scanner_run_id'', py_strip (req_scanner_run_id r)),
     (''evidence_bundle_hash'', py_strip (req_evidence_bundle_hash r)),
     (''report_language'', py_strip (req_report_language r)),
     (''assessment_depth'', py_strip (req_assessment_depth r))]"

definition missing_error :: "string \<Rightarrow> string \<Rightarrow> string list" where
  "missing_error field value = (if value = [] then [''missing_'' @ field] else [])"

definition missing_artifacts :: "(string \<times> artifact) list \<Rightarrow> string list" where
  "missing_artifacts arts = filter (\<lambda>name. case map_of arts name of
     None \<Rightarrow> True | Some a \<Rightarrow> artifact_missing a) REQUIRED_ARTIFACTS"

text \<open>The digests: the four required artifacts that are there, then the evidence manifest.\<close>

definition edition_digests :: "(string \<Rightarrow> string) \<Rightarrow> (string \<times> artifact) list \<Rightarrow> dict" where
  "edition_digests sha arts = concat (map (\<lambda>name. case map_of arts name of
       None \<Rightarrow> []
     | Some a \<Rightarrow> if artifact_missing a then [] else [(name, artifact_entry sha a)])
     (REQUIRED_ARTIFACTS @ [''evidence_manifest'']))"

definition edition_timestamp :: "string \<Rightarrow> edition_request \<Rightarrow> string" where
  "edition_timestamp now r = py_strip (case req_decided_at r of
     Some t \<Rightarrow> if t = [] then now else t | None \<Rightarrow> now)"

definition edition_decision :: "edition_request \<Rightarrow> string" where
  "edition_decision r = py_casefold (py_strip (req_decision r))"

definition edition_errors :: "string \<Rightarrow> edition_request \<Rightarrow> string list" where
  "edition_errors now r =
     concat (map (\<lambda>(field, value). missing_error (''identity:'' @ field) value) (edition_identity r)) @
     missing_error ''reviewer'' (py_strip (req_reviewer r)) @
     missing_error ''reviewer_role'' (py_strip (req_reviewer_role r)) @
     missing_error ''decision_reason'' (py_strip (req_decision_reason r)) @
     (if edition_decision r \<notin> set ALLOWED_DECISIONS then [''invalid_decision''] else []) @
     (if missing_artifacts (req_artifacts r) \<noteq> []
      then [''missing_required_artifacts:'' @ py_join '','' (missing_artifacts (req_artifacts r))] else []) @
     missing_error ''decided_at'' (edition_timestamp now r)"

definition review_certificate :: "(string \<Rightarrow> string) \<Rightarrow> string \<Rightarrow> edition_request \<Rightarrow> string \<Rightarrow> dict" where
  "review_certificate sha now r digest =
    (let certificate = [
       (''reviewer'', PStr (py_strip (req_reviewer r))),
       (''reviewer_role'', PStr (py_strip (req_reviewer_role r))),
       (''decision'', PStr (if edition_decision r = [] then ''invalid'' else edition_decision r)),
       (''reason'', PStr (py_strip (req_decision_reason r))),
       (''decided_at'', PStr (edition_timestamp now r)),
       (''report_artifact_digest'', PStr digest),
       (''evidence_bundle_hash'', PStr (py_strip (req_evidence_bundle_hash r)))]
     in dset certificate ''approval_certificate_sha256'' (PStr (json_digest sha (PDict certificate))))"

text \<open>The artifacts as the boundary sees them: a byte string is no mapping.\<close>

definition artifacts_view :: "(string \<times> artifact) list \<Rightarrow> py" where
  "artifacts_view arts = PDict (map (\<lambda>(name, a). (name, case a of Value v \<Rightarrow> v | Bytes _ \<Rightarrow> PNone)) arts)"

text \<open>The manifest before its digest is added.\<close>

definition edition_body :: "(string \<Rightarrow> string) \<Rightarrow> string \<Rightarrow> edition_request \<Rightarrow> dict" where
  "edition_body sha now r =
    (let errors = edition_errors now r;
         digests = edition_digests sha (req_artifacts r);
         digest = json_digest sha (PDict digests);
         approved = (edition_decision r = ''approved'' \<and> errors = [])
     in [(''artifact_schema'', PStr ACCEPTED_EDITION_VERSION)] @
        map (\<lambda>(field, value). (field, PStr value)) (edition_identity r) @
        [(''report_artifact_digest'', PStr digest),
         (''artifact_digests'', PDict digests),
         (''review'', PDict (review_certificate sha now r digest)),
         (''validation_errors'', PList (map PStr errors)),
         (''accepted_edition'', PBool approved),
         (''delivery_status'', PStr (if approved then ''pending_authorization'' else ''blocked'')),
         (''human_review_required'', PBool True),
         (''client_delivery_allowed'', PBool False)])"

definition build_accepted_report_edition ::
  "(string \<Rightarrow> string) \<Rightarrow> string \<Rightarrow> edition_request \<Rightarrow> dict res" where
  "build_accepted_report_edition sha now r =
     bind_res (require_legacy_single_pdf [artifacts_view (req_artifacts r)]) (\<lambda>_.
     let manifest = edition_body sha now r
     in Inr (dset manifest ''accepted_edition_manifest_sha256'' (PStr (json_digest sha (PDict manifest)))))"

section \<open>The guard of an accepted edition\<close>

definition EVIDENCE_MANIFEST_KEYS :: "string list" where
  "EVIDENCE_MANIFEST_KEYS = [''artifact_manifest'', ''evidence_manifest_json'',
     ''evidence_manifest_sha256'', ''draft_artifact_identity'']"

definition has_evidence_manifest :: "dict \<Rightarrow> bool" where
  "has_evidence_manifest package =
     list_ex (\<lambda>key. dget package key \<noteq> PNone \<and> dget package key \<noteq> PStr []) EVIDENCE_MANIFEST_KEYS"

definition package_artifacts :: "dict \<Rightarrow> (string \<times> artifact) list" where
  "package_artifacts package = [
     (''markdown'', Value (dget package ''markdown'')),
     (''html'', Value (dget package ''html'')),
     (''pdf'', Bytes (package_pdf package)),
     (''json'', Value (dget package ''json''))] @
     (if has_evidence_manifest package
      then [(''evidence_manifest'', Value (dget package ''evidence_manifest_json''))] else [])"

definition package_digests :: "(string \<Rightarrow> string) \<Rightarrow> dict \<Rightarrow> dict" where
  "package_digests sha package = concat (map (\<lambda>(name, a).
     if artifact_missing a then [] else [(name, artifact_entry sha a)]) (package_artifacts package))"

definition current_report_artifact_digests :: "(string \<Rightarrow> string) \<Rightarrow> dict \<Rightarrow> dict res" where
  "current_report_artifact_digests sha package =
     bind_res (require_legacy_single_pdf [PDict package]) (\<lambda>_. Inr (package_digests sha package))"

definition current_report_artifact_digest :: "(string \<Rightarrow> string) \<Rightarrow> dict \<Rightarrow> string res" where
  "current_report_artifact_digest sha package =
     bind_res (current_report_artifact_digests sha package) (\<lambda>digests. Inr (json_digest sha (PDict digests)))"

definition required_digests :: "dict \<Rightarrow> string list" where
  "required_digests package = [''markdown'', ''html'', ''pdf'', ''json''] @
     (if has_evidence_manifest package then [''evidence_manifest''] else [])"

definition REPORT_IDENTITY_FIELDS :: "string list" where
  "REPORT_IDENTITY_FIELDS = [''repository'', ''commit_sha'', ''run_id'', ''report_language'', ''assessment_depth'']"

definition EVIDENCE_IDENTITY_FIELDS :: "string list" where
  "EVIDENCE_IDENTITY_FIELDS = [''tree_sha'', ''scanner_run_id'', ''evidence_bundle_hash'']"

definition report_identity :: "dict \<Rightarrow> dict" where
  "report_identity package = as_dict (dget (as_dict (dget package ''json'')) ''identity'')"

definition expected_identity_text :: "dict \<Rightarrow> dict option \<Rightarrow> string \<Rightarrow> string" where
  "expected_identity_text package trusted field =
    (let expected = text_of (dget (report_identity package) field) in
     if expected = [] then (case trusted of Some t \<Rightarrow> text_of (dget t field) | None \<Rightarrow> []) else expected)"

definition identity_errors :: "dict \<Rightarrow> dict \<Rightarrow> dict option \<Rightarrow> string list" where
  "identity_errors package candidate trusted =
     concat (map (\<lambda>field.
       let expected = expected_identity_text package trusted field;
           actual = text_of (dget candidate field)
       in if expected = [] then [''current_report_identity_missing:'' @ field]
          else if actual \<noteq> expected then [''accepted_edition_identity_mismatch:'' @ field] else [])
       REPORT_IDENTITY_FIELDS) @
     concat (map (\<lambda>field. if text_of (dget candidate field) = []
       then [''accepted_edition_identity_missing:'' @ field] else []) EVIDENCE_IDENTITY_FIELDS)"

definition edition_review :: "dict \<Rightarrow> dict" where
  "edition_review candidate = as_dict (dget candidate ''review'')"

definition status_errors :: "dict \<Rightarrow> py list \<Rightarrow> string list" where
  "status_errors candidate recorded =
    (let review = edition_review candidate;
         allowed = (dget candidate ''client_delivery_allowed'' = PBool True)
     in (if dget candidate ''artifact_schema'' \<noteq> PStr ACCEPTED_EDITION_VERSION
           then [''accepted_edition_schema_mismatch''] else []) @
        (if dget candidate ''accepted_edition'' \<noteq> PBool True
           then [''accepted_edition_not_approved''] else []) @
        (if str_or_empty (dget candidate ''delivery_status'') \<noteq>
              (if allowed then ''approved_for_delivery'' else ''pending_authorization'')
           then [''accepted_edition_delivery_status_invalid''] else []) @
        (if recorded \<noteq> [] then [''accepted_edition_contains_validation_errors''] else []) @
        (if py_casefold (str_or_empty (dget review ''decision'')) \<noteq> ''approved''
           then [''accepted_edition_review_decision_invalid''] else []) @
        (if text_of (dget review ''reviewer'') = [] then [''accepted_edition_reviewer_required''] else []) @
        (if text_of (dget review ''reviewer_role'') = []
           then [''accepted_edition_reviewer_role_required''] else []))"

definition digest_errors :: "dict \<Rightarrow> dict \<Rightarrow> dict \<Rightarrow> string \<Rightarrow> string list" where
  "digest_errors package candidate digests digest =
     (if set (map fst digests) \<noteq> set (required_digests package)
        then [''current_report_required_artifacts_missing''] else []) @
     (if \<not> py_eq (dget candidate ''artifact_digests'') (PDict digests)
        then [''accepted_edition_artifact_digests_mismatch''] else []) @
     (if str_or_empty (dget candidate ''report_artifact_digest'') \<noteq> digest
        then [''accepted_edition_report_digest_mismatch''] else []) @
     (if str_or_empty (dget (edition_review candidate) ''report_artifact_digest'') \<noteq> digest
        then [''accepted_edition_certificate_report_digest_mismatch''] else [])"

definition GUARD_VERSION :: string where
  "GUARD_VERSION = ''nico.decision_grade_accepted_edition_guard.v1''"

definition accepted_edition_errors ::
  "(string \<Rightarrow> string) \<Rightarrow> dict \<Rightarrow> dict \<Rightarrow> dict option \<Rightarrow> string list res" where
  "accepted_edition_errors sha package candidate trusted =
     bind_res (require_legacy_single_pdf [PDict package, PDict candidate]) (\<lambda>_.
     bind_res (list_or_empty (dget candidate ''validation_errors'')) (\<lambda>recorded.
     bind_res (current_report_artifact_digests sha package) (\<lambda>digests.
     bind_res (current_report_artifact_digest sha package) (\<lambda>digest.
       Inr (status_errors candidate recorded @ digest_errors package candidate digests digest @
            identity_errors package candidate trusted)))))"

definition validate_accepted_edition ::
  "(string \<Rightarrow> string) \<Rightarrow> dict \<Rightarrow> dict \<Rightarrow> dict option \<Rightarrow> dict res" where
  "validate_accepted_edition sha package candidate trusted =
     bind_res (accepted_edition_errors sha package candidate trusted) (\<lambda>errors.
     bind_res (current_report_artifact_digests sha package) (\<lambda>digests.
       Inr [
         (''artifact_schema'', PStr GUARD_VERSION),
         (''status'', PStr (if errors = [] then ''valid'' else ''invalid'')),
         (''validation_errors'', PList (map PStr errors)),
         (''current_report_artifact_digest'', PStr (json_digest sha (PDict digests))),
         (''current_report_artifact_digests'', PDict digests),
         (''human_approval_valid'', PBool (errors = [])),
         (''client_delivery_allowed'',
            PBool (errors = [] \<and> dget candidate ''client_delivery_allowed'' = PBool True))]))"

definition guard_report_package_accepted_edition :: "(string \<Rightarrow> string) \<Rightarrow> dict \<Rightarrow> dict res" where
  "guard_report_package_accepted_edition sha package =
    (case dget package ''accepted_edition'' of
       PDict candidate \<Rightarrow>
         bind_res (validate_accepted_edition sha package candidate None) (\<lambda>validation.
           let guarded = dset package ''accepted_edition_validation'' (PDict validation) in
           if dget validation ''status'' = PStr ''valid'' then Inr guarded
           else bind_res (list_or_empty (dget candidate ''validation_errors'')) (\<lambda>recorded.
             bind_res (list_or_empty (dget validation ''validation_errors'')) (\<lambda>found.
             let errors = sort (remdups (map py_str recorded @ map py_str found));
                 blocked = dset (dset (dset (dset candidate ''accepted_edition'' (PBool False))
                   ''client_delivery_allowed'' (PBool False)) ''delivery_status'' (PStr ''blocked''))
                   ''validation_errors'' (PList (map PStr errors))
             in Inr (dset guarded ''accepted_edition'' (PDict blocked)))))
     | _ \<Rightarrow> Inr (dset package ''accepted_edition_validation'' (PDict [
         (''artifact_schema'', PStr GUARD_VERSION),
         (''status'', PStr ''not_present''),
         (''validation_errors'', PList [PStr ''accepted_edition_not_present'']),
         (''client_delivery_allowed'', PBool False)])))"

section \<open>Reading a manifest\<close>

named_theorems edition_read \<open>the fields of a freshly built manifest\<close>

lemma edition_body_read [edition_read]:
  "dget (edition_body sha now r) ''artifact_schema'' = PStr ACCEPTED_EDITION_VERSION"
  "dget (edition_body sha now r) ''report_artifact_digest'' =
     PStr (json_digest sha (PDict (edition_digests sha (req_artifacts r))))"
  "dget (edition_body sha now r) ''artifact_digests'' = PDict (edition_digests sha (req_artifacts r))"
  "dget (edition_body sha now r) ''review'' = PDict (review_certificate sha now r
     (json_digest sha (PDict (edition_digests sha (req_artifacts r)))))"
  "dget (edition_body sha now r) ''validation_errors'' = PList (map PStr (edition_errors now r))"
  "dget (edition_body sha now r) ''accepted_edition'' =
     PBool (edition_decision r = ''approved'' \<and> edition_errors now r = [])"
  "dget (edition_body sha now r) ''delivery_status'' =
     PStr (if edition_decision r = ''approved'' \<and> edition_errors now r = []
           then ''pending_authorization'' else ''blocked'')"
  "dget (edition_body sha now r) ''client_delivery_allowed'' = PBool False"
  "dget (edition_body sha now r) ''repository'' = PStr (py_strip (req_repository r))"
  "dget (edition_body sha now r) ''commit_sha'' = PStr (py_strip (req_commit_sha r))"
  "dget (edition_body sha now r) ''run_id'' = PStr (py_strip (req_run_id r))"
  "dget (edition_body sha now r) ''report_language'' = PStr (py_strip (req_report_language r))"
  "dget (edition_body sha now r) ''assessment_depth'' = PStr (py_strip (req_assessment_depth r))"
  "dget (edition_body sha now r) ''tree_sha'' = PStr (py_strip (req_tree_sha r))"
  "dget (edition_body sha now r) ''scanner_run_id'' = PStr (py_strip (req_scanner_run_id r))"
  "dget (edition_body sha now r) ''evidence_bundle_hash'' = PStr (py_strip (req_evidence_bundle_hash r))"
  "map_of (edition_body sha now r) ''accepted_edition_manifest_sha256'' = None"
  unfolding edition_body_def Let_def by (simp_all add: edition_identity_def)

lemma review_certificate_read [edition_read]:
  "dget (review_certificate sha now r digest) ''decision'' =
     PStr (if edition_decision r = [] then ''invalid'' else edition_decision r)"
  "dget (review_certificate sha now r digest) ''reviewer'' = PStr (py_strip (req_reviewer r))"
  "dget (review_certificate sha now r digest) ''reviewer_role'' = PStr (py_strip (req_reviewer_role r))"
  "dget (review_certificate sha now r digest) ''reason'' = PStr (py_strip (req_decision_reason r))"
  "dget (review_certificate sha now r digest) ''decided_at'' = PStr (edition_timestamp now r)"
  "dget (review_certificate sha now r digest) ''report_artifact_digest'' = PStr digest"
  by (simp_all add: review_certificate_def Let_def)

text \<open>A manifest has no report slot of its own, so the boundary lets it pass.\<close>

lemma no_slots_no_bundle:
  assumes "\<not> marks_bundle d" and "\<And>k. k \<in> set CONTAINERS \<Longrightarrow> \<not> is_dict (dget d k)"
    and "\<not> (\<exists>s. dget d ''json'' = PStr s)" and "\<not> is_dict (dget d ''stage_results'')"
  shows "has_report_bundle (PDict d) = Inr False"
proof -
  have child: "container_child d k = Inr (dget d k)" if "k \<in> set CONTAINERS" for k
    using assms(3) by (cases "dget d k") (auto simp: container_child_def)
  have "map_res (container_child d) CONTAINERS = Inr (map (dget d) CONTAINERS)"
    using child by (rule map_res_all)
  moreover have "(case dget d ''stage_results'' of PDict stages \<Rightarrow> map (dget stages) REPORT_STAGES | _ \<Rightarrow> []) = []"
    using assms(4) by (cases "dget d ''stage_results''") (auto simp: is_dict_def)
  ultimately have cs: "report_children d = Inr (map (dget d) CONTAINERS)"
    by (simp add: report_children_def)
  have skip: "bundle_loop xs = Inr False" if "\<forall>x \<in> set xs. \<not> is_dict x" for xs
    using that
  proof (induction xs)
    case (Cons x xs)
    then show ?case by (cases x) (simp_all add: bundle_loop.simps(2))
  qed simp
  have "bundle_loop (rev (map (dget d) CONTAINERS)) = Inr False"
    using assms(2) by (intro skip) auto
  with cs assms(1) show ?thesis by (simp add: has_report_bundle_def bundle_loop.simps(2))
qed

section \<open>The guard is fail-closed\<close>

text \<open>
  C4. The guard is fail-closed: after it has run, an edition that still counts as accepted is one
  that validated without errors against the current report of its package; every other
  edition is rewritten as not accepted and blocked from delivery.
\<close>

theorem guard_fails_closed:
  assumes guard: "guard_report_package_accepted_edition sha package = Inr guarded"
    and present: "dget guarded ''accepted_edition'' = PDict candidate"
  shows "(accepted_edition_errors sha package candidate None = Inr [] \<and>
      dget guarded ''accepted_edition'' = dget package ''accepted_edition'') \<or>
    (dget candidate ''accepted_edition'' = PBool False \<and>
     dget candidate ''client_delivery_allowed'' = PBool False \<and>
     dget candidate ''delivery_status'' = PStr ''blocked'')"
proof (cases "dget package ''accepted_edition''")
  case (PDict c)
  with guard obtain v where v: "validate_accepted_edition sha package c None = Inr v"
    by (auto simp: guard_report_package_accepted_edition_def bind_res_eq_Inr)
  then obtain errors where errors: "accepted_edition_errors sha package c None = Inr errors"
      "dget v ''status'' = PStr (if errors = [] then ''valid'' else ''invalid'')"
    by (auto simp: validate_accepted_edition_def bind_res_eq_Inr)
  show ?thesis
  proof (cases "errors = []")
    case True
    with guard present PDict v errors show ?thesis
      by (auto simp: guard_report_package_accepted_edition_def Let_def)
  next
    case False
    with guard PDict v errors obtain es where
      "guarded = dset (dset package ''accepted_edition_validation'' (PDict v)) ''accepted_edition''
        (PDict (dset (dset (dset (dset c ''accepted_edition'' (PBool False))
           ''client_delivery_allowed'' (PBool False)) ''delivery_status'' (PStr ''blocked''))
           ''validation_errors'' es))"
      by (auto simp: guard_report_package_accepted_edition_def bind_res_eq_Inr Let_def)
    with present have "candidate = dset (dset (dset (dset c ''accepted_edition'' (PBool False))
           ''client_delivery_allowed'' (PBool False)) ''delivery_status'' (PStr ''blocked''))
           ''validation_errors'' es"
      by simp
    then show ?thesis by simp
  qed
qed (use guard present in \<open>auto simp: guard_report_package_accepted_edition_def\<close>)

theorem guard_fails_closed_witness:
  "\<exists>guarded candidate. guard_report_package_accepted_edition (\<lambda>s. s) [(''accepted_edition'', PDict [])] = Inr guarded \<and>
     dget guarded ''accepted_edition'' = PDict candidate \<and> dget candidate ''accepted_edition'' = PBool False"
proof -
  have "case guard_report_package_accepted_edition (\<lambda>s. s) [(''accepted_edition'', PDict [])] of
      Inr g \<Rightarrow> is_dict (dget g ''accepted_edition'') \<and> dget g ''accepted_edition'' \<noteq> PDict [] | _ \<Rightarrow> False"
    by code_simp
  then obtain g c where g: "guard_report_package_accepted_edition (\<lambda>s. s) [(''accepted_edition'', PDict [])] = Inr g"
      "dget g ''accepted_edition'' = PDict c" "c \<noteq> []"
    by (auto simp: is_dict_iff split: sum.splits)
  from guard_fails_closed [OF g(1,2)] g show ?thesis by auto
qed

end
