(* ===== verification/StorageStream.thy ===== *)
theory StorageStream
  imports AcceptedEdition
begin

text \<open>
  What the storage encodings of a run record share
  (\<open>nico/comprehensive_run_storage_codec_v1.py\<close>, \<open>..._dedup_v1.py\<close>, \<open>..._chunks_v1.py\<close>): the pieces
  the JSON encoder yields, big-endian numbers, base64, the \<open>zlib\<close> interface and the bounded
  decompression loop. \<open>zlib\<close> is a parameter: its stream objects are a record of
  functions, and \<open>zlib_decodes\<close> states the documented behaviour of the two directions.
\<close>

section \<open>The pieces of the JSON encoder\<close>

text \<open>
  \<open>JSONEncoder.iterencode\<close> with sorted keys: brackets, separators, keys and scalars one by one;
  in a list the separator and a scalar are one piece.
\<close>

definition scalar_text :: "py \<Rightarrow> string option" where
  "scalar_text v = (case v of PList _ \<Rightarrow> None | PDict _ \<Rightarrow> None | _ \<Rightarrow> Some (json_dumps v))"

lemma sorted_item_size:
  "sort_items d = items \<Longrightarrow> (k, v) \<in> set items \<Longrightarrow> size v < Suc (size_list (size_prod (\<lambda>_. 0) size) d)"
  by (metis size_dict_value set_sort_items)

function iterencode :: "py \<Rightarrow> string list" where
  "iterencode v = (case v of
     PList [] \<Rightarrow> [''[]'']
   | PList (x # xs) \<Rightarrow>
       (case scalar_text x of Some t \<Rightarrow> [''['' @ t] | None \<Rightarrow> ''['' # iterencode x) @
       concat (map (\<lambda>y. case scalar_text y of Some t \<Rightarrow> ['','' @ t] | None \<Rightarrow> '','' # iterencode y) xs) @ ['']'']
   | PDict d \<Rightarrow>
       (case sort_items d of
          [] \<Rightarrow> [''{}'']
        | (k, x) # items \<Rightarrow>
            ''{'' # json_str k # '':'' # iterencode x @
            concat (map (\<lambda>(k, y). '','' # json_str k # '':'' # iterencode y) items) @ [''}''])
   | _ \<Rightarrow> [json_dumps v])"
  by pat_completeness auto
termination
proof (relation "measure size", goal_cases)
  case (3 v xs x rest y)
  then show ?case by (auto dest: size_list_value)
next
  case (4 v d items p k x)
  then show ?case by (auto intro: sorted_item_size)
next
  case (5 v d items p k x q)
  then show ?case by (auto intro: sorted_item_size)
qed auto

declare iterencode.simps [simp del]

lemma iterencode_scalar: "scalar_text v = Some t \<Longrightarrow> iterencode v = [t]"
  by (subst iterencode.simps) (auto simp: scalar_text_def split: py.splits)

lemma iterencode_text: "concat (iterencode v) = json_dumps v"
proof (induction v rule: iterencode.induct)
  case (1 v)
  consider (nil) "v = PList []" | (list) x xs where "v = PList (x # xs)" | (dict) d where "v = PDict d"
    | (scalar) t where "scalar_text v = Some t"
    by (cases v; cases "case v of PList xs \<Rightarrow> xs | _ \<Rightarrow> []") (auto simp: scalar_text_def)
  then show ?case
  proof cases
    case list
    have each: "concat (case scalar_text y of Some t \<Rightarrow> [pre @ t] | None \<Rightarrow> pre # iterencode y) = pre @ json_dumps y"
      if "y \<in> set (x # xs)" for y pre
      using that list 1(1) [OF list refl] 1(2) [OF list refl]
      by (cases "scalar_text y") (auto simp: scalar_text_def split: py.splits)
    have "concat (concat (map (\<lambda>y. case scalar_text y of Some t \<Rightarrow> ['','' @ t] | None \<Rightarrow> '','' # iterencode y) xs)) =
        concat (map (\<lambda>y. '','' @ json_dumps y) xs)"
      using each [of _ "'',''"] by (induction xs) auto
    then show ?thesis
      using each [of x "''[''"]
      by (subst iterencode.simps) (simp add: list json_dumps_list py_join_Cons comp_def)
  next
    case dict
    show ?thesis
    proof (cases "sort_items d")
      case Nil
      then show ?thesis by (subst iterencode.simps) (simp add: dict json_dumps_dict)
    next
      case (Cons p items)
      obtain k x where p: "p = (k, x)" by (cases p)
      have x: "concat (iterencode x) = json_dumps x" using 1(3) [OF dict Cons p [symmetric]] by simp
      have "\<forall>q \<in> set items. concat (iterencode (snd q)) = json_dumps (snd q)"
        using 1(4) [OF dict Cons p [symmetric]] by auto
      then have "concat (concat (map (\<lambda>(k, y). '','' # json_str k # '':'' # iterencode y) items)) =
          concat (map (\<lambda>q. '','' @ item_text q) items)"
        by (induction items) (auto simp: item_text_def)
      then show ?thesis
        using x by (subst iterencode.simps) (simp add: dict Cons p json_dumps_dict item_text_def py_join_Cons comp_def)
    qed
  next
    case nil
    then show ?thesis by (subst iterencode.simps) (simp add: json_dumps_list)
  next
    case (scalar t)
    then show ?thesis by (auto simp: iterencode_scalar scalar_text_def split: py.splits)
  qed
qed

section \<open>Bytes\<close>

text \<open>\<open>bytes.decode("utf-8")\<close> for the code points of the model; \<open>None\<close> when it raises.\<close>

fun utf8_decode :: "string \<Rightarrow> string option" where
  "utf8_decode [] = Some []"
| "utf8_decode (b # bs) =
    (if code_of b < 128 then map_option ((#) b) (utf8_decode bs)
     else case bs of
         [] \<Rightarrow> None
       | c # cs \<Rightarrow>
           if 194 \<le> code_of b \<and> code_of b \<le> 195 \<and> 128 \<le> code_of c \<and> code_of c < 192
           then map_option ((#) (char_of ((code_of b - 192) * 64 + (code_of c - 128)))) (utf8_decode cs)
           else None)"

lemma utf8_decode_utf8: "utf8_decode (utf8 s) = Some s"
proof (induction s)
  case (Cons c s)
  have bound: "code_of c < 256" by (rule code_of_less)
  show ?case
  proof (cases "code_of c < 128")
    case False
    have two: "code_of c div 64 = 2 \<or> code_of c div 64 = 3" using bound False by linarith
    have "char_of ((code_of c div 64) * 64 + code_of c mod 64) = c" by simp
    then show ?thesis using Cons False two by (elim disjE) (simp_all add: utf8_def utf8_char_def Let_def)
  qed (use Cons in \<open>simp add: utf8_def utf8_char_def Let_def\<close>)
qed (simp add: utf8_def)

text \<open>\<open>struct.Struct(">I")\<close> and the 64-bit half of \<open>struct.Struct(">QI")\<close>; every packed number fits its width.\<close>

fun pack_be :: "nat \<Rightarrow> nat \<Rightarrow> string" where
  "pack_be 0 n = []"
| "pack_be (Suc width) n = pack_be width (n div 256) @ [char_of (n mod 256)]"

definition unpack_be :: "string \<Rightarrow> nat" where
  "unpack_be = foldl (\<lambda>acc b. acc * 256 + code_of b) 0"

lemma length_pack_be [simp]: "length (pack_be width n) = width"
  by (induction width arbitrary: n) auto

lemma unpack_pack_be: "n < 256 ^ width \<Longrightarrow> unpack_be (pack_be width n) = n"
proof (induction width arbitrary: n)
  case (Suc width)
  have "n div 256 < 256 ^ width" using Suc.prems by (simp add: less_mult_imp_div_less mult.commute)
  then show ?case using Suc.IH [of "n div 256"] by (simp add: unpack_be_def)
qed (simp add: unpack_be_def)

text \<open>\<open>base64.b64encode\<close>.\<close>

definition b64_char :: "nat \<Rightarrow> char" where
  "b64_char n = (if n < 26 then char_of (n + 65) else if n < 52 then char_of (n + 71)
     else if n < 62 then char_of (n - 4) else if n = 62 then CHR ''+'' else CHR ''/'')"

fun b64encode :: "string \<Rightarrow> string" where
  "b64encode [] = []"
| "b64encode [a] = [b64_char (code_of a div 4), b64_char (code_of a mod 4 * 16), CHR ''='', CHR ''='']"
| "b64encode [a, b] = [b64_char (code_of a div 4), b64_char (code_of a mod 4 * 16 + code_of b div 16),
     b64_char (code_of b mod 16 * 4), CHR ''='']"
| "b64encode (a # b # c # rest) =
     b64_char (code_of a div 4) # b64_char (code_of a mod 4 * 16 + code_of b div 16) #
     b64_char (code_of b mod 16 * 4 + code_of c div 64) # b64_char (code_of c mod 64) # b64encode rest"

lemma b64_val_char: "n < 64 \<Longrightarrow> b64_val (b64_char n) = Some n"
  by (auto simp: b64_val_def b64_char_def Let_def)

lemma b64_char_not_pad: "n < 64 \<Longrightarrow> b64_char n \<noteq> CHR ''=''"
  using b64_val_char [of n] by (auto simp: b64_val_def)

lemma six_bits:
  fixes m n :: nat
  assumes "m < 256"
  shows "n mod 4 * 16 + m div 16 < 64" "(n mod 4 * 16 + m div 16) div 16 = n mod 4" "(n mod 4 * 16 + m div 16) mod 16 = m div 16"
    "n mod 16 * 4 + m div 64 < 64" "(n mod 16 * 4 + m div 64) div 4 = n mod 16" "(n mod 16 * 4 + m div 64) mod 4 = m div 64"
proof -
  have *: "m div 16 < 16" "m div 64 < 4" using assms by linarith+
  moreover have "n mod 4 < 4" "n mod 16 < 16" by simp_all
  ultimately show "n mod 4 * 16 + m div 16 < 64" "n mod 16 * 4 + m div 64 < 64" by linarith+
  show "(n mod 4 * 16 + m div 16) div 16 = n mod 4" "(n mod 4 * 16 + m div 16) mod 16 = m div 16"
      "(n mod 16 * 4 + m div 64) div 4 = n mod 16" "(n mod 16 * 4 + m div 64) mod 4 = m div 64"
    using * by simp_all
qed

lemma padded_bits:
  fixes n :: nat
  shows "n mod 4 * 16 < 64" "n mod 16 * 4 < 64" "n mod 64 < 64"
proof -
  have "n mod 4 < 4" "n mod 16 < 16" by simp_all
  then show "n mod 4 * 16 < 64" "n mod 16 * 4 < 64" "n mod 64 < 64" by simp_all
qed

lemma first_bits: "code_of a div 4 < 64"
  using code_of_less [of a] by linarith

lemma code_join: "char_of (code_of a div 4 * 4 + code_of a mod 4) = a"
  "char_of (code_of a div 16 * 16 + code_of a mod 16) = a" "char_of (code_of a div 64 * 64 + code_of a mod 64) = a"
  by simp_all

lemmas b64_bits = b64_val_char b64_char_not_pad first_bits padded_bits

lemma b64decode_encode: "b64decode (b64encode bytes) = Some bytes"
proof (induction bytes rule: b64encode.induct)
  case (2 a)
  show ?case using code_join(1) [of a] by (simp add: b64_bits Let_def)
next
  case (3 a b)
  show ?case
    using six_bits [OF code_of_less [of b], of "code_of a"] code_join(1) [of a] code_join(2) [of b]
    by (simp add: b64_bits Let_def)
next
  case (4 a b c rest)
  then show ?case
    using six_bits [OF code_of_less [of b], of "code_of a"] six_bits [OF code_of_less [of c], of "code_of b"]
      code_join(1) [of a] code_join(2) [of b] code_join(3) [of c]
    by (simp add: b64_bits Let_def)
qed simp

lemma length_b64encode: "length (b64encode bytes) = 4 * ((length bytes + 2) div 3)"
proof (induction bytes rule: b64encode.induct)
  case (4 a b c rest)
  have "(length rest + 2 + 3) div 3 = Suc ((length rest + 2) div 3)" by simp
  with 4 show ?case by simp
qed auto

section \<open>zlib\<close>

text \<open>
  The stream objects the codecs use: \<open>compressobj\<close> with \<open>compress\<close> and \<open>flush\<close>, and
  \<open>decompressobj\<close> with \<open>decompress(chunk, max_length)\<close> (its output, the unconsumed tail and the
  unused data; \<open>None\<close> for \<open>zlib.error\<close>) and \<open>eof\<close>.
\<close>

record ('c, 'd) zlib =
  z_start :: 'c
  z_compress :: "'c \<Rightarrow> string \<Rightarrow> 'c \<times> string"
  z_flush :: "'c \<Rightarrow> string"
  d_start :: 'd
  d_decompress :: "'d \<Rightarrow> string \<Rightarrow> nat \<Rightarrow> ('d \<times> string \<times> string \<times> string) option"
  d_eof :: "'d \<Rightarrow> bool"

fun z_feed :: "('c, 'd) zlib \<Rightarrow> 'c \<Rightarrow> string list \<Rightarrow> 'c \<times> string" where
  "z_feed z c [] = (c, [])"
| "z_feed z c (x # xs) = (let (c', out) = z_compress z c x; (c'', outs) = z_feed z c' xs in (c'', out @ outs))"

text \<open>
  The documented behaviour: a decompressor that is given the whole output of a compressor, in
  chunks of any size and with any positive output limit, returns the input piece by piece, makes
  progress with every call, leaves nothing unused and ends at the end of the stream.
  \<open>decodes d packed data\<close> says that a decompressor in state \<open>d\<close> turns \<open>packed\<close> into \<open>data\<close>.
\<close>

definition zlib_decodes :: "('c, 'd) zlib \<Rightarrow> ('d \<Rightarrow> string \<Rightarrow> string \<Rightarrow> bool) \<Rightarrow> bool" where
  "zlib_decodes z decodes \<longleftrightarrow>
     (\<forall>chunks c out. z_feed z (z_start z) chunks = (c, out) \<longrightarrow> decodes (d_start z) (out @ z_flush z c) (concat chunks)) \<and>
     (\<forall>d chunk rest data m. decodes d (chunk @ rest) data \<and> chunk \<noteq> [] \<and> 0 < m \<longrightarrow>
        (\<exists>d' value tail data'. d_decompress z d chunk m = Some (d', value, tail, []) \<and> length value \<le> m \<and>
           data = value @ data' \<and> decodes d' (tail @ rest) data' \<and>
           length tail + (if value = [] then 1 else 0) \<le> length chunk)) \<and>
     (\<forall>d data. decodes d [] data \<longrightarrow> data = [] \<and> d_eof z d)"

definition zlib_lossless :: "('c, 'd) zlib \<Rightarrow> bool" where
  "zlib_lossless z \<longleftrightarrow> (\<exists>decodes. zlib_decodes z decodes)"

lemma z_feed_append:
  "z_feed z c (xs @ ys) = (let (c', out) = z_feed z c xs; (c'', outs) = z_feed z c' ys in (c'', out @ outs))"
  by (induction xs arbitrary: c) (auto simp: Let_def split_def)

section \<open>Bounded decompression\<close>

definition STREAM_CHUNK_BYTES :: nat where
  "STREAM_CHUNK_BYTES = 64 * 1024"

text \<open>
  The generator: the bytes it yields in all, then its normal end or the exception it raises.
  A call of the decompressor may in principle make no progress, so the loop has fuel, one
  unit per call or per chunk of the input; \<open>None\<close> means that the fuel did not suffice.
\<close>

fun inflate_loop ::
  "('c, 'd) zlib \<Rightarrow> string \<Rightarrow> nat \<Rightarrow> nat \<Rightarrow> 'd \<Rightarrow> string \<Rightarrow> string \<Rightarrow> nat \<Rightarrow> (string \<times> unit res) option" where
  "inflate_loop z code limit 0 d chunk rest seen = None"
| "inflate_loop z code limit (Suc fuel) d chunk rest seen =
    (if chunk = [] then
       (if rest = [] then
          Some ([], if d_eof z d then Inr () else Inl (ValueError ''run_storage_zlib_incomplete''))
        else inflate_loop z code limit fuel d (take STREAM_CHUNK_BYTES rest) (drop STREAM_CHUNK_BYTES rest) seen)
     else case d_decompress z d chunk (min STREAM_CHUNK_BYTES (limit - seen + 1)) of
         None \<Rightarrow> Some ([], Inl (ValueError ''run_storage_zlib_invalid''))
       | Some (d', value, tail, unused) \<Rightarrow>
           if seen + length value > limit then Some ([], Inl (ValueError code))
           else if unused \<noteq> [] then Some ([], Inl (ValueError ''run_storage_trailing_compressed_data''))
           else map_option (\<lambda>(bytes, ending). (value @ bytes, ending))
             (inflate_loop z code limit fuel d' tail rest (seen + length value)))"

definition inflate_fuel :: "nat \<Rightarrow> string \<Rightarrow> nat" where
  "inflate_fuel limit packed = 2 * length packed + limit + 2"

definition inflate :: "('c, 'd) zlib \<Rightarrow> string \<Rightarrow> nat \<Rightarrow> string \<Rightarrow> (string \<times> unit res) option" where
  "inflate z code limit packed = inflate_loop z code limit (inflate_fuel limit packed) (d_start z) [] packed 0"

lemma inflate_loop_decodes:
  assumes laws: "zlib_decodes z decodes"
  shows "decodes d (chunk @ rest) data \<Longrightarrow> seen + length data \<le> limit \<Longrightarrow>
    length chunk + 2 * length rest + length data < fuel \<Longrightarrow>
    inflate_loop z code limit fuel d chunk rest seen = Some (data, Inr ())"
proof (induction fuel arbitrary: d chunk rest data seen)
  case (Suc fuel)
  consider (stop) "chunk = []" "rest = []" | (refill) "chunk = []" "rest \<noteq> []" | (call) "chunk \<noteq> []" by blast
  then show ?case
  proof cases
    case stop
    then show ?thesis using laws Suc.prems(1) by (auto simp: zlib_decodes_def)
  next
    case refill
    let ?t = "take STREAM_CHUNK_BYTES rest" and ?r = "drop STREAM_CHUNK_BYTES rest"
    have len: "length ?t + length ?r = length rest" by (metis append_take_drop_id length_append)
    have "?t \<noteq> []" using refill by (simp add: STREAM_CHUNK_BYTES_def)
    then have "0 < length ?t" by simp
    then have "length ?t + 2 * length ?r + length data < fuel" using Suc.prems(3) refill(1) len
      by (simp only: list.size)
    then show ?thesis using Suc.IH [of d ?t ?r data seen] Suc.prems(1,2) refill by simp
  next
    case call
    have "0 < min STREAM_CHUNK_BYTES (limit - seen + 1)" by (simp add: STREAM_CHUNK_BYTES_def)
    with laws Suc.prems(1) call obtain d' v tail data' where
      step: "d_decompress z d chunk (min STREAM_CHUNK_BYTES (limit - seen + 1)) = Some (d', v, tail, [])"
        "data = v @ data'" "decodes d' (tail @ rest) data'" "length tail + (if v = [] then 1 else 0) \<le> length chunk"
      unfolding zlib_decodes_def by blast
    have "length tail + 2 * length rest + length data' < fuel"
      using Suc.prems(3) step(2,4) by (cases v) auto
    then show ?thesis
      using Suc.IH [OF step(3), of "seen + length v"] Suc.prems(2) step(1,2) call by simp
  qed
qed simp

lemma inflate_deflate:
  assumes "zlib_lossless z" and "z_feed z (z_start z) chunks = (c, out)" and "length (concat chunks) \<le> limit"
  shows "inflate z code limit (out @ z_flush z c) = Some (concat chunks, Inr ())"
proof -
  obtain decodes where laws: "zlib_decodes z decodes" using assms(1) by (auto simp: zlib_lossless_def)
  with assms(2) have "decodes (d_start z) ([] @ out @ z_flush z c) (concat chunks)" by (simp add: zlib_decodes_def)
  then show ?thesis
    unfolding inflate_def inflate_fuel_def by (rule inflate_loop_decodes [OF laws]) (use assms(3) in simp_all)
qed

text \<open>\<open>packed\<close> is what a compressor has returned for \<open>bytes\<close>; it is now in state \<open>c\<close>.\<close>

definition fed :: "('c, 'd) zlib \<Rightarrow> 'c \<Rightarrow> string \<Rightarrow> string \<Rightarrow> bool" where
  "fed z c packed bytes \<longleftrightarrow> (\<exists>chunks. z_feed z (z_start z) chunks = (c, packed) \<and> concat chunks = bytes)"

lemma fed_start: "fed z (z_start z) [] []"
  by (auto simp: fed_def intro: exI [of _ "[]"])

lemma fed_compress:
  assumes "fed z c packed bytes" and "z_compress z c x = (c', out)"
  shows "fed z c' (packed @ out) (bytes @ x)"
proof -
  obtain chunks where "z_feed z (z_start z) chunks = (c, packed)" "concat chunks = bytes"
    using assms(1) by (auto simp: fed_def)
  then have "z_feed z (z_start z) (chunks @ [x]) = (c', packed @ out)" "concat (chunks @ [x]) = bytes @ x"
    using assms(2) by (simp_all add: z_feed_append)
  then show ?thesis unfolding fed_def by blast
qed

lemma fed_inflate:
  assumes "zlib_lossless z" and "fed z c packed bytes" and "length bytes \<le> limit"
  shows "inflate z code limit (packed @ z_flush z c) = Some (bytes, Inr ())"
  using assms inflate_deflate [OF assms(1)] by (auto simp: fed_def)

section \<open>Reading frames\<close>

text \<open>
  \<open>read(count)\<close> on the bytes the generator still has to yield: what is missing raises the
  exception that ended the generator, or reports an incomplete frame.
\<close>

definition read_bytes :: "string \<Rightarrow> unit res \<Rightarrow> nat \<Rightarrow> string \<Rightarrow> (string \<times> string) res" where
  "read_bytes code ending wanted bytes =
    (if wanted \<le> length bytes then Inr (take wanted bytes, drop wanted bytes)
     else case ending of Inl e \<Rightarrow> Inl e | Inr _ \<Rightarrow> Inl (ValueError code))"

definition checked_output :: "(string \<Rightarrow> string) \<Rightarrow> string \<Rightarrow> nat \<Rightarrow> string \<Rightarrow> string res" where
  "checked_output sha claimed csize out =
    (if length out \<noteq> csize then Inl (ValueError ''run_storage_uncompressed_size_mismatch'')
     else if sha out \<noteq> claimed then Inl (ValueError ''run_storage_sha256_mismatch'')
     else Inr out)"

lemma read_bytes_shorter: "read_bytes code ending n bytes = Inr (v, rest) \<Longrightarrow> length rest \<le> length bytes"
  by (auto simp: read_bytes_def split: if_splits sum.splits)

lemma read_bytes_append: "length v = n \<Longrightarrow> read_bytes code ending n (v @ rest) = Inr (v, rest)"
  by (simp add: read_bytes_def)

text \<open>A stored stream: the laws can hold.\<close>

definition stored_zlib :: "(unit, unit) zlib" where
  "stored_zlib = \<lparr> z_start = (), z_compress = (\<lambda>c x. ((), x)), z_flush = (\<lambda>c. []), d_start = (),
     d_decompress = (\<lambda>d chunk m. Some ((), take m chunk, drop m chunk, [])), d_eof = (\<lambda>d. True) \<rparr>"

lemma stored_feed: "z_feed stored_zlib () chunks = ((), concat chunks)"
  by (induction chunks) (auto simp: stored_zlib_def)

lemma stored_lossless: "zlib_lossless stored_zlib"
proof -
  have "zlib_decodes stored_zlib (\<lambda>d packed data. packed = data)"
    using stored_feed unfolding zlib_decodes_def
    by (auto simp: stored_zlib_def take_Cons' split: if_splits)
  then show ?thesis by (auto simp: zlib_lossless_def)
qed

end
