(* ===== verification/StorageTokens.thy ===== *)
theory StorageTokens
  imports StorageStream
begin

text \<open>
  Long-range token references for oversized run records
  (\<open>nico/comprehensive_run_storage_dedup_v1.py\<close>). The pieces of the JSON encoder are written as
  frames, a repeated large piece as a reference to its first occurrence; reading the frames
  back gives the exact bytes. A frame is a tag, a big-endian number and, except for a
  reference, that many bytes.
\<close>

section \<open>Encoding\<close>

definition TOKEN_MAGIC :: string where
  "TOKEN_MAGIC = ''NICO-JTOK1'' @ [CHR 0x00]"

definition MIN_TOKEN_BYTES :: nat where
  "MIN_TOKEN_BYTES = 4096"

definition MAX_DICTIONARY_BYTES :: nat where
  "MAX_DICTIONARY_BYTES = 64 * 1024 * 1024"

definition MAX_DICTIONARY_ENTRIES :: nat where
  "MAX_DICTIONARY_ENTRIES = 16384"

definition token_frame_limit :: "nat \<Rightarrow> nat" where
  "token_frame_limit csize = csize + 10 * (csize div MIN_TOKEN_BYTES + 1) +
     5 * (csize div STREAM_CHUNK_BYTES + 1) + length TOKEN_MAGIC"

text \<open>The variables of \<open>encode_tokens\<close>; \<open>te_hashed\<close> is what the digest was fed with.\<close>

record 'c token_encoder =
  te_compressor :: 'c
  te_packed :: string
  te_pending :: string
  te_dictionary :: "string list"
  te_dictionary_bytes :: nat
  te_size :: nat
  te_framed :: nat
  te_hashed :: string

text \<open>\<open>for start in range(0, len(data), CHUNK_BYTES)\<close>.\<close>

function slices :: "string \<Rightarrow> string list" where
  "slices data = (if data = [] then [] else take STREAM_CHUNK_BYTES data # slices (drop STREAM_CHUNK_BYTES data))"
  by pat_completeness auto
termination by (relation "measure length") (auto simp: STREAM_CHUNK_BYTES_def)

declare slices.simps [simp del]

fun compress_slices ::
  "('c, 'd) zlib \<Rightarrow> nat \<Rightarrow> string list \<Rightarrow> 'c token_encoder \<Rightarrow> 'c token_encoder res" where
  "compress_slices z max_compressed [] st = Inr st"
| "compress_slices z max_compressed (x # xs) st =
    (let (c, data) = z_compress z (te_compressor st) x in
     if length (te_packed st) + length data > max_compressed
     then Inl (ValueError ''run_storage_compressed_size_limit'')
     else compress_slices z max_compressed xs (st\<lparr>te_compressor := c, te_packed := te_packed st @ data\<rparr>))"

definition write_frame ::
  "('c, 'd) zlib \<Rightarrow> nat \<Rightarrow> nat \<Rightarrow> string \<Rightarrow> 'c token_encoder \<Rightarrow> 'c token_encoder res" where
  "write_frame z max_uncompressed max_compressed data st =
    (let framed = te_framed st + length data in
     if framed > token_frame_limit max_uncompressed
     then Inl (ValueError ''run_storage_token_frame_size_limit'')
     else compress_slices z max_compressed (slices data) (st\<lparr>te_framed := framed\<rparr>))"

definition flush_literal ::
  "('c, 'd) zlib \<Rightarrow> nat \<Rightarrow> nat \<Rightarrow> 'c token_encoder \<Rightarrow> 'c token_encoder res" where
  "flush_literal z max_uncompressed max_compressed st =
    (if te_pending st = [] then Inr st
     else
       bind_res (write_frame z max_uncompressed max_compressed
           (CHR ''L'' # pack_be 4 (length (te_pending st))) st) (\<lambda>st1.
       bind_res (write_frame z max_uncompressed max_compressed (te_pending st) st1) (\<lambda>st2.
         Inr (st2\<lparr>te_pending := []\<rparr>))))"

fun add_literals ::
  "('c, 'd) zlib \<Rightarrow> nat \<Rightarrow> nat \<Rightarrow> string list \<Rightarrow> 'c token_encoder \<Rightarrow> 'c token_encoder res" where
  "add_literals z max_uncompressed max_compressed [] st = Inr st"
| "add_literals z max_uncompressed max_compressed (part # parts) st =
     bind_res (if length (te_pending st) + length part > STREAM_CHUNK_BYTES
         then flush_literal z max_uncompressed max_compressed st else Inr st) (\<lambda>st1.
       add_literals z max_uncompressed max_compressed parts (st1\<lparr>te_pending := te_pending st1 @ part\<rparr>))"

text \<open>\<open>dictionary.get(value)\<close>: an entry is numbered by the order of its insertion.\<close>

fun entry_index :: "string list \<Rightarrow> string \<Rightarrow> nat option" where
  "entry_index [] value = None"
| "entry_index (entry # entries) value =
    (if entry = value then Some 0 else map_option Suc (entry_index entries value))"

definition encode_piece ::
  "('c, 'd) zlib \<Rightarrow> nat \<Rightarrow> nat \<Rightarrow> string \<Rightarrow> 'c token_encoder \<Rightarrow> 'c token_encoder res" where
  "encode_piece z max_uncompressed max_compressed piece st0 =
    (let value = utf8 piece;
         write = write_frame z max_uncompressed max_compressed;
         flush = flush_literal z max_uncompressed max_compressed;
         csize = te_size st0 + length value in
     if csize > max_uncompressed then Inl (ValueError ''run_storage_uncompressed_size_limit'')
     else
      (let st = st0\<lparr>te_size := csize, te_hashed := te_hashed st0 @ value\<rparr>;
           literal = add_literals z max_uncompressed max_compressed (slices value) st in
       if length value \<ge> MIN_TOKEN_BYTES then
         (case entry_index (te_dictionary st) value of
            Some index \<Rightarrow> bind_res (flush st) (\<lambda>st1. write (CHR ''R'' # pack_be 4 index) st1)
          | None \<Rightarrow>
              if length (te_dictionary st) < MAX_DICTIONARY_ENTRIES \<and>
                 te_dictionary_bytes st + length value \<le> MAX_DICTIONARY_BYTES
              then bind_res (flush st) (\<lambda>st1.
                bind_res (write (CHR ''D'' # pack_be 4 (length value))
                    (st1\<lparr>te_dictionary := te_dictionary st1 @ [value],
                         te_dictionary_bytes := te_dictionary_bytes st1 + length value\<rparr>)) (\<lambda>st2.
                  write value st2))
              else literal)
       else literal))"

fun encode_pieces ::
  "('c, 'd) zlib \<Rightarrow> nat \<Rightarrow> nat \<Rightarrow> string list \<Rightarrow> 'c token_encoder \<Rightarrow> 'c token_encoder res" where
  "encode_pieces z max_uncompressed max_compressed [] st = Inr st"
| "encode_pieces z max_uncompressed max_compressed (piece # pieces) st =
     bind_res (encode_piece z max_uncompressed max_compressed piece st)
       (encode_pieces z max_uncompressed max_compressed pieces)"

definition token_encoder_start :: "('c, 'd) zlib \<Rightarrow> 'c token_encoder" where
  "token_encoder_start z = \<lparr>te_compressor = z_start z, te_packed = [], te_pending = [], te_dictionary = [],
     te_dictionary_bytes = 0, te_size = 0, te_framed = 0, te_hashed = []\<rparr>"

definition encode_tokens ::
  "('c, 'd) zlib \<Rightarrow> (string \<Rightarrow> string) \<Rightarrow> nat \<Rightarrow> nat \<Rightarrow> string list \<Rightarrow> (nat \<times> string \<times> string) res" where
  "encode_tokens z sha max_uncompressed max_compressed pieces =
     bind_res (write_frame z max_uncompressed max_compressed TOKEN_MAGIC (token_encoder_start z)) (\<lambda>st0.
     bind_res (encode_pieces z max_uncompressed max_compressed pieces st0) (\<lambda>st1.
     bind_res (flush_literal z max_uncompressed max_compressed st1) (\<lambda>st2.
       let data = z_flush z (te_compressor st2) in
       if length (te_packed st2) + length data > max_compressed
       then Inl (ValueError ''run_storage_compressed_size_limit'')
       else if te_framed st2 > token_frame_limit (te_size st2)
       then Inl (ValueError ''run_storage_token_frame_size_limit'')
       else Inr (te_size st2, sha (te_hashed st2), te_packed st2 @ data))))"

section \<open>Decoding\<close>

function token_loop ::
  "(string \<Rightarrow> string) \<Rightarrow> string \<Rightarrow> nat \<Rightarrow> unit res \<Rightarrow> string list \<Rightarrow> nat \<Rightarrow> string \<Rightarrow> string \<Rightarrow> string res" where
  "token_loop sha claimed csize ending dictionary dictionary_bytes out [] =
    (case ending of Inl e \<Rightarrow> Inl e | Inr _ \<Rightarrow> checked_output sha claimed csize out)"
| "token_loop sha claimed csize ending dictionary dictionary_bytes out (tag # bytes) =
    (if tag \<notin> set ''LDR'' then Inl (ValueError ''run_storage_token_tag_invalid'')
     else
       bind_res (read_bytes ''run_storage_token_frame_incomplete'' ending 4 bytes) (\<lambda>(head, rest).
       let number = unpack_be head in
       if tag = CHR ''R'' then
         (if number \<ge> length dictionary then Inl (ValueError ''run_storage_token_reference_invalid'')
          else if length out + length (dictionary ! number) > csize
          then Inl (ValueError ''run_storage_uncompressed_size_mismatch'')
          else token_loop sha claimed csize ending dictionary dictionary_bytes (out @ dictionary ! number) rest)
       else if tag = CHR ''L'' \<and> \<not> (0 < number \<and> number \<le> STREAM_CHUNK_BYTES)
       then Inl (ValueError ''run_storage_token_literal_size_invalid'')
       else if tag = CHR ''D'' \<and> (number < MIN_TOKEN_BYTES \<or>
          dictionary_bytes + number > MAX_DICTIONARY_BYTES \<or> length dictionary \<ge> MAX_DICTIONARY_ENTRIES)
       then Inl (ValueError ''run_storage_token_dictionary_limit'')
       else if length out + number > csize then Inl (ValueError ''run_storage_uncompressed_size_mismatch'')
       else
         bind_res (read_bytes ''run_storage_token_frame_incomplete'' ending number rest) (\<lambda>(value, rest').
           if tag = CHR ''D''
           then token_loop sha claimed csize ending (dictionary @ [value]) (dictionary_bytes + number) (out @ value) rest'
           else token_loop sha claimed csize ending dictionary dictionary_bytes (out @ value) rest')))"
  by pat_completeness auto
termination
proof (relation "measure (\<lambda>(_, _, _, _, _, _, _, bytes). length bytes)", goal_cases)
  case (2 sha claimed csize ending dictionary dictionary_bytes out tag bytes x head rest number)
  then show ?case using read_bytes_shorter [of _ ending 4 bytes head rest] by fastforce
qed (fastforce dest!: read_bytes_shorter)+

definition decode_tokens ::
  "('c, 'd) zlib \<Rightarrow> (string \<Rightarrow> string) \<Rightarrow> string \<Rightarrow> nat \<Rightarrow> string \<Rightarrow> string res option" where
  "decode_tokens z sha packed csize claimed =
    (case inflate z ''run_storage_token_frame_size_limit'' (token_frame_limit csize) packed of
       None \<Rightarrow> None
     | Some (bytes, ending) \<Rightarrow> Some (
         bind_res (read_bytes ''run_storage_token_frame_incomplete'' ending (length TOKEN_MAGIC) bytes) (\<lambda>(magic, rest).
           if magic \<noteq> TOKEN_MAGIC then Inl (ValueError ''run_storage_token_magic_invalid'')
           else token_loop sha claimed csize ending [] 0 [] rest)))"

section \<open>Decoding an encoding returns the exact bytes\<close>

text \<open>What has been written so far is what the compressor was fed with.\<close>

definition wrote :: "('c, 'd) zlib \<Rightarrow> 'c token_encoder \<Rightarrow> string \<Rightarrow> bool" where
  "wrote z st bytes \<longleftrightarrow> fed z (te_compressor st) (te_packed st) bytes \<and> te_framed st = length bytes"

lemma slices_concat: "concat (slices data) = data"
  by (induction data rule: slices.induct) (subst slices.simps, auto)

lemma slices_length: "part \<in> set (slices data) \<Longrightarrow> 0 < length part \<and> length part \<le> STREAM_CHUNK_BYTES"
  by (induction data rule: slices.induct)
    (subst (asm) (2) slices.simps, auto simp: STREAM_CHUNK_BYTES_def split: if_splits)

lemma compress_slices_fed:
  assumes "compress_slices z mc xs st = Inr st'" and "fed z (te_compressor st) (te_packed st) bytes"
  shows "fed z (te_compressor st') (te_packed st') (bytes @ concat xs) \<and>
    st' = st\<lparr>te_compressor := te_compressor st', te_packed := te_packed st'\<rparr>"
  using assms
proof (induction xs arbitrary: st bytes)
  case (Cons x xs)
  obtain c data where c: "z_compress z (te_compressor st) x = (c, data)" by fastforce
  have "compress_slices z mc xs (st\<lparr>te_compressor := c, te_packed := te_packed st @ data\<rparr>) = Inr st'"
    using Cons.prems(1) c by (simp split: if_splits)
  from Cons.IH [OF this, of "bytes @ x"] fed_compress [OF Cons.prems(2) c] show ?case by simp
qed simp

lemma write_frame_wrote:
  assumes "write_frame z mu mc data st = Inr st'" and "wrote z st bytes"
  shows "wrote z st' (bytes @ data)"
    and "te_pending st' = te_pending st" "te_dictionary st' = te_dictionary st"
      "te_dictionary_bytes st' = te_dictionary_bytes st" "te_size st' = te_size st" "te_hashed st' = te_hashed st"
proof -
  let ?st = "st\<lparr>te_framed := te_framed st + length data\<rparr>"
  have app: "compress_slices z mc (slices data) ?st = Inr st'"
    using assms(1) by (simp add: write_frame_def Let_def split: if_splits)
  have "fed z (te_compressor ?st) (te_packed ?st) bytes" using assms(2) by (simp add: wrote_def)
  from compress_slices_fed [OF app this]
  have fed: "fed z (te_compressor st') (te_packed st') (bytes @ data)"
    and st': "st' = ?st\<lparr>te_compressor := te_compressor st', te_packed := te_packed st'\<rparr>"
    by (simp_all only: slices_concat)
  have "te_framed st' = length (bytes @ data)" using assms(2) by (subst st') (simp add: wrote_def)
  with fed show "wrote z st' (bytes @ data)" by (simp add: wrote_def)
  show "te_pending st' = te_pending st" "te_dictionary st' = te_dictionary st"
      "te_dictionary_bytes st' = te_dictionary_bytes st" "te_size st' = te_size st" "te_hashed st' = te_hashed st"
    by (subst st', simp)+
qed

text \<open>What the frames written so far mean to the decoder, whatever follows them.\<close>

definition parses :: "string \<Rightarrow> string \<Rightarrow> string list \<Rightarrow> nat \<Rightarrow> bool" where
  "parses frames out dictionary bytes \<longleftrightarrow>
     (\<forall>sha claimed csize ending rest. length out \<le> csize \<longrightarrow>
        token_loop sha claimed csize ending [] 0 [] (frames @ rest) =
        token_loop sha claimed csize ending dictionary bytes out rest)"

lemma parses_step:
  assumes "parses frames out dictionary db" and "length out \<le> length out'"
    and "\<And>sha claimed csize ending rest. length out' \<le> csize \<Longrightarrow>
      token_loop sha claimed csize ending dictionary db out (frame @ rest) =
      token_loop sha claimed csize ending dictionary' db' out' rest"
  shows "parses (frames @ frame) out' dictionary' db'"
  using assms unfolding parses_def by (metis append.assoc le_trans)

lemma number_bounds: "n \<le> STREAM_CHUNK_BYTES \<Longrightarrow> n < 256 ^ 4" "n \<le> MAX_DICTIONARY_BYTES \<Longrightarrow> n < 256 ^ 4"
    "n < MAX_DICTIONARY_ENTRIES \<Longrightarrow> n < 256 ^ 4"
  by (simp_all add: STREAM_CHUNK_BYTES_def MAX_DICTIONARY_BYTES_def MAX_DICTIONARY_ENTRIES_def)

lemma parses_literal:
  assumes "parses frames out dictionary db" and "v \<noteq> []" and "length v \<le> STREAM_CHUNK_BYTES"
  shows "parses (frames @ (CHR ''L'' # pack_be 4 (length v)) @ v) (out @ v) dictionary db"
  using assms(2,3) unpack_pack_be [OF number_bounds(1) [OF assms(3)]]
  by (intro parses_step [OF assms(1)]) (simp_all add: read_bytes_append)

lemma parses_entry:
  assumes "parses frames out dictionary db" and "MIN_TOKEN_BYTES \<le> length v"
    and "db + length v \<le> MAX_DICTIONARY_BYTES" and "length dictionary < MAX_DICTIONARY_ENTRIES"
  shows "parses (frames @ (CHR ''D'' # pack_be 4 (length v)) @ v) (out @ v) (dictionary @ [v]) (db + length v)"
  using assms(2-) unpack_pack_be [OF number_bounds(2), of "length v"]
  by (intro parses_step [OF assms(1)]) (simp_all add: read_bytes_append)

lemma parses_reference:
  assumes "parses frames out dictionary db" and "n < length dictionary" and "length dictionary \<le> MAX_DICTIONARY_ENTRIES"
  shows "parses (frames @ CHR ''R'' # pack_be 4 n) (out @ dictionary ! n) dictionary db"
  using assms(2,3) unpack_pack_be [OF number_bounds(3), of n]
  by (intro parses_step [OF assms(1)]) (simp_all add: read_bytes_append)

text \<open>The invariant of the encoder: the frames written so far mean \<open>out\<close>, and \<open>out\<close> with the pending bytes is what was hashed.\<close>

definition token_inv :: "('c, 'd) zlib \<Rightarrow> 'c token_encoder \<Rightarrow> string \<Rightarrow> bool" where
  "token_inv z st seen \<longleftrightarrow>
     (\<exists>frames out. wrote z st (TOKEN_MAGIC @ frames) \<and>
        parses frames out (te_dictionary st) (te_dictionary_bytes st) \<and> seen = out @ te_pending st) \<and>
     length (te_pending st) \<le> STREAM_CHUNK_BYTES \<and>
     length (te_dictionary st) \<le> MAX_DICTIONARY_ENTRIES"

lemma wrote_cong:
  "wrote z st bytes \<Longrightarrow> te_compressor st' = te_compressor st \<Longrightarrow> te_packed st' = te_packed st \<Longrightarrow>
   te_framed st' = te_framed st \<Longrightarrow> wrote z st' bytes"
  by (simp add: wrote_def)

lemma token_invI:
  assumes "wrote z st (TOKEN_MAGIC @ frames)" "parses frames out (te_dictionary st) (te_dictionary_bytes st)"
    "seen = out @ te_pending st" "length (te_pending st) \<le> STREAM_CHUNK_BYTES"
    "length (te_dictionary st) \<le> MAX_DICTIONARY_ENTRIES"
  shows "token_inv z st seen"
  unfolding token_inv_def using assms by blast

lemma flush_literal_inv:
  assumes "flush_literal z mu mc st = Inr st'" and "token_inv z st seen"
  shows "token_inv z st' seen \<and> te_pending st' = [] \<and> te_dictionary st' = te_dictionary st \<and>
    te_dictionary_bytes st' = te_dictionary_bytes st \<and> te_size st' = te_size st \<and> te_hashed st' = te_hashed st"
proof (cases "te_pending st = []")
  case True
  then show ?thesis using assms by (simp add: flush_literal_def)
next
  case False
  let ?head = "CHR ''L'' # pack_be 4 (length (te_pending st))"
  obtain frames out where inv: "wrote z st (TOKEN_MAGIC @ frames)" "seen = out @ te_pending st"
    "parses frames out (te_dictionary st) (te_dictionary_bytes st)" "length (te_pending st) \<le> STREAM_CHUNK_BYTES"
    "length (te_dictionary st) \<le> MAX_DICTIONARY_ENTRIES"
    using assms(2) unfolding token_inv_def by blast
  obtain st1 st2 where w1: "write_frame z mu mc ?head st = Inr st1"
    and w2: "write_frame z mu mc (te_pending st) st1 = Inr st2" and st': "st' = st2\<lparr>te_pending := []\<rparr>"
    using assms(1) False write_frame_wrote(2) [OF _ inv(1)]
    by (auto simp: flush_literal_def bind_res_eq_Inr)
  note s1 = write_frame_wrote [OF w1 inv(1)]
  note s2 = write_frame_wrote [OF w2 s1(1)]
  have "token_inv z st' seen"
  proof (rule token_invI)
    show "wrote z st' (TOKEN_MAGIC @ (frames @ ?head @ te_pending st))"
      using wrote_cong [OF s2(1), of st'] by (simp add: st')
    show "parses (frames @ ?head @ te_pending st) seen (te_dictionary st') (te_dictionary_bytes st')"
      using parses_literal [OF inv(3) False inv(4)] inv(2) s1 s2 by (simp add: st')
  qed (use inv s1 s2 in \<open>simp_all add: st'\<close>)
  then show ?thesis using s1 s2 by (simp add: st')
qed

lemma add_literals_inv:
  assumes "add_literals z mu mc parts st = Inr st'" and "token_inv z st seen"
    and "\<forall>part \<in> set parts. length part \<le> STREAM_CHUNK_BYTES"
  shows "token_inv z st' (seen @ concat parts) \<and> te_size st' = te_size st \<and> te_hashed st' = te_hashed st"
  using assms
proof (induction parts arbitrary: st seen)
  case (Cons part parts)
  obtain st1 where st1: "(if length (te_pending st) + length part > STREAM_CHUNK_BYTES
      then flush_literal z mu mc st else Inr st) = Inr st1"
    and rest: "add_literals z mu mc parts (st1\<lparr>te_pending := te_pending st1 @ part\<rparr>) = Inr st'"
    using Cons.prems(1) by (auto simp: bind_res_eq_Inr)
  have one: "token_inv z st1 seen" "te_size st1 = te_size st" "te_hashed st1 = te_hashed st"
    "length (te_pending st1) + length part \<le> STREAM_CHUNK_BYTES"
    using st1 flush_literal_inv [of z mu mc st st1 seen] Cons.prems(2,3) by (auto split: if_splits)
  obtain frames out where inv: "wrote z st1 (TOKEN_MAGIC @ frames)" "seen = out @ te_pending st1"
    "parses frames out (te_dictionary st1) (te_dictionary_bytes st1)" "length (te_dictionary st1) \<le> MAX_DICTIONARY_ENTRIES"
    using one(1) unfolding token_inv_def by blast
  have "token_inv z (st1\<lparr>te_pending := te_pending st1 @ part\<rparr>) (seen @ part)"
    by (rule token_invI [of _ _ frames out]) (use inv one in \<open>auto intro: wrote_cong\<close>)
  from Cons.IH [OF rest this] Cons.prems(3) one show ?case by simp
qed simp

lemma entry_index_Some: "entry_index entries value = Some n \<Longrightarrow> n < length entries \<and> entries ! n = value"
  by (induction entries arbitrary: n) (auto split: if_splits)

lemma encode_piece_inv:
  assumes "encode_piece z mu mc piece st = Inr st'" and "token_inv z st seen"
  shows "token_inv z st' (seen @ utf8 piece) \<and> te_size st' = te_size st + length (utf8 piece) \<and>
    te_hashed st' = te_hashed st @ utf8 piece"
proof -
  let ?v = "utf8 piece"
  let ?st = "st\<lparr>te_size := te_size st + length ?v, te_hashed := te_hashed st @ ?v\<rparr>"
  have inv0: "token_inv z ?st seen"
    using assms(2) by (simp add: token_inv_def wrote_def)
  consider (literal) "add_literals z mu mc (slices ?v) ?st = Inr st'"
    | (reference) n st1 where "entry_index (te_dictionary st) ?v = Some n" "flush_literal z mu mc ?st = Inr st1"
        "write_frame z mu mc (CHR ''R'' # pack_be 4 n) st1 = Inr st'"
    | (entry) st1 st2 where "MIN_TOKEN_BYTES \<le> length ?v" "length (te_dictionary st) < MAX_DICTIONARY_ENTRIES"
        "te_dictionary_bytes st + length ?v \<le> MAX_DICTIONARY_BYTES" "flush_literal z mu mc ?st = Inr st1"
        "write_frame z mu mc (CHR ''D'' # pack_be 4 (length ?v)) (st1\<lparr>te_dictionary := te_dictionary st1 @ [?v],
           te_dictionary_bytes := te_dictionary_bytes st1 + length ?v\<rparr>) = Inr st2"
        "write_frame z mu mc ?v st2 = Inr st'"
    using assms(1) unfolding encode_piece_def Let_def
    by (auto simp: bind_res_eq_Inr split: if_splits option.splits)
  then show ?thesis
  proof cases
    case literal
    then show ?thesis using add_literals_inv [OF literal inv0] slices_length by (simp add: slices_concat)
  next
    case reference
    note f = flush_literal_inv [OF reference(2) inv0]
    obtain frames where inv: "wrote z st1 (TOKEN_MAGIC @ frames)"
      "parses frames seen (te_dictionary st1) (te_dictionary_bytes st1)" "length (te_dictionary st1) \<le> MAX_DICTIONARY_ENTRIES"
      using f unfolding token_inv_def by auto
    note w = write_frame_wrote [OF reference(3) inv(1)]
    have "token_inv z st' (seen @ ?v)"
      using w f parses_reference [OF inv(2) _ inv(3), of n] entry_index_Some [OF reference(1)] inv(3)
      by (intro token_invI [of _ _ "frames @ CHR ''R'' # pack_be 4 n" "seen @ ?v"]) simp_all
    then show ?thesis using w f by simp
  next
    case entry
    note f = flush_literal_inv [OF entry(4) inv0]
    obtain frames where inv: "wrote z st1 (TOKEN_MAGIC @ frames)"
      "parses frames seen (te_dictionary st1) (te_dictionary_bytes st1)"
      using f unfolding token_inv_def by auto
    have "wrote z (st1\<lparr>te_dictionary := te_dictionary st1 @ [?v],
        te_dictionary_bytes := te_dictionary_bytes st1 + length ?v\<rparr>) (TOKEN_MAGIC @ frames)"
      using inv(1) by (rule wrote_cong) simp_all
    note w1 = write_frame_wrote [OF entry(5) this]
    note w2 = write_frame_wrote [OF entry(6) w1(1)]
    have "token_inv z st' (seen @ ?v)"
      using w1 w2 f parses_entry [OF inv(2) entry(1)] entry(2,3)
      by (intro token_invI [of _ _ "frames @ (CHR ''D'' # pack_be 4 (length ?v)) @ ?v" "seen @ ?v"]) simp_all
    then show ?thesis using w1 w2 f by simp
  qed
qed

lemma encode_piece_bound: "encode_piece z mu mc piece st = Inr st' \<Longrightarrow> te_size st + length (utf8 piece) \<le> mu"
  by (auto simp: encode_piece_def Let_def split: if_split_asm)

lemma encode_pieces_inv:
  assumes "encode_pieces z mu mc pieces st = Inr st'" and "token_inv z st seen" and "te_size st \<le> mu"
  shows "token_inv z st' (seen @ concat (map utf8 pieces)) \<and> te_size st' \<le> mu \<and>
    te_size st' = te_size st + length (concat (map utf8 pieces)) \<and>
    te_hashed st' = te_hashed st @ concat (map utf8 pieces)"
  using assms
proof (induction pieces arbitrary: st seen)
  case (Cons piece pieces)
  obtain st1 where st1: "encode_piece z mu mc piece st = Inr st1" and rest: "encode_pieces z mu mc pieces st1 = Inr st'"
    using Cons.prems(1) by (auto simp: bind_res_eq_Inr)
  note one = encode_piece_inv [OF st1 Cons.prems(2)]
  show ?case using Cons.IH [OF rest conjunct1 [OF one]] one encode_piece_bound [OF st1] by simp
qed simp

lemma parses_nothing: "parses [] [] [] 0"
  by (simp add: parses_def)

lemma encode_tokens_frames:
  assumes enc: "encode_tokens z sha mu mc pieces = Inr (n, digest, packed)"
  shows "n = length (concat (map utf8 pieces)) \<and> digest = sha (concat (map utf8 pieces)) \<and> n \<le> mu \<and> length packed \<le> mc \<and>
    (\<exists>c out frames dictionary bytes. fed z c out (TOKEN_MAGIC @ frames) \<and> packed = out @ z_flush z c \<and>
       length (TOKEN_MAGIC @ frames) \<le> token_frame_limit n \<and> parses frames (concat (map utf8 pieces)) dictionary bytes)"
proof -
  let ?data = "concat (map utf8 pieces)"
  obtain st0 st1 st2 where w: "write_frame z mu mc TOKEN_MAGIC (token_encoder_start z) = Inr st0"
    and p: "encode_pieces z mu mc pieces st0 = Inr st1" and f: "flush_literal z mu mc st1 = Inr st2"
    and limit: "te_framed st2 \<le> token_frame_limit (te_size st2)"
    and res: "n = te_size st2" "digest = sha (te_hashed st2)" "packed = te_packed st2 @ z_flush z (te_compressor st2)"
      "length packed \<le> mc"
    using enc unfolding encode_tokens_def Let_def by (auto simp: bind_res_eq_Inr split: if_splits)
  have "wrote z (token_encoder_start z) []"
    by (simp add: wrote_def token_encoder_start_def fed_start)
  note w0 = write_frame_wrote [OF w this]
  have "token_inv z st0 []"
    by (rule token_invI [of _ _ "[]" "[]"]) (use w0 in \<open>simp_all add: token_encoder_start_def parses_nothing\<close>)
  moreover have "te_size st0 \<le> mu" using w0 by (simp add: token_encoder_start_def)
  ultimately have i1: "token_inv z st1 ?data \<and> te_size st1 \<le> mu \<and> te_size st1 = te_size st0 + length ?data \<and>
      te_hashed st1 = te_hashed st0 @ ?data"
    using encode_pieces_inv [OF p, of "[]"] by simp
  note i2 = flush_literal_inv [OF f conjunct1 [OF i1]]
  obtain frames where fr: "wrote z st2 (TOKEN_MAGIC @ frames)"
    "parses frames ?data (te_dictionary st2) (te_dictionary_bytes st2)"
    using i2 unfolding token_inv_def by auto
  have "n = length ?data \<and> digest = sha ?data \<and> n \<le> mu \<and> length packed \<le> mc"
    using res i1 i2 w0 by (simp add: token_encoder_start_def)
  moreover have "fed z (te_compressor st2) (te_packed st2) (TOKEN_MAGIC @ frames)"
    "length (TOKEN_MAGIC @ frames) \<le> token_frame_limit n"
    using fr(1) limit res(1) by (simp_all add: wrote_def)
  ultimately show ?thesis using fr(2) res(3) by blast
qed

lemma token_codec_round_trip:
  assumes z: "zlib_lossless z" and enc: "encode_tokens z sha mu mc pieces = Inr (n, digest, packed)"
  shows "decode_tokens z sha packed n digest = Some (Inr (concat (map utf8 pieces)))"
proof -
  let ?data = "concat (map utf8 pieces)"
  obtain c out frames dictionary bytes where fr: "fed z c out (TOKEN_MAGIC @ frames)" "packed = out @ z_flush z c"
    "length (TOKEN_MAGIC @ frames) \<le> token_frame_limit n" "parses frames ?data dictionary bytes"
    and n: "n = length ?data" "digest = sha ?data"
    using encode_tokens_frames [OF enc] by blast
  have "token_loop sha digest n (Inr ()) [] 0 [] (frames @ []) = token_loop sha digest n (Inr ()) dictionary bytes ?data []"
    using fr(4) n unfolding parses_def by blast
  moreover have "inflate z ''run_storage_token_frame_size_limit'' (token_frame_limit n) packed = Some (TOKEN_MAGIC @ frames, Inr ())"
    unfolding fr(2) by (rule fed_inflate [OF z fr(1,3)])
  ultimately show ?thesis
    unfolding decode_tokens_def using n by (simp add: read_bytes_append checked_output_def)
qed

text \<open>
  C19. The token encoding is lossless: whenever it succeeds, decoding its output with the recorded
  length and digest returns exactly the bytes of the pieces, in order, whatever the
  dictionary did; and the packed size is within its limit.
\<close>

theorem token_references_are_exact:
  assumes "zlib_lossless z" and "encode_tokens z sha max_uncompressed max_compressed pieces = Inr (n, digest, packed)"
  shows "decode_tokens z sha packed n digest = Some (Inr (concat (map utf8 pieces))) \<and>
    n = length (concat (map utf8 pieces)) \<and> n \<le> max_uncompressed \<and> length packed \<le> max_compressed"
  using token_codec_round_trip [OF assms] encode_tokens_frames [OF assms(2)] by blast

lemma slices_short: "slices [] = []" "data \<noteq> [] \<Longrightarrow> length data \<le> STREAM_CHUNK_BYTES \<Longrightarrow> slices data = [data]"
  by (simp add: slices.simps, subst slices.simps, simp, subst slices.simps, simp)

lemma sample_tokens: "encode_tokens stored_zlib (\<lambda>_. ''d'') 100 100 [''a'', ''b''] =
    Inr (2, ''d'', TOKEN_MAGIC @ ''L'' @ pack_be 4 2 @ ''ab'')"
  by (simp add: encode_tokens_def token_encoder_start_def write_frame_def flush_literal_def encode_piece_def Let_def
      token_frame_limit_def stored_zlib_def TOKEN_MAGIC_def MIN_TOKEN_BYTES_def
      STREAM_CHUNK_BYTES_def slices_short utf8_def utf8_char_def numeral_2_eq_2)

theorem token_references_are_exact_witness:
  "decode_tokens stored_zlib (\<lambda>_. ''d'') (TOKEN_MAGIC @ ''L'' @ pack_be 4 2 @ ''ab'') 2 ''d'' = Some (Inr ''ab'')"
  using token_references_are_exact [OF stored_lossless sample_tokens] by (simp add: utf8_def utf8_char_def)

end
