(* ===== verification/StorageChunks.thy ===== *)
theory StorageChunks
  imports StorageTokens "HOL-Library.Word"
begin

text \<open>
  Long-range chunk references (\<open>nico/comprehensive_run_storage_chunks_v1.py\<close>): the pieces of the
  JSON encoder are cut into content-defined chunks, and a chunk that occurred before is written
  as the offset of the bytes already emitted. A temporary file holds the unique chunks, so that
  a chunk is compared with the earlier bytes and not only by its hash.
\<close>

unbundle bit_operations_syntax

section \<open>Content-defined chunks\<close>

definition CHUNK_MAGIC :: string where
  "CHUNK_MAGIC = ''NICO-JCHK1'' @ [CHR 0x00]"

definition MIN_CHUNK_BYTES :: nat where
  "MIN_CHUNK_BYTES = 4096"

definition MAX_INDEX_ENTRIES :: nat where
  "MAX_INDEX_ENTRIES = 131072"

definition MAX_GEAR_ENTRIES :: nat where
  "MAX_GEAR_ENTRIES = 1024"

definition chunk_frame_limit :: "nat \<Rightarrow> nat" where
  "chunk_frame_limit csize = csize + 13 * (csize div MIN_CHUNK_BYTES + 2) + length CHUNK_MAGIC"

text \<open>\<open>zlib.crc32\<close>: the reflected polynomial, one bit at a time.\<close>

fun crc_bits :: "nat \<Rightarrow> 32 word \<Rightarrow> 32 word" where
  "crc_bits 0 crc = crc"
| "crc_bits (Suc n) crc = crc_bits n (if crc AND 1 = 0 then drop_bit 1 crc else drop_bit 1 crc XOR 0xEDB88320)"

definition crc32 :: "string \<Rightarrow> 32 word" where
  "crc32 data = foldl (\<lambda>crc b. crc_bits 8 (crc XOR of_nat (code_of b))) 0xFFFFFFFF data XOR 0xFFFFFFFF"

definition gear_of :: "string \<Rightarrow> 64 word" where
  "gear_of value = (of_nat (unat (crc32 value)) + 1) * 0x9E3779B185EBCA87"

text \<open>The variables of the generator; \<open>ck_chunks\<close> is what it has yielded.\<close>

record chunker =
  ck_pending :: string
  ck_gears :: "(string \<times> 64 word) list"
  ck_fingerprint :: "64 word"
  ck_total :: nat
  ck_chunks :: "string list"

definition gear_lookup :: "string \<Rightarrow> (string \<times> 64 word) list \<Rightarrow> 64 word \<times> (string \<times> 64 word) list" where
  "gear_lookup value gears =
    (case (if length value \<le> 32 then map_of gears value else None) of
       Some gear \<Rightarrow> (gear, gears)
     | None \<Rightarrow>
         let gear = gear_of value in
         (gear, if length value \<le> 32 \<and> length gears < MAX_GEAR_ENTRIES then gears @ [(value, gear)] else gears))"

text \<open>
  The inner loop on the rest of \<open>value\<close>: the full chunks it yields and the pending bytes it leaves.
  \<open>pending\<close> never exceeds a chunk, where Python's loop would not end either.
\<close>

function fill_chunks :: "string \<Rightarrow> string \<Rightarrow> string list \<times> string" where
  "fill_chunks pending value =
    (if value = [] \<or> STREAM_CHUNK_BYTES < length pending then ([], pending)
     else
       let taken = min (STREAM_CHUNK_BYTES - length pending) (length value);
           pending' = pending @ take taken value in
       if length pending' = STREAM_CHUNK_BYTES
       then (let (chunks, left) = fill_chunks [] (drop taken value) in (pending' # chunks, left))
       else fill_chunks pending' (drop taken value))"
  by pat_completeness auto
termination
  by (relation "measure (\<lambda>(pending, value). 2 * length value + (if pending = [] then 0 else 1))")
    (auto simp: STREAM_CHUNK_BYTES_def min_def neq_Nil_conv split: if_splits)

declare fill_chunks.simps [simp del]

definition chunk_piece :: "nat \<Rightarrow> string \<Rightarrow> chunker \<Rightarrow> chunker res" where
  "chunk_piece maximum token ck =
    (let value = utf8 token;
         seen = ck_total ck + length value in
     if seen > maximum then Inl (ValueError ''run_storage_uncompressed_size_limit'')
     else
       let (gear, gears) = gear_lookup value (ck_gears ck);
           fingerprint = push_bit 1 (ck_fingerprint ck) + gear;
           (full, pending) = fill_chunks (ck_pending ck) value;
           cut = MIN_CHUNK_BYTES \<le> length pending \<and> fingerprint AND 1023 = 0 in
       Inr \<lparr>ck_pending = (if cut then [] else pending), ck_gears = gears, ck_fingerprint = fingerprint,
         ck_total = seen, ck_chunks = ck_chunks ck @ full @ (if cut then [pending] else [])\<rparr>)"

text \<open>The generator: the chunks it yields, and the exception that ends it.\<close>

fun chunk_pieces :: "nat \<Rightarrow> string list \<Rightarrow> chunker \<Rightarrow> string list \<times> unit res" where
  "chunk_pieces maximum [] ck =
    (ck_chunks ck @ (if ck_pending ck = [] then [] else [ck_pending ck]), Inr ())"
| "chunk_pieces maximum (token # tokens) ck =
    (case chunk_piece maximum token ck of
       Inl e \<Rightarrow> (ck_chunks ck, Inl e)
     | Inr ck' \<Rightarrow> chunk_pieces maximum tokens ck')"

definition content_chunks :: "nat \<Rightarrow> string list \<Rightarrow> string list \<times> unit res" where
  "content_chunks maximum tokens = chunk_pieces maximum tokens
     \<lparr>ck_pending = [], ck_gears = [], ck_fingerprint = 0, ck_total = 0, ck_chunks = []\<rparr>"

section \<open>Encoding\<close>

text \<open>
  The variables of \<open>encode_chunks\<close>. The index is keyed by the digest of the chunk and holds its
  offset in the output, its offset in the temporary file and its length. A write to the
  buffered file never is short.
\<close>

record 'c chunk_encoder =
  ce_compressor :: 'c
  ce_packed :: string
  ce_index :: "(string \<times> nat \<times> nat \<times> nat) list"
  ce_size :: nat
  ce_framed :: nat
  ce_spool :: string
  ce_spool_size :: nat
  ce_hashed :: string

definition write_chunk ::
  "('c, 'd) zlib \<Rightarrow> nat \<Rightarrow> nat \<Rightarrow> string \<Rightarrow> 'c chunk_encoder \<Rightarrow> 'c chunk_encoder res" where
  "write_chunk z max_uncompressed max_compressed value st =
    (let framed = ce_framed st + length value in
     if framed > chunk_frame_limit max_uncompressed then Inl (ValueError ''run_storage_chunk_frame_size_limit'')
     else
       let (c, data) = z_compress z (ce_compressor st) value in
       if length (ce_packed st) + length data > max_compressed
       then Inl (ValueError ''run_storage_compressed_size_limit'')
       else Inr (st\<lparr>ce_framed := framed, ce_compressor := c, ce_packed := ce_packed st @ data\<rparr>))"

definition spool_read :: "string \<Rightarrow> nat \<Rightarrow> nat \<Rightarrow> string" where
  "spool_read spool position wanted = take wanted (drop position spool)"

definition spool_write :: "string \<Rightarrow> nat \<Rightarrow> string \<Rightarrow> string" where
  "spool_write spool position value = take position spool @ value @ drop (position + length value) spool"

definition retain_chunk :: "(string \<Rightarrow> string) \<Rightarrow> nat \<Rightarrow> string \<Rightarrow> 'c chunk_encoder \<Rightarrow> 'c chunk_encoder res" where
  "retain_chunk sha max_uncompressed chunk st =
    (let written = length chunk in
     if MIN_CHUNK_BYTES \<le> written \<and> map_of (ce_index st) (sha chunk) = None \<and> length (ce_index st) < MAX_INDEX_ENTRIES
     then
       (if ce_spool_size st + written > max_uncompressed then Inl (ValueError ''run_storage_chunk_spool_size_limit'')
        else Inr (st\<lparr>ce_spool := spool_write (ce_spool st) (ce_spool_size st) chunk,
            ce_index := ce_index st @ [(sha chunk, ce_size st, ce_spool_size st, written)],
            ce_spool_size := ce_spool_size st + written\<rparr>))
     else Inr st)"

definition encode_chunk ::
  "('c, 'd) zlib \<Rightarrow> (string \<Rightarrow> string) \<Rightarrow> nat \<Rightarrow> nat \<Rightarrow> string \<Rightarrow> 'c chunk_encoder \<Rightarrow> 'c chunk_encoder res" where
  "encode_chunk z sha max_uncompressed max_compressed chunk st0 =
    (let written = length chunk;
         write = write_chunk z max_uncompressed max_compressed;
         st = st0\<lparr>ce_hashed := ce_hashed st0 @ chunk\<rparr>;
         matched = (case map_of (ce_index st) (sha chunk) of
             None \<Rightarrow> None
           | Some (offset, position, held) \<Rightarrow>
               if held = written \<and> spool_read (ce_spool st) position written = chunk then Some offset else None) in
     bind_res
       (case matched of
          Some offset \<Rightarrow> write (CHR ''R'' # pack_be 8 offset @ pack_be 4 written) st
        | None \<Rightarrow>
            bind_res (write (CHR ''L'' # pack_be 4 written) st) (\<lambda>st1.
            bind_res (write chunk st1) (retain_chunk sha max_uncompressed chunk)))
       (\<lambda>st'. Inr (st'\<lparr>ce_size := ce_size st' + written\<rparr>)))"

fun encode_chunk_list ::
  "('c, 'd) zlib \<Rightarrow> (string \<Rightarrow> string) \<Rightarrow> nat \<Rightarrow> nat \<Rightarrow> string list \<Rightarrow> 'c chunk_encoder \<Rightarrow> 'c chunk_encoder res" where
  "encode_chunk_list z sha max_uncompressed max_compressed [] st = Inr st"
| "encode_chunk_list z sha max_uncompressed max_compressed (chunk # chunks) st =
     bind_res (encode_chunk z sha max_uncompressed max_compressed chunk st)
       (encode_chunk_list z sha max_uncompressed max_compressed chunks)"

definition chunk_encoder_start :: "('c, 'd) zlib \<Rightarrow> 'c chunk_encoder" where
  "chunk_encoder_start z = \<lparr>ce_compressor = z_start z, ce_packed = [], ce_index = [], ce_size = 0, ce_framed = 0,
     ce_spool = [], ce_spool_size = 0, ce_hashed = []\<rparr>"

definition encode_chunks ::
  "('c, 'd) zlib \<Rightarrow> (string \<Rightarrow> string) \<Rightarrow> nat \<Rightarrow> nat \<Rightarrow> string list \<Rightarrow> (nat \<times> string \<times> string) res" where
  "encode_chunks z sha max_uncompressed max_compressed tokens =
    bind_res (write_chunk z max_uncompressed max_compressed CHUNK_MAGIC (chunk_encoder_start z)) (\<lambda>st0.
      let (chunks, ending) = content_chunks max_uncompressed tokens in
      bind_res (encode_chunk_list z sha max_uncompressed max_compressed chunks st0) (\<lambda>st.
      bind_res ending (\<lambda>_.
        let data = z_flush z (ce_compressor st) in
        if length (ce_packed st) + length data > max_compressed
        then Inl (ValueError ''run_storage_compressed_size_limit'')
        else if ce_framed st > chunk_frame_limit (ce_size st)
        then Inl (ValueError ''run_storage_chunk_frame_size_limit'')
        else Inr (ce_size st, sha (ce_hashed st), ce_packed st @ data))))"

section \<open>Decoding\<close>

function chunk_loop ::
  "(string \<Rightarrow> string) \<Rightarrow> string \<Rightarrow> nat \<Rightarrow> unit res \<Rightarrow> string \<Rightarrow> string \<Rightarrow> string res" where
  "chunk_loop sha claimed csize ending out [] =
    (case ending of Inl e \<Rightarrow> Inl e | Inr _ \<Rightarrow> checked_output sha claimed csize out)"
| "chunk_loop sha claimed csize ending out (tag # bytes) =
    (if tag = CHR ''L'' then
       bind_res (read_bytes ''run_storage_chunk_frame_incomplete'' ending 4 bytes) (\<lambda>(head, rest).
       let wanted = unpack_be head in
       if \<not> (0 < wanted \<and> wanted \<le> STREAM_CHUNK_BYTES) then Inl (ValueError ''run_storage_chunk_literal_size_invalid'')
       else if length out + wanted > csize then Inl (ValueError ''run_storage_uncompressed_size_mismatch'')
       else bind_res (read_bytes ''run_storage_chunk_frame_incomplete'' ending wanted rest) (\<lambda>(value, rest').
         chunk_loop sha claimed csize ending (out @ value) rest'))
     else if tag = CHR ''R'' then
       bind_res (read_bytes ''run_storage_chunk_frame_incomplete'' ending 12 bytes) (\<lambda>(head, rest).
       let offset = unpack_be (take 8 head); wanted = unpack_be (drop 8 head) in
       if \<not> (MIN_CHUNK_BYTES \<le> wanted \<and> wanted \<le> STREAM_CHUNK_BYTES) \<or> offset + wanted > length out
       then Inl (ValueError ''run_storage_chunk_reference_invalid'')
       else if length out + wanted > csize then Inl (ValueError ''run_storage_uncompressed_size_mismatch'')
       else
         let value = spool_read out offset wanted in
         if length value \<noteq> wanted then Inl (ValueError ''run_storage_chunk_reference_invalid'')
         else chunk_loop sha claimed csize ending (out @ value) rest)
     else Inl (ValueError ''run_storage_chunk_tag_invalid''))"
  by pat_completeness auto
termination
  by (relation "measure (\<lambda>(_, _, _, _, _, bytes). length bytes)") (fastforce dest!: read_bytes_shorter)+

definition decode_chunks ::
  "('c, 'd) zlib \<Rightarrow> (string \<Rightarrow> string) \<Rightarrow> string \<Rightarrow> nat \<Rightarrow> string \<Rightarrow> string res option" where
  "decode_chunks z sha packed csize claimed =
    (case inflate z ''run_storage_chunk_frame_size_limit'' (chunk_frame_limit csize) packed of
       None \<Rightarrow> None
     | Some (bytes, ending) \<Rightarrow> Some (
         bind_res (read_bytes ''run_storage_chunk_frame_incomplete'' ending (length CHUNK_MAGIC) bytes) (\<lambda>(magic, rest).
           if magic \<noteq> CHUNK_MAGIC then Inl (ValueError ''run_storage_chunk_magic_invalid'')
           else chunk_loop sha claimed csize ending [] rest)))"

section \<open>Decoding an encoding returns the exact bytes\<close>

text \<open>The cache of gears only saves the computation.\<close>

lemma gear_lookup_transparent:
  assumes "\<forall>(v, g) \<in> set gears. g = gear_of v"
  shows "fst (gear_lookup value gears) = gear_of value"
    and "\<forall>(v, g) \<in> set (snd (gear_lookup value gears)). g = gear_of v"
  using assms by (auto simp: gear_lookup_def Let_def dest!: map_of_SomeD split: option.splits if_splits)

lemma fill_chunks_bytes:
  assumes "fill_chunks pending bytes = (chunks, left)" and "length pending < STREAM_CHUNK_BYTES"
  shows "pending @ bytes = concat chunks @ left \<and> length left < STREAM_CHUNK_BYTES \<and>
    (\<forall>chunk \<in> set chunks. length chunk = STREAM_CHUNK_BYTES)"
  using assms
proof (induction pending bytes arbitrary: chunks rule: fill_chunks.induct)
  case (1 pending bytes)
  let ?n = "min (STREAM_CHUNK_BYTES - length pending) (length bytes)"
  let ?p = "pending @ take ?n bytes"
  show ?case
  proof (cases "bytes = []")
    case True
    then show ?thesis using 1(3,4) by (subst (asm) fill_chunks.simps) simp
  next
    case False
    then have go: "\<not> (bytes = [] \<or> STREAM_CHUNK_BYTES < length pending)" using 1(4) by simp
    have pos: "0 < STREAM_CHUNK_BYTES" by (simp add: STREAM_CHUNK_BYTES_def)
    show ?thesis
    proof (cases "length ?p = STREAM_CHUNK_BYTES")
      case True
      obtain chunks' where rec: "fill_chunks [] (drop ?n bytes) = (chunks', left)" and ch: "chunks = ?p # chunks'"
        using 1(3) go True by (subst (asm) fill_chunks.simps) (auto simp: Let_def split: prod.splits)
      have IH: "[] @ drop ?n bytes = concat chunks' @ left \<and> length left < STREAM_CHUNK_BYTES \<and>
          (\<forall>chunk \<in> set chunks'. length chunk = STREAM_CHUNK_BYTES)"
        using 1(1) [OF go refl refl True rec] pos by simp
      have "pending @ bytes = ?p @ drop ?n bytes" unfolding append.assoc append_take_drop_id by (rule refl)
      also have "drop ?n bytes = concat chunks' @ left" using IH by (simp only: append.left_neutral)
      finally show ?thesis using IH True unfolding ch by simp
    next
      case less: False
      have rec: "fill_chunks ?p (drop ?n bytes) = (chunks, left)"
        using 1(3) go less by (subst (asm) fill_chunks.simps) (simp add: Let_def)
      have "length ?p < STREAM_CHUNK_BYTES" using less 1(4) by (auto simp: min_def split: if_splits)
      from 1(2) [OF go refl refl less rec this] show ?thesis
        by (simp only: append.assoc append_take_drop_id) simp
    qed
  qed
qed

text \<open>What was yielded, and then the pending bytes, are the pieces read so far.\<close>

definition chunker_inv :: "nat \<Rightarrow> chunker \<Rightarrow> string \<Rightarrow> bool" where
  "chunker_inv maximum ck seen \<longleftrightarrow>
     concat (ck_chunks ck) @ ck_pending ck = seen \<and> length (ck_pending ck) < STREAM_CHUNK_BYTES \<and>
     (\<forall>chunk \<in> set (ck_chunks ck). 0 < length chunk \<and> length chunk \<le> STREAM_CHUNK_BYTES) \<and>
     length seen = ck_total ck \<and> ck_total ck \<le> maximum"

lemma chunk_piece_inv:
  assumes "chunk_piece maximum token ck = Inr ck'" and "chunker_inv maximum ck seen"
  shows "chunker_inv maximum ck' (seen @ utf8 token)"
proof -
  obtain full left where fill: "fill_chunks (ck_pending ck) (utf8 token) = (full, left)" by fastforce
  have pos: "0 < STREAM_CHUNK_BYTES" "0 < MIN_CHUNK_BYTES" by (simp_all add: STREAM_CHUNK_BYTES_def MIN_CHUNK_BYTES_def)
  from fill_chunks_bytes [OF fill] assms(2) have f:
    "ck_pending ck @ utf8 token = concat full @ left" "length left < STREAM_CHUNK_BYTES"
    "\<forall>chunk \<in> set full. length chunk = STREAM_CHUNK_BYTES"
    by (simp_all add: chunker_inv_def)
  then have f3: "\<forall>chunk \<in> set full. chunk \<noteq> [] \<and> length chunk \<le> STREAM_CHUNK_BYTES" using pos(1) by fastforce
  have len: "length (concat full) + length left = length (ck_pending ck) + length (utf8 token)"
    using arg_cong [OF f(1), of length] by simp
  have "seen @ utf8 token = concat (ck_chunks ck) @ concat full @ left"
    using assms(2) unfolding f(1) [symmetric] by (auto simp: chunker_inv_def)
  moreover obtain gears fp cut where ck': "ck' = \<lparr>ck_pending = (if cut then [] else left), ck_gears = gears,
      ck_fingerprint = fp, ck_total = ck_total ck + length (utf8 token),
      ck_chunks = ck_chunks ck @ full @ (if cut then [left] else [])\<rparr>"
    and cut: "cut \<Longrightarrow> MIN_CHUNK_BYTES \<le> length left" and total: "ck_total ck + length (utf8 token) \<le> maximum"
  proof (cases "gear_lookup (utf8 token) (ck_gears ck)")
    case (Pair gear gears)
    let ?fp = "push_bit 1 (ck_fingerprint ck) + gear"
    note eq = assms(1) [unfolded chunk_piece_def Let_def fill Pair prod.case]
    show ?thesis
      by (rule that [of "MIN_CHUNK_BYTES \<le> length left \<and> ?fp AND 1023 = 0" gears ?fp];
        use eq in \<open>cases "maximum < ck_total ck + length (utf8 token)"\<close>)
        (simp_all only: if_True if_False sum.inject sum.distinct not_less simp_thms)
  qed
  moreover have "left \<noteq> []" if cut using cut [OF that] pos(2) by auto
  ultimately show ?thesis
    using assms(2) f(2) f3 len by (cases cut) (auto simp: chunker_inv_def)
qed

lemma chunk_pieces_bytes:
  assumes "chunk_pieces maximum tokens ck = (chunks, Inr ())" and "chunker_inv maximum ck seen"
  shows "concat chunks = seen @ concat (map utf8 tokens) \<and> length (seen @ concat (map utf8 tokens)) \<le> maximum \<and>
    (\<forall>chunk \<in> set chunks. 0 < length chunk \<and> length chunk \<le> STREAM_CHUNK_BYTES)"
  using assms
proof (induction tokens arbitrary: ck seen)
  case Nil
  then show ?case by (auto simp: chunker_inv_def split: if_splits)
next
  case (Cons token tokens)
  obtain ck' where step: "chunk_piece maximum token ck = Inr ck'"
    and rest: "chunk_pieces maximum tokens ck' = (chunks, Inr ())"
    using Cons.prems(1) by (auto split: sum.splits)
  show ?case using Cons.IH [OF rest chunk_piece_inv [OF step Cons.prems(2)]] by simp
qed

lemma content_chunks_bytes:
  assumes "content_chunks maximum tokens = (chunks, Inr ())"
  shows "concat chunks = concat (map utf8 tokens) \<and> length (concat (map utf8 tokens)) \<le> maximum \<and>
    (\<forall>chunk \<in> set chunks. 0 < length chunk \<and> length chunk \<le> STREAM_CHUNK_BYTES)"
proof -
  have "chunker_inv maximum \<lparr>ck_pending = [], ck_gears = [], ck_fingerprint = 0, ck_total = 0, ck_chunks = []\<rparr> []"
    by (simp add: chunker_inv_def STREAM_CHUNK_BYTES_def)
  from chunk_pieces_bytes [OF assms [unfolded content_chunks_def] this, unfolded append.left_neutral] show ?thesis .
qed

text \<open>What the frames written so far mean to the decoder, whatever follows them.\<close>

definition chunk_parses :: "string \<Rightarrow> string \<Rightarrow> bool" where
  "chunk_parses frames out \<longleftrightarrow>
     (\<forall>sha claimed csize ending rest. length out \<le> csize \<longrightarrow>
        chunk_loop sha claimed csize ending [] (frames @ rest) = chunk_loop sha claimed csize ending out rest)"

lemma chunk_parses_step:
  assumes "chunk_parses frames out" and "length out \<le> length out'"
    and "\<And>sha claimed csize ending rest. length out' \<le> csize \<Longrightarrow>
      chunk_loop sha claimed csize ending out (frame @ rest) = chunk_loop sha claimed csize ending out' rest"
  shows "chunk_parses (frames @ frame) out'"
  using assms unfolding chunk_parses_def by (metis append.assoc le_trans)

lemma chunk_parses_literal:
  assumes "chunk_parses frames out" and "0 < length v \<and> length v \<le> STREAM_CHUNK_BYTES"
  shows "chunk_parses (frames @ (CHR ''L'' # pack_be 4 (length v)) @ v) (out @ v)"
  using assms(2) unpack_pack_be [OF number_bounds(1), of "length v"]
  by (intro chunk_parses_step [OF assms(1)]) (simp_all add: read_bytes_append)

lemma chunk_parses_reference:
  assumes "chunk_parses frames out" and "offset + n \<le> length out" and "MIN_CHUNK_BYTES \<le> n" "n \<le> STREAM_CHUNK_BYTES"
    and "offset < 256 ^ 8"
  shows "chunk_parses (frames @ CHR ''R'' # pack_be 8 offset @ pack_be 4 n) (out @ spool_read out offset n)"
proof -
  have "length (spool_read out offset n) = n" using assms(2) by (simp add: spool_read_def)
  moreover have "read_bytes code ending 12 (pack_be 8 offset @ pack_be 4 n @ rest) = Inr (pack_be 8 offset @ pack_be 4 n, rest)"
    for code ending rest
    using read_bytes_append [of "pack_be 8 offset @ pack_be 4 n" 12 code ending rest] by simp
  ultimately show ?thesis
    using assms(2-) unpack_pack_be [OF number_bounds(1) [OF assms(4)]] unpack_pack_be [OF assms(5)]
    by (intro chunk_parses_step [OF assms(1)]) simp_all
qed

text \<open>
  The invariant of the encoder: the frames mean what was hashed, and every index entry names equal
  bytes of the output and of the temporary file.
\<close>

definition entry_ok :: "string \<Rightarrow> string \<Rightarrow> string \<times> nat \<times> nat \<times> nat \<Rightarrow> bool" where
  "entry_ok seen spool entry \<longleftrightarrow> (case entry of (key, offset, position, held) \<Rightarrow>
     MIN_CHUNK_BYTES \<le> held \<and> held \<le> STREAM_CHUNK_BYTES \<and> offset + held \<le> length seen \<and> position + held \<le> length spool \<and>
     spool_read spool position held = spool_read seen offset held)"

definition chunk_wrote :: "('c, 'd) zlib \<Rightarrow> 'c chunk_encoder \<Rightarrow> string \<Rightarrow> bool" where
  "chunk_wrote z st bytes \<longleftrightarrow> fed z (ce_compressor st) (ce_packed st) bytes \<and> ce_framed st = length bytes"

definition chunk_inv :: "('c, 'd) zlib \<Rightarrow> 'c chunk_encoder \<Rightarrow> bool" where
  "chunk_inv z st \<longleftrightarrow>
     (\<exists>frames. chunk_wrote z st (CHUNK_MAGIC @ frames) \<and> chunk_parses frames (ce_hashed st)) \<and>
     ce_size st = length (ce_hashed st) \<and> ce_spool_size st = length (ce_spool st) \<and>
     (\<forall>entry \<in> set (ce_index st). entry_ok (ce_hashed st) (ce_spool st) entry)"

lemma write_chunk_wrote:
  assumes "write_chunk z mu mc v st = Inr st'" and "chunk_wrote z st bytes"
  shows "chunk_wrote z st' (bytes @ v) \<and> ce_index st' = ce_index st \<and> ce_size st' = ce_size st \<and>
    ce_spool st' = ce_spool st \<and> ce_spool_size st' = ce_spool_size st \<and> ce_hashed st' = ce_hashed st"
  using assms fed_compress
  by (fastforce simp: write_chunk_def Let_def chunk_wrote_def split: if_splits prod.splits)

lemma spool_read_append: "position + n \<le> length spool \<Longrightarrow> spool_read (spool @ v) position n = spool_read spool position n"
  by (simp add: spool_read_def)

lemma spool_read_end: "spool_read (spool @ v) (length spool) (length v) = v"
  by (simp add: spool_read_def)

lemma entry_ok_append: "entry_ok seen spool entry \<Longrightarrow> entry_ok (seen @ v) (spool @ w) entry"
  by (auto simp: entry_ok_def spool_read_append)

lemma retain_chunk_inv:
  assumes "retain_chunk sha mu chunk st = Inr st'" and "length chunk \<le> STREAM_CHUNK_BYTES"
    and "ce_size st = length seen" "ce_spool_size st = length (ce_spool st)"
    and "\<forall>entry \<in> set (ce_index st). entry_ok seen (ce_spool st) entry"
  shows "(\<forall>entry \<in> set (ce_index st'). entry_ok (seen @ chunk) (ce_spool st') entry) \<and>
    ce_spool_size st' = length (ce_spool st') \<and> ce_hashed st' = ce_hashed st \<and> ce_size st' = ce_size st \<and>
    ce_compressor st' = ce_compressor st \<and> ce_packed st' = ce_packed st \<and> ce_framed st' = ce_framed st"
proof (cases "MIN_CHUNK_BYTES \<le> length chunk \<and> map_of (ce_index st) (sha chunk) = None \<and> length (ce_index st) < MAX_INDEX_ENTRIES")
  case True
  have "entry_ok (seen @ chunk) (ce_spool st @ chunk) (sha chunk, ce_size st, ce_spool_size st, length chunk)"
    using assms(2-4) True by (simp add: entry_ok_def spool_read_end)
  then show ?thesis
    using assms True by (auto simp: retain_chunk_def Let_def spool_write_def entry_ok_append split: if_splits)
next
  case False
  then have "st' = st" using assms(1) by (auto simp: retain_chunk_def Let_def)
  then show ?thesis using assms entry_ok_append [of seen "ce_spool st" _ chunk "[]"] by auto
qed

lemma encode_chunk_inv:
  assumes enc: "encode_chunk z sha mu mc chunk st = Inr st'" and inv: "chunk_inv z st"
    and len: "0 < length chunk \<and> length chunk \<le> STREAM_CHUNK_BYTES" and fits: "length (ce_hashed st) < 256 ^ 8"
  shows "chunk_inv z st' \<and> ce_hashed st' = ce_hashed st @ chunk"
proof -
  let ?st = "st\<lparr>ce_hashed := ce_hashed st @ chunk\<rparr>"
  obtain frames where fr: "chunk_wrote z ?st (CHUNK_MAGIC @ frames)" "chunk_parses frames (ce_hashed st)"
    using inv by (auto simp: chunk_inv_def chunk_wrote_def)
  have st: "ce_size st = length (ce_hashed st)" "ce_spool_size st = length (ce_spool st)"
    "\<forall>entry \<in> set (ce_index st). entry_ok (ce_hashed st) (ce_spool st) entry"
    using inv by (simp_all add: chunk_inv_def)
  consider (reference) offset position st1 where
      "map_of (ce_index st) (sha chunk) = Some (offset, position, length chunk)"
      "spool_read (ce_spool st) position (length chunk) = chunk"
      "write_chunk z mu mc (CHR ''R'' # pack_be 8 offset @ pack_be 4 (length chunk)) ?st = Inr st1"
      "st' = st1\<lparr>ce_size := ce_size st1 + length chunk\<rparr>"
    | (literal) st1 st2 st3 where "write_chunk z mu mc (CHR ''L'' # pack_be 4 (length chunk)) ?st = Inr st1"
      "write_chunk z mu mc chunk st1 = Inr st2" "retain_chunk sha mu chunk st2 = Inr st3"
      "st' = st3\<lparr>ce_size := ce_size st3 + length chunk\<rparr>"
    using enc unfolding encode_chunk_def Let_def
    by (auto simp: bind_res_eq_Inr split: option.splits if_splits prod.splits)
  then show ?thesis
  proof cases
    case reference
    note w = write_chunk_wrote [OF reference(3) fr(1)]
    have "(sha chunk, offset, position, length chunk) \<in> set (ce_index st)" using reference(1) by (rule map_of_SomeD)
    with st(3) have "entry_ok (ce_hashed st) (ce_spool st) (sha chunk, offset, position, length chunk)" by blast
    then have ok: "MIN_CHUNK_BYTES \<le> length chunk" "offset + length chunk \<le> length (ce_hashed st)"
      "spool_read (ce_hashed st) offset (length chunk) = chunk" using reference(2) by (simp_all add: entry_ok_def)
    have "chunk_parses (frames @ CHR ''R'' # pack_be 8 offset @ pack_be 4 (length chunk)) (ce_hashed st @ chunk)"
      using chunk_parses_reference [OF fr(2) ok(2,1)] len ok(2,3) fits by simp
    then show ?thesis
      using w st entry_ok_append [of _ "ce_spool st" _ chunk "[]"] unfolding chunk_inv_def reference(4)
      by (auto simp: chunk_wrote_def)
  next
    case literal
    note w1 = write_chunk_wrote [OF literal(1) fr(1)]
    note w2 = write_chunk_wrote [OF literal(2) conjunct1 [OF w1]]
    have "\<forall>entry \<in> set (ce_index st2). entry_ok (ce_hashed st) (ce_spool st2) entry" "ce_size st2 = length (ce_hashed st)"
      "ce_spool_size st2 = length (ce_spool st2)" using w1 w2 st by simp_all
    note r = retain_chunk_inv [OF literal(3) conjunct2 [OF len] this(2,3,1)]
    have "chunk_wrote z st' (CHUNK_MAGIC @ frames @ (CHR ''L'' # pack_be 4 (length chunk)) @ chunk)"
      using r w2 unfolding literal(4) chunk_wrote_def by simp
    then show ?thesis
      using r w1 w2 st chunk_parses_literal [OF fr(2) len] unfolding chunk_inv_def
      by (auto simp: literal(4))
  qed
qed

lemma encode_chunk_list_inv:
  assumes "encode_chunk_list z sha mu mc chunks st = Inr st'" and "chunk_inv z st"
    and "\<forall>chunk \<in> set chunks. 0 < length chunk \<and> length chunk \<le> STREAM_CHUNK_BYTES"
    and "length (ce_hashed st @ concat chunks) < 256 ^ 8"
  shows "chunk_inv z st' \<and> ce_hashed st' = ce_hashed st @ concat chunks"
  using assms
proof (induction chunks arbitrary: st)
  case (Cons chunk chunks)
  obtain st1 where st1: "encode_chunk z sha mu mc chunk st = Inr st1"
    and rest: "encode_chunk_list z sha mu mc chunks st1 = Inr st'"
    using Cons.prems(1) by (auto simp: bind_res_eq_Inr)
  have one: "chunk_inv z st1 \<and> ce_hashed st1 = ce_hashed st @ chunk"
    using Cons.prems by (intro encode_chunk_inv [OF st1]) simp_all
  then have "length (ce_hashed st1 @ concat chunks) < 256 ^ 8" using Cons.prems(4) by simp
  with Cons.IH [OF rest] Cons.prems(3) one show ?case by simp
qed simp

lemma encode_chunks_frames:
  assumes small: "mu < 256 ^ 8" and enc: "encode_chunks z sha mu mc pieces = Inr (n, digest, packed)"
  shows "n = length (concat (map utf8 pieces)) \<and> digest = sha (concat (map utf8 pieces)) \<and> n \<le> mu \<and> length packed \<le> mc \<and>
    (\<exists>c out frames. fed z c out (CHUNK_MAGIC @ frames) \<and> packed = out @ z_flush z c \<and>
       length (CHUNK_MAGIC @ frames) \<le> chunk_frame_limit n \<and> chunk_parses frames (concat (map utf8 pieces)))"
proof -
  let ?data = "concat (map utf8 pieces)"
  obtain chunks ending where c: "content_chunks mu pieces = (chunks, ending)" by fastforce
  obtain st0 st where w: "write_chunk z mu mc CHUNK_MAGIC (chunk_encoder_start z) = Inr st0"
    and l: "encode_chunk_list z sha mu mc chunks st0 = Inr st" and e: "ending = Inr ()"
    and limit: "ce_framed st \<le> chunk_frame_limit (ce_size st)"
    and res: "n = ce_size st" "digest = sha (ce_hashed st)" "packed = ce_packed st @ z_flush z (ce_compressor st)"
      "length packed \<le> mc"
    using enc unfolding encode_chunks_def Let_def c by (auto simp: bind_res_eq_Inr not_less split: if_split_asm)
  note cut = content_chunks_bytes [OF c [unfolded e]]
  have "chunk_wrote z (chunk_encoder_start z) []" by (simp add: chunk_wrote_def chunk_encoder_start_def fed_start)
  note w0 = write_chunk_wrote [OF w this]
  have "chunk_inv z st0"
    using w0 unfolding chunk_inv_def
    by (intro conjI exI [of _ "[]"]) (simp_all add: chunk_parses_def chunk_encoder_start_def)
  moreover have start: "ce_hashed st0 = []" using w0 by (simp add: chunk_encoder_start_def)
  moreover have "length (ce_hashed st0 @ concat chunks) < 256 ^ 8"
    unfolding start append.left_neutral conjunct1 [OF cut] using conjunct1 [OF conjunct2 [OF cut]] small by (rule le_less_trans)
  ultimately have "chunk_inv z st \<and> ce_hashed st = ce_hashed st0 @ concat chunks"
    using cut by (intro encode_chunk_list_inv [OF l]) blast+
  then have fin: "chunk_inv z st" "ce_hashed st = ?data"
    using conjunct1 [OF cut] start by simp_all
  then obtain frames where fr: "chunk_wrote z st (CHUNK_MAGIC @ frames)" "chunk_parses frames ?data"
    by (auto simp: chunk_inv_def)
  have "n = length ?data \<and> digest = sha ?data \<and> n \<le> mu \<and> length packed \<le> mc"
    using res fin conjunct1 [OF conjunct2 [OF cut]] by (simp add: chunk_inv_def)
  moreover have "fed z (ce_compressor st) (ce_packed st) (CHUNK_MAGIC @ frames)"
    "length (CHUNK_MAGIC @ frames) \<le> chunk_frame_limit n"
    using fr(1) limit res(1) by (simp_all add: chunk_wrote_def)
  ultimately show ?thesis using fr(2) res(3) by blast
qed

lemma chunk_codec_round_trip:
  assumes z: "zlib_lossless z" and small: "mu < 256 ^ 8" and enc: "encode_chunks z sha mu mc pieces = Inr (n, digest, packed)"
  shows "decode_chunks z sha packed n digest = Some (Inr (concat (map utf8 pieces)))"
proof -
  let ?data = "concat (map utf8 pieces)"
  obtain c out frames where fr: "fed z c out (CHUNK_MAGIC @ frames)" "packed = out @ z_flush z c"
    "length (CHUNK_MAGIC @ frames) \<le> chunk_frame_limit n" "chunk_parses frames ?data"
    and n: "n = length ?data" "digest = sha ?data"
    using encode_chunks_frames [OF small enc] by blast
  have "chunk_loop sha digest n (Inr ()) [] (frames @ []) = chunk_loop sha digest n (Inr ()) ?data []"
    using fr(4) n unfolding chunk_parses_def by blast
  moreover have "inflate z ''run_storage_chunk_frame_size_limit'' (chunk_frame_limit n) packed = Some (CHUNK_MAGIC @ frames, Inr ())"
    unfolding fr(2) by (rule fed_inflate [OF z fr(1,3)])
  ultimately show ?thesis
    unfolding decode_chunks_def using n by (simp add: read_bytes_append checked_output_def)
qed

text \<open>
  C20. The chunk encoding is lossless: whenever it succeeds, decoding its output returns exactly the
  bytes of the pieces, although a chunk may be stored as a reference to earlier output and
  chunks are found by their digest; two chunks with one digest are never confused.
\<close>

theorem chunk_references_are_exact:
  assumes "zlib_lossless z" and "max_uncompressed < 256 ^ 8"
    and "encode_chunks z sha max_uncompressed max_compressed pieces = Inr (n, digest, packed)"
  shows "decode_chunks z sha packed n digest = Some (Inr (concat (map utf8 pieces))) \<and>
    n = length (concat (map utf8 pieces)) \<and> n \<le> max_uncompressed \<and> length packed \<le> max_compressed"
  using chunk_codec_round_trip [OF assms] encode_chunks_frames [OF assms(2,3)] by blast

lemma sample_content: "content_chunks 100 [''a'', ''b''] = ([''ab''], Inr ())"
  by (simp add: content_chunks_def chunk_piece_def Let_def split_def fill_chunks.simps utf8_def utf8_char_def
      STREAM_CHUNK_BYTES_def MIN_CHUNK_BYTES_def)

lemma sample_chunks: "encode_chunks stored_zlib (\<lambda>_. ''d'') 100 100 [''a'', ''b''] =
    Inr (2, ''d'', CHUNK_MAGIC @ ''L'' @ pack_be 4 2 @ ''ab'')"
  unfolding encode_chunks_def sample_content
  by (simp add: chunk_encoder_start_def write_chunk_def encode_chunk_def retain_chunk_def Let_def
      chunk_frame_limit_def stored_zlib_def CHUNK_MAGIC_def MIN_CHUNK_BYTES_def numeral_2_eq_2)

theorem chunk_references_are_exact_witness:
  "decode_chunks stored_zlib (\<lambda>_. ''d'') (CHUNK_MAGIC @ ''L'' @ pack_be 4 2 @ ''ab'') 2 ''d'' = Some (Inr ''ab'')"
  using chunk_references_are_exact [OF stored_lossless _ sample_chunks] by (simp add: utf8_def utf8_char_def)

end
