(* ===== verification/StorageCodec.thy ===== *)
theory StorageCodec
  imports StorageChunks
begin

text \<open>
  The storage transport of run records (\<open>nico/comprehensive_run_storage_codec_v1.py\<close>). A small record
  is stored as its canonical JSON text. A large one is stored as an envelope with its
  length, its digest and compressed bytes; when those exceed their limit, the token
  references and then the chunk references of the two other theories are tried. The locale
  \<open>byte_codec\<close> is what the transport needs of the three encodings.
\<close>

section \<open>Encoding\<close>

definition ENVELOPE_KEY :: string where
  "ENVELOPE_KEY = ''__nico_comprehensive_run_storage_v1__''"

definition STORAGE_SCHEMA :: string where
  "STORAGE_SCHEMA = ''nico.comprehensive_run_storage.v1''"

definition STORAGE_ENCODING :: string where
  "STORAGE_ENCODING = ''zlib+base64''"

definition TOKEN_SCHEMA :: string where
  "TOKEN_SCHEMA = ''nico.comprehensive_run_storage.v2''"

definition TOKEN_ENCODING :: string where
  "TOKEN_ENCODING = ''zlib+json-token-refs-v1+base64''"

definition CHUNK_SCHEMA :: string where
  "CHUNK_SCHEMA = ''nico.comprehensive_run_storage.v3''"

definition CHUNK_ENCODING :: string where
  "CHUNK_ENCODING = ''zlib+json-chunk-refs-v1+base64''"

definition COMPRESSION_THRESHOLD_BYTES :: nat where
  "COMPRESSION_THRESHOLD_BYTES = 8 * 1024 * 1024"

definition MAX_UNCOMPRESSED_BYTES :: nat where
  "MAX_UNCOMPRESSED_BYTES = 1024 * 1024 * 1024"

definition MAX_COMPRESSED_BYTES :: nat where
  "MAX_COMPRESSED_BYTES = 128 * 1024 * 1024"

definition COMPRESSED_LIMIT_CODE :: string where
  "COMPRESSED_LIMIT_CODE = ''run_storage_compressed_size_limit''"

text \<open>The variables of \<open>_encode_legacy_run_storage\<close>; \<open>le_hashed\<close> is what the digest was fed with.\<close>

record 'c legacy_encoder =
  le_pending :: string
  le_compressed :: string
  le_compressor :: "'c option"
  le_size :: nat
  le_hashed :: string

definition retain_compressed :: "nat \<Rightarrow> string \<Rightarrow> 'c legacy_encoder \<Rightarrow> 'c legacy_encoder res" where
  "retain_compressed max_compressed data st =
    (if length (le_compressed st) + length data > max_compressed then Inl (ValueError COMPRESSED_LIMIT_CODE)
     else Inr (st\<lparr>le_compressed := le_compressed st @ data\<rparr>))"

definition compress_pending ::
  "('c, 'd) zlib \<Rightarrow> nat \<Rightarrow> 'c \<Rightarrow> 'c legacy_encoder \<Rightarrow> 'c legacy_encoder res" where
  "compress_pending z max_compressed c st =
    (let (c', data) = z_compress z c (le_pending st) in
     bind_res (retain_compressed max_compressed data st) (\<lambda>st'.
       Inr (st'\<lparr>le_compressor := Some c', le_pending := []\<rparr>)))"

definition legacy_piece ::
  "('c, 'd) zlib \<Rightarrow> nat \<Rightarrow> nat \<Rightarrow> nat \<Rightarrow> string \<Rightarrow> 'c legacy_encoder \<Rightarrow> 'c legacy_encoder res" where
  "legacy_piece z threshold max_uncompressed max_compressed piece st =
    (let chunk = utf8 piece;
         csize = le_size st + length chunk in
     if csize > max_uncompressed then Inl (ValueError ''run_storage_uncompressed_size_limit'')
     else
       let compressor = (if le_compressor st = None \<and> csize > threshold then Some (z_start z) else le_compressor st);
           st1 = st\<lparr>le_size := csize, le_hashed := le_hashed st @ chunk, le_pending := le_pending st @ chunk,
             le_compressor := compressor\<rparr> in
       case compressor of
         Some c \<Rightarrow> if STREAM_CHUNK_BYTES \<le> length (le_pending st1) then compress_pending z max_compressed c st1 else Inr st1
       | None \<Rightarrow> Inr st1)"

fun legacy_pieces ::
  "('c, 'd) zlib \<Rightarrow> nat \<Rightarrow> nat \<Rightarrow> nat \<Rightarrow> string list \<Rightarrow> 'c legacy_encoder \<Rightarrow> 'c legacy_encoder res" where
  "legacy_pieces z threshold max_uncompressed max_compressed [] st = Inr st"
| "legacy_pieces z threshold max_uncompressed max_compressed (piece # pieces) st =
     bind_res (legacy_piece z threshold max_uncompressed max_compressed piece st)
       (legacy_pieces z threshold max_uncompressed max_compressed pieces)"

text \<open>The pending bytes as they are, or the length, the digest and the compressed bytes.\<close>

definition legacy_stream ::
  "('c, 'd) zlib \<Rightarrow> (string \<Rightarrow> string) \<Rightarrow> nat \<Rightarrow> nat \<Rightarrow> nat \<Rightarrow> string list \<Rightarrow> (string + nat \<times> string \<times> string) res" where
  "legacy_stream z sha threshold max_uncompressed max_compressed pieces =
    bind_res (legacy_pieces z threshold max_uncompressed max_compressed pieces
        \<lparr>le_pending = [], le_compressed = [], le_compressor = None, le_size = 0, le_hashed = []\<rparr>) (\<lambda>st.
      case le_compressor st of
        None \<Rightarrow> Inr (Inl (le_pending st))
      | Some c \<Rightarrow>
          let (c', data) = z_compress z c (le_pending st) in
          bind_res (retain_compressed max_compressed data st) (\<lambda>st1.
          bind_res (retain_compressed max_compressed (z_flush z c') st1) (\<lambda>st2.
            Inr (Inr (le_size st2, sha (le_hashed st2), le_compressed st2)))))"

definition storage_envelope :: "string \<Rightarrow> string \<Rightarrow> nat \<times> string \<times> string \<Rightarrow> dict" where
  "storage_envelope schema encoding encoded = (case encoded of (csize, sha256, packed) \<Rightarrow>
     [(ENVELOPE_KEY, PDict [
       (''schema'', PStr schema),
       (''encoding'', PStr encoding),
       (''size_bytes'', PInt (int csize)),
       (''sha256'', PStr sha256),
       (''data'', PStr (b64encode packed))])])"

text \<open>\<open>bytes.decode\<close> and \<open>json.loads\<close> raise subclasses of \<open>ValueError\<close>.\<close>

definition decode_text :: "string \<Rightarrow> string res" where
  "decode_text bytes = (case utf8_decode bytes of None \<Rightarrow> Inl (ValueError ''utf-8'') | Some t \<Rightarrow> Inr t)"

definition loads_text :: "string \<Rightarrow> py res" where
  "loads_text t = (case json_loads t of None \<Rightarrow> Inl (ValueError ''json'') | Some v \<Rightarrow> Inr v)"

definition encode_legacy_run_storage :: "('c, 'd) zlib \<Rightarrow> (string \<Rightarrow> string) \<Rightarrow> dict \<Rightarrow> string res" where
  "encode_legacy_run_storage z sha rec =
    (if has_key rec ENVELOPE_KEY then Inl (ValueError ''run_storage_reserved_envelope_key'')
     else bind_res (legacy_stream z sha COMPRESSION_THRESHOLD_BYTES MAX_UNCOMPRESSED_BYTES MAX_COMPRESSED_BYTES
         (iterencode (PDict rec))) (\<lambda>out.
       case out of
         Inl pending \<Rightarrow> decode_text pending
       | Inr encoded \<Rightarrow> Inr (json_dumps (PDict (storage_envelope STORAGE_SCHEMA STORAGE_ENCODING encoded)))))"

definition encode_run_storage :: "('c, 'd) zlib \<Rightarrow> (string \<Rightarrow> string) \<Rightarrow> dict \<Rightarrow> string res" where
  "encode_run_storage z sha rec =
    (case encode_legacy_run_storage z sha rec of
       Inr t \<Rightarrow> Inr t
     | Inl e \<Rightarrow>
         if e \<noteq> ValueError COMPRESSED_LIMIT_CODE then Inl e
         else
           case encode_tokens z sha MAX_UNCOMPRESSED_BYTES MAX_COMPRESSED_BYTES (iterencode (PDict rec)) of
             Inr encoded \<Rightarrow> Inr (json_dumps (PDict (storage_envelope TOKEN_SCHEMA TOKEN_ENCODING encoded)))
           | Inl e' \<Rightarrow>
               if e' \<noteq> ValueError COMPRESSED_LIMIT_CODE then Inl e'
               else bind_res (encode_chunks z sha MAX_UNCOMPRESSED_BYTES MAX_COMPRESSED_BYTES (iterencode (PDict rec))) (\<lambda>encoded.
                 Inr (json_dumps (PDict (storage_envelope CHUNK_SCHEMA CHUNK_ENCODING encoded)))))"

section \<open>Decoding\<close>

definition ENVELOPE_FIELDS :: "string list" where
  "ENVELOPE_FIELDS = [''schema'', ''encoding'', ''size_bytes'', ''sha256'', ''data'']"

definition is_sha256_text :: "string \<Rightarrow> bool" where
  "is_sha256_text s \<longleftrightarrow> length s = 64 \<and> (\<forall>c \<in> set s. c \<in> set ''0123456789abcdef'')"

definition decode_legacy ::
  "('c, 'd) zlib \<Rightarrow> (string \<Rightarrow> string) \<Rightarrow> string \<Rightarrow> nat \<Rightarrow> string \<Rightarrow> string res option" where
  "decode_legacy z sha packed csize claimed =
    map_option (\<lambda>(bytes, ending). bind_res ending (\<lambda>_. checked_output sha claimed csize bytes))
      (inflate z ''run_storage_uncompressed_size_mismatch'' csize packed)"

definition decoded_record :: "string res option \<Rightarrow> dict res" where
  "decoded_record out =
    bind_res (case out of None \<Rightarrow> Inl NoReturn | Some r \<Rightarrow> r) (\<lambda>bytes.
    bind_res (decode_text bytes) (\<lambda>t.
    bind_res (loads_text t) (\<lambda>v.
      case v of
        PDict d \<Rightarrow> if has_key d ENVELOPE_KEY then Inl (ValueError ''run_storage_decoded_record_invalid'') else Inr d
      | _ \<Rightarrow> Inl (ValueError ''run_storage_decoded_record_invalid''))))"

definition decode_envelope :: "('c, 'd) zlib \<Rightarrow> (string \<Rightarrow> string) \<Rightarrow> dict \<Rightarrow> dict res" where
  "decode_envelope z sha envelope =
    (let schema = dget envelope ''schema'';
         encoding = dget envelope ''encoding'';
         token_encoding = (schema = PStr TOKEN_SCHEMA \<and> encoding = PStr TOKEN_ENCODING);
         chunk_encoding = (schema = PStr CHUNK_SCHEMA \<and> encoding = PStr CHUNK_ENCODING) in
     if \<not> token_encoding \<and> \<not> chunk_encoding \<and> (schema \<noteq> PStr STORAGE_SCHEMA \<or> encoding \<noteq> PStr STORAGE_ENCODING)
     then Inl (ValueError ''run_storage_envelope_version_invalid'')
     else case dget envelope ''size_bytes'' of
       PInt n \<Rightarrow>
         if \<not> (0 < n \<and> n \<le> int MAX_UNCOMPRESSED_BYTES) then Inl (ValueError ''run_storage_uncompressed_size_invalid'')
         else (case dget envelope ''sha256'' of
           PStr claimed \<Rightarrow>
             if \<not> is_sha256_text claimed then Inl (ValueError ''run_storage_sha256_invalid'')
             else (case dget envelope ''data'' of
               PStr data \<Rightarrow>
                 if length data > 4 * ((MAX_COMPRESSED_BYTES + 2) div 3) then Inl (ValueError COMPRESSED_LIMIT_CODE)
                 else (case b64decode data of
                   None \<Rightarrow> Inl (ValueError ''run_storage_base64_invalid'')
                 | Some packed \<Rightarrow>
                     if length packed > MAX_COMPRESSED_BYTES then Inl (ValueError COMPRESSED_LIMIT_CODE)
                     else decoded_record (
                       if chunk_encoding then decode_chunks z sha packed (nat n) claimed
                       else if token_encoding then decode_tokens z sha packed (nat n) claimed
                       else decode_legacy z sha packed (nat n) claimed))
             | _ \<Rightarrow> Inl (ValueError COMPRESSED_LIMIT_CODE))
         | _ \<Rightarrow> Inl (ValueError ''run_storage_sha256_invalid''))
     | _ \<Rightarrow> Inl (ValueError ''run_storage_uncompressed_size_invalid''))"

definition decode_run_storage :: "('c, 'd) zlib \<Rightarrow> (string \<Rightarrow> string) \<Rightarrow> dict \<Rightarrow> dict res" where
  "decode_run_storage z sha payload =
    (if \<not> has_key payload ENVELOPE_KEY then Inr payload
     else if set (map fst payload) \<noteq> {ENVELOPE_KEY} then Inl (ValueError ''run_storage_envelope_shape_invalid'')
     else case dget payload ENVELOPE_KEY of
         PDict envelope \<Rightarrow>
           if set (map fst envelope) \<noteq> set ENVELOPE_FIELDS then Inl (ValueError ''run_storage_envelope_shape_invalid'')
           else decode_envelope z sha envelope
       | _ \<Rightarrow> Inl (ValueError ''run_storage_envelope_shape_invalid''))"

section \<open>Canonical dictionaries\<close>

lemma utf8_concat: "utf8 (concat xs) = concat (map utf8 xs)"
  by (induction xs) simp_all

lemma map_of_canon:
  assumes "wf_py (PDict d)"
  shows "map_of (as_dict (canon (PDict d))) k = map_option canon (map_of d k)"
  using assms by (simp add: canon_dict map_of_map_snd map_of_sort_items del: canon.simps)

lemma keys_canon: "set (map fst (as_dict (canon (PDict d)))) = set (map fst d)"
  by (simp add: canon_dict comp_def image_image del: canon.simps)

lemma dget_canon: "wf_py (PDict d) \<Longrightarrow> dget (as_dict (canon (PDict d))) k = canon (dget d k)"
  using map_of_canon [of d k] by (cases "map_of d k") (simp_all add: dget_def)

lemma canon_is_dict: "canon (PDict d) = PDict (as_dict (canon (PDict d)))"
  by simp

section \<open>The three encodings are exact\<close>

text \<open>
  What the transport needs: decoding what was encoded returns the bytes, the claims kept beside
  them are true, and the limits hold.
\<close>

locale byte_codec =
  fixes encode :: "('c, 'd) zlib \<Rightarrow> (string \<Rightarrow> string) \<Rightarrow> string list \<Rightarrow> (nat \<times> string \<times> string) res"
    and decode :: "('c, 'd) zlib \<Rightarrow> (string \<Rightarrow> string) \<Rightarrow> string \<Rightarrow> nat \<Rightarrow> string \<Rightarrow> string res option"
  assumes exact: "zlib_lossless z \<Longrightarrow> encode z sha pieces = Inr (n, digest, packed) \<Longrightarrow>
      decode z sha packed n digest = Some (Inr (concat (map utf8 pieces)))"
    and described: "encode z sha pieces = Inr (n, digest, packed) \<Longrightarrow>
      n = length (concat (map utf8 pieces)) \<and> digest = sha (concat (map utf8 pieces))"
    and bounded: "encode z sha pieces = Inr (n, digest, packed) \<Longrightarrow>
      n \<le> MAX_UNCOMPRESSED_BYTES \<and> length packed \<le> MAX_COMPRESSED_BYTES"
begin

lemma record_decoded:
  assumes "zlib_lossless z" and "wf_py (PDict rec)" and "\<not> has_key rec ENVELOPE_KEY"
    and "encode z sha (iterencode (PDict rec)) = Inr (n, digest, packed)"
  shows "decoded_record (decode z sha packed n digest) = Inr (as_dict (canon (PDict rec)))"
    and "0 < n \<and> digest = sha (utf8 (json_dumps (PDict rec)))"
proof -
  have bytes: "concat (map utf8 (iterencode (PDict rec))) = utf8 (json_dumps (PDict rec))"
    by (simp only: iterencode_text [symmetric] utf8_concat)
  have "json_dumps (PDict rec) \<noteq> []" by (simp add: json_dumps_dict)
  then have "utf8 (json_dumps (PDict rec)) \<noteq> []" using utf8_inj [of "json_dumps (PDict rec)" "[]"] by auto
  then show "0 < n \<and> digest = sha (utf8 (json_dumps (PDict rec)))"
    using described [OF assms(4)] by (simp only: bytes) simp
  show "decoded_record (decode z sha packed n digest) = Inr (as_dict (canon (PDict rec)))"
    using exact [OF assms(1,4)] loads_dumps [OF assms(2)] map_of_canon [OF assms(2), of ENVELOPE_KEY] assms(3)
    by (simp add: bytes decoded_record_def decode_text_def loads_text_def utf8_decode_utf8)
qed

end

text \<open>The stored bytes: all that was hashed, and all but the pending bytes once they are compressed.\<close>

definition legacy_inv :: "('c, 'd) zlib \<Rightarrow> nat \<Rightarrow> nat \<Rightarrow> 'c legacy_encoder \<Rightarrow> bool" where
  "legacy_inv z mu mc st \<longleftrightarrow>
     le_size st = length (le_hashed st) \<and> le_size st \<le> mu \<and> length (le_compressed st) \<le> mc \<and>
     (case le_compressor st of
        None \<Rightarrow> le_pending st = le_hashed st \<and> le_compressed st = []
      | Some c \<Rightarrow> \<exists>bytes. fed z c (le_compressed st) bytes \<and> le_hashed st = bytes @ le_pending st)"

lemma retain_compressed_Inr:
  "retain_compressed mc data st = Inr st' \<longleftrightarrow>
   length (le_compressed st) + length data \<le> mc \<and> st' = st\<lparr>le_compressed := le_compressed st @ data\<rparr>"
  by (auto simp: retain_compressed_def)

lemma compress_pending_inv:
  assumes "compress_pending z mc c st = Inr st'" and "le_compressor st = Some c" and "legacy_inv z mu mc st"
  shows "legacy_inv z mu mc st' \<and> le_hashed st' = le_hashed st"
proof -
  obtain c' data where c: "z_compress z c (le_pending st) = (c', data)" by fastforce
  have st': "st' = st\<lparr>le_compressed := le_compressed st @ data, le_compressor := Some c', le_pending := []\<rparr>"
    and len: "length (le_compressed st) + length data \<le> mc"
    using assms(1) c by (auto simp: compress_pending_def bind_res_eq_Inr retain_compressed_Inr)
  obtain bytes where b: "fed z c (le_compressed st) bytes" "le_hashed st = bytes @ le_pending st"
    using assms(2,3) by (auto simp: legacy_inv_def)
  have "fed z c' (le_compressed st @ data) (le_hashed st)" using fed_compress [OF b(1) c] b(2) by simp
  then show ?thesis using assms(3) len by (simp add: legacy_inv_def st')
qed

lemma legacy_piece_inv:
  assumes "legacy_piece z threshold mu mc piece st = Inr st'" and "legacy_inv z mu mc st"
  shows "legacy_inv z mu mc st' \<and> le_hashed st' = le_hashed st @ utf8 piece"
proof -
  define co where "co = (if le_compressor st = None \<and> le_size st + length (utf8 piece) > threshold then Some (z_start z)
    else le_compressor st)"
  let ?st = "st\<lparr>le_size := le_size st + length (utf8 piece), le_hashed := le_hashed st @ utf8 piece,
    le_pending := le_pending st @ utf8 piece, le_compressor := co\<rparr>"
  have small: "le_size st + length (utf8 piece) \<le> mu"
    and next_st: "(case co of Some c \<Rightarrow> if STREAM_CHUNK_BYTES \<le> length (le_pending ?st) then compress_pending z mc c ?st else Inr ?st
      | None \<Rightarrow> Inr ?st) = Inr st'"
    using assms(1) unfolding legacy_piece_def Let_def co_def [symmetric] by (simp_all split: if_split_asm)
  have inv: "legacy_inv z mu mc ?st"
  proof (cases "le_compressor st")
    case None
    then show ?thesis
      using assms(2) small fed_start [of z] by (auto simp: legacy_inv_def co_def split: if_splits)
  next
    case (Some c)
    then show ?thesis using assms(2) small by (auto simp: legacy_inv_def co_def)
  qed
  show ?thesis
  proof (cases co)
    case (Some c)
    then show ?thesis
      using next_st inv compress_pending_inv [of z mc c ?st st' mu] by (auto split: if_split_asm)
  qed (use next_st inv in auto)
qed

lemma legacy_pieces_inv:
  assumes "legacy_pieces z threshold mu mc pieces st = Inr st'" and "legacy_inv z mu mc st"
  shows "legacy_inv z mu mc st' \<and> le_hashed st' = le_hashed st @ concat (map utf8 pieces)"
  using assms
proof (induction pieces arbitrary: st)
  case (Cons piece pieces)
  obtain st1 where one: "legacy_piece z threshold mu mc piece st = Inr st1"
    and rest: "legacy_pieces z threshold mu mc pieces st1 = Inr st'"
    using Cons.prems(1) by (auto simp: bind_res_eq_Inr)
  show ?case using Cons.IH [OF rest] legacy_piece_inv [OF one Cons.prems(2)] by simp
qed simp

lemma legacy_stream_start:
  "legacy_inv z mu mc \<lparr>le_pending = [], le_compressed = [], le_compressor = None, le_size = 0, le_hashed = []\<rparr>"
  by (simp add: legacy_inv_def)

lemma legacy_stream_text:
  assumes "legacy_stream z sha threshold mu mc pieces = Inr (Inl out)"
  shows "out = concat (map utf8 pieces)"
proof -
  obtain st where st: "legacy_pieces z threshold mu mc pieces
      \<lparr>le_pending = [], le_compressed = [], le_compressor = None, le_size = 0, le_hashed = []\<rparr> = Inr st"
    and out: "le_compressor st = None" "out = le_pending st"
    using assms unfolding legacy_stream_def by (auto simp: bind_res_eq_Inr split: option.splits prod.splits)
  from legacy_pieces_inv [OF st legacy_stream_start] out show ?thesis by (simp add: legacy_inv_def)
qed

lemma legacy_stream_packed:
  assumes "legacy_stream z sha threshold mu mc pieces = Inr (Inr (n, digest, packed))"
  shows "n = length (concat (map utf8 pieces)) \<and> digest = sha (concat (map utf8 pieces)) \<and> n \<le> mu \<and> length packed \<le> mc \<and>
    (\<exists>c out. fed z c out (concat (map utf8 pieces)) \<and> packed = out @ z_flush z c)"
proof -
  obtain st c where st: "legacy_pieces z threshold mu mc pieces
      \<lparr>le_pending = [], le_compressed = [], le_compressor = None, le_size = 0, le_hashed = []\<rparr> = Inr st"
    and c: "le_compressor st = Some c"
    using assms unfolding legacy_stream_def by (auto simp: bind_res_eq_Inr split: option.splits)
  obtain c' data where z: "z_compress z c (le_pending st) = (c', data)" by fastforce
  have res: "n = le_size st" "digest = sha (le_hashed st)" "packed = (le_compressed st @ data) @ z_flush z c'" "length packed \<le> mc"
    using assms unfolding legacy_stream_def st bind_res_simps c
    by (auto simp: z bind_res_eq_Inr retain_compressed_Inr)
  note inv = legacy_pieces_inv [OF st legacy_stream_start]
  obtain bytes where b: "fed z c (le_compressed st) bytes" "le_hashed st = bytes @ le_pending st"
    using inv c by (auto simp: legacy_inv_def)
  have "fed z c' (le_compressed st @ data) (le_hashed st)" using fed_compress [OF b(1) z] b(2) by simp
  moreover have "le_hashed st = concat (map utf8 pieces)" "le_size st = length (le_hashed st)" "le_size st \<le> mu"
    using inv unfolding legacy_inv_def by (simp, blast, blast)
  ultimately show ?thesis using res by metis
qed

definition legacy_encoded ::
  "('c, 'd) zlib \<Rightarrow> (string \<Rightarrow> string) \<Rightarrow> string list \<Rightarrow> (nat \<times> string \<times> string) res" where
  "legacy_encoded z sha pieces =
    bind_res (legacy_stream z sha COMPRESSION_THRESHOLD_BYTES MAX_UNCOMPRESSED_BYTES MAX_COMPRESSED_BYTES pieces)
      (\<lambda>out. case out of Inl _ \<Rightarrow> Inl (ValueError ''stored as text'') | Inr encoded \<Rightarrow> Inr encoded)"

lemma legacy_encoded_Inr: "legacy_encoded z sha pieces = Inr encoded \<longleftrightarrow>
    legacy_stream z sha COMPRESSION_THRESHOLD_BYTES MAX_UNCOMPRESSED_BYTES MAX_COMPRESSED_BYTES pieces = Inr (Inr encoded)"
  unfolding legacy_encoded_def
  by (cases "legacy_stream z sha COMPRESSION_THRESHOLD_BYTES MAX_UNCOMPRESSED_BYTES MAX_COMPRESSED_BYTES pieces")
    (simp_all split: sum.split)

interpretation legacy: byte_codec legacy_encoded decode_legacy
proof unfold_locales
  fix z :: "('c, 'd) zlib" and sha :: "string \<Rightarrow> string" and pieces n digest packed
  let ?data = "concat (map utf8 pieces)"
  assume "legacy_encoded z sha pieces = Inr (n, digest, packed)"
  note enc = legacy_stream_packed [OF this [unfolded legacy_encoded_Inr]]
  show "n = length ?data \<and> digest = sha ?data" "n \<le> MAX_UNCOMPRESSED_BYTES \<and> length packed \<le> MAX_COMPRESSED_BYTES"
    using enc by blast+
  assume z: "zlib_lossless z"
  show "decode_legacy z sha packed n digest = Some (Inr ?data)"
    using enc fed_inflate [OF z, where bytes = ?data and limit = n] by (auto simp: decode_legacy_def checked_output_def)
qed

interpretation tokens: byte_codec
  "\<lambda>z sha. encode_tokens z sha MAX_UNCOMPRESSED_BYTES MAX_COMPRESSED_BYTES" decode_tokens
  by unfold_locales (use token_codec_round_trip encode_tokens_frames in blast)+

lemma max_uncompressed_fits: "MAX_UNCOMPRESSED_BYTES < 256 ^ 8"
  by (simp add: MAX_UNCOMPRESSED_BYTES_def)

interpretation chunks: byte_codec
  "\<lambda>z sha. encode_chunks z sha MAX_UNCOMPRESSED_BYTES MAX_COMPRESSED_BYTES" decode_chunks
  by unfold_locales (use chunk_codec_round_trip [OF _ max_uncompressed_fits] encode_chunks_frames [OF max_uncompressed_fits] in blast)+

section \<open>A stored record is read back\<close>

lemma storage_versions:
  "CHUNK_SCHEMA \<noteq> TOKEN_SCHEMA" "CHUNK_SCHEMA \<noteq> STORAGE_SCHEMA" "TOKEN_SCHEMA \<noteq> STORAGE_SCHEMA"
  by (simp_all add: CHUNK_SCHEMA_def TOKEN_SCHEMA_def STORAGE_SCHEMA_def)

lemma envelope_wf: "wf_py (PDict (storage_envelope schema encoding encoded))"
  by (simp add: storage_envelope_def split: prod.splits)

lemma decode_envelope_only:
  "set (map fst d) = set ENVELOPE_FIELDS \<Longrightarrow> decode_run_storage z sha [(ENVELOPE_KEY, PDict d)] = decode_envelope z sha d"
  by (simp add: decode_run_storage_def)

lemma decode_storage_envelope:
  assumes "0 < n" "n \<le> MAX_UNCOMPRESSED_BYTES" "is_sha256_text digest" "length packed \<le> MAX_COMPRESSED_BYTES"
    and version: "(schema, encoding) \<in> {(STORAGE_SCHEMA, STORAGE_ENCODING), (TOKEN_SCHEMA, TOKEN_ENCODING), (CHUNK_SCHEMA, CHUNK_ENCODING)}"
  shows "decode_run_storage z sha (as_dict (canon (PDict (storage_envelope schema encoding (n, digest, packed))))) =
    decoded_record (
      if schema = CHUNK_SCHEMA then decode_chunks z sha packed n digest
      else if schema = TOKEN_SCHEMA then decode_tokens z sha packed n digest
      else decode_legacy z sha packed n digest)"
proof -
  let ?env = "[(''schema'', PStr schema), (''encoding'', PStr encoding), (''size_bytes'', PInt (int n)),
    (''sha256'', PStr digest), (''data'', PStr (b64encode packed))]"
  let ?d = "as_dict (canon (PDict ?env))"
  have wf: "wf_py (PDict ?env)" by simp
  have outer: "as_dict (canon (PDict (storage_envelope schema encoding (n, digest, packed)))) = [(ENVELOPE_KEY, PDict ?d)]"
    by (simp only: storage_envelope_def prod.case canon_dict [of "[(ENVELOPE_KEY, PDict ?env)]"] as_dict_PDict)
      (simp add: sort_items_def)
  have len: "length (b64encode packed) \<le> 4 * ((MAX_COMPRESSED_BYTES + 2) div 3)"
    using assms(4) by (simp add: length_b64encode div_le_mono)
  have keys: "set (map fst ?d) = set ENVELOPE_FIELDS"
    unfolding keys_canon by (simp add: ENVELOPE_FIELDS_def)
  have fields: "dget ?d ''schema'' = PStr schema" "dget ?d ''encoding'' = PStr encoding"
    "dget ?d ''size_bytes'' = PInt (int n)" "dget ?d ''sha256'' = PStr digest" "dget ?d ''data'' = PStr (b64encode packed)"
    unfolding dget_canon [OF wf] by simp_all
  have tok: "(PStr schema = PStr TOKEN_SCHEMA \<and> PStr encoding = PStr TOKEN_ENCODING) = (schema = TOKEN_SCHEMA)"
    and chk: "(PStr schema = PStr CHUNK_SCHEMA \<and> PStr encoding = PStr CHUNK_ENCODING) = (schema = CHUNK_SCHEMA)"
    and known: "\<not> (schema \<noteq> TOKEN_SCHEMA \<and> schema \<noteq> CHUNK_SCHEMA \<and> (PStr schema \<noteq> PStr STORAGE_SCHEMA \<or> PStr encoding \<noteq> PStr STORAGE_ENCODING))"
    using version storage_versions by (elim insertE emptyE; simp)+
  have "decode_envelope z sha ?d = decoded_record (
      if schema = CHUNK_SCHEMA then decode_chunks z sha packed n digest
      else if schema = TOKEN_SCHEMA then decode_tokens z sha packed n digest
      else decode_legacy z sha packed n digest)"
    unfolding decode_envelope_def Let_def fields py.case b64decode_encode option.case tok chk
    using assms(1-4) len known by (simp only: not_less if_True if_False) simp
  then show ?thesis unfolding outer decode_envelope_only [OF keys] .
qed

lemma encode_legacy_Inr:
  assumes "\<not> has_key rec ENVELOPE_KEY"
  shows "encode_legacy_run_storage z sha rec = Inr t \<longleftrightarrow>
    (\<exists>pending. legacy_stream z sha COMPRESSION_THRESHOLD_BYTES MAX_UNCOMPRESSED_BYTES MAX_COMPRESSED_BYTES
        (iterencode (PDict rec)) = Inr (Inl pending) \<and> decode_text pending = Inr t) \<or>
    (\<exists>encoded. legacy_encoded z sha (iterencode (PDict rec)) = Inr encoded \<and>
        t = json_dumps (PDict (storage_envelope STORAGE_SCHEMA STORAGE_ENCODING encoded)))"
  using assms unfolding encode_legacy_run_storage_def legacy_encoded_Inr
  by (cases "legacy_stream z sha COMPRESSION_THRESHOLD_BYTES MAX_UNCOMPRESSED_BYTES MAX_COMPRESSED_BYTES
    (iterencode (PDict rec))") (auto split: sum.split)

lemma run_storage_round_trip:
  assumes z: "zlib_lossless z" and hex: "\<forall>x. is_sha256_text (sha x)" and wf: "wf_py (PDict rec)"
    and enc: "encode_run_storage z sha rec = Inr t"
  shows "bind_res (loads_text t) (\<lambda>v. decode_run_storage z sha (as_dict v)) = Inr (as_dict (canon (PDict rec)))"
proof -
  let ?pieces = "iterencode (PDict rec)"
  have key: "\<not> has_key rec ENVELOPE_KEY"
    using enc by (auto simp: encode_run_storage_def encode_legacy_run_storage_def COMPRESSED_LIMIT_CODE_def split: if_splits)
  have stored: "bind_res (loads_text t) (\<lambda>v. decode_run_storage z sha (as_dict v)) = Inr (as_dict (canon (PDict rec)))"
    if t: "t = json_dumps (PDict (storage_envelope schema encoding (n, digest, packed)))"
      and version: "(schema, encoding) \<in> {(STORAGE_SCHEMA, STORAGE_ENCODING), (TOKEN_SCHEMA, TOKEN_ENCODING), (CHUNK_SCHEMA, CHUNK_ENCODING)}"
      and "0 < n \<and> digest = sha (utf8 (json_dumps (PDict rec)))"
      and "n \<le> MAX_UNCOMPRESSED_BYTES \<and> length packed \<le> MAX_COMPRESSED_BYTES"
      and decoded: "decoded_record (if schema = CHUNK_SCHEMA then decode_chunks z sha packed n digest
        else if schema = TOKEN_SCHEMA then decode_tokens z sha packed n digest
        else decode_legacy z sha packed n digest) = Inr (as_dict (canon (PDict rec)))"
    for schema encoding n digest packed
    using decode_storage_envelope [OF _ _ _ _ version, of n digest packed z sha] that hex
    by (simp only: t loads_text_def loads_dumps [OF envelope_wf] option.case bind_res_simps decoded)
  consider (plain) pending where "legacy_stream z sha COMPRESSION_THRESHOLD_BYTES MAX_UNCOMPRESSED_BYTES MAX_COMPRESSED_BYTES ?pieces = Inr (Inl pending)"
      "decode_text pending = Inr t"
    | (legacy) n digest packed where "legacy_encoded z sha ?pieces = Inr (n, digest, packed)"
      "t = json_dumps (PDict (storage_envelope STORAGE_SCHEMA STORAGE_ENCODING (n, digest, packed)))"
    | (token) n digest packed where "encode_tokens z sha MAX_UNCOMPRESSED_BYTES MAX_COMPRESSED_BYTES ?pieces = Inr (n, digest, packed)"
      "t = json_dumps (PDict (storage_envelope TOKEN_SCHEMA TOKEN_ENCODING (n, digest, packed)))"
    | (chunk) n digest packed where "encode_chunks z sha MAX_UNCOMPRESSED_BYTES MAX_COMPRESSED_BYTES ?pieces = Inr (n, digest, packed)"
      "t = json_dumps (PDict (storage_envelope CHUNK_SCHEMA CHUNK_ENCODING (n, digest, packed)))"
    using enc unfolding encode_run_storage_def
    by (cases "encode_legacy_run_storage z sha rec")
      (auto simp: encode_legacy_Inr [OF key] bind_res_eq_Inr split: sum.split_asm if_split_asm)
  then show ?thesis
  proof cases
    case plain
    have "pending = utf8 (json_dumps (PDict rec))"
      using legacy_stream_text [OF plain(1)] by (simp only: iterencode_text [symmetric] utf8_concat)
    then have "t = json_dumps (PDict rec)" using plain(2) by (simp add: decode_text_def utf8_decode_utf8)
    then show ?thesis
      using loads_dumps [OF wf] map_of_canon [OF wf, of ENVELOPE_KEY] key
      by (simp add: loads_text_def decode_run_storage_def)
  next
    case legacy
    show ?thesis
      using legacy.record_decoded [OF z wf key legacy(1)] legacy.bounded [OF legacy(1)] storage_versions
      by (intro stored [OF legacy(2)]) simp_all
  next
    case token
    show ?thesis
      using tokens.record_decoded [OF z wf key token(1)] tokens.bounded [OF token(1)] storage_versions
      by (intro stored [OF token(2)]) simp_all
  next
    case chunk
    show ?thesis
      using chunks.record_decoded [OF z wf key chunk(1)] chunks.bounded [OF chunk(1)]
      by (intro stored [OF chunk(2)]) simp_all
  qed
qed

section \<open>What an accepted envelope holds\<close>

lemma checked_output_Inr: "checked_output sha claimed n out = Inr bytes \<longleftrightarrow> bytes = out \<and> length bytes = n \<and> sha bytes = claimed"
  by (auto simp: checked_output_def)

lemma token_loop_claims:
  "token_loop sha claimed n ending dictionary db out frames = Inr bytes \<Longrightarrow> length bytes = n \<and> sha bytes = claimed"
proof (induction frames arbitrary: dictionary db out rule: length_induct)
  case (1 frames)
  show ?case
  proof (cases frames)
    case Nil
    then show ?thesis using "1.prems" by (auto simp: checked_output_Inr split: sum.splits)
  next
    case (Cons tag body)
    obtain head rest where "read_bytes ''run_storage_token_frame_incomplete'' ending 4 body = Inr (head, rest)"
      using "1.prems" by (auto simp: Cons bind_res_eq_Inr simp del: set_simps split: if_split_asm)
    note r = this read_bytes_shorter [OF this]
    obtain dictionary' db' out' rest' where "length rest' \<le> length rest"
      "token_loop sha claimed n ending dictionary' db' out' rest' = Inr bytes"
      using "1.prems" unfolding Cons token_loop.simps r(1) bind_res_simps prod.case Let_def
      by (auto simp: bind_res_eq_Inr simp del: set_simps token_loop.simps dest!: read_bytes_shorter split: if_split_asm)
    moreover have "length rest' < length frames" using calculation(1) r(2) by (simp add: Cons)
    ultimately show ?thesis using "1.IH" by blast
  qed
qed

lemma chunk_loop_claims:
  "chunk_loop sha claimed n ending out frames = Inr bytes \<Longrightarrow> length bytes = n \<and> sha bytes = claimed"
proof (induction frames arbitrary: out rule: length_induct)
  case (1 frames)
  show ?case
  proof (cases frames)
    case Nil
    then show ?thesis using "1.prems" by (auto simp: checked_output_Inr split: sum.splits)
  next
    case (Cons tag body)
    obtain out' rest' where "length rest' \<le> length body" "chunk_loop sha claimed n ending out' rest' = Inr bytes"
      using "1.prems" unfolding Cons chunk_loop.simps
      by (auto simp: bind_res_eq_Inr Let_def simp del: chunk_loop.simps dest!: read_bytes_shorter split: if_split_asm)
        (meson le_trans)+
    moreover have "length rest' < length frames" using calculation(1) by (simp add: Cons)
    ultimately show ?thesis using "1.IH" by blast
  qed
qed

lemma decoders_claim:
  "decode_tokens z sha packed n claimed = Some (Inr bytes) \<Longrightarrow> length bytes = n \<and> sha bytes = claimed"
  "decode_chunks z sha packed n claimed = Some (Inr bytes) \<Longrightarrow> length bytes = n \<and> sha bytes = claimed"
  "decode_legacy z sha packed n claimed = Some (Inr bytes) \<Longrightarrow> length bytes = n \<and> sha bytes = claimed"
  by (auto simp: decode_tokens_def decode_chunks_def decode_legacy_def bind_res_eq_Inr checked_output_Inr
      dest: token_loop_claims chunk_loop_claims split: option.splits prod.splits if_split_asm)

lemma decoded_record_Inr:
  assumes "decoded_record out = Inr d"
  obtains bytes t where "out = Some (Inr bytes)" "utf8_decode bytes = Some t" "json_loads t = Some (PDict d)"
    "\<not> has_key d ENVELOPE_KEY"
proof -
  obtain bytes t v where "(case out of None \<Rightarrow> Inl NoReturn | Some r \<Rightarrow> r) = Inr bytes" "decode_text bytes = Inr t"
    "loads_text t = Inr v" "(case v of
        PDict d \<Rightarrow> if has_key d ENVELOPE_KEY then Inl (ValueError ''run_storage_decoded_record_invalid'') else Inr d
      | _ \<Rightarrow> Inl (ValueError ''run_storage_decoded_record_invalid'')) = Inr d"
    using assms unfolding decoded_record_def bind_res_eq_Inr by blast
  then show thesis
    by (intro that [of bytes t])
      (auto simp: decode_text_def loads_text_def split: option.split_asm py.split_asm if_split_asm)
qed

lemma decode_envelope_Inr:
  assumes "decode_envelope z sha envelope = Inr d"
  obtains n claimed data packed where "dget envelope ''size_bytes'' = PInt n" "0 < n" "n \<le> int MAX_UNCOMPRESSED_BYTES"
    "dget envelope ''sha256'' = PStr claimed" "is_sha256_text claimed" "dget envelope ''data'' = PStr data"
    "b64decode data = Some packed" "length packed \<le> MAX_COMPRESSED_BYTES"
    "decoded_record (decode_chunks z sha packed (nat n) claimed) = Inr d \<or>
     decoded_record (decode_tokens z sha packed (nat n) claimed) = Inr d \<or>
     decoded_record (decode_legacy z sha packed (nat n) claimed) = Inr d"
  using assms unfolding decode_envelope_def Let_def
  by (simp only: not_less not_not split: if_split_asm py.split_asm option.split_asm; blast?)

text \<open>
  C18. Only the bytes the envelope claims are accepted: when a stored envelope is decoded, its record is the
  JSON object in bytes of exactly the claimed length, at most the expansion limit, whose
  digest is the claimed one, from packed data within the packed limit; and the
  record is not an envelope again.
\<close>

theorem decoded_envelope_is_claimed:
  assumes "has_key payload ENVELOPE_KEY" and "decode_run_storage z sha payload = Inr d"
  shows "\<exists>envelope bytes t claimed data packed. dget payload ENVELOPE_KEY = PDict envelope \<and>
    dget envelope ''size_bytes'' = PInt (int (length bytes)) \<and> length bytes \<le> MAX_UNCOMPRESSED_BYTES \<and>
    dget envelope ''sha256'' = PStr claimed \<and> sha bytes = claimed \<and>
    dget envelope ''data'' = PStr data \<and> b64decode data = Some packed \<and> length packed \<le> MAX_COMPRESSED_BYTES \<and>
    utf8_decode bytes = Some t \<and> json_loads t = Some (PDict d) \<and> \<not> has_key d ENVELOPE_KEY"
proof -
  obtain envelope where env: "dget payload ENVELOPE_KEY = PDict envelope" "decode_envelope z sha envelope = Inr d"
    using assms by (auto simp: decode_run_storage_def split: if_split_asm py.split_asm)
  obtain n claimed data packed where e: "dget envelope ''size_bytes'' = PInt n" "0 < n" "n \<le> int MAX_UNCOMPRESSED_BYTES"
    "dget envelope ''sha256'' = PStr claimed" "dget envelope ''data'' = PStr data"
    "b64decode data = Some packed" "length packed \<le> MAX_COMPRESSED_BYTES"
    and out: "decoded_record (decode_chunks z sha packed (nat n) claimed) = Inr d \<or>
     decoded_record (decode_tokens z sha packed (nat n) claimed) = Inr d \<or>
     decoded_record (decode_legacy z sha packed (nat n) claimed) = Inr d"
    using decode_envelope_Inr [OF env(2)] by metis
  obtain bytes t where "length bytes = nat n \<and> sha bytes = claimed" "utf8_decode bytes = Some t"
    "json_loads t = Some (PDict d)" "\<not> has_key d ENVELOPE_KEY"
    using out by (elim disjE decoded_record_Inr; use decoders_claim in metis)
  moreover have "n = int (length bytes)" "length bytes \<le> MAX_UNCOMPRESSED_BYTES"
    using calculation(1) e(2,3) by linarith+
  ultimately show ?thesis using env(1) e(1,4-) by blast
qed

text \<open>Small records keep their text.\<close>

lemma legacy_pieces_small:
  assumes "le_compressor st = None" and "le_size st + length (concat (map utf8 pieces)) \<le> threshold" and "threshold \<le> mu"
  shows "\<exists>st'. legacy_pieces z threshold mu mc pieces st = Inr st' \<and> le_compressor st' = None \<and>
    le_pending st' = le_pending st @ concat (map utf8 pieces)"
  using assms
proof (induction pieces arbitrary: st)
  case (Cons piece pieces)
  let ?st = "st\<lparr>le_size := le_size st + length (utf8 piece), le_hashed := le_hashed st @ utf8 piece,
    le_pending := le_pending st @ utf8 piece, le_compressor := None\<rparr>"
  have "legacy_piece z threshold mu mc piece st = Inr ?st"
    using Cons.prems by (simp add: legacy_piece_def Let_def)
  then show ?case using Cons.IH [of ?st] Cons.prems by simp
qed simp

lemma small_record_text:
  assumes "\<not> has_key rec ENVELOPE_KEY" and "length (utf8 (json_dumps (PDict rec))) \<le> COMPRESSION_THRESHOLD_BYTES"
  shows "encode_run_storage z sha rec = Inr (json_dumps (PDict rec))"
proof -
  have bytes: "concat (map utf8 (iterencode (PDict rec))) = utf8 (json_dumps (PDict rec))"
    by (simp only: iterencode_text [symmetric] utf8_concat)
  have limits: "COMPRESSION_THRESHOLD_BYTES \<le> MAX_UNCOMPRESSED_BYTES"
    by (simp add: COMPRESSION_THRESHOLD_BYTES_def MAX_UNCOMPRESSED_BYTES_def)
  have "legacy_stream z sha COMPRESSION_THRESHOLD_BYTES MAX_UNCOMPRESSED_BYTES MAX_COMPRESSED_BYTES (iterencode (PDict rec)) =
      Inr (Inl (utf8 (json_dumps (PDict rec))))"
    using legacy_pieces_small [OF _ _ limits, where pieces = "iterencode (PDict rec)" and z = z and mc = MAX_COMPRESSED_BYTES and
        st = "\<lparr>le_pending = [], le_compressed = [], le_compressor = None, le_size = 0, le_hashed = []\<rparr>"] assms(2)
    unfolding legacy_stream_def bytes by auto
  then show ?thesis
    using assms(1) by (simp add: encode_run_storage_def encode_legacy_run_storage_def decode_text_def utf8_decode_utf8)
qed

lemma stored_inflate:
  assumes "length x \<le> n"
  shows "inflate stored_zlib code n x = Some (x, Inr ())"
proof -
  have "fed stored_zlib () x x" unfolding fed_def using stored_feed [of "[x]"] by (intro exI [of _ "[x]"]) simp
  moreover have "z_flush stored_zlib () = []" by (simp add: stored_zlib_def)
  ultimately show ?thesis using fed_inflate [OF stored_lossless, of "()" x x n code] assms by simp
qed

text \<open>
  C17. A run record survives its storage: when a record is encoded for the database, whichever of the
  four representations is chosen, reading the stored text back returns the record itself up
  to the order of dictionary keys.
\<close>

theorem run_storage_is_lossless:
  assumes "zlib_lossless z" and "\<forall>x. is_sha256_text (sha x)" and "wf_py (PDict rec)"
    and "encode_run_storage z sha rec = Inr t"
  shows "bind_res (loads_text t) (\<lambda>v. decode_run_storage z sha (as_dict v)) = Inr (as_dict (canon (PDict rec)))"
  using assms by (rule run_storage_round_trip)


definition sample_digest :: "string \<Rightarrow> string" where
  "sample_digest x = replicate 64 CHR ''0''"

lemma sample_digest_text: "\<forall>x. is_sha256_text (sample_digest x)"
  by (simp add: is_sha256_text_def sample_digest_def)

lemma sample_storage: "encode_run_storage stored_zlib sample_digest [(''b'', PInt 1), (''a'', PNone)] =
    Inr (json_dumps (PDict [(''b'', PInt 1), (''a'', PNone)]))"
  by (rule small_record_text)
    (simp_all add: ENVELOPE_KEY_def sort_items_def json_str_def json_char_def int_str_def utf8_def utf8_char_def Let_def
      COMPRESSION_THRESHOLD_BYTES_def nat_str.simps digit_char_def json_dumps_dict item_text_def)

theorem run_storage_is_lossless_witness:
  "bind_res (loads_text (json_dumps (PDict [(''b'', PInt 1), (''a'', PNone)])))
     (\<lambda>v. decode_run_storage stored_zlib sample_digest (as_dict v)) = Inr [(''a'', PNone), (''b'', PInt 1)]"
  using run_storage_is_lossless [OF stored_lossless sample_digest_text _ sample_storage]
  by (simp add: sort_items_def)

theorem decoded_envelope_is_claimed_witness:
  "\<exists>envelope. dget (storage_envelope STORAGE_SCHEMA STORAGE_ENCODING (2, sample_digest [], ''{}'')) ENVELOPE_KEY = PDict envelope \<and>
     dget envelope ''size_bytes'' = PInt 2 \<and> decode_run_storage stored_zlib sample_digest
       (storage_envelope STORAGE_SCHEMA STORAGE_ENCODING (2, sample_digest [], ''{}'')) = Inr []"
proof -
  let ?p = "storage_envelope STORAGE_SCHEMA STORAGE_ENCODING (2, sample_digest [], ''{}'')"
  have "b64decode (b64encode ''{}'') = Some ''{}''" by (rule b64decode_encode)
  moreover have "inflate stored_zlib code 2 ''{}'' = Some (''{}'', Inr ())" for code by (rule stored_inflate) simp
  moreover have "json_loads ''{}'' = Some (PDict [])"
    using loads_dumps [of "PDict []"] by (simp add: json_dumps_dict sort_items_def)
  moreover have "is_sha256_text (sample_digest [])" using sample_digest_text by blast
  moreover have "length (b64encode ''{}'') \<le> 4 * ((MAX_COMPRESSED_BYTES + 2) div 3)"
    by (simp add: length_b64encode MAX_COMPRESSED_BYTES_def)
  ultimately have "decode_run_storage stored_zlib sample_digest ?p = Inr []"
    by (simp add: decode_run_storage_def decode_envelope_def Let_def storage_envelope_def ENVELOPE_FIELDS_def storage_versions storage_versions [symmetric]
        MAX_UNCOMPRESSED_BYTES_def MAX_COMPRESSED_BYTES_def decode_legacy_def checked_output_def sample_digest_def
        decoded_record_def decode_text_def loads_text_def)
  moreover have "has_key ?p ENVELOPE_KEY" by (simp add: storage_envelope_def)
  ultimately show ?thesis
    using decoded_envelope_is_claimed [of ?p stored_zlib sample_digest "[]"]
    by (auto simp: storage_envelope_def)
qed

end
