(* ===== verification/StoreTables.thy ===== *)
theory StoreTables
  imports Complex_Main StorageCodec
begin

text \<open>
  What the tables of the run store share (\<open>nico/comprehensive_run_store.py\<close>). A table is an association
  list by its primary key. An operation of the store is one transaction: it returns its result
  or exception together with the table after it, which is the table before it
  when the transaction is rolled back. Epoch times are exact numbers. The locale \<open>fenced_table\<close> is the
  contract of a table whose rows are never removed and whose terminal rows are final.
\<close>

section \<open>Transactions\<close>

type_synonym ('a, 's) tx = "'a res \<times> 's"

section \<open>Stored JSON objects\<close>

text \<open>A payload column is JSON text; a payload that was already read is a dictionary.\<close>

definition decode_json_object_payload :: "py \<Rightarrow> dict res" where
  "decode_json_object_payload payload =
    bind_res (case payload of PStr t \<Rightarrow> loads_text t | _ \<Rightarrow> Inr payload) (\<lambda>v.
      case v of PDict d \<Rightarrow> Inr d | _ \<Rightarrow> Inl (ValueError ''persisted_payload_must_be_object''))"

lemma wf_canon: "wf_py v \<Longrightarrow> wf_py (canon v)"
proof (induction v rule: canon.induct)
  case (1 xs)
  then show ?case by (auto simp: list_all_iff)
next
  case (2 d)
  have "\<forall>(k, v) \<in> set d. wf_py (canon v)" using 2 by (fastforce simp: list_all_iff)
  moreover have "distinct (map fst (sort_items d))" using 2 by (intro distinct_keys_sort_items) simp
  ultimately show ?case by (auto simp: canon_dict list_all_iff comp_def simp del: canon.simps)
qed simp_all

lemma wf_dget: "wf_py (PDict d) \<Longrightarrow> wf_py (dget d k)"
  by (auto simp: dget_def list_all_iff dest: map_of_SomeD split: option.splits)

lemma decode_stored_object:
  assumes "wf_py (PDict d)"
  shows "decode_json_object_payload (PStr (json_dumps (PDict d))) = Inr (as_dict (canon (PDict d)))"
  using loads_dumps [OF assms] by (simp add: decode_json_object_payload_def loads_text_def)

lemma hex_char: "c \<in> set ''0123456789abcdef'' \<Longrightarrow> lower_char c = c \<and> code_of c \<noteq> 223 \<and> \<not> is_space c"
  by (auto simp: lower_char_def is_space_def)

lemma dropWhile_none: "(\<forall>c \<in> set s. \<not> P c) \<Longrightarrow> dropWhile P s = s"
  by (cases s) auto

lemma strip_solid: "(\<forall>c \<in> set s. \<not> is_space c) \<Longrightarrow> py_strip s = s"
  by (simp add: py_strip_def dropWhile_none)

lemma casefold_lower: "(\<forall>c \<in> set s. lower_char c = c \<and> code_of c \<noteq> 223) \<Longrightarrow> py_casefold s = s"
  by (induction s) (auto simp: py_casefold_def)

lemma digest_text_stable:
  assumes "is_sha256_text s"
  shows "py_casefold (py_strip (''sha256:'' @ s)) = ''sha256:'' @ s"
proof -
  have "\<forall>c \<in> set s. lower_char c = c \<and> code_of c \<noteq> 223 \<and> \<not> is_space c"
    using assms hex_char by (auto simp only: is_sha256_text_def)
  moreover have "\<forall>c \<in> set ''sha256:''. lower_char c = c \<and> code_of c \<noteq> 223 \<and> \<not> is_space c"
    by (simp add: lower_char_def is_space_def)
  ultimately have "\<forall>c \<in> set (''sha256:'' @ s). lower_char c = c \<and> code_of c \<noteq> 223 \<and> \<not> is_space c"
    by (simp only: set_append Un_iff) blast
  then show ?thesis using strip_solid [of "''sha256:'' @ s"] casefold_lower [of "''sha256:'' @ s"] by metis
qed

section \<open>Tables with final rows\<close>

lemma map_of_update: "map_of (AList.update k v t) run = (if run = k then Some v else map_of t run)"
  by (simp add: update_conv)

text \<open>
  The contract: a step keeps every row and what the row is bound to, and a terminal row is settled;
  being settled composes and keeps a row terminal.
\<close>

locale fenced_table =
  fixes step :: "(string \<times> 'r) list \<Rightarrow> (string \<times> 'r) list \<Rightarrow> bool"
    and bound :: "'r \<Rightarrow> 'b" and terminal :: "'r \<Rightarrow> bool" and settled :: "'r \<Rightarrow> 'r \<Rightarrow> bool"
  assumes step_keeps: "step t t' \<Longrightarrow> map_of t k = Some r \<Longrightarrow>
      \<exists>r'. map_of t' k = Some r' \<and> bound r' = bound r \<and> (terminal r \<longrightarrow> settled r r')"
    and settled_refl: "settled r r"
    and settled_trans: "settled r r' \<Longrightarrow> settled r' r'' \<Longrightarrow> settled r r''"
    and settled_terminal: "terminal r \<Longrightarrow> settled r r' \<Longrightarrow> terminal r'"
begin

lemma always_keeps:
  assumes "step\<^sup>*\<^sup>* t t'" and "map_of t k = Some r"
  shows "\<exists>r'. map_of t' k = Some r' \<and> bound r' = bound r \<and> (terminal r \<longrightarrow> settled r r')"
  using assms
proof (induction rule: rtranclp_induct)
  case base
  then show ?case using settled_refl by simp
next
  case (step t' t'')
  then obtain r' where r': "map_of t' k = Some r'" "bound r' = bound r" "terminal r \<longrightarrow> settled r r'" by blast
  from step_keeps [OF step.hyps(2) r'(1)] obtain r'' where
    "map_of t'' k = Some r''" "bound r'' = bound r'" "terminal r' \<longrightarrow> settled r' r''" by blast
  then show ?case using r' settled_trans settled_terminal by metis
qed

end

end
