(* ===== verification/StoreIntake.thy ===== *)
theory StoreIntake
  imports StoreTables
begin

text \<open>
  Public intake reservations (\<open>nico/comprehensive_run_store.py\<close>): before a provider is contacted, a
  run id is bound to the digest of its request and leased to one worker. The fresh lease id and
  the clock are arguments of the operations.
\<close>

section \<open>Rows\<close>

definition MAX_PUBLIC_INTAKE_RESERVATION_BYTES :: nat where
  "MAX_PUBLIC_INTAKE_RESERVATION_BYTES = 128 * 1024"

record intake_row =
  ir_request_sha256 :: string
  ir_status :: string
  ir_lease_id :: string
  ir_lease_until :: rat
  ir_attempts :: nat
  ir_failure_code :: string
  ir_retryable :: bool
  ir_commit_sha :: string
  ir_updated_at :: string
  ir_payload :: string

type_synonym intake_table = "(string \<times> intake_row) list"

record reservation =
  rv_run_id :: string
  rv_row :: intake_row
  rv_payload :: dict
  rv_lease_owner :: bool

definition public_intake_payload_json :: "dict \<Rightarrow> string" where
  "public_intake_payload_json payload = json_dumps (PDict payload)"

definition public_intake_payload_sha256 :: "(string \<Rightarrow> string) \<Rightarrow> dict \<Rightarrow> string" where
  "public_intake_payload_sha256 sha payload = ''sha256:'' @ sha (utf8 (public_intake_payload_json payload))"

definition SAFE_INTAKE_FIELDS :: "string list" where
  "SAFE_INTAKE_FIELDS = [''run_id'', ''repository'', ''provider'', ''customer_id'', ''project_id'',
     ''assessment_depth'', ''report_language'', ''requested_access_mode'']"

definition terminal_public_intake_payload :: "dict \<Rightarrow> dict" where
  "terminal_public_intake_payload payload =
    (let terminal = map (\<lambda>field. (field, dget payload field))
           (filter (\<lambda>field. dget payload field \<noteq> PNone \<and> dget payload field \<noteq> PStr []) SAFE_INTAKE_FIELDS)
     in case dget payload ''engagement_metadata'' of
          PDict engagement \<Rightarrow>
            (let engagement_sha256 = py_casefold (text_of (dget engagement ''engagement_metadata_sha256'')) in
             if engagement_sha256 \<noteq> []
             then dset terminal ''engagement_metadata''
               (PDict [(''engagement_metadata_sha256'', PStr engagement_sha256)])
             else terminal)
        | _ \<Rightarrow> terminal)"

definition intake_reservation_row :: "(string \<Rightarrow> string) \<Rightarrow> string \<Rightarrow> intake_row \<Rightarrow> bool \<Rightarrow> reservation res" where
  "intake_reservation_row sha run_id row lease_owner =
    bind_res (decode_json_object_payload (PStr (ir_payload row))) (\<lambda>payload.
      if ir_status row = ''acquiring'' \<and>
         public_intake_payload_sha256 sha payload \<noteq> py_casefold (py_strip (ir_request_sha256 row))
      then Inl (ValueError ''public_intake_reservation_payload_hash_mismatch'')
      else Inr \<lparr>rv_run_id = run_id, rv_row = row, rv_payload = payload, rv_lease_owner = lease_owner\<rparr>)"

section \<open>Operations\<close>

definition reserve_public_intake ::
  "(string \<Rightarrow> string) \<Rightarrow> string \<Rightarrow> rat \<Rightarrow> string \<Rightarrow> string \<Rightarrow> py \<Rightarrow> rat \<Rightarrow> string \<Rightarrow> intake_table \<Rightarrow>
   (reservation, intake_table) tx" where
  "reserve_public_intake sha lease_id now run_id request_sha256 payload lease_seconds updated_at table =
    (let normalized_run_id = py_strip run_id;
         supplied_hash = py_casefold (py_strip request_sha256) in
     if normalized_run_id = [] \<or> supplied_hash = []
     then (Inl (ValueError ''public_intake_reservation_identity_required''), table)
     else case payload of
       PDict body \<Rightarrow>
        (let serialized = public_intake_payload_json body;
             normalized_hash = public_intake_payload_sha256 sha body;
             lease_until = now + lease_seconds in
         if lease_seconds \<le> 0 then (Inl (ValueError ''public_intake_reservation_lease_invalid''), table)
         else if length (utf8 serialized) > MAX_PUBLIC_INTAKE_RESERVATION_BYTES
         then (Inl (ValueError ''public_intake_reservation_payload_too_large''), table)
         else if supplied_hash \<noteq> normalized_hash
         then (Inl (ValueError ''public_intake_reservation_payload_hash_mismatch''), table)
         else case map_of table normalized_run_id of
             None \<Rightarrow>
               (let row = \<lparr>ir_request_sha256 = normalized_hash, ir_status = ''acquiring'', ir_lease_id = lease_id,
                      ir_lease_until = lease_until, ir_attempts = 1, ir_failure_code = [], ir_retryable = False,
                      ir_commit_sha = [], ir_updated_at = updated_at, ir_payload = serialized\<rparr> in
                (intake_reservation_row sha normalized_run_id row True, AList.update normalized_run_id row table))
           | Some existing \<Rightarrow>
               if py_casefold (py_strip (ir_request_sha256 existing)) \<noteq> normalized_hash
               then (Inl (RunConflict ''public_intake_idempotency_conflict''), table)
               else if ir_status existing \<noteq> ''acquiring'' \<or> ir_lease_until existing > now
               then (intake_reservation_row sha normalized_run_id existing False, table)
               else
                (let claimed = (ir_request_sha256 existing = normalized_hash);
                     row = (if claimed
                       then existing\<lparr>ir_lease_id := lease_id, ir_lease_until := lease_until,
                         ir_attempts := ir_attempts existing + 1, ir_updated_at := updated_at\<rparr>
                       else existing) in
                 (intake_reservation_row sha normalized_run_id row claimed,
                  if claimed then AList.update normalized_run_id row table else table)))
     | _ \<Rightarrow> (Inl (TypeError ''public_intake_reservation_payload_must_be_object''), table))"

definition load_public_intake :: "(string \<Rightarrow> string) \<Rightarrow> string \<Rightarrow> intake_table \<Rightarrow> reservation option res" where
  "load_public_intake sha run_id table =
    (let normalized = py_strip run_id in
     if normalized = [] then Inr None
     else case map_of table normalized of
         None \<Rightarrow> Inr None
       | Some row \<Rightarrow> bind_res (intake_reservation_row sha normalized row False) (\<lambda>r. Inr (Some r)))"

text \<open>\<open>WHERE run_id = ? AND lease_id = ? AND status = 'acquiring'\<close>: the row the worker still holds.\<close>

definition held_row :: "intake_table \<Rightarrow> string \<Rightarrow> string \<Rightarrow> intake_row option" where
  "held_row table run_id lease_id =
    (case map_of table run_id of
       None \<Rightarrow> None
     | Some row \<Rightarrow> if ir_lease_id row = lease_id \<and> ir_status row = ''acquiring'' then Some row else None)"

definition heartbeat_public_intake ::
  "string \<Rightarrow> string \<Rightarrow> rat \<Rightarrow> string \<Rightarrow> intake_table \<Rightarrow> (bool, intake_table) tx" where
  "heartbeat_public_intake run_id lease_id lease_until_epoch updated_at table =
    (case held_row table run_id lease_id of
       None \<Rightarrow> (Inr False, table)
     | Some row \<Rightarrow> (Inr True, AList.update run_id
         (row\<lparr>ir_lease_until := lease_until_epoch, ir_updated_at := updated_at\<rparr>) table))"

definition accepted_row :: "intake_row \<Rightarrow> string \<Rightarrow> string \<Rightarrow> dict \<Rightarrow> intake_row" where
  "accepted_row row commit_sha updated_at payload =
    row\<lparr>ir_status := ''accepted'', ir_lease_id := [], ir_lease_until := 0,
      ir_commit_sha := py_casefold (py_strip commit_sha), ir_failure_code := [], ir_retryable := False,
      ir_updated_at := updated_at, ir_payload := public_intake_payload_json (terminal_public_intake_payload payload)\<rparr>"

definition complete_public_intake ::
  "string \<Rightarrow> string \<Rightarrow> string \<Rightarrow> string \<Rightarrow> intake_table \<Rightarrow> (bool, intake_table) tx" where
  "complete_public_intake run_id lease_id commit_sha updated_at table =
    (case held_row table run_id lease_id of
       None \<Rightarrow> (Inr False, table)
     | Some row \<Rightarrow>
         (case decode_json_object_payload (PStr (ir_payload row)) of
            Inl e \<Rightarrow> (Inl e, table)
          | Inr payload \<Rightarrow> (Inr True, AList.update run_id (accepted_row row commit_sha updated_at payload) table)))"

definition reconcile_public_intake_accepted ::
  "string \<Rightarrow> string \<Rightarrow> string \<Rightarrow> string \<Rightarrow> intake_table \<Rightarrow> (bool, intake_table) tx" where
  "reconcile_public_intake_accepted run_id request_sha256 commit_sha updated_at table =
    (case map_of table run_id of
       None \<Rightarrow> (Inr False, table)
     | Some row \<Rightarrow>
         if ir_request_sha256 row = py_casefold (py_strip request_sha256) \<and> ir_status row = ''acquiring''
         then (case decode_json_object_payload (PStr (ir_payload row)) of
            Inl e \<Rightarrow> (Inl e, table)
          | Inr payload \<Rightarrow> (Inr True, AList.update run_id (accepted_row row commit_sha updated_at payload) table))
         else (Inr False, table))"

definition failed_row :: "intake_row \<Rightarrow> string \<Rightarrow> bool \<Rightarrow> string \<Rightarrow> dict \<Rightarrow> intake_row" where
  "failed_row row failure_code retryable updated_at payload =
    row\<lparr>ir_status := ''failed'', ir_lease_id := [], ir_lease_until := 0,
      ir_failure_code := (if failure_code = [] then ''public_intake_failed'' else failure_code),
      ir_retryable := retryable, ir_updated_at := updated_at,
      ir_payload := public_intake_payload_json (terminal_public_intake_payload payload)\<rparr>"

definition fail_public_intake ::
  "string \<Rightarrow> string \<Rightarrow> string \<Rightarrow> bool \<Rightarrow> string \<Rightarrow> intake_table \<Rightarrow> (bool, intake_table) tx" where
  "fail_public_intake run_id lease_id failure_code retryable updated_at table =
    (case held_row table run_id lease_id of
       None \<Rightarrow> (Inr False, table)
     | Some row \<Rightarrow>
         (case decode_json_object_payload (PStr (ir_payload row)) of
            Inl e \<Rightarrow> (Inl e, table)
          | Inr payload \<Rightarrow> (Inr True, AList.update run_id (failed_row row failure_code retryable updated_at payload) table)))"

section \<open>Sequences of operations\<close>

inductive intake_step :: "(string \<Rightarrow> string) \<Rightarrow> intake_table \<Rightarrow> intake_table \<Rightarrow> bool" for sha where
  reserve: "wf_py payload \<Longrightarrow> intake_step sha t (snd (reserve_public_intake sha lease now run req payload seconds updated t))"
| heartbeat: "intake_step sha t (snd (heartbeat_public_intake run lease until updated t))"
| complete: "intake_step sha t (snd (complete_public_intake run lease commit updated t))"
| reconcile: "intake_step sha t (snd (reconcile_public_intake_accepted run req commit updated t))"
| fail: "intake_step sha t (snd (fail_public_intake run lease code retryable updated t))"

text \<open>
  What everybody but the worker with the lease \<open>lease\<close> on the run \<open>run\<close> can do before the time
  \<open>until\<close>: reserve any run, use any other lease on any run, and reconcile any other run with an
  accepted record.
\<close>

inductive rival_step :: "(string \<Rightarrow> string) \<Rightarrow> string \<Rightarrow> string \<Rightarrow> rat \<Rightarrow> intake_table \<Rightarrow> intake_table \<Rightarrow> bool"
  for sha run lease until where
  reserve: "now < until \<Longrightarrow>
    rival_step sha run lease until t (snd (reserve_public_intake sha other now run' req payload seconds updated t))"
| heartbeat: "other \<noteq> lease \<Longrightarrow> rival_step sha run lease until t (snd (heartbeat_public_intake run' other later updated t))"
| complete: "other \<noteq> lease \<Longrightarrow> rival_step sha run lease until t (snd (complete_public_intake run' other commit updated t))"
| fail: "other \<noteq> lease \<Longrightarrow> rival_step sha run lease until t (snd (fail_public_intake run' other code retryable updated t))"
| reconcile: "run' \<noteq> run \<Longrightarrow>
    rival_step sha run lease until t (snd (reconcile_public_intake_accepted run' req commit updated t))"

inductive intake_reachable :: "(string \<Rightarrow> string) \<Rightarrow> intake_table \<Rightarrow> bool" for sha where
  empty: "intake_reachable sha []"
| step: "intake_reachable sha t \<Longrightarrow> intake_step sha t t' \<Longrightarrow> intake_reachable sha t'"

section \<open>The invariant\<close>

lemma safe_fields_distinct: "distinct SAFE_INTAKE_FIELDS" "''engagement_metadata'' \<notin> set SAFE_INTAKE_FIELDS"
  by (simp_all add: SAFE_INTAKE_FIELDS_def)

text \<open>What is kept of a request after its acquisition: the safe fields, and one digest.\<close>

definition public_payload :: "dict \<Rightarrow> bool" where
  "public_payload payload \<longleftrightarrow>
     set (map fst payload) \<subseteq> set SAFE_INTAKE_FIELDS \<union> {''engagement_metadata''} \<and>
     (has_key payload ''engagement_metadata'' \<longrightarrow>
        (\<exists>digest. dget payload ''engagement_metadata'' = PDict [(''engagement_metadata_sha256'', PStr digest)]))"

lemma terminal_payload_public:
  assumes "wf_py (PDict d)"
  shows "wf_py (PDict (terminal_public_intake_payload d)) \<and> public_payload (terminal_public_intake_payload d)"
proof -
  let ?t = "map (\<lambda>field. (field, dget d field))
    (filter (\<lambda>field. dget d field \<noteq> PNone \<and> dget d field \<noteq> PStr []) SAFE_INTAKE_FIELDS)"
  have keys: "map fst ?t = filter (\<lambda>field. dget d field \<noteq> PNone \<and> dget d field \<noteq> PStr []) SAFE_INTAKE_FIELDS"
    by (simp add: comp_def)
  have absent: "map_of ?t ''engagement_metadata'' = None"
    using safe_fields_distinct(2) by (simp add: map_of_eq_None_iff image_image)
  have wf: "wf_py (PDict ?t)"
    using safe_fields_distinct(1) wf_dget [OF assms] unfolding wf_py.simps keys by (auto simp: list_all_iff)
  have plain: "public_payload ?t" using absent unfolding public_payload_def keys by auto
  have "wf_py (PDict (?t @ [(''engagement_metadata'', PDict [(''engagement_metadata_sha256'', PStr s)])]))" for s
    using wf safe_fields_distinct(2) by (auto simp: comp_def)
  moreover have "public_payload (?t @ [(''engagement_metadata'', PDict [(''engagement_metadata_sha256'', PStr s)])])" for s
    using absent by (auto simp: public_payload_def dget_append)
  ultimately show ?thesis
    using wf plain by (auto simp: terminal_public_intake_payload_def Let_def dset_append [OF absent] split: py.splits)
qed

lemma public_payload_canon: "wf_py (PDict d) \<Longrightarrow> public_payload d \<Longrightarrow> public_payload (as_dict (canon (PDict d)))"
  unfolding public_payload_def keys_canon using map_of_canon [of d] dget_canon [of d "''engagement_metadata''"]
  by (auto simp: sort_items_def)

text \<open>A row is leased with its whole request, or terminal with a public one and no lease.\<close>

definition intake_row_ok :: "(string \<Rightarrow> string) \<Rightarrow> intake_row \<Rightarrow> bool" where
  "intake_row_ok sha row \<longleftrightarrow>
     (\<exists>body. wf_py (PDict body) \<and> ir_payload row = public_intake_payload_json body \<and>
       (ir_status row = ''acquiring'' \<and> ir_request_sha256 row = public_intake_payload_sha256 sha body \<or>
        ir_status row \<in> {''accepted'', ''failed''} \<and> ir_lease_id row = [] \<and> ir_lease_until row = 0 \<and> public_payload body))"

definition intake_inv :: "(string \<Rightarrow> string) \<Rightarrow> intake_table \<Rightarrow> bool" where
  "intake_inv sha t \<longleftrightarrow> (\<forall>run row. map_of t run = Some row \<longrightarrow> intake_row_ok sha row)"

lemma held_row_Some: "held_row t run lease = Some row \<longleftrightarrow>
    map_of t run = Some row \<and> ir_lease_id row = lease \<and> ir_status row = ''acquiring''"
  by (auto simp: held_row_def split: option.splits if_splits)

lemma terminal_row_ok:
  assumes "intake_row_ok sha row" and "decode_json_object_payload (PStr (ir_payload row)) = Inr payload"
  shows "intake_row_ok sha (accepted_row row commit updated payload)" "intake_row_ok sha (failed_row row code retryable updated payload)"
proof -
  obtain body where body: "wf_py (PDict body)" "ir_payload row = public_intake_payload_json body"
    using assms(1) by (auto simp: intake_row_ok_def)
  have "payload = as_dict (canon (PDict body))"
    using assms(2) decode_stored_object [OF body(1)] body(2) by (simp add: public_intake_payload_json_def)
  then have "wf_py (PDict payload)" using wf_canon [OF body(1)] by (simp flip: canon_is_dict)
  from terminal_payload_public [OF this] show
    "intake_row_ok sha (accepted_row row commit updated payload)" "intake_row_ok sha (failed_row row code retryable updated payload)"
    unfolding intake_row_ok_def by (intro exI [of _ "terminal_public_intake_payload payload"]; simp add: accepted_row_def failed_row_def)+
qed

text \<open>What every operation may do to one row.\<close>

definition row_change :: "(string \<Rightarrow> string) \<Rightarrow> intake_row option \<Rightarrow> intake_row option \<Rightarrow> bool" where
  "row_change sha old new \<longleftrightarrow> new = old \<or>
     (old = None \<and> (\<exists>row. new = Some row \<and> intake_row_ok sha row)) \<or>
     (\<exists>row row'. old = Some row \<and> new = Some row' \<and> ir_status row = ''acquiring'' \<and>
        ir_request_sha256 row' = ir_request_sha256 row \<and> ir_attempts row \<le> ir_attempts row' \<and>
        (intake_row_ok sha row \<longrightarrow> intake_row_ok sha row'))"

lemma reserve_change:
  assumes "wf_py payload"
  shows "row_change sha (map_of t run) (map_of (snd (reserve_public_intake sha lease now run_id req payload seconds updated t)) run)"
proof (cases payload)
  case (PDict body)
  then show ?thesis
    using assms
    by (auto simp: reserve_public_intake_def Let_def map_of_update row_change_def intake_row_ok_def split: option.split)
qed (auto simp: reserve_public_intake_def Let_def row_change_def)

lemma terminal_change:
  assumes "map_of t run_id = Some row" "ir_status row = ''acquiring''" "decode_json_object_payload (PStr (ir_payload row)) = Inr payload"
  shows "row_change sha (map_of t run) (map_of (AList.update run_id (accepted_row row commit updated payload) t) run)"
    "row_change sha (map_of t run) (map_of (AList.update run_id (failed_row row code retryable updated payload) t) run)"
  using assms terminal_row_ok [OF _ assms(3)]
  by (auto simp: map_of_update row_change_def accepted_row_def failed_row_def)

lemma heartbeat_change: "row_change sha (map_of t run) (map_of (snd (heartbeat_public_intake run_id lease until updated t)) run)"
  by (auto simp: heartbeat_public_intake_def map_of_update row_change_def held_row_Some intake_row_ok_def split: option.split)

lemma row_change_refl [simp]: "row_change sha old old"
  by (simp add: row_change_def)

lemma complete_change: "row_change sha (map_of t run) (map_of (snd (complete_public_intake run_id lease commit updated t)) run)"
  by (auto simp: complete_public_intake_def held_row_Some terminal_change split: option.split sum.split)

lemma reconcile_change: "row_change sha (map_of t run) (map_of (snd (reconcile_public_intake_accepted run_id req commit updated t)) run)"
  by (auto simp: reconcile_public_intake_accepted_def terminal_change split: option.split sum.split)

lemma fail_change: "row_change sha (map_of t run) (map_of (snd (fail_public_intake run_id lease code retryable updated t)) run)"
  by (auto simp: fail_public_intake_def held_row_Some terminal_change split: option.split sum.split)

lemmas intake_changes = reserve_change heartbeat_change complete_change reconcile_change fail_change

lemma intake_step_change: "intake_step sha t t' \<Longrightarrow> row_change sha (map_of t run) (map_of t' run)"
  by (induction rule: intake_step.induct) (simp_all add: intake_changes)

lemma row_change_ok: "row_change sha old (Some row') \<Longrightarrow> (\<And>row. old = Some row \<Longrightarrow> intake_row_ok sha row) \<Longrightarrow> intake_row_ok sha row'"
  by (auto simp: row_change_def)

lemma intake_reachable_inv: "intake_reachable sha t \<Longrightarrow> intake_inv sha t"
proof (induction rule: intake_reachable.induct)
  case (step t t')
  then show ?case using row_change_ok intake_step_change [OF step(2)] unfolding intake_inv_def by metis
qed (simp add: intake_inv_def)

section \<open>Properties\<close>

text \<open>
  C21. After an intake is accepted or has failed, the store holds no more of the request than the
  public identity of the run: in every table the operations can produce, a terminal row has no
  lease, and its payload is readable and holds only the safe fields and the digest of the
  engagement.
\<close>

theorem terminal_intake_is_public:
  assumes "intake_reachable sha t" and "map_of t run = Some row" and "ir_status row \<noteq> ''acquiring''"
  shows "ir_lease_id row = [] \<and> (\<exists>payload. decode_json_object_payload (PStr (ir_payload row)) = Inr payload \<and> public_payload payload)"
proof -
  have "intake_row_ok sha row" using intake_reachable_inv [OF assms(1)] assms(2) by (simp add: intake_inv_def)
  then obtain body where "wf_py (PDict body)" "ir_payload row = public_intake_payload_json body" "public_payload body"
    "ir_lease_id row = []" using assms(3) by (auto simp: intake_row_ok_def)
  then show ?thesis
    using decode_stored_object public_payload_canon by (simp add: public_intake_payload_json_def)
qed

interpretation intake: fenced_table "intake_step sha"
    "\<lambda>row. ir_request_sha256 row" "\<lambda>row. ir_status row \<noteq> ''acquiring''" "\<lambda>row row'. row' = row"
  for sha :: "string \<Rightarrow> string"
proof unfold_locales
  fix t t' run and row :: intake_row
  assume "intake_step sha t t'" "map_of t run = Some row"
  then show "\<exists>row'. map_of t' run = Some row' \<and> ir_request_sha256 row' = ir_request_sha256 row \<and>
      (ir_status row \<noteq> ''acquiring'' \<longrightarrow> row' = row)"
    using intake_step_change [of sha t t' run] by (auto simp: row_change_def)
qed simp_all

text \<open>
  C23. A reservation binds a run to one request for good: whatever sequence of operations follows, the
  row stays, the digest of its request never changes, and a row that is accepted or failed is
  never changed again.
\<close>

theorem intake_binding_is_permanent:
  assumes "(intake_step sha)\<^sup>*\<^sup>* t t'" and "map_of t run = Some row"
  shows "\<exists>row'. map_of t' run = Some row' \<and> ir_request_sha256 row' = ir_request_sha256 row \<and>
    (ir_status row \<noteq> ''acquiring'' \<longrightarrow> row' = row)"
  using assms by (rule intake.always_keeps)

text \<open>The operations of the others leave a leased row alone, one at a time and in any sequence.\<close>

lemma reserve_leaves_leased:
  assumes "map_of t run = Some row" and "ir_status row = ''acquiring''" and "now < ir_lease_until row"
  shows "map_of (snd (reserve_public_intake sha other now run' req payload seconds updated t)) run = Some row"
  using assms by (cases payload) (auto simp: reserve_public_intake_def Let_def map_of_update split: option.split)

lemma rival_leaves_leased:
  assumes "rival_step sha run lease until t t'" and "map_of t run = Some row" and "ir_status row = ''acquiring''"
    and "ir_lease_id row = lease" and "until \<le> ir_lease_until row"
  shows "map_of t' run = Some row"
  using assms(1)
proof cases
  case (reserve now other run' req payload seconds updated)
  then show ?thesis using assms(2-5) by (simp add: reserve_leaves_leased)
qed (use assms(2-4) in \<open>auto simp: heartbeat_public_intake_def complete_public_intake_def fail_public_intake_def
    reconcile_public_intake_accepted_def map_of_update held_row_Some split: option.split sum.split\<close>)

lemma rivals_leave_leased:
  assumes "(rival_step sha run lease until)\<^sup>*\<^sup>* t t'" and "map_of t run = Some row" and "ir_status row = ''acquiring''"
    and "ir_lease_id row = lease" and "until \<le> ir_lease_until row"
  shows "map_of t' run = Some row"
  using assms by (induction rule: rtranclp_induct) (auto intro: rival_leaves_leased)

text \<open>
  C22. A lease has one owner until it runs out. When a reservation is granted, the run was not
  reserved before or its lease had run out, and the request is the one it was bound to. The row
  is then leased to the new worker up to a later time; whatever sequence of reservations before that time and
  of heartbeats, completions and failures under other leases follows (the reconciliation of this very run
  with an accepted record apart, which needs no lease), the row is unchanged, and the
  heartbeat, the completion and the failure of a worker with another lease id are refused.
\<close>

theorem granted_lease_is_exclusive:
  assumes "reserve_public_intake sha lease now run_id req payload seconds updated t = (Inr r, t')"
    and "rv_lease_owner r"
  shows "(case map_of t (py_strip run_id) of
        None \<Rightarrow> True
      | Some row \<Rightarrow> ir_status row = ''acquiring'' \<and> ir_lease_until row \<le> now \<and>
          ir_request_sha256 row = py_casefold (py_strip req)) \<and>
    (\<exists>row. map_of t' (py_strip run_id) = Some row \<and> ir_lease_id row = lease \<and> ir_lease_until row = now + seconds \<and>
       now < ir_lease_until row \<and> ir_status row = ''acquiring'') \<and>
    (\<forall>t''. (rival_step sha (py_strip run_id) lease (now + seconds))\<^sup>*\<^sup>* t' t'' \<longrightarrow>
      map_of t'' (py_strip run_id) = map_of t' (py_strip run_id) \<and>
      (\<forall>other. other \<noteq> lease \<longrightarrow>
       heartbeat_public_intake (py_strip run_id) other until updated' t'' = (Inr False, t'') \<and>
       complete_public_intake (py_strip run_id) other commit updated' t'' = (Inr False, t'') \<and>
       fail_public_intake (py_strip run_id) other code retryable updated' t'' = (Inr False, t'')))"
proof -
  obtain body where body: "payload = PDict body"
    using assms by (cases payload) (auto simp: reserve_public_intake_def Let_def split: if_split_asm)
  obtain row where row: "t' = AList.update (py_strip run_id) row t" "ir_lease_id row = lease" "ir_lease_until row = now + seconds"
      "0 < seconds" "ir_status row = ''acquiring''"
    and before: "case map_of t (py_strip run_id) of
        None \<Rightarrow> True
      | Some row \<Rightarrow> ir_status row = ''acquiring'' \<and> ir_lease_until row \<le> now \<and>
          ir_request_sha256 row = py_casefold (py_strip req)"
    using assms unfolding body reserve_public_intake_def Let_def py.case
    by (cases "map_of t (py_strip run_id)")
      (auto simp: intake_reservation_row_def bind_res_eq_Inr not_less split: if_split_asm)
  have held: "map_of t' (py_strip run_id) = Some row" using row(1) by (simp add: map_of_update)
  have later: "map_of t'' (py_strip run_id) = Some row"
    if "(rival_step sha (py_strip run_id) lease (now + seconds))\<^sup>*\<^sup>* t' t''" for t''
    using that held row(5,2) by (rule rivals_leave_leased) (simp add: row(3))
  have none: "held_row t'' (py_strip run_id) other = None"
    if "(rival_step sha (py_strip run_id) lease (now + seconds))\<^sup>*\<^sup>* t' t''" "other \<noteq> lease" for t'' other
    using row(2) that(2) later [OF that(1)] by (simp add: held_row_def)
  show ?thesis
  proof (intro conjI allI impI before)
    show "\<exists>row. map_of t' (py_strip run_id) = Some row \<and> ir_lease_id row = lease \<and> ir_lease_until row = now + seconds \<and>
       now < ir_lease_until row \<and> ir_status row = ''acquiring''"
      using held row(2-5) by simp
  next
    fix t'' other
    assume rivals: "(rival_step sha (py_strip run_id) lease (now + seconds))\<^sup>*\<^sup>* t' t''"
    show "map_of t'' (py_strip run_id) = map_of t' (py_strip run_id)" using later [OF rivals] held by simp
    assume "other \<noteq> lease"
    note none [OF rivals this]
    then show "heartbeat_public_intake (py_strip run_id) other until updated' t'' = (Inr False, t'')"
        "complete_public_intake (py_strip run_id) other commit updated' t'' = (Inr False, t'')"
        "fail_public_intake (py_strip run_id) other code retryable updated' t'' = (Inr False, t'')"
      by (simp_all add: heartbeat_public_intake_def complete_public_intake_def fail_public_intake_def)
  qed
qed

text \<open>
  Reading a reservation never fails: in every table the operations can produce, the stored
  payload of each row is readable, and that of a leased row has the digest the row is
  bound to.
\<close>

theorem reachable_intake_loads:
  assumes "intake_reachable sha t" and "\<forall>x. is_sha256_text (sha x)"
  shows "\<exists>out. load_public_intake sha run t = Inr out"
proof (cases "py_strip run = [] \<or> map_of t (py_strip run) = None")
  case False
  then obtain row where row: "map_of t (py_strip run) = Some row" "py_strip run \<noteq> []" by auto
  have "intake_row_ok sha row" using intake_reachable_inv [OF assms(1)] row(1) by (simp add: intake_inv_def)
  then obtain body where "wf_py (PDict body)" "ir_payload row = public_intake_payload_json body"
    and acq: "ir_status row = ''acquiring'' \<longrightarrow> ir_request_sha256 row = public_intake_payload_sha256 sha body"
    by (auto simp: intake_row_ok_def)
  then have "decode_json_object_payload (PStr (ir_payload row)) = Inr (as_dict (canon (PDict body)))"
    using decode_stored_object by (simp add: public_intake_payload_json_def)
  moreover have "public_intake_payload_sha256 sha (as_dict (canon (PDict body))) = public_intake_payload_sha256 sha body"
    by (simp only: public_intake_payload_sha256_def public_intake_payload_json_def json_dumps_canon canon_is_dict [symmetric])
  moreover have "py_casefold (py_strip (public_intake_payload_sha256 sha body)) = public_intake_payload_sha256 sha body"
    using digest_text_stable assms(2) by (simp add: public_intake_payload_sha256_def)
  ultimately show ?thesis
    using row acq by (auto simp: load_public_intake_def intake_reservation_row_def)
qed (auto simp: load_public_intake_def Let_def)

subsection \<open>A sample intake\<close>

definition sample_request :: dict where
  "sample_request = [(''run_id'', PStr ''r''), (''access_token'', PStr ''secret'')]"

definition sample_leased :: intake_table where
  "sample_leased = snd (reserve_public_intake sample_digest ''w1'' 0 ''r'' (''sha256:'' @ sample_digest []) (PDict sample_request) 300 ''t0'' [])"

definition sample_accepted :: intake_table where
  "sample_accepted = snd (complete_public_intake ''r'' ''w1'' ''C'' ''t1'' sample_leased)"

lemma sample_strip: "py_strip ''r'' = ''r''"
  by (simp add: py_strip_def is_space_def)

lemma sample_hash: "public_intake_payload_sha256 sample_digest body = ''sha256:'' @ sample_digest []"
  by (simp add: public_intake_payload_sha256_def sample_digest_def)

lemma sample_size: "length (utf8 (public_intake_payload_json sample_request)) \<le> MAX_PUBLIC_INTAKE_RESERVATION_BYTES"
  by (simp add: public_intake_payload_json_def sample_request_def json_dumps_dict item_text_def sort_items_def json_str_def
      json_char_def Let_def utf8_def utf8_char_def MAX_PUBLIC_INTAKE_RESERVATION_BYTES_def)

lemma sample_stable: "py_casefold (py_strip (''sha256:'' @ sample_digest [])) = ''sha256:'' @ sample_digest []"
  using sample_digest_text by (intro digest_text_stable) blast

definition sample_row :: intake_row where
  "sample_row = \<lparr>ir_request_sha256 = ''sha256:'' @ sample_digest [], ir_status = ''acquiring'', ir_lease_id = ''w1'',
     ir_lease_until = 300, ir_attempts = 1, ir_failure_code = [], ir_retryable = False, ir_commit_sha = [],
     ir_updated_at = ''t0'', ir_payload = public_intake_payload_json sample_request\<rparr>"

lemma sample_request_wf: "wf_py (PDict sample_request)"
  by (simp add: sample_request_def)

lemma sample_row_payload:
  "decode_json_object_payload (PStr (public_intake_payload_json sample_request)) = Inr (as_dict (canon (PDict sample_request)))"
  using decode_stored_object [OF sample_request_wf] by (simp add: public_intake_payload_json_def)

lemma sample_reserve:
  "reserve_public_intake sample_digest ''w1'' 0 ''r'' (''sha256:'' @ sample_digest []) (PDict sample_request) 300 ''t0'' [] =
   (Inr \<lparr>rv_run_id = ''r'', rv_row = sample_row, rv_payload = as_dict (canon (PDict sample_request)), rv_lease_owner = True\<rparr>,
    [(''r'', sample_row)])"
  unfolding reserve_public_intake_def Let_def sample_strip sample_stable sample_hash py.case
  using sample_size sample_stable
  by (simp add: intake_reservation_row_def sample_row_payload sample_hash sample_row_def not_less)

lemma sample_leased_rows: "sample_leased = [(''r'', sample_row)]"
  by (simp only: sample_leased_def sample_reserve snd_conv)

lemma sample_complete:
  "sample_accepted = [(''r'', accepted_row sample_row ''C'' ''t1'' (as_dict (canon (PDict sample_request))))]"
proof -
  have "held_row [(''r'', sample_row)] ''r'' ''w1'' = Some sample_row" by (simp add: held_row_def sample_row_def)
  moreover have "decode_json_object_payload (PStr (ir_payload sample_row)) = Inr (as_dict (canon (PDict sample_request)))"
    using sample_row_payload by (simp add: sample_row_def)
  ultimately show ?thesis
    by (simp add: sample_accepted_def sample_leased_rows complete_public_intake_def del: canon.simps)
qed

lemma sample_leased_reachable: "intake_reachable sample_digest sample_leased"
  unfolding sample_leased_def
  by (rule intake_reachable.step [OF intake_reachable.empty]) (rule intake_step.reserve [OF sample_request_wf])

lemma sample_accepted_reachable: "intake_reachable sample_digest sample_accepted"
  unfolding sample_accepted_def
  by (rule intake_reachable.step [OF sample_leased_reachable]) (rule intake_step.complete)

theorem terminal_intake_is_public_witness:
  "\<exists>row payload. map_of sample_accepted ''r'' = Some row \<and> ir_status row = ''accepted'' \<and>
     decode_json_object_payload (PStr (ir_payload row)) = Inr payload \<and> public_payload payload"
proof -
  let ?row = "accepted_row sample_row ''C'' ''t1'' (as_dict (canon (PDict sample_request)))"
  have "map_of sample_accepted ''r'' = Some ?row" "ir_status ?row = ''accepted''"
    by (simp_all add: sample_complete accepted_row_def)
  then show ?thesis using terminal_intake_is_public [OF sample_accepted_reachable, of "''r''" ?row] by auto
qed

theorem intake_binding_is_permanent_witness:
  "\<exists>row'. map_of sample_accepted ''r'' = Some row' \<and> ir_request_sha256 row' = ir_request_sha256 sample_row"
proof -
  have "(intake_step sample_digest)\<^sup>*\<^sup>* sample_leased sample_accepted"
    unfolding sample_accepted_def by (rule r_into_rtranclp) (rule intake_step.complete)
  moreover have "map_of sample_leased ''r'' = Some sample_row" by (simp add: sample_leased_rows)
  ultimately show ?thesis using intake_binding_is_permanent [of sample_digest sample_leased sample_accepted] by blast
qed

text \<open>Before the lease of the sample runs out, another worker reserves the run again and is refused.\<close>

definition sample_rivalled :: intake_table where
  "sample_rivalled = snd (reserve_public_intake sample_digest ''w2'' 299 ''r'' (''sha256:'' @ sample_digest []) (PDict sample_request)
     300 ''t1'' sample_leased)"

theorem granted_lease_is_exclusive_witness:
  "map_of sample_rivalled ''r'' = Some sample_row \<and>
   complete_public_intake ''r'' ''w2'' ''C'' ''t1'' sample_rivalled = (Inr False, sample_rivalled)"
proof -
  have "(rival_step sample_digest ''r'' ''w1'' (0 + 300))\<^sup>*\<^sup>* [(''r'', sample_row)] sample_rivalled"
    unfolding sample_rivalled_def sample_leased_rows by (rule r_into_rtranclp) (rule rival_step.reserve, simp)
  then show ?thesis
    using granted_lease_is_exclusive [OF sample_reserve, unfolded sample_strip, of undefined "''t1''" "''C''"] by simp
qed

theorem reachable_intake_loads_witness: "\<exists>out. load_public_intake sample_digest ''r'' sample_accepted = Inr out"
  by (rule reachable_intake_loads [OF sample_accepted_reachable sample_digest_text])

end
