(* ===== verification/StoreJobs.thy ===== *)
theory StoreJobs
  imports StoreTables
begin

text \<open>
  Leases of final-report jobs (\<open>nico/comprehensive_run_store.py\<close>): a small row per renderer with its status
  and heartbeat. The terminal fence is part of the update itself: a job that is complete,
  blocked, failed, cancelled, superseded or expired is never reopened.
\<close>

section \<open>Operations\<close>

record job_row =
  jr_run_id :: string
  jr_status :: string
  jr_started :: rat
  jr_heartbeat :: rat
  jr_updated_at :: string

type_synonym job_table = "(string \<times> job_row) list"

definition FINAL_REPORT_JOB_TERMINAL_STATUSES :: "string list" where
  "FINAL_REPORT_JOB_TERMINAL_STATUSES =
    [''complete'', ''blocked'', ''failed'', ''cancelled'', ''superseded'', ''expired'']"

definition create_final_report_job ::
  "string \<Rightarrow> string \<Rightarrow> rat \<Rightarrow> rat \<Rightarrow> string \<Rightarrow> string \<Rightarrow> job_table \<Rightarrow> (string \<times> job_row, job_table) tx" where
  "create_final_report_job lease_id run_id started heartbeat updated_at status table =
    (let lease = py_strip lease_id; run = py_strip run_id; normalized_status = py_lower (py_strip status);
         row = \<lparr>jr_run_id = run, jr_status = normalized_status, jr_started = started, jr_heartbeat = heartbeat,
           jr_updated_at = updated_at\<rparr> in
     if lease = [] \<or> run = [] \<or> normalized_status = []
     then (Inl (ValueError ''final_report_lease_run_and_status_required''), table)
     else if map_of table lease \<noteq> None
     then (Inl (RunConflict (''final_report_lease_exists:'' @ lease)), table)
     else (Inr (lease, row), AList.update lease row table))"

definition load_final_report_job :: "string \<Rightarrow> job_table \<Rightarrow> (string \<times> job_row) option" where
  "load_final_report_job lease_id table =
    (let lease = py_strip lease_id in
     if lease = [] then None else map_option (\<lambda>row. (lease, row)) (map_of table lease))"

definition transition_final_report_job_to_rendering ::
  "string \<Rightarrow> rat \<Rightarrow> rat \<Rightarrow> string \<Rightarrow> job_table \<Rightarrow> (bool, job_table) tx" where
  "transition_final_report_job_to_rendering lease_id started heartbeat updated_at table =
    (let lease = py_strip lease_id in
     if lease = [] then (Inl (ValueError ''final_report_lease_required''), table)
     else case map_of table lease of
         None \<Rightarrow> (Inr False, table)
       | Some row \<Rightarrow>
           if jr_status row \<in> {''queued'', ''running''}
           then (Inr True, AList.update lease (row\<lparr>jr_status := ''rendering'', jr_started := started,
               jr_heartbeat := heartbeat, jr_updated_at := updated_at\<rparr>) table)
           else (Inr False, table))"

definition update_final_report_job ::
  "string \<Rightarrow> string \<Rightarrow> rat \<Rightarrow> string \<Rightarrow> rat option \<Rightarrow> job_table \<Rightarrow> (bool, job_table) tx" where
  "update_final_report_job lease_id status heartbeat updated_at started table =
    (let lease = py_strip lease_id; normalized_status = py_lower (py_strip status) in
     if lease = [] \<or> normalized_status = [] then (Inl (ValueError ''final_report_lease_and_status_required''), table)
     else case map_of table lease of
         None \<Rightarrow> (Inr False, table)
       | Some row \<Rightarrow>
           if jr_status row \<notin> set FINAL_REPORT_JOB_TERMINAL_STATUSES \<or> jr_status row = normalized_status
           then
            (let row' = row\<lparr>jr_status := normalized_status, jr_heartbeat := heartbeat, jr_updated_at := updated_at\<rparr> in
             (Inr True, AList.update lease (case started of None \<Rightarrow> row' | Some s \<Rightarrow> row'\<lparr>jr_started := s\<rparr>) table))
           else (Inr False, table))"

text \<open>The job statement in the transaction of \<open>save\<close>: the lease of the publication becomes terminal.\<close>

definition publish_job :: "string \<Rightarrow> string \<Rightarrow> string \<Rightarrow> rat \<Rightarrow> string \<Rightarrow> job_table \<Rightarrow> job_table option" where
  "publish_job lease_id run_id status now updated_at table =
    (case map_of table lease_id of
       None \<Rightarrow> None
     | Some row \<Rightarrow>
         if jr_run_id row = run_id \<and> jr_status row \<in> {''queued'', ''rendering'', ''running''}
         then Some (AList.update lease_id
           (row\<lparr>jr_status := status, jr_heartbeat := now, jr_updated_at := updated_at\<rparr>) table)
         else None)"

section \<open>A terminal job stays terminal\<close>

inductive job_step :: "job_table \<Rightarrow> job_table \<Rightarrow> bool" where
  create: "job_step t (snd (create_final_report_job lease run started heartbeat updated status t))"
| render: "job_step t (snd (transition_final_report_job_to_rendering lease started heartbeat updated t))"
| update: "job_step t (snd (update_final_report_job lease status heartbeat updated st t))"
| publish: "publish_job lease run status now updated t = Some t' \<Longrightarrow> job_step t t'"

lemma active_not_terminal:
  "s \<in> {''queued'', ''rendering'', ''running''} \<Longrightarrow> s \<notin> set FINAL_REPORT_JOB_TERMINAL_STATUSES"
  by (auto simp: FINAL_REPORT_JOB_TERMINAL_STATUSES_def)

lemma job_step_keeps:
  assumes "job_step t t'" and "map_of t lease = Some row"
  shows "\<exists>row'. map_of t' lease = Some row' \<and> jr_run_id row' = jr_run_id row \<and>
    (jr_status row \<in> set FINAL_REPORT_JOB_TERMINAL_STATUSES \<longrightarrow> jr_status row' = jr_status row)"
  using assms
proof cases
  case create
  then show ?thesis using assms(2) by (auto simp: create_final_report_job_def Let_def map_of_update)
next
  case (render l started heartbeat updated)
  have "t' = t \<or> (\<exists>r r'. map_of t (py_strip l) = Some r \<and> jr_status r \<notin> set FINAL_REPORT_JOB_TERMINAL_STATUSES \<and>
      jr_run_id r' = jr_run_id r \<and> t' = AList.update (py_strip l) r' t)"
  proof (cases "\<exists>r. map_of t (py_strip l) = Some r \<and> jr_status r \<in> {''queued'', ''running''}")
    case True
    then obtain r where r: "map_of t (py_strip l) = Some r" "jr_status r \<in> {''queued'', ''running''}" by (elim exE conjE)
    then have "jr_status r \<notin> set FINAL_REPORT_JOB_TERMINAL_STATUSES" by (intro active_not_terminal) blast
    moreover have "t' = t \<or> t' = AList.update (py_strip l) (r\<lparr>jr_status := ''rendering'', jr_started := started,
        jr_heartbeat := heartbeat, jr_updated_at := updated\<rparr>) t"
      unfolding render transition_final_report_job_to_rendering_def Let_def r(1) option.case if_P [OF r(2)]
      by (cases "py_strip l = []") simp_all
    moreover have "jr_run_id (r\<lparr>jr_status := ''rendering'', jr_started := started,
        jr_heartbeat := heartbeat, jr_updated_at := updated\<rparr>) = jr_run_id r" by simp
    ultimately show ?thesis using r(1) by metis
  next
    case False
    then show ?thesis
      unfolding render transition_final_report_job_to_rendering_def Let_def
      by (cases "py_strip l = []"; cases "map_of t (py_strip l)") simp_all
  qed
  then show ?thesis using assms(2) by (auto simp: map_of_update)
next
  case update
  then show ?thesis
    using assms(2) by (auto simp: update_final_report_job_def Let_def map_of_update split: option.split)
next
  case publish
  then show ?thesis
    using assms(2) active_not_terminal by (auto simp: publish_job_def map_of_update split: option.splits if_split_asm)
qed

interpretation jobs: fenced_table job_step jr_run_id "\<lambda>row. jr_status row \<in> set FINAL_REPORT_JOB_TERMINAL_STATUSES"
    "\<lambda>row row'. jr_status row' = jr_status row"
  by unfold_locales (simp_all add: job_step_keeps)

text \<open>
  A terminal final-report job is never reopened: whatever sequence of creations, render
  transitions, heartbeats, updates and publications follows, the row stays with its run, and once
  its status is terminal the status is the same forever.
\<close>

theorem terminal_job_is_final:
  assumes "job_step\<^sup>*\<^sup>* t t'" and "map_of t lease = Some row"
  shows "\<exists>row'. map_of t' lease = Some row' \<and> jr_run_id row' = jr_run_id row \<and>
    (jr_status row \<in> set FINAL_REPORT_JOB_TERMINAL_STATUSES \<longrightarrow> jr_status row' = jr_status row)"
  using assms by (rule jobs.always_keeps)

definition sample_jobs :: job_table where
  "sample_jobs = [(''l'', \<lparr>jr_run_id = ''r'', jr_status = ''expired'', jr_started = 0, jr_heartbeat = 0, jr_updated_at = ''t''\<rparr>)]"

theorem terminal_job_is_final_witness:
  "\<exists>row'. map_of (snd (update_final_report_job ''l'' ''rendering'' 1 ''t2'' None sample_jobs)) ''l'' = Some row' \<and>
     jr_status row' = ''expired''"
proof -
  have "job_step\<^sup>*\<^sup>* sample_jobs (snd (update_final_report_job ''l'' ''rendering'' 1 ''t2'' None sample_jobs))"
    by (rule r_into_rtranclp) (rule job_step.update)
  then show ?thesis
    using terminal_job_is_final [of sample_jobs _ "''l''"] by (fastforce simp: sample_jobs_def FINAL_REPORT_JOB_TERMINAL_STATUSES_def)
qed

end
