(* ===== verification/HumanEvidence.thy ===== *)
theory HumanEvidence
  imports Seals
begin

text \<open>
  Human evidence of a run (\<open>nico/strategic_human_evidence_v1.py\<close>): the intake of ten modules is
  normalized into a package that carries a digest per module and a digest over everything, and
  the package is verified again whenever the record that holds it is validated. The module
  definitions come from \<open>nico/decision_grade_human_evidence_v1.py\<close>.
\<close>

section \<open>The modules\<close>

record evidence_module =
  module_id :: string
  label :: string
  required_fields :: "string list"
  description :: string

definition MODULE_DEFINITIONS :: "evidence_module list" where
  "MODULE_DEFINITIONS = [
     \<lparr> module_id = ''functional_qa'', label = ''Functional QA'',
       required_fields = [''test_cases'', ''observed_results''],
       description = ''Human-observed functional scenarios, expected behavior, actual behavior, environment, evidence, and disposition.'' \<rparr>,
     \<lparr> module_id = ''platform_parity'', label = ''Browser, device, and platform parity'',
       required_fields = [''matrix''],
       description = ''Observed parity results by supported browser, device, operating system, application surface, and release.'' \<rparr>,
     \<lparr> module_id = ''accessibility_ux'', label = ''Accessibility and UX review'',
       required_fields = [''observations''],
       description = ''Human accessibility and workflow-friction observations that repository analysis cannot prove alone.'' \<rparr>,
     \<lparr> module_id = ''stakeholder_context'', label = ''Stakeholder objectives and constraints'',
       required_fields = [''objectives'', ''constraints''],
       description = ''Named stakeholder goals, pain points, constraints, desired state, and decision priorities.'' \<rparr>,
     \<lparr> module_id = ''incident_history'', label = ''Incident and support history'',
       required_fields = [''incidents''],
       description = ''Human-confirmed incidents, customer-impacting defects, support themes, and operational consequences.'' \<rparr>,
     \<lparr> module_id = ''product_objectives'', label = ''Product objectives and release outcomes'',
       required_fields = [''objectives'', ''success_measures''],
       description = ''Target outcomes and success measures used to connect technical findings to product decisions.'' \<rparr>,
     \<lparr> module_id = ''release_constraints'', label = ''Release deadlines and delivery constraints'',
       required_fields = [''constraints''],
       description = ''Deadlines, contractual commitments, rollout constraints, rollback limits, and dependency dates.'' \<rparr>,
     \<lparr> module_id = ''compliance_requirements'', label = ''Regulatory and contractual requirements'',
       required_fields = [''requirements''],
       description = ''Explicit obligations supplied by authorized stakeholders; this is readiness evidence, not certification.'' \<rparr>,
     \<lparr> module_id = ''budget_staffing'', label = ''Budget, staffing, and capacity constraints'',
       required_fields = [''constraints''],
       description = ''Available roles, capacity, budget ranges, hiring constraints, and delivery ownership assumptions.'' \<rparr>,
     \<lparr> module_id = ''accepted_risks'', label = ''Known decisions and accepted risks'',
       required_fields = [''decisions''],
       description = ''Named, time-bounded risk acceptances and architecture decisions with owner, rationale, and review date.'' \<rparr>]"

definition MODULES :: "(string \<times> evidence_module) list" where
  "MODULES = map (\<lambda>m. (module_id m, m)) MODULE_DEFINITIONS"

definition HUMAN_EVIDENCE_VERSION :: string where
  "HUMAN_EVIDENCE_VERSION = ''nico.strategic_human_evidence.v2''"

definition REQUIRED_METADATA :: "string list" where
  "REQUIRED_METADATA = [''reviewer'', ''observed_at'', ''source_reference'']"

definition EXACT_ENGAGEMENT_FIELD_LIMITS :: "(string \<times> nat) list" where
  "EXACT_ENGAGEMENT_FIELD_LIMITS = [
     (''customer_name'', 180), (''project_name'', 180), (''primary_technical_contact'', 600),
     (''access_method'', 1200), (''authorized_scope'', 4000)]"

section \<open>Bounded copies of the submitted values\<close>

text \<open>A dictionary display built from pairs: a later equal key replaces the value.\<close>

definition dict_of_pairs :: "(string \<times> py) list \<Rightarrow> dict" where
  "dict_of_pairs kvs = dupdate [] kvs"

function safe_value :: "nat \<Rightarrow> py \<Rightarrow> py res" where
  "safe_value depth value = (case value of
     PStr s \<Rightarrow> if length s > 4000
       then Inl (ValueError ''human_evidence_value_exceeds_4000_characters'') else Inr value
   | PDict d \<Rightarrow>
       if depth \<ge> 5 then Inr (PStr (take 4000 (py_str value)))
       else bind_res (map_res (\<lambda>(key, item). bind_res (safe_value (Suc depth) item)
               (\<lambda>w. Inr (take 160 key, w))) (take 120 d))
             (\<lambda>kvs. Inr (PDict (dict_of_pairs kvs)))
   | PList xs \<Rightarrow>
       if depth \<ge> 5 then Inr (PStr (take 4000 (py_str value)))
       else bind_res (map_res (safe_value (Suc depth)) (take 120 xs)) (\<lambda>ys. Inr (PList ys))
   | _ \<Rightarrow> Inr value)"
  by pat_completeness auto
termination by (relation "measure (\<lambda>(depth, v). 5 - depth)") auto

declare safe_value.simps [simp del]

definition engagement_limit_error :: "nat \<Rightarrow> pyexc" where
  "engagement_limit_error limit =
     ValueError (''engagement_evidence_value_exceeds_'' @ nat_str limit @ ''_characters'')"

function exact_engagement_value :: "nat \<Rightarrow> nat \<Rightarrow> py \<Rightarrow> py res" where
  "exact_engagement_value limit depth value = (case value of
     PStr s \<Rightarrow> if length s > limit then Inl (engagement_limit_error limit) else Inr value
   | PDict d \<Rightarrow>
       if depth \<ge> 5 then
         (if length (py_str value) > limit then Inl (engagement_limit_error limit)
          else Inr (PStr (py_str value)))
       else bind_res (map_res (\<lambda>(key, item). bind_res (exact_engagement_value limit (Suc depth) item)
               (\<lambda>w. Inr (take 160 key, w))) (take 120 d))
             (\<lambda>kvs. Inr (PDict (dict_of_pairs kvs)))
   | PList xs \<Rightarrow>
       if depth \<ge> 5 then
         (if length (py_str value) > limit then Inl (engagement_limit_error limit)
          else Inr (PStr (py_str value)))
       else bind_res (map_res (exact_engagement_value limit (Suc depth)) (take 120 xs))
             (\<lambda>ys. Inr (PList ys))
   | _ \<Rightarrow> Inr value)"
  by pat_completeness auto
termination by (relation "measure (\<lambda>(limit, depth, v). 5 - depth)") auto

declare exact_engagement_value.simps [simp del]

section \<open>Normalization\<close>

text \<open>\<open>_module_inputs\<close>: the package itself, a mapping under \<open>modules\<close> or a list of modules.\<close>

definition known_modules :: "dict \<Rightarrow> (string \<times> dict) list" where
  "known_modules d = concat (map (\<lambda>(key, payload).
     if map_of MODULES key \<noteq> None then [(key, as_dict payload)] else []) d)"

definition module_inputs :: "py \<Rightarrow> (string \<times> dict) list" where
  "module_inputs value =
    (let source = as_dict value in
     case dget source ''modules'' of
       PDict modules \<Rightarrow> known_modules modules
     | PList items \<Rightarrow> fold (\<lambda>item output. case item of
           PDict d \<Rightarrow>
             (let key = str_or_empty (dget d ''module_id'') in
              if map_of MODULES key \<noteq> None then AList.update key d output else output)
         | _ \<Rightarrow> output) items []
     | _ \<Rightarrow> known_modules source)"

definition present_value :: "py \<Rightarrow> bool" where
  "present_value v = (v \<noteq> PNone \<and> v \<noteq> PStr [] \<and> v \<noteq> PList [] \<and> v \<noteq> PDict [])"

text \<open>\<open>" ".join(str(value or "").split())[:limit]\<close>.\<close>

definition one_line :: "nat \<Rightarrow> py \<Rightarrow> string" where
  "one_line limit v = take limit (py_join '' '' (py_split (str_or_empty v)))"

text \<open>The evidence of a module: fields given beside it are moved in, then every value is bounded.\<close>

fun gather_required :: "dict \<Rightarrow> string list \<Rightarrow> dict \<Rightarrow> dict res" where
  "gather_required source [] evidence = Inr evidence"
| "gather_required source (field # rest) evidence =
     (if has_key source field \<and> \<not> has_key evidence field
      then bind_res (safe_value 0 (dget source field))
        (\<lambda>v. gather_required source rest (dset evidence field v))
      else gather_required source rest evidence)"

definition bound_evidence :: "dict \<Rightarrow> dict res" where
  "bound_evidence evidence =
     bind_res (map_res (\<lambda>(key, item).
         bind_res (case map_of EXACT_ENGAGEMENT_FIELD_LIMITS key of
                     Some limit \<Rightarrow> exact_engagement_value limit 0 item
                   | None \<Rightarrow> safe_value 0 item) (\<lambda>w. Inr (key, w))) evidence)
       (\<lambda>kvs. Inr (dict_of_pairs kvs))"

definition module_excluded :: "dict \<Rightarrow> bool" where
  "module_excluded source = (dget source ''excluded'' = PBool True \<or>
     py_casefold (str_or_empty (dget source ''status'')) \<in> {''excluded'', ''out_of_scope''})"

definition str_list :: "string list \<Rightarrow> py" where
  "str_list xs = PList (map PStr xs)"

text \<open>The status and the assurance sentence; the retained sentence has a middle dot (U+00B7).\<close>

definition RETAINED_ASSURANCE :: string where
  "RETAINED_ASSURANCE = ''HUMAN EVIDENCE RETAINED '' @ [CHR 0xB7] @ '' REVIEW REQUIRED''"

definition module_status ::
  "bool \<Rightarrow> string \<Rightarrow> bool \<Rightarrow> string list \<Rightarrow> string list \<Rightarrow> string \<times> string \<times> string list" where
  "module_status excluded rationale has_content missing_fields missing_metadata =
    (if excluded \<and> rationale \<noteq> [] then (''excluded'', ''EXCLUDED WITH RATIONALE'', missing_metadata)
     else if has_content \<and> missing_fields = [] \<and> missing_metadata = []
       then (''complete'', RETAINED_ASSURANCE, missing_metadata)
     else if has_content then (''partial'', ''REVIEW LIMITED'',
       missing_metadata @ (if excluded \<and> rationale = [] then [''exclusion_rationale''] else []))
     else (''not_assessed'', ''NOT ASSESSED'', missing_metadata))"

text \<open>The dictionary of a module, before its digest is added.\<close>

definition module_fields :: "evidence_module \<Rightarrow> string \<times> string \<times> string list \<Rightarrow> string list \<Rightarrow>
    string list \<Rightarrow> string list \<Rightarrow> dict \<Rightarrow> dict \<Rightarrow> bool \<Rightarrow> string \<Rightarrow> dict" where
  "module_fields definition outcome have_fields lack_fields have_metadata metadata evidence excluded rationale =
    [(''module_id'', PStr (module_id definition)),
     (''label'', PStr (label definition)),
     (''description'', PStr (description definition)),
     (''status'', PStr (fst outcome)),
     (''assurance'', PStr (fst (snd outcome))),
     (''required_fields'', str_list (required_fields definition)),
     (''present_fields'', str_list have_fields),
     (''missing_fields'', str_list lack_fields),
     (''required_metadata'', str_list REQUIRED_METADATA),
     (''present_metadata'', str_list have_metadata),
     (''missing_metadata'', str_list (sort (remdups (snd (snd outcome))))),
     (''evidence'', PDict evidence)] @ metadata @
    [(''excluded'', PBool excluded),
     (''exclusion_rationale'', PStr rationale),
     (''human_observation_required'', PBool True),
     (''repository_inference_allowed'', PBool False),
     (''directly_scored'', PBool False)]"

definition module_metadata :: "dict \<Rightarrow> dict" where
  "module_metadata source =
    [(''reviewer'', PStr (one_line 240 (dget source ''reviewer''))),
     (''observed_at'', PStr (one_line 120 (py_or (dget source ''observed_at'') (dget source ''captured_at'')))),
     (''source_reference'', PStr (one_line 600 (py_or (py_or (dget source ''source_reference'')
        (dget source ''attachment_reference'')) (dget source ''attachment_ref''))))]"

definition present_metadata :: "dict \<Rightarrow> string list" where
  "present_metadata source = map fst (filter (\<lambda>(f, item). present_value item) (module_metadata source))"

definition missing_metadata :: "dict \<Rightarrow> string list" where
  "missing_metadata source = filter (\<lambda>f. f \<notin> set (present_metadata source)) REQUIRED_METADATA"

definition present_fields :: "evidence_module \<Rightarrow> dict \<Rightarrow> string list" where
  "present_fields definition evidence =
     filter (\<lambda>f. present_value (dget evidence f)) (required_fields definition)"

definition missing_fields :: "evidence_module \<Rightarrow> dict \<Rightarrow> string list" where
  "missing_fields definition evidence =
     filter (\<lambda>f. f \<notin> set (present_fields definition evidence)) (required_fields definition)"

definition exclusion_rationale :: "dict \<Rightarrow> string" where
  "exclusion_rationale source =
     one_line 1200 (py_or (dget source ''exclusion_rationale'') (dget source ''reason''))"

definition has_content :: "dict \<Rightarrow> dict \<Rightarrow> bool" where
  "has_content source evidence = (evidence \<noteq> [] \<or> present_metadata source \<noteq> [] \<or>
     exclusion_rationale source \<noteq> [] \<or> module_excluded source)"

definition module_body :: "evidence_module \<Rightarrow> dict \<Rightarrow> dict \<Rightarrow> dict" where
  "module_body definition source evidence =
     module_fields definition
       (module_status (module_excluded source) (exclusion_rationale source)
          (has_content source evidence) (missing_fields definition evidence) (missing_metadata source))
       (present_fields definition evidence) (missing_fields definition evidence)
       (present_metadata source) (module_metadata source) evidence
       (module_excluded source) (exclusion_rationale source)"

definition normalize_module ::
  "(string \<Rightarrow> string) \<Rightarrow> evidence_module \<Rightarrow> py \<Rightarrow> dict res" where
  "normalize_module sha definition raw =
    (let source = as_dict raw in
     bind_res (gather_required source (required_fields definition)
         (as_dict (dget source ''evidence''))) (\<lambda>gathered.
     bind_res (bound_evidence gathered) (\<lambda>evidence.
     let module = module_body definition source evidence
     in Inr (dset module ''module_sha256'' (PStr (json_digest sha (PDict module)))))))"

definition structured_value_count :: "py \<Rightarrow> nat" where
  "structured_value_count v = (case v of PList xs \<Rightarrow> length xs | PDict d \<Rightarrow> length d
     | _ \<Rightarrow> if present_value v then 1 else 0)"

definition structured_record_count :: "(string \<times> dict) list \<Rightarrow> nat" where
  "structured_record_count modules =
     sum_list (map (\<lambda>(_, module). sum_list (map (\<lambda>(_, v). structured_value_count v)
       (as_dict (dget module ''evidence'')))) modules)"

definition modules_with :: "(string \<times> dict) list \<Rightarrow> string \<Rightarrow> string list" where
  "modules_with modules status =
     map fst (filter (\<lambda>(_, module). dget module ''status'' = PStr status) modules)"

definition evidence_package :: "(string \<times> dict) list \<Rightarrow> dict" where
  "evidence_package modules =
    (let complete = modules_with modules ''complete'';
         partial = modules_with modules ''partial'';
         excluded = modules_with modules ''excluded'';
         not_assessed = modules_with modules ''not_assessed'';
         active = complete @ partial @ excluded
     in [(''artifact_schema'', PStr HUMAN_EVIDENCE_VERSION),
         (''status'', PStr (if partial = [] \<and> not_assessed = [] then ''complete'' else ''review_limited'')),
         (''module_count'', PInt (int (length modules))),
         (''status_counts'', PDict (map (\<lambda>status.
             (status, PInt (int (length (modules_with modules status)))))
             [''complete'', ''partial'', ''not_assessed'', ''excluded''])),
         (''complete_modules'', str_list complete),
         (''partial_modules'', str_list partial),
         (''not_assessed_modules'', str_list not_assessed),
         (''excluded_modules'', str_list excluded),
         (''provided_module_ids'', str_list active),
         (''human_statement_count'', PInt 0),
         (''attachment_reference_count'', PInt (int (length (filter (\<lambda>key.
             case map_of modules key of
               Some module \<Rightarrow> truthy (dget module ''source_reference'') | None \<Rightarrow> False) active)))),
         (''structured_record_count'', PInt (int (structured_record_count modules))),
         (''modules'', PDict (map (\<lambda>(key, module). (key, PDict module)) modules)),
         (''repository_inference_allowed'', PBool False),
         (''repository_inference_prohibited'', PBool True),
         (''directly_scored'', PBool False),
         (''human_review_required'', PBool True),
         (''client_delivery_allowed'', PBool False)])"

definition normalize_strategic_human_evidence :: "(string \<Rightarrow> string) \<Rightarrow> py \<Rightarrow> dict res" where
  "normalize_strategic_human_evidence sha value =
    (let inputs = module_inputs value in
     bind_res (map_res (\<lambda>(key, definition).
         bind_res (normalize_module sha definition
             (case map_of inputs key of Some d \<Rightarrow> PDict d | None \<Rightarrow> PNone))
           (\<lambda>module. Inr (key, module))) MODULES)
       (\<lambda>modules. let package = evidence_package modules
         in Inr (dset package ''human_evidence_sha256'' (PStr (json_digest sha (PDict package))))))"

section \<open>Verification\<close>

definition verify_module :: "(string \<Rightarrow> string) \<Rightarrow> string \<Rightarrow> py \<Rightarrow> bool" where
  "verify_module sha key raw = (case raw of
     PDict d \<Rightarrow> str_or_empty (dget d ''module_id'') = key \<and> field_seal_valid sha ''module_sha256'' d
   | _ \<Rightarrow> False)"

definition verify_strategic_human_evidence :: "(string \<Rightarrow> string) \<Rightarrow> py \<Rightarrow> bool" where
  "verify_strategic_human_evidence sha value = (case value of
     PDict source \<Rightarrow>
       field_seal_valid sha ''human_evidence_sha256'' source \<and>
       (case dget source ''modules'' of
          PDict modules \<Rightarrow> set (map fst modules) = set (map fst MODULES) \<and>
            list_all (\<lambda>(key, raw). verify_module sha key raw) modules
        | _ \<Rightarrow> False)
   | _ \<Rightarrow> False)"

section \<open>Projections for the report stages\<close>

definition human_evidence_module :: "(string \<Rightarrow> string) \<Rightarrow> py \<Rightarrow> string \<Rightarrow> dict res" where
  "human_evidence_module sha package key =
    (case map_of MODULES key of
       None \<Rightarrow> Inl (KeyError (''unknown_human_evidence_module:'' @ key))
     | Some definition \<Rightarrow>
         bind_res (normalize_strategic_human_evidence sha package) (\<lambda>normalized.
           case dget (as_dict (dget normalized ''modules'')) key of
             PDict d \<Rightarrow> Inr d
           | _ \<Rightarrow> normalize_module sha definition PNone))"

definition stage_payload_module :: "dict \<Rightarrow> dict" where
  "stage_payload_module module =
     dupdate (as_dict (dget module ''evidence'')) [
       (''reviewer'', py_or (dget module ''reviewer'') (PStr [])),
       (''observed_at'', py_or (dget module ''observed_at'') (PStr [])),
       (''source_reference'', py_or (dget module ''source_reference'') (PStr [])),
       (''status'', py_or (dget module ''status'') (PStr ''partial'')),
       (''excluded'', PBool (dget module ''excluded'' = PBool True)),
       (''exclusion_rationale'', py_or (dget module ''exclusion_rationale'') (PStr [])),
       (''module_sha256'', py_or (dget module ''module_sha256'') (PStr []))]"

fun stage_payload_loop :: "(string \<Rightarrow> string) \<Rightarrow> py \<Rightarrow> string list \<Rightarrow> dict \<Rightarrow> dict res" where
  "stage_payload_loop sha normalized [] output = Inr output"
| "stage_payload_loop sha normalized (key # keys) output =
     bind_res (human_evidence_module sha normalized key) (\<lambda>module.
       stage_payload_loop sha normalized keys
         (if dget module ''status'' = PStr ''not_assessed'' then output
          else dset output key (PDict (stage_payload_module module))))"

definition decision_grade_stage_payload ::
  "(string \<Rightarrow> string) \<Rightarrow> py \<Rightarrow> string list \<Rightarrow> dict res" where
  "decision_grade_stage_payload sha package module_ids =
     bind_res (normalize_strategic_human_evidence sha package) (\<lambda>normalized.
       stage_payload_loop sha (PDict normalized) module_ids [])"

section \<open>Bounding is a projection\<close>

lemma dict_of_pairs_keys: "distinct (map fst (dict_of_pairs kvs))"
proof -
  have "distinct (map fst d) \<Longrightarrow> distinct (map fst (dupdate d kvs))" for d
    by (induction kvs arbitrary: d) (auto simp: distinct_keys_dset)
  then show ?thesis by (simp add: dict_of_pairs_def)
qed

lemma set_dict_of_pairs: "set (dict_of_pairs kvs) \<subseteq> set kvs"
proof -
  have "set (dupdate d kvs) \<subseteq> set d \<union> set kvs" for d
  proof (induction kvs arbitrary: d)
    case (Cons p kvs)
    obtain k v where "p = (k, v)" by (cases p)
    then show ?case using Cons.IH [of "dset d k v"] set_dset [of k v d] by auto
  qed simp
  from this [of "[]"] show ?thesis by (simp add: dict_of_pairs_def)
qed

lemma length_dict_of_pairs: "length (dict_of_pairs kvs) \<le> length kvs"
proof -
  have one: "length (dset d k v) \<le> Suc (length d)" for d :: dict and k v
    by (induction d) auto
  have "length (dupdate d kvs) \<le> length d + length kvs" for d
  proof (induction kvs arbitrary: d)
    case (Cons p kvs)
    obtain k v where "p = (k, v)" by (cases p)
    then show ?case using Cons.IH [of "dset d k v"] one [of k v d] by simp
  qed simp
  from this [of "[]"] show ?thesis by (simp add: dict_of_pairs_def)
qed

lemma dict_of_pairs_distinct: "distinct (map fst kvs) \<Longrightarrow> dict_of_pairs kvs = kvs"
  by (simp add: dict_of_pairs_def dupdate_Nil_distinct)

text \<open>
  A bounded copy of a list or of a dictionary is left alone by the same bounding, when the
  bounding of the parts is.
\<close>

lemma bounded_list_fixed:
  assumes "map_res f (take 120 xs) = Inr ys" and "\<And>x y. x \<in> set (take 120 xs) \<Longrightarrow> f x = Inr y \<Longrightarrow> f y = Inr y"
  shows "map_res f (take 120 ys) = Inr ys"
proof -
  have "length ys \<le> 120" using map_res_length [OF assms(1)] by simp
  moreover have "f y = Inr y" if "y \<in> set ys" for y
    using map_res_in_set [OF assms(1) that] assms(2) by auto
  ultimately show ?thesis using map_res_all [of ys f "\<lambda>y. y"] by simp
qed

lemma bounded_dict_fixed:
  assumes "map_res (\<lambda>(k, x). bind_res (f x) (\<lambda>w. Inr (take 160 k, w))) (take 120 d) = Inr kvs"
    and "\<And>k x y. (k, x) \<in> set (take 120 d) \<Longrightarrow> f x = Inr y \<Longrightarrow> f y = Inr y"
  shows "map_res (\<lambda>(k, x). bind_res (f x) (\<lambda>w. Inr (take 160 k, w))) (take 120 (dict_of_pairs kvs))
     = Inr (dict_of_pairs kvs)"
proof -
  have "length (dict_of_pairs kvs) \<le> 120"
    using map_res_length [OF assms(1)] length_dict_of_pairs [of kvs] by simp
  moreover have "(case p of (k, x) \<Rightarrow> bind_res (f x) (\<lambda>w. Inr (take 160 k, w))) = Inr p"
    if "p \<in> set (dict_of_pairs kvs)" for p
  proof -
    from that set_dict_of_pairs have "p \<in> set kvs" by blast
    from map_res_in_set [OF assms(1) this] obtain q where "q \<in> set (take 120 d)"
        "(case q of (k, x) \<Rightarrow> bind_res (f x) (\<lambda>w. Inr (take 160 k, w))) = Inr p"
      by blast
    moreover obtain k x where "q = (k, x)" by (cases q)
    ultimately obtain y where "(k, x) \<in> set (take 120 d)" "f x = Inr y" "p = (take 160 k, y)"
      by (auto simp: bind_res_eq_Inr)
    with assms(2) show ?thesis by simp
  qed
  ultimately show ?thesis using map_res_all [of "dict_of_pairs kvs" _ "\<lambda>p. p"] by simp
qed

lemma safe_value_fixed: "safe_value depth v = Inr w \<Longrightarrow> safe_value depth w = Inr w"
proof (induction depth v arbitrary: w rule: safe_value.induct)
  case (1 depth v)
  let ?item = "\<lambda>(k, x). bind_res (safe_value (Suc depth) x) (\<lambda>w. Inr (take 160 k, w))"
  consider (list) xs where "v = PList xs" "depth < 5" | (dict) d where "v = PDict d" "depth < 5"
    | (deep) "depth \<ge> 5" | (leaf) "\<not> is_list v" "\<not> is_dict v"
    by (cases v; cases "depth < 5") (auto simp: is_list_def is_dict_def)
  then show ?case
  proof cases
    case list
    with 1(3) obtain ys where ys: "map_res (safe_value (Suc depth)) (take 120 xs) = Inr ys" "w = PList ys"
      by (auto simp: safe_value.simps [of depth "PList xs"] bind_res_eq_Inr)
    have "map_res (safe_value (Suc depth)) (take 120 ys) = Inr ys"
      using 1(1) list by (intro bounded_list_fixed [OF ys(1)]) auto
    with ys list show ?thesis by (simp add: safe_value.simps [of depth "PList ys"])
  next
    case dict
    with 1(3) obtain kvs where kvs: "map_res ?item (take 120 d) = Inr kvs" "w = PDict (dict_of_pairs kvs)"
      by (auto simp: safe_value.simps [of depth "PDict d"] bind_res_eq_Inr)
    have "map_res ?item (take 120 (dict_of_pairs kvs)) = Inr (dict_of_pairs kvs)"
      using 1(2) dict by (intro bounded_dict_fixed [OF kvs(1)]) auto
    with kvs dict show ?thesis
      by (simp add: safe_value.simps [of depth "PDict (dict_of_pairs kvs)"] dict_of_pairs_distinct dict_of_pairs_keys)
  next
    case deep
    with 1(3) show ?thesis by (cases v) (auto simp: safe_value.simps split: if_splits)
  next
    case leaf
    with 1(3) show ?thesis by (cases v) (auto simp: safe_value.simps is_list_def is_dict_def split: if_splits)
  qed
qed

lemma exact_engagement_value_fixed:
  "exact_engagement_value limit depth v = Inr w \<Longrightarrow> exact_engagement_value limit depth w = Inr w"
proof (induction limit depth v arbitrary: w rule: exact_engagement_value.induct)
  case (1 limit depth v)
  let ?f = "exact_engagement_value limit (Suc depth)"
  let ?item = "\<lambda>(k, x). bind_res (?f x) (\<lambda>w. Inr (take 160 k, w))"
  consider (list) xs where "v = PList xs" "depth < 5" | (dict) d where "v = PDict d" "depth < 5"
    | (deep) "depth \<ge> 5" | (leaf) "\<not> is_list v" "\<not> is_dict v"
    by (cases v; cases "depth < 5") (auto simp: is_list_def is_dict_def)
  then show ?case
  proof cases
    case list
    with 1(3) obtain ys where ys: "map_res ?f (take 120 xs) = Inr ys" "w = PList ys"
      by (auto simp: exact_engagement_value.simps [of limit depth "PList xs"] bind_res_eq_Inr)
    have "map_res ?f (take 120 ys) = Inr ys"
      using 1(1) list by (intro bounded_list_fixed [OF ys(1)]) auto
    with ys list show ?thesis by (simp add: exact_engagement_value.simps [of limit depth "PList ys"])
  next
    case dict
    with 1(3) obtain kvs where kvs: "map_res ?item (take 120 d) = Inr kvs" "w = PDict (dict_of_pairs kvs)"
      by (auto simp: exact_engagement_value.simps [of limit depth "PDict d"] bind_res_eq_Inr)
    have "map_res ?item (take 120 (dict_of_pairs kvs)) = Inr (dict_of_pairs kvs)"
      using 1(2) dict by (intro bounded_dict_fixed [OF kvs(1)]) auto
    with kvs dict show ?thesis
      by (simp add: exact_engagement_value.simps [of limit depth "PDict (dict_of_pairs kvs)"] dict_of_pairs_distinct dict_of_pairs_keys)
  next
    case deep
    with 1(3) show ?thesis by (cases v) (auto simp: exact_engagement_value.simps split: if_splits)
  next
    case leaf
    with 1(3) show ?thesis
      by (cases v) (auto simp: exact_engagement_value.simps is_list_def is_dict_def split: if_splits)
  qed
qed

definition bound_item :: "string \<Rightarrow> py \<Rightarrow> py res" where
  "bound_item key item = (case map_of EXACT_ENGAGEMENT_FIELD_LIMITS key of
     Some limit \<Rightarrow> exact_engagement_value limit 0 item | None \<Rightarrow> safe_value 0 item)"

lemma bound_item_fixed: "bound_item k v = Inr w \<Longrightarrow> bound_item k w = Inr w"
  by (auto simp: bound_item_def safe_value_fixed exact_engagement_value_fixed split: option.splits)

lemma bound_evidence_items:
  assumes "bound_evidence e = Inr e'" and "(k, w) \<in> set e'"
  shows "\<exists>v. (k, v) \<in> set e \<and> bound_item k v = Inr w"
proof -
  from assms(1) obtain kvs where kvs: "map_res (\<lambda>(k, v). bind_res (bound_item k v) (\<lambda>w. Inr (k, w))) e = Inr kvs"
      "e' = dict_of_pairs kvs"
    by (auto simp: bound_evidence_def bound_item_def [abs_def] bind_res_eq_Inr split_def)
  then have "(k, w) \<in> set kvs" using assms(2) set_dict_of_pairs by blast
  from map_res_in_set [OF kvs(1) this] show ?thesis by (auto simp: bind_res_eq_Inr)
qed

lemma bound_evidence_fixed:
  assumes "bound_evidence e = Inr e'"
  shows "bound_evidence e' = Inr e'"
proof -
  have "distinct (map fst e')"
    using assms by (auto simp: bound_evidence_def bind_res_eq_Inr dict_of_pairs_keys)
  moreover have "map_res (\<lambda>(k, v). bind_res (bound_item k v) (\<lambda>w. Inr (k, w))) e' = Inr (map (\<lambda>p. p) e')"
    using bound_evidence_items [OF assms] bound_item_fixed by (intro map_res_all) (fastforce split: prod.splits)
  ultimately show ?thesis
    by (simp add: bound_evidence_def bound_item_def [abs_def] split_def dict_of_pairs_distinct)
qed

section \<open>Normalization\<close>

lemma module_fields_read:
  "map_of (module_fields df outcome hf lf hm (module_metadata source) ev ex rat) ''module_sha256'' = None"
  "dget (module_fields df outcome hf lf hm (module_metadata source) ev ex rat) ''module_id'' = PStr (module_id df)"
  "dget (module_fields df outcome hf lf hm (module_metadata source) ev ex rat) ''status'' = PStr (fst outcome)"
  "dget (module_fields df outcome hf lf hm (module_metadata source) ev ex rat) ''evidence'' = PDict ev"
  by (simp_all add: module_fields_def module_metadata_def)

lemma module_body_keys:
  "map_of (module_body definition source evidence) ''module_sha256'' = None"
  "dget (module_body definition source evidence) ''module_id'' = PStr (module_id definition)"
  "dget (module_body definition source evidence) ''evidence'' = PDict evidence"
  unfolding module_body_def by (simp_all add: module_fields_read)

lemma normalize_moduleE:
  assumes "normalize_module sha definition raw = Inr m"
  obtains gathered evidence where
    "gather_required (as_dict raw) (required_fields definition)
       (as_dict (dget (as_dict raw) ''evidence'')) = Inr gathered"
    "bound_evidence gathered = Inr evidence"
    "m = dset (module_body definition (as_dict raw) evidence) ''module_sha256''
       (PStr (json_digest sha (PDict (module_body definition (as_dict raw) evidence))))"
  using assms by (auto simp: normalize_module_def bind_res_eq_Inr Let_def)

lemma normalize_module_verifies:
  assumes "\<forall>x. sha x \<noteq> []" and "normalize_module sha definition raw = Inr m"
  shows "verify_module sha (module_id definition) (PDict m)"
  using assms(2)
  by (rule normalize_moduleE)
    (simp add: verify_module_def module_body_keys field_seal.seal_fresh assms(1))

lemma evidence_package_keys:
  "map_of (evidence_package modules) ''human_evidence_sha256'' = None"
  "dget (evidence_package modules) ''modules'' = PDict (map (\<lambda>(key, module). (key, PDict module)) modules)"
  "dget (evidence_package modules) ''artifact_schema'' = PStr HUMAN_EVIDENCE_VERSION"
  "dget (evidence_package modules) ''client_delivery_allowed'' = PBool False"
  unfolding evidence_package_def Let_def by simp_all

text \<open>
  What normalization returns: the ten modules in order, each sealed, inside a sealed package.
\<close>

lemma normalize_evidenceE:
  assumes "normalize_strategic_human_evidence sha value = Inr p"
  obtains modules where
    "map_res (\<lambda>(key, definition). bind_res (normalize_module sha definition
         (case map_of (module_inputs value) key of Some d \<Rightarrow> PDict d | None \<Rightarrow> PNone))
       (\<lambda>module. Inr (key, module))) MODULES = Inr modules"
    "p = dset (evidence_package modules) ''human_evidence_sha256''
       (PStr (json_digest sha (PDict (evidence_package modules))))"
  using assms by (auto simp: normalize_strategic_human_evidence_def bind_res_eq_Inr Let_def)

lemma modules_named: "(key, definition) \<in> set MODULES \<Longrightarrow> module_id definition = key"
  by (auto simp: MODULES_def)

lemma normalized_evidence_verifies:
  assumes sha: "\<forall>x. sha x \<noteq> []" and norm: "normalize_strategic_human_evidence sha value = Inr p"
  shows "verify_strategic_human_evidence sha (PDict p)"
  using norm
proof (rule normalize_evidenceE)
  fix modules
  let ?pkg = "evidence_package modules"
  assume mods: "map_res (\<lambda>(key, definition). bind_res (normalize_module sha definition
         (case map_of (module_inputs value) key of Some d \<Rightarrow> PDict d | None \<Rightarrow> PNone))
       (\<lambda>module. Inr (key, module))) MODULES = Inr modules"
    and p: "p = dset ?pkg ''human_evidence_sha256'' (PStr (json_digest sha (PDict ?pkg)))"
  have sealed: "verify_module sha key (PDict m)" if "(key, m) \<in> set modules" for key m
    using map_res_in_set [OF mods that] normalize_module_verifies [OF sha]
    by (fastforce simp: bind_res_eq_Inr dest: modules_named)
  have "map fst modules = map fst MODULES" using map_res_keys [OF mods] .
  then have "set (map fst (map (\<lambda>(key, module). (key, PDict module)) modules)) = set (map fst MODULES)"
    by (simp add: comp_def split_def)
  moreover have "field_seal_valid sha ''human_evidence_sha256'' p"
    unfolding p using sha evidence_package_keys(1) by (rule field_seal.seal_fresh)
  moreover have "list_all (\<lambda>(key, raw). verify_module sha key raw)
      (map (\<lambda>(key, module). (key, PDict module)) modules)"
    using sealed by (auto simp: list_all_iff)
  ultimately show ?thesis
    by (simp add: verify_strategic_human_evidence_def p evidence_package_keys del: set_map list.pred_map)
qed

text \<open>Without input every module is normalized to \<open>not_assessed\<close>.\<close>

lemma gather_required_empty: "gather_required [] needed [] = Inr []"
  by (induction needed) auto

lemma normalize_module_none: "\<exists>m. normalize_module sha definition PNone = Inr m"
  by (simp add: normalize_module_def as_dict_def gather_required_empty bound_evidence_def Let_def
      dict_of_pairs_def)

lemma normalize_evidence_none: "\<exists>p. normalize_strategic_human_evidence sha PNone = Inr p"
proof -
  define g where "g df = (SOME m. normalize_module sha df PNone = Inr m)" for df
  have "normalize_module sha df PNone = Inr (g df)" for df
    unfolding g_def using normalize_module_none by (rule someI_ex)
  then have "map_res (\<lambda>(key, definition). bind_res (normalize_module sha definition PNone)
       (\<lambda>module. Inr (key, module))) MODULES = Inr (map (\<lambda>(key, definition). (key, g definition)) MODULES)"
    by (intro map_res_all) (auto split: prod.split)
  then show ?thesis
    by (simp add: normalize_strategic_human_evidence_def module_inputs_def as_dict_def known_modules_def
        Let_def)
qed

text \<open>
  C14. Whatever intake is submitted, a package that normalization returns passes its own
  verification: its digest, the set of modules, and the digest and identity of every module.
\<close>

theorem normalized_human_evidence_verifies:
  assumes "\<forall>x. sha x \<noteq> []" and "normalize_strategic_human_evidence sha value = Inr p"
  shows "verify_strategic_human_evidence sha (PDict p) \<and>
    dget p ''artifact_schema'' = PStr HUMAN_EVIDENCE_VERSION \<and>
    dget p ''client_delivery_allowed'' = PBool False"
  using normalized_evidence_verifies [OF assms] assms(2)
  by (auto elim!: normalize_evidenceE simp: evidence_package_keys)

theorem normalized_human_evidence_verifies_witness:
  "\<exists>p. normalize_strategic_human_evidence (\<lambda>_. ''h'') PNone = Inr p \<and>
     verify_strategic_human_evidence (\<lambda>_. ''h'') (PDict p)"
proof -
  obtain p where p: "normalize_strategic_human_evidence (\<lambda>_. ''h'') PNone = Inr p"
    using normalize_evidence_none by blast
  from normalized_human_evidence_verifies [OF _ p] have "verify_strategic_human_evidence (\<lambda>_. ''h'') (PDict p)"
    by simp
  with p show ?thesis by blast
qed

section \<open>A module is complete only on its own evidence\<close>

lemma gather_required_keys:
  "gather_required source needed evidence = Inr gathered \<Longrightarrow> has_key gathered f \<Longrightarrow>
     has_key evidence f \<or> (f \<in> set needed \<and> has_key source f)"
proof (induction needed arbitrary: evidence)
  case (Cons g needed)
  then show ?case by (fastforce simp: bind_res_eq_Inr split: if_splits)
qed auto

lemma bound_evidence_keys: "bound_evidence e = Inr e' \<Longrightarrow> has_key e' f \<Longrightarrow> has_key e f"
proof -
  assume e: "bound_evidence e = Inr e'" and "has_key e' f"
  then obtain w where "(f, w) \<in> set e'" by (auto dest: map_of_SomeD)
  from bound_evidence_items [OF e this] obtain v where "(f, v) \<in> set e" by blast
  then show "has_key e f" using weak_map_of_SomeI by fastforce
qed

lemma module_status_complete:
  "fst (module_status excluded rationale content lack lackm) = ''complete'' \<longleftrightarrow>
     \<not> (excluded \<and> rationale \<noteq> []) \<and> content \<and> lack = [] \<and> lackm = []"
  by (simp add: module_status_def)

lemma missing_fields_empty:
  "missing_fields df evidence = [] \<longleftrightarrow> (\<forall>f \<in> set (required_fields df). present_value (dget evidence f))"
  by (auto simp: missing_fields_def present_fields_def filter_empty_conv)

lemma metadata_empty:
  "missing_metadata source = [] \<longleftrightarrow>
     (\<forall>f \<in> set REQUIRED_METADATA. dget (module_metadata source) f \<noteq> PStr [])"
  by (simp add: missing_metadata_def present_metadata_def module_metadata_def REQUIRED_METADATA_def
      present_value_def)

lemma metadata_content: "missing_metadata source = [] \<Longrightarrow> has_content source evidence"
  by (cases "present_metadata source") (simp_all add: missing_metadata_def REQUIRED_METADATA_def has_content_def)

lemma module_fields_metadata:
  "\<forall>f \<in> set REQUIRED_METADATA.
     dget (module_fields df outcome hf lf hm (module_metadata source) ev ex rat) f = dget (module_metadata source) f"
  by (simp add: module_fields_def module_metadata_def REQUIRED_METADATA_def)

text \<open>
  A module counts as complete exactly when every required field has a value in its own
  evidence and the reviewer, the observation date and the source reference are all given, and
  it was not excluded with a rationale; and every field of its evidence was submitted under that
  module (as evidence, or as a required field beside it): nothing is inferred.
\<close>

theorem module_complete_on_submitted_evidence:
  assumes norm: "normalize_module sha df raw = Inr m"
  shows "(dget m ''status'' = PStr ''complete'' \<longleftrightarrow>
      \<not> (module_excluded (as_dict raw) \<and> exclusion_rationale (as_dict raw) \<noteq> []) \<and>
      (\<forall>f \<in> set (required_fields df). present_value (dget (as_dict (dget m ''evidence'')) f)) \<and>
      (\<forall>f \<in> set REQUIRED_METADATA. dget m f \<noteq> PStr [])) \<and>
    (\<forall>f. has_key (as_dict (dget m ''evidence'')) f \<longrightarrow>
       has_key (as_dict (dget (as_dict raw) ''evidence'')) f \<or>
       (f \<in> set (required_fields df) \<and> has_key (as_dict raw) f))"
  using norm
proof (rule normalize_moduleE)
  fix gathered evidence
  let ?src = "as_dict raw"
  assume gathered: "gather_required ?src (required_fields df) (as_dict (dget ?src ''evidence'')) = Inr gathered"
    and bounded: "bound_evidence gathered = Inr evidence"
    and m: "m = dset (module_body df ?src evidence) ''module_sha256''
       (PStr (json_digest sha (PDict (module_body df ?src evidence))))"
  have meta: "dget m f = dget (module_metadata ?src) f" if "f \<in> set REQUIRED_METADATA" for f
  proof -
    have "f \<noteq> ''module_sha256''" using that by (auto simp: REQUIRED_METADATA_def)
    with that show ?thesis using module_fields_metadata by (simp add: m module_body_def)
  qed
  have "dget m ''status'' = PStr ''complete'' \<longleftrightarrow>
      \<not> (module_excluded ?src \<and> exclusion_rationale ?src \<noteq> []) \<and>
      missing_fields df evidence = [] \<and> missing_metadata ?src = []"
    using metadata_content [of ?src evidence]
    by (auto simp: m module_body_def module_fields_read module_status_complete)
  then show ?thesis
    using meta gather_required_keys [OF gathered bound_evidence_keys [OF bounded]]
    by (simp add: m module_body_keys missing_fields_empty metadata_empty)
qed

theorem module_complete_on_submitted_evidence_witness:
  "\<exists>m. normalize_module (\<lambda>s. s) (hd MODULE_DEFINITIONS) PNone = Inr m \<and>
     \<not> has_key (as_dict (dget m ''evidence'')) ''test_cases''"
proof -
  obtain m where m: "normalize_module (\<lambda>s. s) (hd MODULE_DEFINITIONS) PNone = Inr m"
    using normalize_module_none by blast
  have "as_dict PNone = []" by (simp add: as_dict_def)
  with module_complete_on_submitted_evidence [OF m] m show ?thesis by auto
qed

end
