(* ===== verification/ReviewDecision.thy ===== *)
theory ReviewDecision
  imports AcceptedEdition
begin

text \<open>
  The human decision on a finished run: who may decide
  (\<open>reviewer_binding\<close> of \<open>nico/comprehensive_client_delivery_contract_v1.py\<close>) and the manifest
  built from the record (\<open>nico/comprehensive_review_decision_v1.py\<close>). The human-review ledger
  of a record is a parameter: a function that returns a ledger or raises.
\<close>

section \<open>The reviewer\<close>

definition AUTOMATION :: "string list" where
  "AUTOMATION = [''automation'', ''automated reviewer'', ''bot'', ''nico automation'', ''system'',
     ''system reviewer'']"

definition AUTHORIZED_REVIEWER_ROLES :: "string list" where
  "AUTHORIZED_REVIEWER_ROLES = [''cybersecurity specialist'', ''cybersecurity reviewer'',
     ''security specialist'', ''security reviewer'']"

definition REVIEW_BASIS :: string where
  "REVIEW_BASIS = ''protected_admin_write_and_explicit_review_authorization''"

definition AUTHORIZATION_BASIS :: string where
  "AUTHORIZATION_BASIS = ''protected_admin_write_and_explicit_delivery_authorization''"

definition AUTHORIZED_REVIEWER_BASES :: "string list" where
  "AUTHORIZED_REVIEWER_BASES = [REVIEW_BASIS, AUTHORIZATION_BASIS]"

text \<open>\<open>ClientDeliveryContractError\<close> is a \<open>ValueError\<close> whose text is its code.\<close>

definition require_that :: "bool \<Rightarrow> string \<Rightarrow> unit res" where
  "require_that condition code = (if condition then Inr () else Inl (ValueError code))"

definition human_reviewer_identity :: "string \<Rightarrow> string \<Rightarrow> (string \<times> string) res" where
  "human_reviewer_identity reviewer0 role0 =
    (let reviewer = py_strip reviewer0; role = py_strip role0 in
     bind_res (require_that (reviewer \<noteq> []) ''missing_reviewer_identity'') (\<lambda>_.
     bind_res (require_that (py_casefold reviewer \<notin> set AUTOMATION)
       ''automation_cannot_create_final_human_approval'') (\<lambda>_.
     bind_res (require_that (role \<noteq> []) ''missing_reviewer_role'') (\<lambda>_.
     bind_res (require_that (py_casefold role \<notin> set AUTOMATION)
       ''automation_cannot_create_final_human_approval'') (\<lambda>_.
       Inr (reviewer, role))))))"

definition reviewer_payload :: "string \<Rightarrow> string \<Rightarrow> string \<Rightarrow> string \<Rightarrow> string \<Rightarrow> string \<Rightarrow> dict" where
  "reviewer_payload reviewer role basis decision decided_at reason = [
     (''reviewer_identity'', PStr reviewer),
     (''reviewer_role'', PStr role),
     (''authorization_basis'', PStr basis),
     (''review_decision'', PStr decision),
     (''review_timestamp'', PStr decided_at),
     (''residual_risk_decision'', PStr (if decision = ''approved''
        then ''accepted_with_recorded_reason'' else ''not_accepted'')),
     (''reviewer_notes'', PStr reason),
     (''reviewer_session_requirement'', PStr ''not_applicable_protected_admin_token_boundary''),
     (''human_action_required'', PBool True),
     (''automation_may_not_approve'', PBool True)]"

definition reviewer_binding :: "(string \<Rightarrow> string) \<Rightarrow> string \<Rightarrow> string \<Rightarrow> string \<Rightarrow> string \<Rightarrow> string \<Rightarrow> string \<Rightarrow> dict res" where
  "reviewer_binding sha reviewer0 role0 decision0 decided_at decision_reason authorization_basis =
     bind_res (human_reviewer_identity reviewer0 role0) (\<lambda>(reviewer, role).
     bind_res (require_that (py_casefold role \<in> set AUTHORIZED_REVIEWER_ROLES)
       ''reviewer_role_not_authorized'') (\<lambda>_.
     let decision = py_casefold (py_strip decision0);
         basis = py_strip authorization_basis in
     bind_res (require_that (decision \<in> set ALLOWED_DECISIONS)
       ''invalid_review_decision'') (\<lambda>_.
     bind_res (require_that (py_strip decided_at \<noteq> []) ''missing_review_timestamp'') (\<lambda>_.
     bind_res (require_that (py_strip decision_reason \<noteq> []) ''reviewer_notes_required'') (\<lambda>_.
     bind_res (require_that (basis \<noteq> []) ''reviewer_authorization_basis_missing'') (\<lambda>_.
     bind_res (require_that (basis \<in> set AUTHORIZED_REVIEWER_BASES)
       ''reviewer_authorization_basis_invalid'') (\<lambda>_.
     let payload = reviewer_payload reviewer role basis decision (py_strip decided_at) (py_strip decision_reason)
     in Inr (dset payload ''approval_record_id''
          (PStr (''approval_'' @ take 24 (json_digest sha (PDict payload))))))))))))"

lemma require_that_Inr [simp]: "require_that c code = Inr u \<longleftrightarrow> c"
  by (simp add: require_that_def)

lemma require_that_True [simp]: "require_that True code = Inr ()"
  by (simp add: require_that_def)

lemma human_reviewer_identity_Inr:
  "human_reviewer_identity reviewer role = Inr p \<longleftrightarrow>
     p = (py_strip reviewer, py_strip role) \<and> py_strip reviewer \<noteq> [] \<and>
     py_casefold (py_strip reviewer) \<notin> set AUTOMATION \<and> py_strip role \<noteq> [] \<and>
     py_casefold (py_strip role) \<notin> set AUTOMATION"
  unfolding human_reviewer_identity_def Let_def bind_res_eq_Inr require_that_Inr by auto

lemma reviewer_bindingE:
  assumes "reviewer_binding sha reviewer role decision decided_at reason basis = Inr human"
  obtains "py_strip reviewer \<noteq> []" "py_casefold (py_strip reviewer) \<notin> set AUTOMATION"
    "py_casefold (py_strip role) \<in> set AUTHORIZED_REVIEWER_ROLES"
    "py_casefold (py_strip decision) \<in> set ALLOWED_DECISIONS"
    "py_strip decided_at \<noteq> []" "py_strip reason \<noteq> []" "py_strip basis \<in> set AUTHORIZED_REVIEWER_BASES"
    "\<exists>h. human = dset (reviewer_payload (py_strip reviewer) (py_strip role) (py_strip basis)
       (py_casefold (py_strip decision)) (py_strip decided_at) (py_strip reason)) ''approval_record_id'' h"
  using assms that unfolding reviewer_binding_def Let_def
  by (auto simp: bind_res_eq_Inr human_reviewer_identity_Inr)

section \<open>What the decision is about\<close>

definition REPORT_STAGE_IDS :: "string list" where
  "REPORT_STAGE_IDS = [''final_comprehensive_report_generation'', ''risk_reduction_and_executive_briefing'',
     ''decision_report_generation'']"

text \<open>The first report stage with a package wins, then the \<open>reports\<close> of the record.\<close>

fun stage_report_package :: "dict \<Rightarrow> string list \<Rightarrow> dict option" where
  "stage_report_package stage_results [] = None"
| "stage_report_package stage_results (stage_id # rest) =
    (case dget stage_results stage_id of
       PDict stage \<Rightarrow>
         (case dget stage ''report_package'' of
            PDict candidate \<Rightarrow> Some candidate
          | _ \<Rightarrow> (case dget stage ''reports'' of
              PDict candidate \<Rightarrow> Some candidate
            | _ \<Rightarrow> stage_report_package stage_results rest))
     | _ \<Rightarrow> stage_report_package stage_results rest)"

definition report_package_from_record :: "dict \<Rightarrow> dict" where
  "report_package_from_record record =
    (case (case dget record ''stage_results'' of
             PDict results \<Rightarrow> stage_report_package results REPORT_STAGE_IDS | _ \<Rightarrow> None) of
       Some package \<Rightarrow> package
     | None \<Rightarrow> as_dict (dget record ''reports''))"

definition record_tree_sha :: "dict \<Rightarrow> string" where
  "record_tree_sha record =
    (case dget record ''stage_results'' of
       PDict stages \<Rightarrow>
         (case dget stages ''immutable_repository_snapshot'' of
            PDict stage \<Rightarrow>
              (let snapshot = dget (as_dict (dget stage ''snapshot'')) ''tree_sha'';
                   evidence = dget (as_dict (dget stage ''evidence'')) ''tree_sha''
               in if truthy snapshot then py_strip (py_str snapshot)
                  else if truthy evidence then py_strip (py_str evidence)
                  else text_of (dget stage ''tree_sha''))
          | _ \<Rightarrow> [])
     | _ \<Rightarrow> [])"

fun scanner_run_of_stages :: "dict \<Rightarrow> string list \<Rightarrow> string" where
  "scanner_run_of_stages stages [] = []"
| "scanner_run_of_stages stages (stage_id # rest) =
    (case dget stages stage_id of
       PDict stage \<Rightarrow>
         (let direct = text_of (py_or (dget stage ''scan_id'') (dget stage ''scanner_run_id''));
              scanner = as_dict (dget stage ''scanner'');
              nested = text_of (py_or (dget scanner ''scan_id'') (dget scanner ''scanner_run_id''))
          in if direct \<noteq> [] then direct
             else if nested \<noteq> [] then nested
             else scanner_run_of_stages stages rest)
     | _ \<Rightarrow> scanner_run_of_stages stages rest)"

definition record_scanner_run_id :: "dict \<Rightarrow> string" where
  "record_scanner_run_id record =
    (case dget record ''stage_results'' of
       PDict stages \<Rightarrow> scanner_run_of_stages stages
         [''deep_scanner_triage'', ''dependency_security_static_analysis'']
     | _ \<Rightarrow> [])"

fun first_text :: "py list \<Rightarrow> string" where
  "first_text [] = []"
| "first_text (value # values) = (if text_of value \<noteq> [] then text_of value else first_text values)"

definition evidence_bundle_hash :: "dict \<Rightarrow> dict \<Rightarrow> string" where
  "evidence_bundle_hash record package =
    (let canonical = as_dict (dget package ''json'') in
     first_text [dget package ''evidence_bundle_sha256'', dget package ''canonical_truth_sha256'',
       dget canonical ''evidence_bundle_sha256'', dget canonical ''canonical_truth_sha256'',
       dget (as_dict (dget record ''identity'')) ''evidence_bundle_hash''])"

type_synonym ledger_source = "dict \<Rightarrow> dict res"

definition review_ledger_binding :: "(string \<Rightarrow> string) \<Rightarrow> ledger_source \<Rightarrow> dict \<Rightarrow> (string \<times> string) list" where
  "review_ledger_binding sha ledger_for_record record =
    (let ledger = (case ledger_for_record record of
           Inr ledger \<Rightarrow> ledger
         | Inl _ \<Rightarrow> as_dict (dget record ''review_work_ledger''))
     in if ledger = [] then []
        else [(''review_work_ledger_sha256'', json_digest sha (PDict ledger)),
              (''review_work_source_sha256'', text_of (dget ledger ''review_source_sha256''))])"

definition binding_text :: "(string \<times> string) list \<Rightarrow> string \<Rightarrow> string" where
  "binding_text binding key = py_strip (case map_of binding key of Some t \<Rightarrow> t | None \<Rightarrow> [])"

definition set_if_text :: "dict \<Rightarrow> string \<Rightarrow> string \<Rightarrow> dict" where
  "set_if_text d key value = (if value \<noteq> [] then dset d key (PStr value) else d)"

definition reseal :: "(string \<Rightarrow> string) \<Rightarrow> string \<Rightarrow> dict \<Rightarrow> dict" where
  "reseal sha field d = (let open_d = dpop d field
     in dset open_d field (PStr (json_digest sha (PDict open_d))))"

definition bind_review_ledger_to_manifest ::
  "(string \<Rightarrow> string) \<Rightarrow> dict \<Rightarrow> (string \<times> string) list \<Rightarrow> dict" where
  "bind_review_ledger_to_manifest sha manifest binding =
    (let ledger_hash = binding_text binding ''review_work_ledger_sha256'';
         source_hash = binding_text binding ''review_work_source_sha256''
     in if ledger_hash = [] then manifest
        else
         (let output = set_if_text (dset manifest ''review_work_ledger_sha256'' (PStr ledger_hash))
                ''review_work_source_sha256'' source_hash;
              review = set_if_text (dset (as_dict (dget output ''review''))
                  ''review_work_ledger_sha256'' (PStr ledger_hash))
                ''review_work_source_sha256'' source_hash
          in reseal sha ''accepted_edition_manifest_sha256''
               (dset output ''review'' (PDict (reseal sha ''approval_certificate_sha256'' review)))))"

definition record_edition_request ::
  "dict \<Rightarrow> string \<Rightarrow> string \<Rightarrow> string \<Rightarrow> string \<Rightarrow> string option \<Rightarrow> edition_request" where
  "record_edition_request record reviewer role decision reason decided_at =
    (let identity = as_dict (dget record ''identity'');
         package = report_package_from_record record
     in \<lparr> req_repository = str_or_empty (dget identity ''repository''),
          req_commit_sha = str_or_empty (dget identity ''commit_sha''),
          req_tree_sha = record_tree_sha record,
          req_run_id = str_or_empty (dget identity ''run_id''),
          req_scanner_run_id = record_scanner_run_id record,
          req_evidence_bundle_hash = evidence_bundle_hash record package,
          req_report_language = str_or_empty (dget identity ''report_language''),
          req_assessment_depth = str_or_empty (dget identity ''assessment_depth''),
          req_artifacts = [
            (''markdown'', Value (dget package ''markdown'')),
            (''html'', Value (dget package ''html'')),
            (''pdf'', Bytes (package_pdf package)),
            (''json'', Value (dget package ''json'')),
            (''evidence_manifest'', Value (dget package ''evidence_manifest_json''))],
          req_reviewer = reviewer, req_reviewer_role = role, req_decision = decision,
          req_decision_reason = reason, req_decided_at = decided_at \<rparr>)"

definition build_reviewed_edition ::
  "(string \<Rightarrow> string) \<Rightarrow> ledger_source \<Rightarrow> string \<Rightarrow> dict \<Rightarrow> string \<Rightarrow> string \<Rightarrow> string \<Rightarrow> string \<Rightarrow>
     string option \<Rightarrow> dict res" where
  "build_reviewed_edition sha ledger_for_record now record reviewer role decision reason decided_at =
     bind_res (require_legacy_single_pdf [PDict record]) (\<lambda>_.
     bind_res (build_accepted_report_edition sha now
         (record_edition_request record reviewer role decision reason decided_at)) (\<lambda>manifest.
     let review = as_dict (dget manifest ''review'') in
     bind_res (reviewer_binding sha (str_or_empty (dget review ''reviewer''))
         (str_or_empty (dget review ''reviewer_role'')) (str_or_empty (dget review ''decision''))
         (str_or_empty (dget review ''decided_at'')) (str_or_empty (dget review ''reason''))
         REVIEW_BASIS) (\<lambda>_.
       Inr (bind_review_ledger_to_manifest sha manifest
              (review_ledger_binding sha ledger_for_record record)))))"

section \<open>The exact bytes under review\<close>

definition review_artifact_identity :: "(string \<Rightarrow> string) \<Rightarrow> dict \<Rightarrow> dict res" where
  "review_artifact_identity sha record =
    (let identity = as_dict (dget record ''identity'');
         package = report_package_from_record record in
     bind_res (py_int (py_or (dget record ''revision'') (PInt 0))) (\<lambda>revision.
     bind_res (current_report_artifact_digest sha package) (\<lambda>digest.
     bind_res (current_report_artifact_digests sha package) (\<lambda>digests.
       Inr [(''artifact_schema'', PStr ''nico.comprehensive_review_artifact_identity.v1''),
            (''run_id'', PStr (str_or_empty (dget identity ''run_id''))),
            (''revision'', PInt revision),
            (''report_artifact_digest'', PStr digest),
            (''artifact_digests'', PDict digests)]))))"

definition assert_expected_review_artifact_identity :: "(string \<Rightarrow> string) \<Rightarrow> dict \<Rightarrow> py \<Rightarrow> dict res" where
  "assert_expected_review_artifact_identity sha record expected =
     bind_res (review_artifact_identity sha record) (\<lambda>current.
       if \<not> is_dict expected \<or> \<not> py_eq expected (PDict current)
       then Inl (ValueError ''stale_review_artifact_identity'') else Inr current)"

section \<open>A reviewed edition is sealed and matches the report it was built from\<close>

lemma dpop_dset_same [simp]: "dpop (dset d k v) k = dpop d k"
  by (induction d) auto

lemma dpop_idem [simp]: "dpop (dpop d k) k = dpop d k"
  by (induction d) auto

lemma reseal_valid: "\<forall>x. sha x \<noteq> [] \<Longrightarrow> field_seal_valid sha field (reseal sha field d)"
  by (simp add: field_seal_valid_def reseal_def json_digest_def Let_def)

lemma reseal_read: "k \<noteq> field \<Longrightarrow> dget (reseal sha field d) k = dget d k"
  by (simp add: reseal_def Let_def)

lemma set_if_text_read: "k \<noteq> key \<Longrightarrow> dget (set_if_text d key v) k = dget d k"
  by (simp add: set_if_text_def)

lemma review_certificate_sealed:
  "\<forall>x. sha x \<noteq> [] \<Longrightarrow>
     field_seal_valid sha ''approval_certificate_sha256'' (review_certificate sha now r digest)"
  unfolding review_certificate_def Let_def
  by (rule field_seal.seal_fresh) simp_all

text \<open>What binding the ledger keeps of a manifest.\<close>

definition LEDGER_KEYS :: "string list" where
  "LEDGER_KEYS = [''review_work_ledger_sha256'', ''review_work_source_sha256'',
     ''approval_certificate_sha256'', ''accepted_edition_manifest_sha256'']"

lemma bind_ledger_map_of:
  "k \<notin> set LEDGER_KEYS \<Longrightarrow> k \<noteq> ''review'' \<Longrightarrow>
     map_of (bind_review_ledger_to_manifest sha m binding) k = map_of m k"
  by (simp add: bind_review_ledger_to_manifest_def Let_def reseal_def set_if_text_def LEDGER_KEYS_def)

lemma bind_ledger_read:
  "k \<notin> set LEDGER_KEYS \<Longrightarrow> k \<noteq> ''review'' \<Longrightarrow>
     dget (bind_review_ledger_to_manifest sha m binding) k = dget m k"
  by (simp add: bind_review_ledger_to_manifest_def Let_def reseal_read set_if_text_read LEDGER_KEYS_def)

lemma bind_ledger_review:
  "k \<notin> set LEDGER_KEYS \<Longrightarrow>
     dget (edition_review (bind_review_ledger_to_manifest sha m binding)) k = dget (edition_review m) k"
  by (simp add: bind_review_ledger_to_manifest_def Let_def reseal_read set_if_text_read LEDGER_KEYS_def
      edition_review_def)

lemma bind_ledger_sealed:
  assumes "\<forall>x. sha x \<noteq> []" and "field_seal_valid sha ''accepted_edition_manifest_sha256'' m"
    and "field_seal_valid sha ''approval_certificate_sha256'' (edition_review m)"
  shows "field_seal_valid sha ''accepted_edition_manifest_sha256'' (bind_review_ledger_to_manifest sha m binding)"
    and "field_seal_valid sha ''approval_certificate_sha256''
      (edition_review (bind_review_ledger_to_manifest sha m binding))"
  using assms
  by (simp_all add: bind_review_ledger_to_manifest_def Let_def reseal_valid edition_review_def reseal_read)

lemma build_reviewed_editionE:
  assumes "build_reviewed_edition sha ledger now record reviewer role decision reason decided_at = Inr m"
  obtains r b binding where
    "r = record_edition_request record reviewer role decision reason decided_at"
    "b = dset (edition_body sha now r) ''accepted_edition_manifest_sha256''
       (PStr (json_digest sha (PDict (edition_body sha now r))))"
    "m = bind_review_ledger_to_manifest sha b binding"
    "has_report_bundle (PDict record) = Inr False"
    "\<exists>x. reviewer_binding sha (py_strip reviewer) (py_strip role)
       (if edition_decision r = [] then ''invalid'' else edition_decision r)
       (edition_timestamp now r) (py_strip reason) REVIEW_BASIS = Inr x"
proof -
  let ?r = "record_edition_request record reviewer role decision reason decided_at"
  let ?body = "edition_body sha now ?r"
  from assms obtain b x where
    req: "require_legacy_single_pdf [PDict record] = Inr ()" and
    b: "b = dset ?body ''accepted_edition_manifest_sha256'' (PStr (json_digest sha (PDict ?body)))" and
    x: "reviewer_binding sha (str_or_empty (dget (edition_review b) ''reviewer''))
         (str_or_empty (dget (edition_review b) ''reviewer_role''))
         (str_or_empty (dget (edition_review b) ''decision''))
         (str_or_empty (dget (edition_review b) ''decided_at''))
         (str_or_empty (dget (edition_review b) ''reason'')) REVIEW_BASIS = Inr x" and
    m: "m = bind_review_ledger_to_manifest sha b (review_ledger_binding sha ledger record)"
    by (auto simp: build_reviewed_edition_def build_accepted_report_edition_def bind_res_eq_Inr Let_def
        edition_review_def)
  have "edition_review b = review_certificate sha now ?r
      (json_digest sha (PDict (edition_digests sha (req_artifacts ?r))))"
    by (simp add: b edition_review_def edition_read)
  with x have "\<exists>x. reviewer_binding sha (py_strip reviewer) (py_strip role)
       (if edition_decision ?r = [] then ''invalid'' else edition_decision ?r)
       (edition_timestamp now ?r) (py_strip reason) REVIEW_BASIS = Inr x"
    by (auto simp: edition_read record_edition_request_def Let_def)
  moreover have "has_report_bundle (PDict record) = Inr False"
    using req by (auto simp: bind_res_eq_Inr split: if_splits)
  ultimately show thesis using that [OF refl b m] by blast
qed

lemma empty_no_bundle: "has_report_bundle (PDict []) = Inr False"
  by (rule no_slots_no_bundle) (simp_all add: marks_bundle_def)

lemma stage_package_clean:
  assumes "\<And>k. k \<in> set ids \<Longrightarrow> has_report_bundle (dget results k) = Inr False"
    and "stage_report_package results ids = Some package"
  shows "has_report_bundle (PDict package) = Inr False"
  using assms
proof (induction ids)
  case (Cons k ids)
  show ?case
  proof (cases "dget results k")
    case (PDict stage)
    then have clean: "has_report_bundle (PDict stage) = Inr False" using Cons.prems(1) [of k] by simp
    have slot: "has_report_bundle (dget stage f) = Inr False"
      if "f \<in> {''report_package'', ''reports''}" "is_dict (dget stage f)" for f
      using that by (intro clean_slot [OF clean]) (auto simp: CONTAINERS_def)
    then show ?thesis
      using Cons PDict slot [of "''report_package''"] slot [of "''reports''"]
      by (cases "dget stage ''report_package''"; cases "dget stage ''reports''") auto
  qed (use Cons in auto)
qed simp

lemma record_package_clean:
  assumes "has_report_bundle (PDict record) = Inr False"
  shows "has_report_bundle (PDict (report_package_from_record record)) = Inr False"
proof -
  have reports: "has_report_bundle (PDict (as_dict (dget record ''reports''))) = Inr False"
  proof (cases "is_dict (dget record ''reports'')")
    case True
    then have "has_report_bundle (dget record ''reports'') = Inr False"
      by (intro clean_slot [OF assms]) (auto simp: CONTAINERS_def)
    with True show ?thesis by (auto simp: is_dict_iff)
  next
    case False
    then have "as_dict (dget record ''reports'') = []"
      by (cases "dget record ''reports''") (auto simp: as_dict_def)
    then show ?thesis by (simp add: empty_no_bundle)
  qed
  have "has_report_bundle (PDict package) = Inr False"
    if "dget record ''stage_results'' = PDict results"
      and "stage_report_package results REPORT_STAGE_IDS = Some package" for results package
    using clean_stage [OF assms that(1)] that(2)
    by (intro stage_package_clean [of REPORT_STAGE_IDS results])
      (auto simp: REPORT_STAGE_IDS_def REPORT_STAGES_def)
  with reports show ?thesis
    by (auto simp: report_package_from_record_def split: option.split py.split)
qed

lemma no_evidence_manifest:
  "\<not> has_evidence_manifest package \<Longrightarrow> artifact_missing (Value (dget package ''evidence_manifest_json''))"
  by (auto simp: has_evidence_manifest_def EVIDENCE_MANIFEST_KEYS_def artifact_missing_def)

lemma request_artifacts:
  "req_artifacts (record_edition_request record reviewer role decision reason t) =
   (let package = report_package_from_record record in [
      (''markdown'', Value (dget package ''markdown'')),
      (''html'', Value (dget package ''html'')),
      (''pdf'', Bytes (package_pdf package)),
      (''json'', Value (dget package ''json'')),
      (''evidence_manifest'', Value (dget package ''evidence_manifest_json''))])"
  by (simp add: record_edition_request_def Let_def)

lemma request_digests_are_current:
  "edition_digests sha (req_artifacts (record_edition_request record reviewer role decision reason t)) =
   package_digests sha (report_package_from_record record)"
  using no_evidence_manifest [of "report_package_from_record record"]
  by (cases "has_evidence_manifest (report_package_from_record record)")
    (simp_all add: edition_digests_def package_digests_def package_artifacts_def request_artifacts
      Let_def REQUIRED_ARTIFACTS_def)

lemma no_missing_digest_keys:
  assumes none: "missing_artifacts (req_artifacts (record_edition_request record reviewer role decision reason t)) = []"
    and manifest: "has_evidence_manifest (report_package_from_record record) \<longrightarrow>
      \<not> artifact_missing (Value (dget (report_package_from_record record) ''evidence_manifest_json''))"
  shows "map fst (package_digests sha (report_package_from_record record)) =
    required_digests (report_package_from_record record)"
proof -
  let ?p = "report_package_from_record record"
  from none have "\<not> artifact_missing (Value (dget ?p ''markdown''))" "\<not> artifact_missing (Value (dget ?p ''html''))"
      "\<not> artifact_missing (Bytes (package_pdf ?p))" "\<not> artifact_missing (Value (dget ?p ''json''))"
    by (simp_all add: missing_artifacts_def request_artifacts Let_def REQUIRED_ARTIFACTS_def split: if_splits)
  with manifest show ?thesis
    by (simp add: package_digests_def package_artifacts_def required_digests_def)
qed

text \<open>What an edition without validation errors has.\<close>

lemma edition_errors_NilD:
  assumes "edition_errors now r = []"
  shows "\<forall>(field, value) \<in> set (edition_identity r). value \<noteq> []" "py_strip (req_reviewer r) \<noteq> []"
    "py_strip (req_reviewer_role r) \<noteq> []" "py_strip (req_decision_reason r) \<noteq> []"
    "edition_decision r \<in> set ALLOWED_DECISIONS" "missing_artifacts (req_artifacts r) = []"
    "edition_timestamp now r \<noteq> []"
  using assms unfolding edition_errors_def missing_error_def
  by (auto split: if_splits prod.splits)

lemma edition_body_slots:
  "\<forall>k \<in> set (''report_bundle'' # ''report_bundle_schema'' # ''stage_results'' # CONTAINERS).
      map_of (edition_body sha now r) k = (if k = ''accepted_edition''
        then Some (PBool (edition_decision r = ''approved'' \<and> edition_errors now r = [])) else None)"
  unfolding edition_body_def Let_def by (simp add: CONTAINERS_def edition_identity_def)

lemma edition_slots:
  assumes m: "m = bind_review_ledger_to_manifest sha (dset (edition_body sha now r)
      ''accepted_edition_manifest_sha256'' h) binding"
  shows "has_report_bundle (PDict m) = Inr False"
proof (rule no_slots_no_bundle)
  have look: "map_of m k = map_of (edition_body sha now r) k" if "k \<notin> set LEDGER_KEYS" "k \<noteq> ''review''" for k
    using that by (simp add: m bind_ledger_map_of) (simp add: LEDGER_KEYS_def)
  have disj: "\<forall>k \<in> set (''report_bundle'' # ''report_bundle_schema'' # ''stage_results'' # CONTAINERS).
      k \<notin> set LEDGER_KEYS \<and> k \<noteq> ''review''"
    by (simp add: LEDGER_KEYS_def CONTAINERS_def)
  have slots: "map_of m k = (if k = ''accepted_edition''
        then Some (PBool (edition_decision r = ''approved'' \<and> edition_errors now r = [])) else None)"
    if "k \<in> set (''report_bundle'' # ''report_bundle_schema'' # ''stage_results'' # CONTAINERS)" for k
    using look [of k] bspec [OF disj that] bspec [OF edition_body_slots that] by simp
  show "\<not> is_dict (dget m k)" if "k \<in> set CONTAINERS" for k
    using slots [of k] that by (auto simp: dget_def is_dict_def)
  have "dget m ''artifact_schema'' = PStr ACCEPTED_EDITION_VERSION"
    using look [of "''artifact_schema''"] edition_body_read(1) [of sha now r]
    by (simp add: dget_def LEDGER_KEYS_def)
  then show "\<not> marks_bundle m"
    using slots [of "''report_bundle''"] slots [of "''report_bundle_schema''"]
    by (simp add: marks_bundle_def SCHEMA_PREFIXES_def starts_with_def ACCEPTED_EDITION_VERSION_def)
  show "\<not> (\<exists>s. dget m ''json'' = PStr s)"
    using slots [of "''json''"] by (auto simp: dget_def CONTAINERS_def)
  show "\<not> is_dict (dget m ''stage_results'')"
    using slots [of "''stage_results''"] by (simp add: dget_def)
qed

lemma wf_package_digests: "wf_py (PDict (package_digests sha package))"
  by (simp add: package_digests_def package_artifacts_def artifact_entry_def)

lemma require_two:
  "has_report_bundle v = Inr False \<Longrightarrow> has_report_bundle w = Inr False \<Longrightarrow>
     require_legacy_single_pdf [v, w] = Inr ()"
  by simp

lemma digests_of_clean:
  assumes "has_report_bundle (PDict package) = Inr False"
  shows "current_report_artifact_digests sha package = Inr (package_digests sha package)"
    and "current_report_artifact_digest sha package = Inr (json_digest sha (PDict (package_digests sha package)))"
  using assms by (simp_all add: current_report_artifact_digests_def current_report_artifact_digest_def)

text \<open>The report names the run it belongs to, or leaves the field to the record.\<close>

definition report_names_run :: "dict \<Rightarrow> dict \<Rightarrow> bool" where
  "report_names_run package identity \<longleftrightarrow> (\<forall>f \<in> set REPORT_IDENTITY_FIELDS.
     text_of (dget (report_identity package) f) \<in> {[], text_of (dget identity f)})"

lemma identity_errors_Nil:
  assumes "report_names_run package identity"
    and "\<forall>f \<in> set REPORT_IDENTITY_FIELDS. dget m f = PStr (text_of (dget identity f)) \<and> text_of (dget identity f) \<noteq> []"
    and "\<forall>f \<in> set EVIDENCE_IDENTITY_FIELDS. text_of (dget m f) \<noteq> []"
  shows "identity_errors package m (Some identity) = []"
proof -
  have "expected_identity_text package (Some identity) f = text_of (dget identity f)"
    if "f \<in> set REPORT_IDENTITY_FIELDS" for f
    using assms(1) that by (auto simp: expected_identity_text_def report_names_run_def Let_def)
  moreover have "text_of (PStr (text_of v)) = text_of v" for v by (simp add: text_of_def)
  ultimately show ?thesis using assms(2,3) by (simp add: identity_errors_def Let_def del: text_of_PStr)
qed

lemma reviewed_edition_no_errors:
  assumes built: "build_reviewed_edition sha ledger now record reviewer role decision reason t = Inr m"
    and approved: "py_casefold (py_strip decision) = ''approved''"
    and clean: "dget m ''validation_errors'' = PList []"
    and manifest: "has_evidence_manifest (report_package_from_record record) \<longrightarrow>
      \<not> artifact_missing (Value (dget (report_package_from_record record) ''evidence_manifest_json''))"
    and names: "report_names_run (report_package_from_record record) (as_dict (dget record ''identity''))"
  shows "accepted_edition_errors sha (report_package_from_record record) m
     (Some (as_dict (dget record ''identity''))) = Inr []"
  using built
proof (rule build_reviewed_editionE)
  fix r b binding
  let ?p = "report_package_from_record record" and ?id = "as_dict (dget record ''identity'')"
  assume r: "r = record_edition_request record reviewer role decision reason t"
    and b: "b = dset (edition_body sha now r) ''accepted_edition_manifest_sha256''
       (PStr (json_digest sha (PDict (edition_body sha now r))))"
    and m: "m = bind_review_ledger_to_manifest sha b binding"
    and rec: "has_report_bundle (PDict record) = Inr False"
  have read: "dget m k = dget (edition_body sha now r) k" if "k \<notin> set LEDGER_KEYS" "k \<noteq> ''review''" for k
    using that by (simp add: m b bind_ledger_read) (simp add: LEDGER_KEYS_def)
  have review: "dget (edition_review m) k = dget (review_certificate sha now r
      (json_digest sha (PDict (edition_digests sha (req_artifacts r))))) k" if "k \<notin> set LEDGER_KEYS" for k
    using that by (simp add: m b bind_ledger_review) (simp add: edition_review_def edition_read)
  have dec: "edition_decision r = ''approved''"
    using approved by (simp add: edition_decision_def r record_edition_request_def Let_def)
  have noerr: "edition_errors now r = []"
    using clean read [of "''validation_errors''"] by (simp add: edition_read LEDGER_KEYS_def)
  note facts = edition_errors_NilD [OF noerr]
  have clean_p: "has_report_bundle (PDict ?p) = Inr False" using rec by (rule record_package_clean)
  have clean_m: "has_report_bundle (PDict m) = Inr False" using m unfolding b by (rule edition_slots)
  have digests: "edition_digests sha (req_artifacts r) = package_digests sha ?p"
    by (simp add: r request_digests_are_current)
  have "status_errors m [] = []"
    using facts dec noerr
    by (simp add: status_errors_def Let_def read review edition_read LEDGER_KEYS_def) (code_simp)
  moreover have "digest_errors ?p m (package_digests sha ?p) (json_digest sha (PDict (package_digests sha ?p))) = []"
    using no_missing_digest_keys [OF facts(6) [unfolded r] manifest] py_eq_refl [OF wf_package_digests]
    by (simp add: digest_errors_def read review edition_read LEDGER_KEYS_def digests)
  moreover have "identity_errors ?p m (Some ?id) = []"
  proof (rule identity_errors_Nil [OF names])
    have ident: "req_repository r = str_or_empty (dget ?id ''repository'')"
        "req_commit_sha r = str_or_empty (dget ?id ''commit_sha'')" "req_run_id r = str_or_empty (dget ?id ''run_id'')"
        "req_report_language r = str_or_empty (dget ?id ''report_language'')"
        "req_assessment_depth r = str_or_empty (dget ?id ''assessment_depth'')"
      by (simp_all add: r record_edition_request_def Let_def)
    show "\<forall>f \<in> set REPORT_IDENTITY_FIELDS. dget m f = PStr (text_of (dget ?id f)) \<and> text_of (dget ?id f) \<noteq> []"
      using facts(1) by (simp add: REPORT_IDENTITY_FIELDS_def read edition_read LEDGER_KEYS_def
          edition_identity_def ident text_of_def)
    show "\<forall>f \<in> set EVIDENCE_IDENTITY_FIELDS. text_of (dget m f) \<noteq> []"
      using facts(1) by (simp add: EVIDENCE_IDENTITY_FIELDS_def read edition_read LEDGER_KEYS_def edition_identity_def)
  qed
  moreover have "list_or_empty (dget m ''validation_errors'') = Inr []" by (simp add: clean)
  ultimately show ?thesis
    using require_two [OF clean_p clean_m] digests_of_clean [OF clean_p]
    by (simp add: accepted_edition_errors_def del: require_legacy_single_pdf.simps)
qed

section \<open>Properties of the decision\<close>

lemma reviewed_edition_sealed:
  assumes sha: "\<forall>x. sha x \<noteq> []"
    and built: "build_reviewed_edition sha ledger now record reviewer role decision reason t = Inr m"
  shows "field_seal_valid sha ''accepted_edition_manifest_sha256'' m \<and>
    field_seal_valid sha ''approval_certificate_sha256'' (edition_review m)"
  using built
proof (rule build_reviewed_editionE)
  fix r b binding
  assume b: "b = dset (edition_body sha now r) ''accepted_edition_manifest_sha256''
       (PStr (json_digest sha (PDict (edition_body sha now r))))"
    and m: "m = bind_review_ledger_to_manifest sha b binding"
  have "field_seal_valid sha ''accepted_edition_manifest_sha256'' b"
    unfolding b using sha edition_body_read(17) by (rule field_seal.seal_fresh)
  moreover have "field_seal_valid sha ''approval_certificate_sha256'' (edition_review b)"
    using review_certificate_sealed [OF sha] by (simp add: b edition_review_def edition_read)
  ultimately show ?thesis unfolding m using bind_ledger_sealed [OF sha] by blast
qed

text \<open>
  C10. An approval built from a run record is bound to exactly that record: when the decision is
  an approval without validation errors (and the report names no other run and has its
  evidence manifest if it declares one), the manifest and its review certificate carry valid
  digests, also after the review ledger has been bound in, and the guard accepts the manifest
  against the current report of the record.
\<close>

theorem approved_edition_sealed_and_accepted:
  assumes "\<forall>x. sha x \<noteq> []"
    and "build_reviewed_edition sha ledger now record reviewer role decision reason t = Inr m"
    and "py_casefold (py_strip decision) = ''approved''"
    and "dget m ''validation_errors'' = PList []"
    and "has_evidence_manifest (report_package_from_record record) \<longrightarrow>
      \<not> artifact_missing (Value (dget (report_package_from_record record) ''evidence_manifest_json''))"
    and "report_names_run (report_package_from_record record) (as_dict (dget record ''identity''))"
  shows "field_seal_valid sha ''accepted_edition_manifest_sha256'' m \<and>
    field_seal_valid sha ''approval_certificate_sha256'' (edition_review m) \<and>
    (\<exists>v. validate_accepted_edition sha (report_package_from_record record) m
        (Some (as_dict (dget record ''identity''))) = Inr v \<and>
      dget v ''status'' = PStr ''valid'' \<and> dget v ''client_delivery_allowed'' = PBool False)"
proof -
  have errs: "accepted_edition_errors sha (report_package_from_record record) m
      (Some (as_dict (dget record ''identity''))) = Inr []"
    using assms(2-) by (rule reviewed_edition_no_errors)
  then obtain ds where "current_report_artifact_digests sha (report_package_from_record record) = Inr ds"
    by (auto simp: accepted_edition_errors_def bind_res_eq_Inr simp del: require_legacy_single_pdf.simps)
  moreover have "dget m ''client_delivery_allowed'' = PBool False"
    using assms(2) by (rule build_reviewed_editionE) (simp add: bind_ledger_read LEDGER_KEYS_def edition_read)
  ultimately show ?thesis
    using errs reviewed_edition_sealed [OF assms(1,2)] by (simp add: validate_accepted_edition_def)
qed

definition sample_package :: dict where
  "sample_package = [(''markdown'', PStr ''m''), (''html'', PStr ''h''), (''pdf_base64'', PStr ''QUJD''),
     (''json'', PDict [(''k'', PInt 1)]), (''evidence_bundle_sha256'', PStr ''e'')]"

definition sample_reviewable :: dict where
  "sample_reviewable = [
     (''identity'', PDict [(''run_id'', PStr ''r''), (''repository'', PStr ''o''), (''commit_sha'', PStr ''c''),
        (''report_language'', PStr ''en''), (''assessment_depth'', PStr ''s'')]),
     (''status'', PStr ''approved''),
     (''human_review_completed'', PBool True),
     (''stage_results'', PDict [
        (''immutable_repository_snapshot'', PDict [(''tree_sha'', PStr ''t'')]),
        (''dependency_security_static_analysis'', PDict [(''scan_id'', PStr ''x'')]),
        (''final_comprehensive_report_generation'', PDict [(''report_package'', PDict sample_package)])])]"

lemma sample_reviewable_approves:
  "case build_reviewed_edition (\<lambda>_. ''d'') (\<lambda>_. Inr []) ''n'' sample_reviewable
      ''ann'' ''security reviewer'' ''approved'' ''ok'' None of
    Inr m \<Rightarrow> dget m ''validation_errors'' = PList [] | _ \<Rightarrow> False"
  by code_simp

lemma sample_reviewable_facts:
  "py_casefold (py_strip ''approved'') = ''approved''"
  "has_evidence_manifest (report_package_from_record sample_reviewable) \<longrightarrow>
      \<not> artifact_missing (Value (dget (report_package_from_record sample_reviewable) ''evidence_manifest_json''))"
  "report_names_run (report_package_from_record sample_reviewable) (as_dict (dget sample_reviewable ''identity''))"
  unfolding report_names_run_def by code_simp+

lemma sample_reviewable_edition:
  obtains m where "build_reviewed_edition (\<lambda>_. ''d'') (\<lambda>_. Inr []) ''n'' sample_reviewable
      ''ann'' ''security reviewer'' ''approved'' ''ok'' None = Inr m" "dget m ''validation_errors'' = PList []"
  using sample_reviewable_approves by (auto split: sum.splits)

theorem approved_edition_sealed_and_accepted_witness:
  "\<exists>m v. build_reviewed_edition (\<lambda>_. ''d'') (\<lambda>_. Inr []) ''n'' sample_reviewable
      ''ann'' ''security reviewer'' ''approved'' ''ok'' None = Inr m \<and>
    validate_accepted_edition (\<lambda>_. ''d'') (report_package_from_record sample_reviewable) m
        (Some (as_dict (dget sample_reviewable ''identity''))) = Inr v \<and>
    dget v ''status'' = PStr ''valid''"
proof -
  obtain m where
    m: "build_reviewed_edition (\<lambda>_. ''d'') (\<lambda>_. Inr []) ''n'' sample_reviewable
      ''ann'' ''security reviewer'' ''approved'' ''ok'' None = Inr m" "dget m ''validation_errors'' = PList []"
    by (rule sample_reviewable_edition)
  show ?thesis
    using approved_edition_sealed_and_accepted [OF _ m(1) sample_reviewable_facts(1) m(2) sample_reviewable_facts(2,3)]
      m(1) by auto
qed

lemma authorized_human_iff:
  "(\<exists>x. reviewer_binding sha reviewer role decision decided_at reason basis = Inr x) \<longleftrightarrow>
     py_strip reviewer \<noteq> [] \<and> py_casefold (py_strip reviewer) \<notin> set AUTOMATION \<and>
     py_casefold (py_strip role) \<in> set AUTHORIZED_REVIEWER_ROLES \<and>
     py_casefold (py_strip decision) \<in> set ALLOWED_DECISIONS \<and>
     py_strip decided_at \<noteq> [] \<and> py_strip reason \<noteq> [] \<and> py_strip basis \<in> set AUTHORIZED_REVIEWER_BASES"
  (is "?ok \<longleftrightarrow> ?rules")
proof
  assume ?ok
  then show ?rules by (auto elim!: reviewer_bindingE)
next
  assume rules: ?rules
  have role: "py_strip role \<noteq> []" "py_casefold (py_strip role) \<notin> set AUTOMATION"
    using rules by (auto simp: AUTHORIZED_REVIEWER_ROLES_def AUTOMATION_def py_casefold_def)
  have "py_strip basis \<noteq> []"
    using rules by (auto simp: AUTHORIZED_REVIEWER_BASES_def REVIEW_BASIS_def AUTHORIZATION_BASIS_def)
  moreover have "human_reviewer_identity reviewer role = Inr (py_strip reviewer, py_strip role)"
    using rules role by (simp add: human_reviewer_identity_Inr)
  ultimately show ?ok using rules by (simp add: reviewer_binding_def Let_def)
qed

text \<open>
  C12. A decision is bound only for a named human in an authorized security role, with one of the
  three decisions, a time, notes and a recognized authorization basis: automation is refused
  whatever the letter case and the surrounding spaces.
\<close>

theorem reviewer_binding_needs_authorized_human:
  "(\<exists>x. reviewer_binding sha reviewer role decision decided_at reason basis = Inr x) \<longleftrightarrow>
     py_strip reviewer \<noteq> [] \<and> py_casefold (py_strip reviewer) \<notin> set AUTOMATION \<and>
     py_casefold (py_strip role) \<in> set AUTHORIZED_REVIEWER_ROLES \<and>
     py_casefold (py_strip decision) \<in> set ALLOWED_DECISIONS \<and>
     py_strip decided_at \<noteq> [] \<and> py_strip reason \<noteq> [] \<and> py_strip basis \<in> set AUTHORIZED_REVIEWER_BASES"
  by (rule authorized_human_iff)

end
