(* ===== verification/DeliveryAuthorization.thy ===== *)
theory DeliveryAuthorization
  imports ReviewDecision
begin

text \<open>
  Client delivery is a separate, explicitly authorized step after approval
  (\<open>nico/comprehensive_delivery_authorization_v1.py\<close>): a receipt that binds the authorizer, the
  accepted edition and the exact artifacts, validated again by every later check of the record.
\<close>

definition DELIVERY_VERSION :: string where
  "DELIVERY_VERSION = ''nico.comprehensive_delivery_authorization.v1''"

section \<open>Validation\<close>

definition authorization_hash :: "(string \<Rightarrow> string) \<Rightarrow> dict \<Rightarrow> string" where
  "authorization_hash sha payload =
     json_digest sha (PDict (dpop payload ''delivery_authorization_sha256''))"

definition accepted_manifest_hash :: "(string \<Rightarrow> string) \<Rightarrow> dict \<Rightarrow> string res" where
  "accepted_manifest_hash sha manifest =
    (let claimed = text_of (dget manifest ''accepted_edition_manifest_sha256'') in
     if claimed = [] \<or>
        claimed \<noteq> json_digest sha (PDict (dpop manifest ''accepted_edition_manifest_sha256''))
     then Inl (ValueError ''accepted_edition_manifest_hash_mismatch'') else Inr claimed)"

definition assert_current_accepted_edition :: "(string \<Rightarrow> string) \<Rightarrow> dict \<Rightarrow> dict \<Rightarrow> unit res" where
  "assert_current_accepted_edition sha record manifest =
     bind_res (validate_accepted_edition sha (report_package_from_record record) manifest
         (Some (as_dict (dget record ''identity'')))) (\<lambda>validation.
       if dget validation ''status'' \<noteq> PStr ''valid''
       then bind_res (list_or_empty (dget validation ''validation_errors'')) (\<lambda>errors.
         Inl (ValueError (''invalid_accepted_edition:'' @ py_join '','' (map py_str errors))))
       else Inr ())"

text \<open>\<open>try ... except ValueError as exc\<close>: the value, the text of the exception, or the other exception.\<close>

definition catch_value_error :: "'a res \<Rightarrow> (string + 'a) res" where
  "catch_value_error m = (case m of
     Inr x \<Rightarrow> Inr (Inr x)
   | Inl (ValueError msg) \<Rightarrow> Inr (Inl msg)
   | Inl e \<Rightarrow> Inl e)"

definition caught_text :: "string + 'a \<Rightarrow> string list" where
  "caught_text r = (case r of Inl msg \<Rightarrow> [py_strip msg] | Inr _ \<Rightarrow> [])"

definition claimed_or_empty :: "string + string \<Rightarrow> string" where
  "claimed_or_empty r = (case r of Inr claimed \<Rightarrow> claimed | Inl _ \<Rightarrow> [])"

definition authorizer_error :: "string + 'a \<Rightarrow> string list" where
  "authorizer_error r = (case r of Inr _ \<Rightarrow> []
     | Inl msg \<Rightarrow> [if before_colon (py_strip msg) = [] then ''delivery_authorizer_invalid''
                  else before_colon (py_strip msg)])"

definition DELIVERY_REQUIRED_FIELDS :: "string list" where
  "DELIVERY_REQUIRED_FIELDS = [
     ''delivery_authorization_id'',
     ''authorizer_identity'',
     ''authorizer_role'',
     ''authorization_basis'',
     ''authorization_reason'',
     ''authorized_at'',
     ''run_id'',
     ''report_artifact_digest'',
     ''accepted_edition_manifest_sha256'',
     ''review_artifact_identity_sha256'',
     ''delivery_authorization_sha256'']"

definition delivery_state_errors :: "dict \<Rightarrow> dict \<Rightarrow> dict \<Rightarrow> string list" where
  "delivery_state_errors record manifest authorization =
     (if py_casefold (text_of (dget record ''status'')) \<noteq> ''approved''
        then [''delivery_authorization_requires_approved_run''] else []) @
     (if dget record ''human_review_completed'' \<noteq> PBool True
        then [''delivery_authorization_requires_completed_human_review''] else []) @
     (if dget authorization ''artifact_schema'' \<noteq> PStr DELIVERY_VERSION
        then [''delivery_authorization_schema_mismatch''] else []) @
     (if dget authorization ''human_action_required'' \<noteq> PBool True
        then [''delivery_authorization_human_action_missing''] else []) @
     (if dget authorization ''automation_may_not_authorize'' \<noteq> PBool True
        then [''delivery_authorization_automation_boundary_missing''] else []) @
     (if dget manifest ''accepted_edition'' \<noteq> PBool True
        then [''delivery_authorization_accepted_edition_required''] else []) @
     (if py_casefold (text_of (dget (edition_review manifest) ''decision'')) \<noteq> ''approved''
        then [''delivery_authorization_human_approval_required''] else [])"

definition delivery_binding_errors :: "dict \<Rightarrow> dict \<Rightarrow> dict \<Rightarrow> string \<Rightarrow> string list" where
  "delivery_binding_errors record manifest authorization accepted_sha =
     concat (map (\<lambda>field. if text_of (dget authorization field) = []
       then [''delivery_authorization_'' @ field @ ''_required''] else []) DELIVERY_REQUIRED_FIELDS) @
     (if text_of (dget authorization ''authorization_basis'') \<noteq> AUTHORIZATION_BASIS
        then [''delivery_authorization_basis_invalid''] else []) @
     (if text_of (dget authorization ''run_id'') \<noteq> text_of (dget (as_dict (dget record ''identity'')) ''run_id'')
        then [''delivery_authorization_run_mismatch''] else []) @
     (if text_of (dget authorization ''report_artifact_digest'') \<noteq> text_of (dget manifest ''report_artifact_digest'')
        then [''delivery_authorization_report_digest_mismatch''] else []) @
     (if text_of (dget authorization ''accepted_edition_manifest_sha256'') \<noteq> accepted_sha
        then [''delivery_authorization_accepted_manifest_mismatch''] else [])"

definition CURRENT_IDENTITY_FIELDS :: "string list" where
  "CURRENT_IDENTITY_FIELDS = [''artifact_schema'', ''run_id'', ''report_artifact_digest'', ''artifact_digests'']"

definition delivery_identity_errors :: "(string \<Rightarrow> string) \<Rightarrow> dict \<Rightarrow> dict \<Rightarrow> string list res" where
  "delivery_identity_errors sha record authorization =
    (case dget authorization ''review_artifact_identity'' of
       PDict supplied \<Rightarrow>
         bind_res (review_artifact_identity sha record) (\<lambda>current.
           Inr ((if text_of (dget authorization ''review_artifact_identity_sha256'') \<noteq>
                     json_digest sha (PDict supplied)
                 then [''delivery_authorization_review_artifact_identity_hash_mismatch''] else []) @
                concat (map (\<lambda>field. if \<not> py_eq (dget supplied field) (dget current field)
                  then [''delivery_authorization_current_artifact_mismatch:'' @ field] else [])
                  CURRENT_IDENTITY_FIELDS)))
     | _ \<Rightarrow> Inr [''delivery_authorization_review_artifact_identity_required''])"

definition delivery_errors ::
  "(string \<Rightarrow> string) \<Rightarrow> dict \<Rightarrow> dict \<Rightarrow> dict \<Rightarrow> string list res" where
  "delivery_errors sha record manifest authorization =
     bind_res (catch_value_error (accepted_manifest_hash sha manifest)) (\<lambda>accepted.
     bind_res (catch_value_error (assert_current_accepted_edition sha record manifest)) (\<lambda>edition.
     let state = delivery_state_errors record manifest authorization;
         binding = delivery_binding_errors record manifest authorization (claimed_or_empty accepted) in
     bind_res (delivery_identity_errors sha record authorization) (\<lambda>identity.
     let sealed = (if text_of (dget authorization ''delivery_authorization_sha256'') \<noteq>
           authorization_hash sha authorization then [''delivery_authorization_hash_mismatch''] else []) in
     bind_res (catch_value_error (reviewer_binding sha
         (text_of (dget authorization ''authorizer_identity''))
         (text_of (dget authorization ''authorizer_role'')) ''approved''
         (text_of (dget authorization ''authorized_at''))
         (text_of (dget authorization ''authorization_reason'')) AUTHORIZATION_BASIS)) (\<lambda>human.
       Inr (caught_text accepted @ caught_text edition @ state @ binding @ identity @ sealed @
            authorizer_error human)))))"

definition validate_delivery_authorization ::
  "(string \<Rightarrow> string) \<Rightarrow> dict \<Rightarrow> dict \<Rightarrow> py \<Rightarrow> dict res" where
  "validate_delivery_authorization sha record manifest authorization =
     bind_res (require_legacy_single_pdf [PDict record, PDict manifest, authorization]) (\<lambda>_.
     case authorization of
       PDict receipt \<Rightarrow>
         bind_res (delivery_errors sha record manifest receipt) (\<lambda>errors. Inr [
           (''artifact_schema'', PStr DELIVERY_VERSION),
           (''status'', PStr (if errors = [] then ''valid'' else ''invalid'')),
           (''validation_errors'', PList (map PStr (sort (remdups errors)))),
           (''client_delivery_allowed'', PBool (errors = []))])
     | _ \<Rightarrow> Inr [
         (''artifact_schema'', PStr DELIVERY_VERSION),
         (''status'', PStr ''invalid''),
         (''validation_errors'', PList [PStr ''delivery_authorization_required'']),
         (''client_delivery_allowed'', PBool False)])"

section \<open>Authorization\<close>

definition receipt_body :: "(string \<Rightarrow> string) \<Rightarrow> dict \<Rightarrow> dict \<Rightarrow> string \<Rightarrow> dict \<Rightarrow> dict" where
  "receipt_body sha manifest human accepted_sha exact = [
     (''artifact_schema'', PStr DELIVERY_VERSION),
     (''authorizer_identity'', dget human ''reviewer_identity''),
     (''authorizer_role'', dget human ''reviewer_role''),
     (''authorization_basis'', PStr AUTHORIZATION_BASIS),
     (''authorization_reason'', dget human ''reviewer_notes''),
     (''authorized_at'', dget human ''review_timestamp''),
     (''run_id'', PStr (text_of (dget manifest ''run_id''))),
     (''report_artifact_digest'', PStr (text_of (dget manifest ''report_artifact_digest''))),
     (''accepted_edition_manifest_sha256'', PStr accepted_sha),
     (''review_artifact_identity'', PDict exact),
     (''review_artifact_identity_sha256'', PStr (json_digest sha (PDict exact))),
     (''human_action_required'', PBool True),
     (''automation_may_not_authorize'', PBool True)]"

definition delivery_receipt :: "(string \<Rightarrow> string) \<Rightarrow> dict \<Rightarrow> dict \<Rightarrow> string \<Rightarrow> dict \<Rightarrow> dict" where
  "delivery_receipt sha manifest human accepted_sha exact =
    (let body = receipt_body sha manifest human accepted_sha exact;
         named = dset body ''delivery_authorization_id''
           (PStr (''delivery_authorization_'' @ take 24 (json_digest sha (PDict body))))
     in dset named ''delivery_authorization_sha256'' (PStr (authorization_hash sha named)))"


section \<open>A valid receipt is bound to the approved artifacts\<close>

lemma catch_value_error_Inr: "catch_value_error m = Inr (Inr x) \<longleftrightarrow> m = Inr x"
  by (auto simp: catch_value_error_def split: sum.splits pyexc.splits)

lemma assert_current_Inr:
  "assert_current_accepted_edition sha record manifest = Inr u \<longleftrightarrow>
     accepted_edition_errors sha (report_package_from_record record) manifest
       (Some (as_dict (dget record ''identity''))) = Inr []"
proof (cases "accepted_edition_errors sha (report_package_from_record record) manifest
       (Some (as_dict (dget record ''identity'')))")
  case (Inl e)
  then show ?thesis by (simp add: assert_current_accepted_edition_def validate_accepted_edition_def)
next
  case (Inr es)
  then obtain ds where "current_report_artifact_digests sha (report_package_from_record record) = Inr ds"
    by (auto simp: accepted_edition_errors_def bind_res_eq_Inr simp del: require_legacy_single_pdf.simps)
  with Inr show ?thesis by (simp add: assert_current_accepted_edition_def validate_accepted_edition_def)
qed

lemma caught_text_Nil: "caught_text r = [] \<longleftrightarrow> (\<exists>x. r = Inr x)"
  by (cases r) (simp_all add: caught_text_def)

lemma authorizer_error_Nil: "authorizer_error r = [] \<longleftrightarrow> (\<exists>x. r = Inr x)"
  by (cases r) (simp_all add: authorizer_error_def)

lemma concat_map_Nil_iff: "concat (map (\<lambda>x. if P x then [f x] else []) xs) = [] \<longleftrightarrow> (\<forall>x \<in> set xs. \<not> P x)"
  by (induction xs) auto

text \<open>A receipt without errors, taken apart.\<close>

lemma delivery_errors_Nil:
  assumes "delivery_errors sha record manifest authorization = Inr []"
  obtains accepted_sha where
    "accepted_manifest_hash sha manifest = Inr accepted_sha"
    "assert_current_accepted_edition sha record manifest = Inr ()"
    "delivery_state_errors record manifest authorization = []"
    "delivery_binding_errors record manifest authorization accepted_sha = []"
    "delivery_identity_errors sha record authorization = Inr []"
    "text_of (dget authorization ''delivery_authorization_sha256'') = authorization_hash sha authorization"
    "\<exists>x. reviewer_binding sha (text_of (dget authorization ''authorizer_identity''))
       (text_of (dget authorization ''authorizer_role'')) ''approved''
       (text_of (dget authorization ''authorized_at''))
       (text_of (dget authorization ''authorization_reason'')) AUTHORIZATION_BASIS = Inr x"
  using assms that
  by (auto simp: delivery_errors_def bind_res_eq_Inr Let_def caught_text_Nil authorizer_error_Nil
      catch_value_error_Inr claimed_or_empty_def split: if_splits)

lemma delivery_errors_NilI:
  assumes "accepted_manifest_hash sha manifest = Inr accepted_sha"
    "assert_current_accepted_edition sha record manifest = Inr ()"
    "delivery_state_errors record manifest authorization = []"
    "delivery_binding_errors record manifest authorization accepted_sha = []"
    "delivery_identity_errors sha record authorization = Inr []"
    "text_of (dget authorization ''delivery_authorization_sha256'') = authorization_hash sha authorization"
    "\<exists>x. reviewer_binding sha (text_of (dget authorization ''authorizer_identity''))
       (text_of (dget authorization ''authorizer_role'')) ''approved''
       (text_of (dget authorization ''authorized_at''))
       (text_of (dget authorization ''authorization_reason'')) AUTHORIZATION_BASIS = Inr x"
  shows "delivery_errors sha record manifest authorization = Inr []"
  using assms by (auto simp: delivery_errors_def catch_value_error_def Let_def caught_text_def authorizer_error_def claimed_or_empty_def)

text \<open>
  C3. A delivery receipt that validates is bound to what was approved: the run is approved with a
  completed human review, the accepted edition matches the current report without errors, the
  receipt names that run, that manifest digest and the current artifact digests, its own
  digest covers its content, and whoever authorized it is named, is none of the automation
  identities, holds an authorized reviewer role and left a time and a reason.
\<close>

theorem valid_delivery_is_bound:
  assumes valid: "validate_delivery_authorization sha record manifest (PDict receipt) = Inr v"
    and allowed: "dget v ''client_delivery_allowed'' = PBool True"
  shows "py_casefold (text_of (dget record ''status'')) = ''approved'' \<and>
    dget record ''human_review_completed'' = PBool True \<and>
    accepted_edition_errors sha (report_package_from_record record) manifest
      (Some (as_dict (dget record ''identity''))) = Inr [] \<and>
    text_of (dget receipt ''accepted_edition_manifest_sha256'') =
      json_digest sha (PDict (dpop manifest ''accepted_edition_manifest_sha256'')) \<and>
    text_of (dget receipt ''run_id'') = text_of (dget (as_dict (dget record ''identity'')) ''run_id'') \<and>
    text_of (dget receipt ''delivery_authorization_sha256'') =
      json_digest sha (PDict (dpop receipt ''delivery_authorization_sha256'')) \<and>
    (\<exists>current. review_artifact_identity sha record = Inr current \<and>
       py_eq (dget (as_dict (dget receipt ''review_artifact_identity'')) ''artifact_digests'')
         (dget current ''artifact_digests'')) \<and>
    text_of (dget receipt ''authorizer_identity'') \<noteq> [] \<and>
    py_casefold (text_of (dget receipt ''authorizer_identity'')) \<notin> set AUTOMATION \<and>
    py_casefold (text_of (dget receipt ''authorizer_role'')) \<in> set AUTHORIZED_REVIEWER_ROLES \<and>
    text_of (dget receipt ''authorized_at'') \<noteq> [] \<and> text_of (dget receipt ''authorization_reason'') \<noteq> []"
proof -
  from valid allowed have "delivery_errors sha record manifest receipt = Inr []"
    by (auto simp: validate_delivery_authorization_def bind_res_eq_Inr simp del: require_legacy_single_pdf.simps)
  then obtain accepted_sha where f:
    "accepted_manifest_hash sha manifest = Inr accepted_sha"
    "assert_current_accepted_edition sha record manifest = Inr ()"
    "delivery_state_errors record manifest receipt = []"
    "delivery_binding_errors record manifest receipt accepted_sha = []"
    "delivery_identity_errors sha record receipt = Inr []"
    "text_of (dget receipt ''delivery_authorization_sha256'') = authorization_hash sha receipt"
    "\<exists>x. reviewer_binding sha (text_of (dget receipt ''authorizer_identity''))
       (text_of (dget receipt ''authorizer_role'')) ''approved''
       (text_of (dget receipt ''authorized_at''))
       (text_of (dget receipt ''authorization_reason'')) AUTHORIZATION_BASIS = Inr x"
    by (rule delivery_errors_Nil)
  have "accepted_sha = json_digest sha (PDict (dpop manifest ''accepted_edition_manifest_sha256''))"
    using f(1) by (auto simp: accepted_manifest_hash_def Let_def split: if_splits)
  moreover have "\<exists>current. review_artifact_identity sha record = Inr current \<and>
       py_eq (dget (as_dict (dget receipt ''review_artifact_identity'')) ''artifact_digests'')
         (dget current ''artifact_digests'')"
    using f(5) by (auto simp: delivery_identity_errors_def bind_res_eq_Inr CURRENT_IDENTITY_FIELDS_def
        split: py.splits if_splits)
  moreover have "text_of (dget receipt ''authorizer_identity'') \<noteq> [] \<and>
      py_casefold (text_of (dget receipt ''authorizer_identity'')) \<notin> set AUTOMATION \<and>
      py_casefold (text_of (dget receipt ''authorizer_role'')) \<in> set AUTHORIZED_REVIEWER_ROLES \<and>
      text_of (dget receipt ''authorized_at'') \<noteq> [] \<and> text_of (dget receipt ''authorization_reason'') \<noteq> []"
    using f(7) unfolding authorized_human_iff by (simp add: text_of_def)
  moreover have "py_casefold (text_of (dget record ''status'')) = ''approved''"
      "dget record ''human_review_completed'' = PBool True"
    using f(3) by (simp_all add: delivery_state_errors_def split: if_splits)
  moreover have "text_of (dget receipt ''accepted_edition_manifest_sha256'') = accepted_sha"
      "text_of (dget receipt ''run_id'') = text_of (dget (as_dict (dget record ''identity'')) ''run_id'')"
    using f(4) by (simp_all add: delivery_binding_errors_def split: if_splits)
  ultimately show ?thesis
    using f(2,6) by (simp add: assert_current_Inr authorization_hash_def)
qed

section \<open>Authorization succeeds exactly when its guards pass\<close>

text \<open>A hex digest is not empty and has no surrounding white space.\<close>

definition hex_digest :: "(string \<Rightarrow> string) \<Rightarrow> bool" where
  "hex_digest sha \<longleftrightarrow> (\<forall>x. sha x \<noteq> [] \<and> py_strip (sha x) = sha x)"

lemma hex_json_digest: "hex_digest sha \<Longrightarrow> py_strip (json_digest sha v) = json_digest sha v \<and> json_digest sha v \<noteq> []"
  by (simp add: hex_digest_def json_digest_def)

lemma py_strip_nonempty: "\<not> is_space c \<Longrightarrow> py_strip (c # s) \<noteq> []"
  by (simp add: py_strip_def)

lemma reviewer_payload_read:
  "dget (reviewer_payload reviewer role basis decision decided_at reason) ''reviewer_identity'' = PStr reviewer"
  "dget (reviewer_payload reviewer role basis decision decided_at reason) ''reviewer_role'' = PStr role"
  "dget (reviewer_payload reviewer role basis decision decided_at reason) ''reviewer_notes'' = PStr reason"
  "dget (reviewer_payload reviewer role basis decision decided_at reason) ''review_timestamp'' = PStr decided_at"
  by (simp_all add: reviewer_payload_def)

lemma reviewer_binding_read:
  assumes "reviewer_binding sha reviewer role decision decided_at reason basis = Inr human"
  shows "dget human ''reviewer_identity'' = PStr (py_strip reviewer)"
    "dget human ''reviewer_role'' = PStr (py_strip role)"
    "dget human ''reviewer_notes'' = PStr (py_strip reason)"
    "dget human ''review_timestamp'' = PStr (py_strip decided_at)"
  using assms by (auto elim!: reviewer_bindingE simp: reviewer_payload_read)

lemma receipt_body_read:
  "dget (receipt_body sha manifest human accepted_sha exact) ''artifact_schema'' = PStr DELIVERY_VERSION"
  "dget (receipt_body sha manifest human accepted_sha exact) ''authorizer_identity'' = dget human ''reviewer_identity''"
  "dget (receipt_body sha manifest human accepted_sha exact) ''authorizer_role'' = dget human ''reviewer_role''"
  "dget (receipt_body sha manifest human accepted_sha exact) ''authorization_basis'' = PStr AUTHORIZATION_BASIS"
  "dget (receipt_body sha manifest human accepted_sha exact) ''authorization_reason'' = dget human ''reviewer_notes''"
  "dget (receipt_body sha manifest human accepted_sha exact) ''authorized_at'' = dget human ''review_timestamp''"
  "dget (receipt_body sha manifest human accepted_sha exact) ''run_id'' = PStr (text_of (dget manifest ''run_id''))"
  "dget (receipt_body sha manifest human accepted_sha exact) ''report_artifact_digest'' =
     PStr (text_of (dget manifest ''report_artifact_digest''))"
  "dget (receipt_body sha manifest human accepted_sha exact) ''accepted_edition_manifest_sha256'' = PStr accepted_sha"
  "dget (receipt_body sha manifest human accepted_sha exact) ''review_artifact_identity'' = PDict exact"
  "dget (receipt_body sha manifest human accepted_sha exact) ''review_artifact_identity_sha256'' =
     PStr (json_digest sha (PDict exact))"
  "dget (receipt_body sha manifest human accepted_sha exact) ''human_action_required'' = PBool True"
  "dget (receipt_body sha manifest human accepted_sha exact) ''automation_may_not_authorize'' = PBool True"
  unfolding receipt_body_def by simp_all

lemma receipt_lookup:
  assumes "receipt = delivery_receipt sha manifest human accepted_sha exact"
    and "k \<notin> {''delivery_authorization_sha256'', ''delivery_authorization_id''}"
  shows "map_of receipt k = map_of (receipt_body sha manifest human accepted_sha exact) k"
  using assms(2) by (simp add: assms(1) delivery_receipt_def Let_def)

lemma receipt_read:
  assumes r: "receipt = delivery_receipt sha manifest human accepted_sha exact"
  shows "k \<notin> {''delivery_authorization_sha256'', ''delivery_authorization_id''} \<Longrightarrow>
      dget receipt k = dget (receipt_body sha manifest human accepted_sha exact) k"
    "dget receipt ''delivery_authorization_id'' = PStr (''delivery_authorization_'' @
       take 24 (json_digest sha (PDict (receipt_body sha manifest human accepted_sha exact))))"
  using receipt_lookup [OF r] by (simp_all add: dget_def r delivery_receipt_def Let_def)

lemma receipt_sealed:
  assumes "receipt = delivery_receipt sha manifest human accepted_sha exact"
  shows "dget receipt ''delivery_authorization_sha256'' = PStr (authorization_hash sha receipt)"
  by (simp add: assms delivery_receipt_def Let_def authorization_hash_def)

lemma receipt_no_bundle:
  assumes "receipt = delivery_receipt sha manifest human accepted_sha exact"
  shows "has_report_bundle (PDict receipt) = Inr False"
proof (rule no_slots_no_bundle)
  have slots: "\<forall>k \<in> set (''report_bundle'' # ''report_bundle_schema'' # ''stage_results'' # CONTAINERS).
      map_of receipt k = None"
    using receipt_lookup [OF assms] by (simp add: CONTAINERS_def) (simp add: receipt_body_def)
  then show "\<not> marks_bundle receipt"
    by (simp add: receipt_read(1) [OF assms] receipt_body_read marks_bundle_def SCHEMA_PREFIXES_def starts_with_def DELIVERY_VERSION_def)
  show "\<not> is_dict (dget receipt k)" if "k \<in> set CONTAINERS" for k
    using slots that by (simp add: dget_def)
  show "\<not> (\<exists>s. dget receipt ''json'' = PStr s)"
    using slots by (simp add: dget_def CONTAINERS_def)
  show "\<not> is_dict (dget receipt ''stage_results'')"
    using slots by (simp add: dget_def)
qed

lemma identity_read:
  assumes "review_artifact_identity sha record = Inr current"
  shows "\<forall>f \<in> set CURRENT_IDENTITY_FIELDS. wf_py (dget current f)"
  using assms wf_package_digests
  by (auto simp: review_artifact_identity_def bind_res_eq_Inr Let_def CURRENT_IDENTITY_FIELDS_def
      current_report_artifact_digests_def simp del: wf_py.simps(2) require_legacy_single_pdf.simps)

lemma receipt_no_errors:
  assumes hex: "hex_digest sha"
    and approved: "py_casefold (text_of (dget record ''status'')) = ''approved''"
      "dget record ''human_review_completed'' = PBool True"
    and manifest: "dget manifest ''accepted_edition'' = PBool True"
      "py_casefold (text_of (dget (edition_review manifest) ''decision'')) = ''approved''"
    and acc: "accepted_manifest_hash sha manifest = Inr accepted_sha"
    and cur: "assert_current_accepted_edition sha record manifest = Inr ()"
    and exact: "review_artifact_identity sha record = Inr exact"
    and human: "reviewer_binding sha authorizer role ''approved'' authorized_at reason AUTHORIZATION_BASIS = Inr human"
    and run: "text_of (dget manifest ''run_id'') = text_of (dget (as_dict (dget record ''identity'')) ''run_id'')"
      "text_of (dget manifest ''run_id'') \<noteq> []"
    and digest: "text_of (dget manifest ''report_artifact_digest'') \<noteq> []"
    and receipt: "receipt = delivery_receipt sha manifest human accepted_sha exact"
  shows "delivery_errors sha record manifest receipt = Inr []"
proof (rule delivery_errors_NilI [OF acc cur])
  note read = receipt_read [OF receipt] receipt_body_read reviewer_binding_read [OF human]
  have idem: "text_of (PStr (text_of v)) = text_of v" for v by (simp add: text_of_def)
  have accd: "py_strip accepted_sha = accepted_sha \<and> accepted_sha \<noteq> []"
    using acc hex_json_digest [OF hex] by (auto simp: accepted_manifest_hash_def Let_def split: if_splits)
  have ok: "py_strip authorizer \<noteq> []" "py_strip role \<noteq> []" "py_strip authorized_at \<noteq> []" "py_strip reason \<noteq> []"
    using human authorized_human_iff [of sha authorizer role "''approved''" authorized_at reason AUTHORIZATION_BASIS]
    by (auto simp: py_casefold_def AUTHORIZED_REVIEWER_ROLES_def)
  have basis: "py_strip AUTHORIZATION_BASIS = AUTHORIZATION_BASIS \<and> AUTHORIZATION_BASIS \<noteq> []"
    by code_simp
  have named: "py_strip (''delivery_authorization_'' @ s) \<noteq> []" for s
    using py_strip_nonempty [of "CHR ''d''"] by (simp add: is_space_def)
  show "delivery_state_errors record manifest receipt = []"
    using approved manifest by (simp add: delivery_state_errors_def read)
  show "delivery_binding_errors record manifest receipt accepted_sha = []"
    using run digest accd ok basis named hex_json_digest [OF hex]
    by (simp add: delivery_binding_errors_def read DELIVERY_REQUIRED_FIELDS_def idem receipt_sealed [OF receipt]
        authorization_hash_def del: text_of_PStr) (simp add: idem)
  have "py_eq (dget exact f) (dget exact f)" if "f \<in> set CURRENT_IDENTITY_FIELDS" for f
    using identity_read [OF exact] that by (intro py_eq_refl) auto
  then show "delivery_identity_errors sha record receipt = Inr []"
    using exact hex_json_digest [OF hex] by (simp add: delivery_identity_errors_def read)
  show "text_of (dget receipt ''delivery_authorization_sha256'') = authorization_hash sha receipt"
    using hex_json_digest [OF hex] by (simp add: receipt_sealed [OF receipt] authorization_hash_def)
  show "\<exists>x. reviewer_binding sha (text_of (dget receipt ''authorizer_identity''))
       (text_of (dget receipt ''authorizer_role'')) ''approved'' (text_of (dget receipt ''authorized_at''))
       (text_of (dget receipt ''authorization_reason'')) AUTHORIZATION_BASIS = Inr x"
    using human by (simp add: read authorized_human_iff) (metis authorized_human_iff)
qed

lemma accepted_edition_errors_NilD:
  assumes "accepted_edition_errors sha package m trusted = Inr []"
  shows "has_report_bundle (PDict package) = Inr False" "has_report_bundle (PDict m) = Inr False"
    "dget m ''accepted_edition'' = PBool True"
    "str_or_empty (dget m ''report_artifact_digest'') = json_digest sha (PDict (package_digests sha package))"
    "text_of (dget m ''run_id'') = expected_identity_text package trusted ''run_id''"
    "text_of (dget m ''run_id'') \<noteq> []"
    "py_casefold (str_or_empty (dget (edition_review m) ''decision'')) = ''approved''"
proof -
  from assms obtain recorded digests digest where
    req: "require_legacy_single_pdf [PDict package, PDict m] = Inr ()" and
    ds: "current_report_artifact_digests sha package = Inr digests"
      "current_report_artifact_digest sha package = Inr digest" and
    nil: "status_errors m recorded = []" "digest_errors package m digests digest = []"
      "identity_errors package m trusted = []"
    by (auto simp: accepted_edition_errors_def bind_res_eq_Inr simp del: require_legacy_single_pdf.simps)
  from req show clean: "has_report_bundle (PDict package) = Inr False" and "has_report_bundle (PDict m) = Inr False"
    by (auto simp: bind_res_eq_Inr split: if_splits)
  from nil(1) show "dget m ''accepted_edition'' = PBool True"
      "py_casefold (str_or_empty (dget (edition_review m) ''decision'')) = ''approved''"
    by (simp_all add: status_errors_def Let_def split: if_splits)
  from nil(2) digests_of_clean(2) [OF clean] ds(2)
  show "str_or_empty (dget m ''report_artifact_digest'') = json_digest sha (PDict (package_digests sha package))"
    by (simp add: digest_errors_def split: if_splits)
  from nil(3) show "text_of (dget m ''run_id'') = expected_identity_text package trusted ''run_id''"
      "text_of (dget m ''run_id'') \<noteq> []"
    by (simp_all add: identity_errors_def Let_def REPORT_IDENTITY_FIELDS_def split: if_splits)
qed

lemma receipt_validates:
  assumes hex: "hex_digest sha"
    and clean: "has_report_bundle (PDict record) = Inr False"
    and approved: "py_casefold (text_of (dget record ''status'')) = ''approved''"
      "dget record ''human_review_completed'' = PBool True"
    and decision: "py_casefold (text_of (dget (edition_review manifest) ''decision'')) = ''approved''"
    and sealed: "accepted_manifest_hash sha manifest = Inr accepted_sha"
    and current: "accepted_edition_errors sha (report_package_from_record record) manifest
      (Some (as_dict (dget record ''identity''))) = Inr []"
    and run: "text_of (dget manifest ''run_id'') = text_of (dget (as_dict (dget record ''identity'')) ''run_id'')"
    and exact: "review_artifact_identity sha record = Inr exact"
    and human: "reviewer_binding sha authorizer role ''approved'' authorized_at reason AUTHORIZATION_BASIS = Inr human"
  shows "validate_delivery_authorization sha record manifest
      (PDict (delivery_receipt sha manifest human accepted_sha exact)) = Inr [
      (''artifact_schema'', PStr DELIVERY_VERSION), (''status'', PStr ''valid''),
      (''validation_errors'', PList []), (''client_delivery_allowed'', PBool True)]"
proof -
  note facts = accepted_edition_errors_NilD [OF current]
  define receipt where "receipt = delivery_receipt sha manifest human accepted_sha exact"
  have cur: "assert_current_accepted_edition sha record manifest = Inr ()"
    using current by (simp add: assert_current_Inr)
  have "text_of (dget manifest ''report_artifact_digest'') \<noteq> []"
    using facts(4) hex_json_digest [OF hex] by (simp add: text_of_def)
  then have errs: "delivery_errors sha record manifest receipt = Inr []"
    using receipt_no_errors [OF hex approved facts(3) decision sealed cur exact human run facts(6) _ receipt_def] by simp
  have "require_legacy_single_pdf [PDict record, PDict manifest, PDict receipt] = Inr ()"
    using clean facts(2) receipt_no_bundle [OF receipt_def] by simp
  with errs show ?thesis unfolding receipt_def
    by (simp add: validate_delivery_authorization_def del: require_legacy_single_pdf.simps)
qed

text \<open>A report that names no other run leaves the run of the record as the expected one.\<close>

lemma named_by_report:
  assumes "accepted_edition_errors sha (report_package_from_record record) manifest
      (Some (as_dict (dget record ''identity''))) = Inr []"
    and "report_names_run (report_package_from_record record) (as_dict (dget record ''identity''))"
  shows "text_of (dget manifest ''run_id'') = text_of (dget (as_dict (dget record ''identity'')) ''run_id'')"
  using accepted_edition_errors_NilD(5) [OF assms(1)] assms(2)
  by (auto simp: expected_identity_text_def report_names_run_def Let_def REPORT_IDENTITY_FIELDS_def)

lemma hex_digest_d: "hex_digest (\<lambda>_. ''d'')"
proof -
  have "py_strip ''d'' = ''d''" by code_simp
  then show ?thesis by (simp add: hex_digest_def)
qed

text \<open>An approved sample run with everything an authorization needs.\<close>

lemma sample_delivery:
  fixes sha :: "string \<Rightarrow> string"
  defines "sha \<equiv> \<lambda>_. ''d''"
  obtains m exact human where "has_report_bundle (PDict sample_reviewable) = Inr False"
    "py_casefold (text_of (dget (edition_review m) ''decision'')) = ''approved''"
    "accepted_manifest_hash sha m = Inr ''d''"
    "accepted_edition_errors sha (report_package_from_record sample_reviewable) m
      (Some (as_dict (dget sample_reviewable ''identity''))) = Inr []"
    "review_artifact_identity sha sample_reviewable = Inr exact"
    "assert_expected_review_artifact_identity sha sample_reviewable (PDict exact) = Inr exact"
    "reviewer_binding sha ''ann'' ''security reviewer'' ''approved'' ''now'' ''ok'' AUTHORIZATION_BASIS = Inr human"
proof -
  have hex: "hex_digest sha" unfolding sha_def by (rule hex_digest_d)
  obtain m where m: "build_reviewed_edition sha (\<lambda>_. Inr []) ''n'' sample_reviewable
      ''ann'' ''security reviewer'' ''approved'' ''ok'' None = Inr m" "dget m ''validation_errors'' = PList []"
    unfolding sha_def by (rule sample_reviewable_edition)
  have errs: "accepted_edition_errors sha (report_package_from_record sample_reviewable) m
      (Some (as_dict (dget sample_reviewable ''identity''))) = Inr []"
    using m(1) sample_reviewable_facts(1) m(2) sample_reviewable_facts(2,3) by (rule reviewed_edition_no_errors)
  note facts = accepted_edition_errors_NilD [OF errs]
  have clean: "has_report_bundle (PDict sample_reviewable) = Inr False"
    using m(1) by (rule build_reviewed_editionE)
  have sealed: "accepted_manifest_hash sha m = Inr ''d''"
    using reviewed_edition_sealed [OF _ m(1)] hex
    by (auto simp: accepted_manifest_hash_def field_seal_valid_def text_of_def json_digest_def hex_digest_def
        sha_def Let_def)
  have "str_or_empty (dget (edition_review m) ''decision'') = ''approved''"
    using m(1) by (rule build_reviewed_editionE)
      (simp add: bind_ledger_review LEDGER_KEYS_def, simp add: edition_review_def edition_read
        edition_decision_def record_edition_request_def Let_def sample_reviewable_facts(1))
  then have decision: "py_casefold (text_of (dget (edition_review m) ''decision'')) = ''approved''"
    by (simp add: text_of_def sample_reviewable_facts(1))
  obtain exact where exact: "review_artifact_identity sha sample_reviewable = Inr exact" "wf_py (PDict exact)"
    using digests_of_clean [OF facts(1)] wf_package_digests [of sha "report_package_from_record sample_reviewable"]
    by (simp add: review_artifact_identity_def Let_def py_or_def py_int_def sample_reviewable_def)
  have expected: "assert_expected_review_artifact_identity sha sample_reviewable (PDict exact) = Inr exact"
    using exact py_eq_refl [OF exact(2)] by (simp add: assert_expected_review_artifact_identity_def)
  have "py_strip ''ann'' \<noteq> [] \<and> py_casefold (py_strip ''ann'') \<notin> set AUTOMATION \<and>
     py_casefold (py_strip ''security reviewer'') \<in> set AUTHORIZED_REVIEWER_ROLES \<and>
     py_casefold (py_strip ''approved'') \<in> set ALLOWED_DECISIONS \<and>
     py_strip ''now'' \<noteq> [] \<and> py_strip ''ok'' \<noteq> [] \<and> py_strip AUTHORIZATION_BASIS \<in> set AUTHORIZED_REVIEWER_BASES"
    by code_simp
  then obtain human where "reviewer_binding sha ''ann'' ''security reviewer'' ''approved'' ''now'' ''ok''
      AUTHORIZATION_BASIS = Inr human"
    using authorized_human_iff by blast
  with clean decision sealed errs exact(1) expected show thesis by (rule that)
qed

lemma sample_approved_state:
  "py_casefold (text_of (dget sample_reviewable ''status'')) = ''approved''"
  "dget sample_reviewable ''human_review_completed'' = PBool True"
  "dget sample_reviewable ''client_delivery_allowed'' \<noteq> PBool True"
  "\<not> is_dict (dget sample_reviewable ''delivery_authorization'')"
  by code_simp+

theorem valid_delivery_is_bound_witness:
  "\<exists>m receipt v. validate_delivery_authorization (\<lambda>_. ''d'') sample_reviewable m (PDict receipt) = Inr v \<and>
     dget v ''client_delivery_allowed'' = PBool True \<and>
     py_casefold (text_of (dget receipt ''authorizer_identity'')) \<notin> set AUTOMATION \<and>
     py_casefold (text_of (dget receipt ''authorizer_role'')) \<in> set AUTHORIZED_REVIEWER_ROLES"
proof (rule sample_delivery)
  fix m exact human
  assume clean: "has_report_bundle (PDict sample_reviewable) = Inr False"
    and decision: "py_casefold (text_of (dget (edition_review m) ''decision'')) = ''approved''"
    and sealed: "accepted_manifest_hash (\<lambda>_. ''d'') m = Inr ''d''"
    and errs: "accepted_edition_errors (\<lambda>_. ''d'') (report_package_from_record sample_reviewable) m
      (Some (as_dict (dget sample_reviewable ''identity''))) = Inr []"
    and exact: "review_artifact_identity (\<lambda>_. ''d'') sample_reviewable = Inr exact"
    and human: "reviewer_binding (\<lambda>_. ''d'') ''ann'' ''security reviewer'' ''approved'' ''now'' ''ok''
      AUTHORIZATION_BASIS = Inr human"
  obtain v where v: "validate_delivery_authorization (\<lambda>_. ''d'') sample_reviewable m
      (PDict (delivery_receipt (\<lambda>_. ''d'') m human ''d'' exact)) = Inr v"
      "dget v ''client_delivery_allowed'' = PBool True"
    using receipt_validates [OF hex_digest_d clean sample_approved_state(1,2) decision sealed errs
      named_by_report [OF errs sample_reviewable_facts(3)] exact human] by simp
  from valid_delivery_is_bound [OF v] v show ?thesis by blast
qed






end
