(* ===== verification/RunRecord.thy ===== *)
theory RunRecord
  imports StageContract HumanEvidence DeliveryAuthorization
begin

text \<open>
  The canonical record of a Comprehensive run (\<open>nico/comprehensive_run_record.py\<close>): its creation,
  its validation, the two transitions (a stage result and a human review decision) and the
  restoration of a persisted record. A record is a dictionary; its last field is the digest of
  the others. Deep copies are identities on values. \<open>now\<close> is the time stamp as text, and
  the operator delivery check (\<open>comprehensive_operator_delivery_v1.validated_operator_delivery\<close>)
  is the parameter \<open>operator_delivery\<close>.
\<close>

definition VERSION :: string where
  "VERSION = ''nico.comprehensive_run_record.v5''"

definition LEGACY_VERSION :: string where
  "LEGACY_VERSION = ''nico.comprehensive_run_record.v2''"

definition TERMINAL_STATUSES :: "string list" where
  "TERMINAL_STATUSES = [''review_required'', ''approved'', ''rejected'', ''failed'', ''blocked'']"

definition ACTIVE_STAGE_STATUSES :: "string list" where
  "ACTIVE_STAGE_STATUSES = [''queued'', ''running'', ''pending'', ''planned'', ''in_progress'']"

definition SUCCESS_STAGE_STATUSES :: "string list" where
  "SUCCESS_STAGE_STATUSES = [''complete'', ''completed'', ''passed'', ''review_required'']"

definition REVIEW_DECISIONS :: "string list" where
  "REVIEW_DECISIONS = [''approved'', ''rejected'', ''request_more_evidence'']"

section \<open>Creation\<close>

definition required_field :: "string \<Rightarrow> string \<Rightarrow> string res" where
  "required_field value field = (let normalized = py_strip value in
     if normalized = [] then Inl (ValueError (field @ ''_required'')) else Inr normalized)"

record run_request =
  new_run_id :: string
  new_repository :: string
  new_commit_sha :: string
  new_evidence_ledger_id :: string
  new_customer_id :: string
  new_project_id :: string
  new_authorized :: bool
  new_assessment_depth :: string
  new_report_language :: string
  new_human_evidence :: py
  new_repository_provider :: string
  new_provider_access_mode :: string
  new_provider_credential_used :: "bool option"

definition request_identity :: "run_request \<Rightarrow> (string \<times> string) list" where
  "request_identity req = [
     (''run_id'', new_run_id req),
     (''repository'', new_repository req),
     (''commit_sha'', new_commit_sha req),
     (''evidence_ledger_id'', new_evidence_ledger_id req),
     (''customer_id'', new_customer_id req),
     (''project_id'', new_project_id req),
     (''assessment_depth'', new_assessment_depth req),
     (''report_language'', new_report_language req)]"

definition record_hash :: "(string \<Rightarrow> string) \<Rightarrow> dict \<Rightarrow> string" where
  "record_hash sha record = canonical_hash sha (PDict (dpop record ''integrity_sha256''))"

definition seal_record :: "(string \<Rightarrow> string) \<Rightarrow> dict \<Rightarrow> dict" where
  "seal_record sha record = dset record ''integrity_sha256'' (PStr (record_hash sha record))"

definition new_record_fields :: "dict \<Rightarrow> dict \<Rightarrow> string \<Rightarrow> dict" where
  "new_record_fields identity human_evidence created_at = [
     (''artifact_schema'', PStr VERSION),
     (''service_id'', PStr ''comprehensive''),
     (''identity'', PDict identity),
     (''human_evidence'', PDict human_evidence),
     (''status'', PStr ''ready''),
     (''current_stage'', PNone),
     (''completed_stages'', PList []),
     (''stage_results'', PDict []),
     (''progress_percent'', PFloat 0 0),
     (''created_at'', PStr created_at),
     (''updated_at'', PStr created_at),
     (''revision'', PInt 1),
     (''human_review_required'', PBool True),
     (''human_review_completed'', PBool False),
     (''client_delivery_allowed'', PBool False),
     (''terminal'', PBool False)]"

text \<open>The provider fields; an access mode has to agree with the use of a credential.\<close>

definition bind_provider :: "run_request \<Rightarrow> dict \<Rightarrow> dict res" where
  "bind_provider req record =
    (let provider = py_strip (new_repository_provider req);
         mode = py_strip (new_provider_access_mode req);
         used = new_provider_credential_used req;
         named = (if provider \<noteq> [] then dset record ''repository_provider'' (PStr provider) else record)
     in if mode = [] then Inr named
        else if \<not> (mode = ''anonymous_public'' \<and> used = Some False) \<and>
                \<not> (mode = ''authenticated_read_only'' \<and> used = Some True)
          then Inl (ValueError ''provider_access_binding_invalid'')
        else Inr (dset (dset named ''provider_access_mode'' (PStr mode))
          ''provider_credential_used'' (case used of Some b \<Rightarrow> PBool b | None \<Rightarrow> PNone)))"

definition create_comprehensive_run_record ::
  "(string \<Rightarrow> string) \<Rightarrow> string \<Rightarrow> run_request \<Rightarrow> dict res" where
  "create_comprehensive_run_record sha now req =
    (if \<not> new_authorized req then Inl (ValueError ''explicit_authorization_required'')
     else
       bind_res (map_res (\<lambda>(field, value). bind_res (required_field value field)
           (\<lambda>t. Inr (field, PStr t))) (request_identity req)) (\<lambda>identity.
       bind_res (normalize_strategic_human_evidence sha (new_human_evidence req)) (\<lambda>evidence.
       bind_res (bind_provider req (new_record_fields identity evidence now)) (\<lambda>record.
         Inr (seal_record sha record)))))"

section \<open>The review manifest of a record\<close>

definition manifest_hash_valid :: "(string \<Rightarrow> string) \<Rightarrow> dict \<Rightarrow> bool" where
  "manifest_hash_valid sha candidate =
    (let claimed = str_or_empty (dget candidate ''accepted_edition_manifest_sha256'')
     in claimed \<noteq> [] \<and>
        claimed = canonical_hash sha (PDict (dpop candidate ''accepted_edition_manifest_sha256'')))"

definition certificate_hash_valid :: "(string \<Rightarrow> string) \<Rightarrow> dict \<Rightarrow> bool" where
  "certificate_hash_valid sha review =
    (let claimed = str_or_empty (dget review ''approval_certificate_sha256'')
     in claimed \<noteq> [] \<and>
        claimed = canonical_hash sha (PDict (dpop review ''approval_certificate_sha256'')))"

definition manifest_decision :: "dict \<Rightarrow> string" where
  "manifest_decision candidate = py_casefold (str_or_empty (dget (edition_review candidate) ''decision''))"

definition manifest_seal_errors :: "(string \<Rightarrow> string) \<Rightarrow> dict \<Rightarrow> py list \<Rightarrow> string list" where
  "manifest_seal_errors sha candidate recorded =
     (if recorded \<noteq> [] then [''review_manifest_contains_validation_errors''] else []) @
     (if \<not> manifest_hash_valid sha candidate then [''review_manifest_hash_mismatch''] else []) @
     (if manifest_decision candidate \<notin> set REVIEW_DECISIONS then [''review_decision_invalid''] else []) @
     (if \<not> certificate_hash_valid sha (edition_review candidate)
        then [''review_certificate_hash_mismatch''] else [])"

definition manifest_digest_errors :: "dict \<Rightarrow> dict \<Rightarrow> dict \<Rightarrow> string \<Rightarrow> string list" where
  "manifest_digest_errors package candidate digests digest =
     (if set (map fst digests) \<noteq> set (required_digests package)
        then [''review_report_artifacts_incomplete''] else []) @
     (if \<not> py_eq (dget candidate ''artifact_digests'') (PDict digests)
        then [''review_artifact_digests_mismatch''] else []) @
     (if str_or_empty (dget candidate ''report_artifact_digest'') \<noteq> digest
        then [''review_report_digest_mismatch''] else []) @
     (if str_or_empty (dget (edition_review candidate) ''report_artifact_digest'') \<noteq> digest
        then [''review_certificate_report_digest_mismatch''] else [])"

definition manifest_identity_errors :: "dict \<Rightarrow> dict \<Rightarrow> string list" where
  "manifest_identity_errors identity candidate =
     concat (map (\<lambda>field.
       if str_or_empty (dget candidate field) \<noteq> str_or_empty (dget identity field)
       then [''review_identity_mismatch:'' @ field] else []) REPORT_IDENTITY_FIELDS) @
     concat (map (\<lambda>field. if text_of (dget candidate field) = []
       then [''review_identity_missing:'' @ field] else []) EVIDENCE_IDENTITY_FIELDS)"

definition manifest_outcome_errors :: "(string \<Rightarrow> string) \<Rightarrow> dict \<Rightarrow> dict \<Rightarrow> dict \<Rightarrow> string list res" where
  "manifest_outcome_errors sha package candidate identity =
    (if manifest_decision candidate = ''approved'' then
       bind_res (validate_accepted_edition sha package candidate (Some identity)) (\<lambda>validation.
       bind_res (list_or_empty (dget validation ''validation_errors'')) (\<lambda>errors. Inr (map py_str errors)))
     else Inr (
       (if dget candidate ''accepted_edition'' \<noteq> PBool False
          then [''nonapproval_must_not_create_accepted_edition''] else []) @
       (if dget candidate ''client_delivery_allowed'' \<noteq> PBool False
          then [''nonapproval_must_block_delivery''] else []) @
       (if str_or_empty (dget candidate ''delivery_status'') \<noteq> ''blocked''
          then [''nonapproval_delivery_status_invalid''] else [])))"

definition review_manifest_errors :: "(string \<Rightarrow> string) \<Rightarrow> dict \<Rightarrow> py \<Rightarrow> string list res" where
  "review_manifest_errors sha record candidate0 =
    (case candidate0 of
       PDict candidate \<Rightarrow>
         bind_res (list_or_empty (dget candidate ''validation_errors'')) (\<lambda>recorded.
         let sealed = manifest_seal_errors sha candidate recorded;
             package = report_package_from_record record;
             identity = as_dict (dget record ''identity'') in
         if package = [] then Inr (sealed @ [''review_report_package_required''])
         else
           bind_res (current_report_artifact_digests sha package) (\<lambda>digests.
           bind_res (current_report_artifact_digest sha package) (\<lambda>digest.
           bind_res (manifest_outcome_errors sha package candidate identity) (\<lambda>outcome.
             Inr (sort (remdups (sealed @ manifest_digest_errors package candidate digests digest @
               manifest_identity_errors identity candidate @ outcome)))))))
     | _ \<Rightarrow> Inr [''review_manifest_required''])"

section \<open>Validation\<close>

definition RECORD_IDENTITY_FIELDS :: "string list" where
  "RECORD_IDENTITY_FIELDS = [''run_id'', ''repository'', ''commit_sha'', ''evidence_ledger_id'',
     ''customer_id'', ''project_id'']"

definition record_status :: "dict \<Rightarrow> string" where
  "record_status record = py_lower (str_or_empty (dget record ''status''))"

definition identity_violations :: "dict \<Rightarrow> bool \<Rightarrow> string list" where
  "identity_violations record strategic =
     concat (map (\<lambda>field. if text_of (dget (as_dict (dget record ''identity'')) field) = []
         then [field @ ''_required''] else [])
       (RECORD_IDENTITY_FIELDS @ (if strategic then [''assessment_depth'', ''report_language''] else []))) @
     (if dget record ''service_id'' \<noteq> PStr ''comprehensive'' then [''service_id_must_be_comprehensive''] else []) @
     (if dget record ''human_review_required'' \<noteq> PBool True then [''human_review_required''] else [])"

text \<open>
  The receipt check inside the validation; a \<open>TypeError\<close> or a \<open>ValueError\<close> becomes a violation.
\<close>

definition receipt_violations :: "(string \<Rightarrow> string) \<Rightarrow> dict \<Rightarrow> dict \<Rightarrow> string list res" where
  "receipt_violations sha record accepted =
    (case bind_res (validate_delivery_authorization sha record accepted (dget record ''delivery_authorization''))
        (\<lambda>validation. list_or_empty (dget validation ''validation_errors'')) of
       Inr errors \<Rightarrow> Inr (map (\<lambda>item. ''delivery_authorization:'' @ py_str item) errors)
     | Inl (TypeError msg) \<Rightarrow> Inr [''delivery_authorization:validation_failed:'' @ before_colon msg]
     | Inl (ValueError msg) \<Rightarrow> Inr [''delivery_authorization:validation_failed:'' @ before_colon msg]
     | Inl e \<Rightarrow> Inl e)"

definition delivery_violations ::
  "(string \<Rightarrow> string) \<Rightarrow> (dict \<Rightarrow> bool) \<Rightarrow> dict \<Rightarrow> string list res" where
  "delivery_violations sha operator_delivery record =
    (let allowed = (dget record ''client_delivery_allowed'' = PBool True);
         accepted = as_dict (dget record ''accepted_edition'') in
     if record_status record = ''approved'' then
       bind_res (review_manifest_errors sha record (dget record ''accepted_edition'')) (\<lambda>errors.
       let review = (if dget record ''human_review_completed'' \<noteq> PBool True
               then [''approved_run_requires_completed_review''] else []) @
             map (\<lambda>item. ''accepted_edition:'' @ item) errors in
       if allowed then
         bind_res (receipt_violations sha record accepted) (\<lambda>receipt.
           Inr (review @
             (if dget accepted ''client_delivery_allowed'' \<noteq> PBool False
                then [''approved_delivery_accepted_edition_must_remain_immutable''] else []) @
             (if str_or_empty (dget accepted ''delivery_status'') \<noteq> ''pending_authorization''
                then [''approved_delivery_accepted_edition_status_changed''] else []) @
             receipt @
             (if \<not> is_dict (dget record ''approved_delivery_package'')
                then [''approved_delivery_package_required''] else [])))
       else Inr review)
     else if allowed then
       Inr (if operator_delivery record then [] else [''client_delivery_must_remain_blocked''])
     else Inr [])"

definition review_history :: "dict \<Rightarrow> py list" where
  "review_history record = (case dget record ''review_history'' of PList xs \<Rightarrow> xs | _ \<Rightarrow> [])"

definition same_dict :: "py \<Rightarrow> py \<Rightarrow> bool" where
  "same_dict a b = (is_dict a \<and> is_dict b \<and> py_eq a b)"

definition history_violations :: "dict \<Rightarrow> string list" where
  "history_violations record =
    (let decision = dget record ''review_decision'';
         history = review_history record;
         status = record_status record
     in (if dget record ''review_history'' \<noteq> PNone \<and> \<not> is_list (dget record ''review_history'')
           then [''review_history_invalid''] else []) @
        (if history \<noteq> [] then
           (if \<not> is_dict decision then [''review_history_requires_review_decision'']
            else if \<not> same_dict (last history) decision then [''review_decision_history_mismatch''] else [])
         else []) @
        (if status \<in> {''approved'', ''rejected''} then
           (if history = [] then [status @ ''_review_history_required''] else []) @
           (if \<not> is_dict decision then [status @ ''_review_decision_required''] else [])
         else []))"

definition expected_review_status :: "string \<Rightarrow> string option" where
  "expected_review_status decision = map_of [(''approved'', ''approved''), (''rejected'', ''rejected''),
     (''request_more_evidence'', ''review_required'')] decision"

definition decision_violations :: "(string \<Rightarrow> string) \<Rightarrow> dict \<Rightarrow> string list res" where
  "decision_violations sha record =
    (let review_decision = dget record ''review_decision'' in
     if review_decision = PNone then Inr []
     else
       bind_res (review_manifest_errors sha record review_decision) (\<lambda>errors.
       let mapping = PDict (as_dict review_decision);
           decision = manifest_decision (as_dict review_decision);
           history = review_history record;
           accepted = dget record ''accepted_edition''
       in Inr (map (\<lambda>item. ''review_decision:'' @ item) errors @
          (case expected_review_status decision of
             Some expected \<Rightarrow> if record_status record \<noteq> expected
               then [''review_decision_status_mismatch''] else []
           | None \<Rightarrow> []) @
          (if history = [] then [''review_decision_history_required'']
           else if \<not> same_dict (last history) mapping then [''review_decision_history_mismatch''] else []) @
          (if decision = ''approved'' then
             (if \<not> same_dict accepted mapping then [''approved_accepted_edition_history_mismatch''] else [])
           else if is_dict accepted then [''nonapproval_must_not_retain_accepted_edition''] else []))))"

definition accepted_violations :: "dict \<Rightarrow> string list" where
  "accepted_violations record =
    (let accepted = dget record ''accepted_edition''; history = review_history record in
     if record_status record = ''approved'' \<and> is_dict accepted \<and>
        (history = [] \<or> \<not> same_dict accepted (last history))
     then [''approved_accepted_edition_history_mismatch''] else [])"

definition evidence_violations :: "(string \<Rightarrow> string) \<Rightarrow> dict \<Rightarrow> bool \<Rightarrow> string list" where
  "evidence_violations sha record strategic =
    (if \<not> strategic then []
     else (case dget record ''human_evidence'' of
         PDict evidence \<Rightarrow>
           (if dget evidence ''artifact_schema'' \<noteq> PStr HUMAN_EVIDENCE_VERSION
              then [''human_evidence_schema_invalid''] else []) @
           (if \<not> verify_strategic_human_evidence sha (PDict evidence)
              then [''human_evidence_hash_mismatch''] else [])
       | _ \<Rightarrow> [''human_evidence_required'']))"

text \<open>\<open>len(set(items))\<close>: lists and dictionaries cannot be hashed.\<close>

fun distinct_items :: "py list \<Rightarrow> py list \<Rightarrow> py list res" where
  "distinct_items seen [] = Inr seen"
| "distinct_items seen (x # xs) =
    (if is_list x \<or> is_dict x then Inl (TypeError (''unhashable type: '' @ quoted (type_name x)))
     else distinct_items (if list_ex (\<lambda>y. py_eq x y) seen then seen else seen @ [x]) xs)"

definition progress_violations :: "dict \<Rightarrow> string list res" where
  "progress_violations record =
     bind_res (list_or_empty (dget record ''completed_stages'')) (\<lambda>completed.
     bind_res (distinct_items [] completed) (\<lambda>distinct_completed.
     bind_res (py_float (py_or (dget record ''progress_percent'') (PFloat 0 0))) (\<lambda>progress.
       Inr (
        (if \<not> py_eq (PList completed) (PList (map PStr (take (length completed) COMPREHENSIVE_STAGES)))
           then [''completed_stages_must_be_ordered_prefix''] else []) @
        (if length distinct_completed \<noteq> length completed then [''duplicate_completed_stages''] else []) @
        (if \<not> dec_eq progress (percent_of (length completed) (length COMPREHENSIVE_STAGES))
           then [''progress_must_match_completed_stages''] else [])))))"

definition seal_violations :: "(string \<Rightarrow> string) \<Rightarrow> dict \<Rightarrow> string list" where
  "seal_violations sha record =
     (if dget record ''integrity_sha256'' \<noteq> PStr (record_hash sha record)
        then [''integrity_hash_mismatch''] else []) @
     (if truthy (dget record ''terminal'') \<noteq> (record_status record \<in> set TERMINAL_STATUSES)
        then [''terminal_flag_mismatch''] else [])"

definition validate_record ::
  "(string \<Rightarrow> string) \<Rightarrow> (dict \<Rightarrow> bool) \<Rightarrow> dict \<Rightarrow> bool \<Rightarrow> string list res" where
  "validate_record sha operator_delivery record strategic =
     bind_res (delivery_violations sha operator_delivery record) (\<lambda>delivery.
     bind_res (decision_violations sha record) (\<lambda>decision.
     bind_res (progress_violations record) (\<lambda>progress.
       Inr (identity_violations record strategic @ delivery @ history_violations record @ decision @
            accepted_violations record @ evidence_violations sha record strategic @ progress @
            seal_violations sha record))))"

definition record_violations :: "(string \<Rightarrow> string) \<Rightarrow> (dict \<Rightarrow> bool) \<Rightarrow> dict \<Rightarrow> string list res" where
  "record_violations sha operator_delivery record =
     validate_record sha operator_delivery record
       (str_or_empty (dget record ''artifact_schema'') \<noteq> LEGACY_VERSION)"

definition validate_comprehensive_run_record ::
  "(string \<Rightarrow> string) \<Rightarrow> (dict \<Rightarrow> bool) \<Rightarrow> dict \<Rightarrow> dict res" where
  "validate_comprehensive_run_record sha operator_delivery record =
     bind_res (record_violations sha operator_delivery record) (\<lambda>violations. Inr [
       (''status'', PStr (if violations = [] then ''valid'' else ''invalid'')),
       (''violations'', PList (map PStr violations))])"

text \<open>The guard every transition starts and the review decision ends with.\<close>

definition require_valid :: "(string \<Rightarrow> string) \<Rightarrow> (dict \<Rightarrow> bool) \<Rightarrow> string \<Rightarrow> dict \<Rightarrow> unit res" where
  "require_valid sha operator_delivery code record =
     bind_res (record_violations sha operator_delivery record) (\<lambda>violations.
       if violations \<noteq> [] then Inl (ValueError (code @ '':'' @ py_join '','' violations)) else Inr ())"

section \<open>A stage result\<close>

text \<open>\<open>_copy_record_for_update\<close>: the copy of a value is the value.\<close>

definition copy_record_for_update :: "dict \<Rightarrow> dict" where
  "copy_record_for_update record = dsetdefault record ''stage_results'' (PDict [])"

definition RUN_BINDING_FIELDS :: "string list" where
  "RUN_BINDING_FIELDS = [''run_id'', ''repository'', ''commit_sha'', ''evidence_ledger_id'']"

definition expected_stage :: "nat \<Rightarrow> string option" where
  "expected_stage done_count =
    (if done_count < length COMPREHENSIVE_STAGES then Some (COMPREHENSIVE_STAGES ! done_count) else None)"

fun check_identity_drift :: "string \<Rightarrow> dict \<Rightarrow> dict \<Rightarrow> string list \<Rightarrow> unit res" where
  "check_identity_drift stage_id result identity [] = Inr ()"
| "check_identity_drift stage_id result identity (field # rest) =
     bind_res (dindex identity field) (\<lambda>bound.
       let supplied = py_strip (py_str (py_or (dget result field) bound)) in
       if PStr supplied \<noteq> bound then Inl (ValueError (stage_id @ '':'' @ field @ ''_identity_drift''))
       else check_identity_drift stage_id result identity rest)"

definition stage_result_status :: "dict \<Rightarrow> string" where
  "stage_result_status result = py_lower (py_strip (py_str (py_or (dget result ''status'') (PStr ''complete''))))"

definition normalize_stage_result :: "string \<Rightarrow> dict \<Rightarrow> dict \<Rightarrow> dict res" where
  "normalize_stage_result stage_id result identity =
     bind_res (map_res (\<lambda>field. bind_res (dindex identity field) (\<lambda>v. Inr (field, v)))
         (RUN_BINDING_FIELDS @ [''assessment_depth'', ''report_language''])) (\<lambda>bound.
       Inr (dupdate (dset (dset result ''stage_id'' (PStr stage_id)) ''status'' (PStr (stage_result_status result)))
         (bound @ [(''human_review_required'', PBool True), (''client_delivery_allowed'', PBool False)])))"

text \<open>\<open>container[key] = value\<close> on what \<open>stage_results\<close> holds.\<close>

definition set_item :: "py \<Rightarrow> string \<Rightarrow> py \<Rightarrow> py res" where
  "set_item container key value = (case container of
     PDict d \<Rightarrow> Inr (PDict (dset d key value))
   | PList _ \<Rightarrow> Inl (TypeError ''list indices must be integers or slices, not str'')
   | _ \<Rightarrow> Inl (TypeError (quoted (type_name container) @ '' object does not support item assignment'')))"

definition progressed :: "py list \<Rightarrow> string \<Rightarrow> string \<Rightarrow> py list" where
  "progressed completed stage_id status =
    (if status \<in> set SUCCESS_STAGE_STATUSES then completed @ [PStr stage_id] else completed)"

definition status_after_stage :: "string \<Rightarrow> nat \<Rightarrow> string" where
  "status_after_stage status done_count =
    (if status \<in> set SUCCESS_STAGE_STATUSES then
       (if done_count = length COMPREHENSIVE_STAGES then ''review_required'' else ''running'')
     else if status \<in> set ACTIVE_STAGE_STATUSES then ''running''
     else ''blocked'')"

definition advance_record ::
  "(string \<Rightarrow> string) \<Rightarrow> dict \<Rightarrow> string \<Rightarrow> string \<Rightarrow> py list \<Rightarrow> py \<Rightarrow> string \<Rightarrow> int \<Rightarrow> dict" where
  "advance_record sha updated stage_id status completed results now revision =
    (let after = progressed completed stage_id status;
         run_status = status_after_stage status (length after);
         r0 = dset (dset updated ''stage_results'' results) ''current_stage'' (PStr stage_id);
         r1 = (if status \<in> set SUCCESS_STAGE_STATUSES then dset r0 ''completed_stages'' (PList after) else r0);
         r2 = dset r1 ''status'' (PStr run_status);
         r3 = dset r2 ''progress_percent'' (percent_value (length after) (length COMPREHENSIVE_STAGES));
         r4 = dset r3 ''updated_at'' (PStr now);
         r5 = dset r4 ''revision'' (PInt (revision + 1));
         r6 = dset r5 ''terminal'' (PBool (run_status \<in> set TERMINAL_STATUSES));
         r7 = dset r6 ''human_review_required'' (PBool True);
         r8 = dset r7 ''human_review_completed'' (PBool False);
         r9 = dset r8 ''client_delivery_allowed'' (PBool False)
     in seal_record sha r9)"

definition apply_comprehensive_stage_result ::
  "(string \<Rightarrow> string) \<Rightarrow> (dict \<Rightarrow> bool) \<Rightarrow> string \<Rightarrow> dict \<Rightarrow> string \<Rightarrow> dict \<Rightarrow> dict res" where
  "apply_comprehensive_stage_result sha operator_delivery now record stage_id result =
     bind_res (require_valid sha operator_delivery ''invalid_run_record'' record) (\<lambda>_.
     let updated = copy_record_for_update record in
     bind_res (dindex updated ''completed_stages'') (\<lambda>completed_value.
     bind_res (py_iter completed_value) (\<lambda>completed.
     let expected = expected_stage (length completed) in
     if Some stage_id \<noteq> expected
     then Inl (ValueError (''unexpected_stage:'' @ stage_id @ '':expected:'' @
       (case expected of Some stage \<Rightarrow> stage | None \<Rightarrow> ''None'')))
     else
       bind_res (dindex updated ''identity'') (\<lambda>identity_value.
       let identity = as_dict identity_value in
       bind_res (check_identity_drift stage_id result identity RUN_BINDING_FIELDS) (\<lambda>_.
       bind_res (normalize_stage_result stage_id result identity) (\<lambda>normalized.
       bind_res (dindex updated ''stage_results'') (\<lambda>results_value.
       bind_res (set_item results_value stage_id (PDict normalized)) (\<lambda>results.
       bind_res (py_int (py_or (dget updated ''revision'') (PInt 0))) (\<lambda>revision.
         Inr (advance_record sha updated stage_id (stage_result_status result) completed results now revision))))))))))"

section \<open>A review decision\<close>

definition review_context :: "dict \<Rightarrow> dict \<Rightarrow> py" where
  "review_context package candidate = PDict [
     (''report_id'', PStr (str_or_empty (dget package ''report_id''))),
     (''pdf_filename'', PStr (str_or_empty (dget package ''pdf_filename''))),
     (''report_regenerated_during_review'', PBool False),
     (''artifact_digest'', PStr (str_or_empty (dget candidate ''report_artifact_digest'')))]"

text \<open>The decision joins the history; only an approval keeps an accepted edition.\<close>

definition decision_retained :: "dict \<Rightarrow> dict \<Rightarrow> string \<Rightarrow> py list \<Rightarrow> dict" where
  "decision_retained updated candidate decision history =
    (let r0 = dset updated ''review_history'' (PList (history @ [PDict candidate]));
         r1 = dset r0 ''review_decision'' (PDict candidate);
         r2 = (if decision = ''approved'' then dset r1 ''accepted_edition'' (PDict candidate)
               else dpop r1 ''accepted_edition'')
     in dpop (dpop r2 ''approved_delivery_package'') ''delivery_authorization'')"

definition decided_record ::
  "(string \<Rightarrow> string) \<Rightarrow> dict \<Rightarrow> dict \<Rightarrow> string \<Rightarrow> string \<Rightarrow> py list \<Rightarrow> string \<Rightarrow> int \<Rightarrow> dict" where
  "decided_record sha updated candidate decision status history now revision =
    (let r3 = decision_retained updated candidate decision history;
         r4 = dset r3 ''review_context'' (review_context (report_package_from_record r3) candidate);
         r5 = dset r4 ''status'' (PStr status);
         r6 = dset r5 ''terminal'' (PBool True);
         r7 = dset r6 ''human_review_required'' (PBool True);
         r8 = dset r7 ''human_review_completed'' (PBool (decision \<in> {''approved'', ''rejected''}));
         r9 = dset r8 ''client_delivery_allowed'' (PBool False);
         r10 = dset r9 ''updated_at'' (PStr now);
         r11 = dset r10 ''revision'' (PInt (revision + 1))
     in seal_record sha r11)"

definition apply_comprehensive_review_decision ::
  "(string \<Rightarrow> string) \<Rightarrow> (dict \<Rightarrow> bool) \<Rightarrow> string \<Rightarrow> dict \<Rightarrow> dict \<Rightarrow> dict res" where
  "apply_comprehensive_review_decision sha operator_delivery now record manifest =
     bind_res (require_valid sha operator_delivery ''invalid_run_record'' record) (\<lambda>_.
     if record_status record \<noteq> ''review_required''
       then Inl (ValueError ''review_decision_requires_review_required_run'')
     else
       bind_res (list_or_empty (dget record ''completed_stages'')) (\<lambda>completed.
       if \<not> py_eq (PList completed) (PList (map PStr COMPREHENSIVE_STAGES))
         then Inl (ValueError ''review_decision_requires_complete_stage_sequence'')
       else
         bind_res (review_manifest_errors sha record (PDict manifest)) (\<lambda>errors.
         if errors \<noteq> [] then Inl (ValueError (''invalid_review_manifest:'' @ py_join '','' errors))
         else
          (let updated = copy_record_for_update record;
               decision = manifest_decision manifest in
           case expected_review_status decision of
             None \<Rightarrow> Inl (KeyError decision)
           | Some status \<Rightarrow>
               bind_res (list_or_empty (dget updated ''review_history'')) (\<lambda>items.
               bind_res (py_int (py_or (dget updated ''revision'') (PInt 0))) (\<lambda>revision.
               let decided = decided_record sha updated manifest decision status (filter is_dict items) now revision in
               bind_res (require_valid sha operator_delivery ''invalid_reviewed_run_record'' decided) (\<lambda>_.
                 Inr decided)))))))"

section \<open>Restoring a persisted record\<close>

definition restore_comprehensive_run_record ::
  "(string \<Rightarrow> string) \<Rightarrow> (dict \<Rightarrow> bool) \<Rightarrow> dict \<Rightarrow> dict res" where
  "restore_comprehensive_run_record sha operator_delivery payload =
    (let restored = copy_record_for_update payload in
     bind_res (require_valid sha operator_delivery ''invalid_persisted_run_record'' restored) (\<lambda>_.
     if dget restored ''artifact_schema'' = PStr LEGACY_VERSION then
       bind_res (normalize_strategic_human_evidence sha PNone) (\<lambda>evidence.
       let identity = dsetdefault (dsetdefault (as_dict (dget restored ''identity''))
             ''assessment_depth'' (PStr ''not_recorded'')) ''report_language'' (PStr ''not_recorded'');
           upgraded = seal_record sha (dset (dsetdefault (dset (dset restored ''identity'' (PDict identity))
             ''human_evidence'' (PDict evidence)) ''human_review_completed'' (PBool False))
             ''artifact_schema'' (PStr VERSION)) in
       bind_res (require_valid sha operator_delivery ''invalid_upgraded_run_record'' upgraded) (\<lambda>_.
         Inr upgraded))
     else Inr restored))"


section \<open>Validity of a record that was not reviewed yet\<close>

abbreviation valid_record :: "(string \<Rightarrow> string) \<Rightarrow> (dict \<Rightarrow> bool) \<Rightarrow> dict \<Rightarrow> bool" where
  "valid_record sha operator_delivery r \<equiv> record_violations sha operator_delivery r = Inr []"

definition unreviewed :: "dict \<Rightarrow> bool" where
  "unreviewed r \<longleftrightarrow> dget r ''review_decision'' = PNone \<and> dget r ''review_history'' = PNone \<and>
     record_status r \<notin> {''approved'', ''rejected''} \<and> dget r ''client_delivery_allowed'' = PBool False"

lemma unreviewed_parts:
  assumes "unreviewed r"
  shows "delivery_violations sha op r = Inr []" "history_violations r = []"
    "decision_violations sha r = Inr []" "accepted_violations r = []"
  using assms
  by (simp_all add: unreviewed_def delivery_violations_def history_violations_def decision_violations_def
      accepted_violations_def review_history_def Let_def)

text \<open>The progress of a record that has completed the first \<open>n\<close> stages.\<close>

definition at_stage :: "nat \<Rightarrow> dict \<Rightarrow> bool" where
  "at_stage n r \<longleftrightarrow> n \<le> length COMPREHENSIVE_STAGES \<and>
     list_or_empty (dget r ''completed_stages'') = Inr (map PStr (take n COMPREHENSIVE_STAGES)) \<and>
     dget r ''progress_percent'' = percent_value n (length COMPREHENSIVE_STAGES)"

lemma py_eq_PStr: "py_eq (PStr a) (PStr b) \<longleftrightarrow> a = b"
  by (auto simp: py_eq.simps [of "PStr a"])

lemma distinct_items_strings:
  "distinct (seen @ xs) \<Longrightarrow> distinct_items (map PStr seen) (map PStr xs) = Inr (map PStr (seen @ xs))"
proof (induction xs arbitrary: seen)
  case (Cons x xs)
  then have "\<not> list_ex (\<lambda>y. py_eq (PStr x) y) (map PStr seen)"
    by (auto simp: list_ex_iff py_eq_PStr)
  then show ?case using Cons.IH [of "seen @ [x]"] Cons.prems by (simp add: is_list_def)
qed simp

lemma py_float_percent: "\<exists>p. py_float (py_or (percent_value n w) (PFloat 0 0)) = Inr p \<and> dec_eq p (percent_of n w)"
  by (cases "percent_of n w") (auto simp: percent_value_def py_or_def py_float_def dec_eq_def)

lemma wf_string_list: "wf_py (PList (map PStr xs))"
  by (simp add: list_all_iff)

lemma at_stage_progress:
  assumes "at_stage n r"
  shows "progress_violations r = Inr []"
proof -
  let ?done = "take n COMPREHENSIVE_STAGES"
  have len: "length ?done = n" using assms by (simp add: at_stage_def)
  have items: "distinct_items [] (map PStr ?done) = Inr (map PStr ?done)"
    using distinct_items_strings [of "[]" ?done] distinct_take [OF distinct_stages] by simp
  obtain p where "py_float (py_or (percent_value n (length COMPREHENSIVE_STAGES)) (PFloat 0 0)) = Inr p"
      "dec_eq p (percent_of n (length COMPREHENSIVE_STAGES))"
    using py_float_percent by blast
  with items len assms py_eq_refl [OF wf_string_list] show ?thesis
    by (simp add: progress_violations_def at_stage_def)
qed

lemma py_eq_PList_iff: "py_eq (PList xs) (PList ys) \<longleftrightarrow> list_all2 py_eq xs ys"
  by (auto simp: py_eq.simps [of "PList xs"] list_all2_iff list_all_iff)

lemma py_eq_strings: "py_eq (PList xs) (PList (map PStr ss)) \<longleftrightarrow> xs = map PStr ss"
proof -
  have "py_eq x (PStr s) \<longleftrightarrow> x = PStr s" for x s
    by (cases x) (auto simp: py_eq.simps num_of_def)
  then have "list_all2 py_eq xs (map PStr ss) \<longleftrightarrow> list_all2 (=) xs (map PStr ss)"
    by (simp add: list_all2_conv_all_nth) (metis nth_map)
  then show ?thesis by (simp add: py_eq_PList_iff list.rel_eq)
qed

lemma valid_record_parts:
  "valid_record sha op r \<longleftrightarrow>
     identity_violations r (str_or_empty (dget r ''artifact_schema'') \<noteq> LEGACY_VERSION) = [] \<and>
     delivery_violations sha op r = Inr [] \<and> history_violations r = [] \<and>
     decision_violations sha r = Inr [] \<and> accepted_violations r = [] \<and>
     evidence_violations sha r (str_or_empty (dget r ''artifact_schema'') \<noteq> LEGACY_VERSION) = [] \<and>
     progress_violations r = Inr [] \<and> seal_violations sha r = []"
  by (auto simp: record_violations_def validate_record_def bind_res_eq_Inr)

text \<open>The parts a stage result leaves alone.\<close>

definition stable_fields :: "string list" where
  "stable_fields = [''artifact_schema'', ''service_id'', ''identity'', ''human_evidence'',
     ''review_decision'', ''review_history'']"

lemma stable_parts:
  assumes "\<forall>k \<in> {''service_id'', ''identity'', ''human_evidence''}. dget r k = dget r' k"
    and "dget r' ''human_review_required'' = PBool True"
    and "identity_violations r strategic = []"
  shows "identity_violations r' strategic = []" "evidence_violations sha r' strategic = evidence_violations sha r strategic"
proof -
  have eq: "dget r' ''identity'' = dget r ''identity''" "dget r' ''service_id'' = dget r ''service_id''"
      "dget r' ''human_evidence'' = dget r ''human_evidence''"
    using assms(1) by simp_all
  show "identity_violations r' strategic = []"
    using assms(3) unfolding identity_violations_def eq append_is_Nil_conv
    by (elim conjE, intro conjI) (assumption | simp only: assms(2) simp_thms if_False)+
  show "evidence_violations sha r' strategic = evidence_violations sha r strategic"
    unfolding evidence_violations_def eq ..
qed

lemma seal_record_read: "k \<noteq> ''integrity_sha256'' \<Longrightarrow> dget (seal_record sha r) k = dget r k"
  by (simp add: seal_record_def)

lemma seal_record_sealed: "dget (seal_record sha r) ''integrity_sha256'' = PStr (record_hash sha (seal_record sha r))"
  by (simp add: seal_record_def record_hash_def)

lemma record_status_cong: "dget r ''status'' = dget r' ''status'' \<Longrightarrow> record_status r = record_status r'"
  by (simp add: record_status_def)

lemma advance_read:
  fixes sha updated stage_id status completed results now revision
  defines "out \<equiv> advance_record sha updated stage_id status completed results now revision"
  defines "after \<equiv> progressed completed stage_id status"
  shows "dget out ''status'' = PStr (status_after_stage status (length after))"
    "dget out ''progress_percent'' = percent_value (length after) (length COMPREHENSIVE_STAGES)"
    "dget out ''completed_stages'' = (if status \<in> set SUCCESS_STAGE_STATUSES then PList after
       else dget updated ''completed_stages'')"
    "dget out ''revision'' = PInt (revision + 1)"
    "dget out ''terminal'' = PBool (status_after_stage status (length after) \<in> set TERMINAL_STATUSES)"
    "dget out ''human_review_required'' = PBool True"
    "dget out ''human_review_completed'' = PBool False"
    "dget out ''client_delivery_allowed'' = PBool False"
    "dget out ''stage_results'' = results"
    "dget out ''current_stage'' = PStr stage_id"
    "\<forall>k \<in> set stable_fields. dget out k = dget updated k"
    "dget out ''integrity_sha256'' = PStr (record_hash sha out)"
  unfolding out_def after_def advance_record_def Let_def
  by (simp_all add: seal_record_read seal_record_sealed stable_fields_def)

lemma status_after_stage_cases:
  "status_after_stage status n \<in> {''review_required'', ''running'', ''blocked''}"
  by (simp add: status_after_stage_def)

lemma py_lower_run_statuses:
  "py_lower ''review_required'' = ''review_required''" "py_lower ''running'' = ''running''"
  "py_lower ''blocked'' = ''blocked''" "py_lower ''ready'' = ''ready''"
  "py_lower ''approved'' = ''approved''" "py_lower ''rejected'' = ''rejected''"
  by code_simp+

lemma valid_record_prefix:
  assumes "valid_record sha op r" and "list_or_empty (dget r ''completed_stages'') = Inr completed"
  shows "completed = map PStr (take (length completed) COMPREHENSIVE_STAGES)"
    and "length completed \<le> length COMPREHENSIVE_STAGES"
proof -
  have "progress_violations r = Inr []" using assms(1) by (simp add: valid_record_parts)
  with assms(2) have "py_eq (PList completed) (PList (map PStr (take (length completed) COMPREHENSIVE_STAGES)))"
    by (auto simp: progress_violations_def bind_res_eq_Inr split: if_splits)
  then show eq: "completed = map PStr (take (length completed) COMPREHENSIVE_STAGES)"
    by (simp add: py_eq_strings)
  then have "length completed = min (length COMPREHENSIVE_STAGES) (length completed)"
    by (metis length_map length_take)
  then show "length completed \<le> length COMPREHENSIVE_STAGES" by linarith
qed

lemma py_iter_list_or_empty: "py_iter v = Inr xs \<Longrightarrow> list_or_empty v = Inr xs"
  by (cases v) (auto simp: py_iter_def list_or_empty_def)

lemma copy_record_read: "k \<noteq> ''stage_results'' \<Longrightarrow> dget (copy_record_for_update r) k = dget r k"
  by (simp add: copy_record_for_update_def dsetdefault_def)

lemma dindex_dget: "dindex d k = Inr v \<Longrightarrow> dget d k = v"
  by (auto simp: dindex_def dget_def split: option.splits)

text \<open>An accepted stage result, taken apart.\<close>

lemma apply_stageE:
  assumes "apply_comprehensive_stage_result sha op now r stage_id result = Inr r'"
  obtains n identity normalized results revision where
    "valid_record sha op r" "n < length COMPREHENSIVE_STAGES" "stage_id = COMPREHENSIVE_STAGES ! n"
    "list_or_empty (dget r ''completed_stages'') = Inr (map PStr (take n COMPREHENSIVE_STAGES))"
    "dget r ''identity'' = identity"
    "check_identity_drift stage_id result (as_dict identity) RUN_BINDING_FIELDS = Inr ()"
    "normalize_stage_result stage_id result (as_dict identity) = Inr normalized"
    "dget (copy_record_for_update r) ''stage_results'' = PDict results"
    "py_int (py_or (dget r ''revision'') (PInt 0)) = Inr revision"
    "r' = advance_record sha (copy_record_for_update r) stage_id (stage_result_status result)
       (map PStr (take n COMPREHENSIVE_STAGES)) (PDict (dset results stage_id (PDict normalized))) now revision"
proof -
  let ?u = "copy_record_for_update r"
  from assms obtain cv completed iv normalized rv results revision where
    valid: "valid_record sha op r" and
    cv: "dindex ?u ''completed_stages'' = Inr cv" "py_iter cv = Inr completed" and
    ex: "Some stage_id = expected_stage (length completed)" and
    iv: "dindex ?u ''identity'' = Inr iv" and
    drift: "check_identity_drift stage_id result (as_dict iv) RUN_BINDING_FIELDS = Inr ()" and
    norm: "normalize_stage_result stage_id result (as_dict iv) = Inr normalized" and
    rv: "dindex ?u ''stage_results'' = Inr rv" "set_item rv stage_id (PDict normalized) = Inr results" and
    rev: "py_int (py_or (dget ?u ''revision'') (PInt 0)) = Inr revision" and
    out: "r' = advance_record sha ?u stage_id (stage_result_status result) completed results now revision"
    by (auto simp: apply_comprehensive_stage_result_def require_valid_def bind_res_eq_Inr Let_def split: if_splits)
  have comp: "list_or_empty (dget r ''completed_stages'') = Inr completed"
    using cv dindex_dget [OF cv(1)] by (simp add: copy_record_read py_iter_list_or_empty)
  note prefix = valid_record_prefix [OF valid comp]
  have len: "length completed < length COMPREHENSIVE_STAGES" "stage_id = COMPREHENSIVE_STAGES ! length completed"
    using ex by (auto simp: expected_stage_def split: if_splits)
  obtain d where d: "rv = PDict d" "results = PDict (dset d stage_id (PDict normalized))"
    using rv(2) by (cases rv) (auto simp: set_item_def)
  show thesis
    using that [OF valid len(1) len(2) _ _ drift norm _ _ _] prefix(1) comp dindex_dget [OF iv] dindex_dget [OF rv(1)] rev out d
    by (simp add: copy_record_read)
qed

lemma progressed_prefix:
  assumes "n < length COMPREHENSIVE_STAGES" and "stage_id = COMPREHENSIVE_STAGES ! n"
  shows "\<exists>m. m \<in> {n, Suc n} \<and> (m = Suc n \<longleftrightarrow> status \<in> set SUCCESS_STAGE_STATUSES) \<and>
    m \<le> length COMPREHENSIVE_STAGES \<and>
    progressed (map PStr (take n COMPREHENSIVE_STAGES)) stage_id status = map PStr (take m COMPREHENSIVE_STAGES)"
  using assms by (cases "status \<in> set SUCCESS_STAGE_STATUSES")
    (auto simp: progressed_def take_Suc_conv_app_nth)

lemma stage_result_keeps_valid:
  assumes app: "apply_comprehensive_stage_result sha op now r stage_id result = Inr r'"
    and fresh: "dget r ''review_decision'' = PNone" "dget r ''review_history'' = PNone"
  shows "valid_record sha op r' \<and> unreviewed r' \<and> (\<exists>m. at_stage m r' \<and>
      (record_status r' = ''review_required'' \<longrightarrow> m = length COMPREHENSIVE_STAGES))"
  using app
proof (rule apply_stageE)
  fix n identity normalized results revision
  let ?status = "stage_result_status result"
  let ?u = "copy_record_for_update r"
  let ?done = "map PStr (take n COMPREHENSIVE_STAGES)"
  let ?res = "PDict (dset results stage_id (PDict normalized))"
  assume valid: "valid_record sha op r" and n: "n < length COMPREHENSIVE_STAGES" "stage_id = COMPREHENSIVE_STAGES ! n"
    and comp: "list_or_empty (dget r ''completed_stages'') = Inr ?done"
    and out: "r' = advance_record sha ?u stage_id ?status ?done ?res now revision"
  note read = advance_read [of sha ?u stage_id ?status ?done ?res now revision, folded out]
  obtain m where m: "m = Suc n \<longleftrightarrow> ?status \<in> set SUCCESS_STAGE_STATUSES" "m \<in> {n, Suc n}" "m \<le> length COMPREHENSIVE_STAGES"
      "progressed ?done stage_id ?status = map PStr (take m COMPREHENSIVE_STAGES)"
    using progressed_prefix [OF n] by blast
  have len: "length (progressed ?done stage_id ?status) = m" using m(3,4) by simp
  have status: "dget r' ''status'' = PStr (status_after_stage ?status m)" using read(1) len by simp
  have lower: "record_status r' = status_after_stage ?status m"
    using status_after_stage_cases [of ?status m] py_lower_run_statuses
    by (auto simp: record_status_def status)
  have stable: "\<forall>k \<in> set stable_fields. dget r k = dget r' k"
    using read(11) by (simp add: stable_fields_def copy_record_read)
  have unrev: "unreviewed r'"
    using stable fresh read(8) lower status_after_stage_cases [of ?status m]
    by (auto simp: unreviewed_def stable_fields_def)
  have "list_or_empty (dget r' ''completed_stages'') = Inr (map PStr (take m COMPREHENSIVE_STAGES))"
    using read(3) comp m by (auto simp: copy_record_read)
  then have stage: "at_stage m r'" using read(2) len m(3) by (simp add: at_stage_def)
  have schema: "dget r' ''artifact_schema'' = dget r ''artifact_schema''" using stable by (simp add: stable_fields_def)
  have three: "\<forall>k \<in> {''service_id'', ''identity'', ''human_evidence''}. dget r k = dget r' k"
    using stable by (simp add: stable_fields_def)
  have "seal_violations sha r' = []"
    using read(5,12) lower len by (simp add: seal_violations_def)
  moreover have "identity_violations r' (str_or_empty (dget r' ''artifact_schema'') \<noteq> LEGACY_VERSION) = []"
    "evidence_violations sha r' (str_or_empty (dget r' ''artifact_schema'') \<noteq> LEGACY_VERSION) = []"
    using stable_parts [OF three read(6)] valid unfolding schema by (simp_all add: valid_record_parts)
  ultimately have "valid_record sha op r'"
    using unreviewed_parts [OF unrev] at_stage_progress [OF stage] by (simp add: valid_record_parts)
  moreover have "record_status r' = ''review_required'' \<longrightarrow> m = length COMPREHENSIVE_STAGES"
    by (simp add: lower status_after_stage_def)
  ultimately show ?thesis using unrev stage by blast
qed

section \<open>A created record is valid\<close>

lemma new_record_read:
  fixes identity evidence now
  defines "r \<equiv> new_record_fields identity evidence now"
  shows "dget r ''artifact_schema'' = PStr VERSION" "dget r ''service_id'' = PStr ''comprehensive''"
    "dget r ''identity'' = PDict identity" "dget r ''human_evidence'' = PDict evidence"
    "dget r ''status'' = PStr ''ready''" "dget r ''completed_stages'' = PList []"
    "dget r ''stage_results'' = PDict []" "dget r ''progress_percent'' = PFloat 0 0"
    "dget r ''revision'' = PInt 1" "dget r ''human_review_required'' = PBool True"
    "dget r ''human_review_completed'' = PBool False" "dget r ''client_delivery_allowed'' = PBool False"
    "dget r ''terminal'' = PBool False" "dget r ''review_decision'' = PNone" "dget r ''review_history'' = PNone"
  unfolding r_def new_record_fields_def by simp_all

definition PROVIDER_FIELDS :: "string list" where
  "PROVIDER_FIELDS = [''repository_provider'', ''provider_access_mode'', ''provider_credential_used'']"

lemma bind_provider_read:
  assumes "bind_provider req d = Inr r" and "k \<notin> set PROVIDER_FIELDS"
  shows "dget r k = dget d k"
  using assms by (auto simp: bind_provider_def PROVIDER_FIELDS_def Let_def split: if_splits)

lemma required_fields_Inr:
  assumes "map_res (\<lambda>(field, value). bind_res (required_field value field) (\<lambda>t. Inr (field, PStr t))) xs = Inr ys"
  shows "ys = map (\<lambda>(field, value). (field, PStr (py_strip value))) xs"
    and "\<forall>(field, value) \<in> set xs. py_strip value \<noteq> []"
  using assms
  by (induction xs arbitrary: ys) (auto simp: required_field_def bind_res_eq_Inr Let_def split: if_splits)

lemma createE:
  assumes "create_comprehensive_run_record sha now req = Inr r"
  obtains identity evidence where "new_authorized req"
    "identity = map (\<lambda>(field, value). (field, PStr (py_strip value))) (request_identity req)"
    "\<forall>(field, value) \<in> set (request_identity req). py_strip value \<noteq> []"
    "normalize_strategic_human_evidence sha (new_human_evidence req) = Inr evidence"
    "\<And>k. k \<notin> set (''integrity_sha256'' # PROVIDER_FIELDS) \<Longrightarrow> dget r k = dget (new_record_fields identity evidence now) k"
    "dget r ''integrity_sha256'' = PStr (record_hash sha r)"
proof -
  from assms obtain identity evidence d where
    auth: "new_authorized req" and
    ident: "map_res (\<lambda>(field, value). bind_res (required_field value field) (\<lambda>t. Inr (field, PStr t)))
        (request_identity req) = Inr identity" and
    evidence: "normalize_strategic_human_evidence sha (new_human_evidence req) = Inr evidence" and
    prov: "bind_provider req (new_record_fields identity evidence now) = Inr d" and r: "r = seal_record sha d"
    by (auto simp: create_comprehensive_run_record_def bind_res_eq_Inr split: if_splits)
  note required_fields_Inr [OF ident]
  moreover have "dget r k = dget (new_record_fields identity evidence now) k"
    if "k \<notin> set (''integrity_sha256'' # PROVIDER_FIELDS)" for k
    using that bind_provider_read [OF prov] by (simp add: r seal_record_read)
  moreover have "dget r ''integrity_sha256'' = PStr (record_hash sha r)" by (simp add: r seal_record_sealed)
  ultimately show thesis using that auth evidence by blast
qed

lemma percent_value_zero: "percent_value 0 (length COMPREHENSIVE_STAGES) = PFloat 0 0"
  unfolding length_stages by code_simp

lemma identity_violations_none:
  assumes "\<forall>f \<in> set (RECORD_IDENTITY_FIELDS @ [''assessment_depth'', ''report_language'']). text_of (dget (as_dict (dget r ''identity'')) f) \<noteq> []"
    and "dget r ''service_id'' = PStr ''comprehensive''" and "dget r ''human_review_required'' = PBool True"
  shows "identity_violations r strategic = []"
proof -
  let ?strategic = "[''assessment_depth'', ''report_language'']"
  have none: "text_of (dget (as_dict (dget r ''identity'')) f) \<noteq> []"
    if "f \<in> set (RECORD_IDENTITY_FIELDS @ (if strategic then ?strategic else []))" for f
  proof -
    have "f \<in> set (RECORD_IDENTITY_FIELDS @ ?strategic)"
      using that unfolding set_append by (cases strategic) simp_all
    then show ?thesis using assms(1) by blast
  qed
  show ?thesis
    unfolding identity_violations_def append_is_Nil_conv concat_map_Nil_iff
    by (intro conjI ballI) (assumption | erule none | simp only: assms(2,3) simp_thms if_False)+
qed

lemma created_record_valid:
  assumes sha: "\<forall>x. sha x \<noteq> []" and created: "create_comprehensive_run_record sha now req = Inr r"
  shows "valid_record sha op r \<and> unreviewed r \<and> at_stage 0 r"
  using created
proof (rule createE)
  fix identity evidence
  assume ident: "identity = map (\<lambda>(field, value). (field, PStr (py_strip value))) (request_identity req)"
      "\<forall>(field, value) \<in> set (request_identity req). py_strip value \<noteq> []"
    and evidence: "normalize_strategic_human_evidence sha (new_human_evidence req) = Inr evidence"
    and look: "\<And>k. k \<notin> set (''integrity_sha256'' # PROVIDER_FIELDS) \<Longrightarrow>
      dget r k = dget (new_record_fields identity evidence now) k"
    and sealed: "dget r ''integrity_sha256'' = PStr (record_hash sha r)"
  note read = look new_record_read PROVIDER_FIELDS_def
  have status: "record_status r = ''ready''"
    by (simp add: record_status_def read py_lower_run_statuses)
  have unrev: "unreviewed r" by (simp add: unreviewed_def status read)
  have stage: "at_stage 0 r" by (simp add: at_stage_def read percent_value_zero)
  have "seal_violations sha r = []"
    by (simp add: seal_violations_def status sealed read TERMINAL_STATUSES_def)
  moreover have "evidence_violations sha r strategic = []" for strategic
    using normalized_evidence_verifies [OF sha evidence] evidence
    by (auto simp: evidence_violations_def read evidence_package_keys elim!: normalize_evidenceE)
  moreover have "identity_violations r strategic = []" for strategic
  proof -
    have present: "\<forall>f \<in> set (RECORD_IDENTITY_FIELDS @ [''assessment_depth'', ''report_language'']). text_of (dget identity f) \<noteq> []"
      using ident(2) by (simp add: ident(1) request_identity_def RECORD_IDENTITY_FIELDS_def)
    show ?thesis
      by (rule identity_violations_none) (use present in \<open>simp_all add: read\<close>)
  qed
  ultimately have "valid_record sha op r"
    using unreviewed_parts [OF unrev] at_stage_progress [OF stage] by (simp add: valid_record_parts)
  with unrev stage show ?thesis by blast
qed

end
