(* ===== verification/RunLifecycle.thy ===== *)
theory RunLifecycle imports RunRecord begin

text \<open>
  The lifecycle of a run: the records that creation, stage results and review decisions can
  produce, in any order and number, and what holds of every one of them.
\<close>

section \<open>The seals of a record\<close>

interpretation record_seal: digest_seal sha "''integrity_sha256''"
    "\<lambda>d. dget d ''integrity_sha256'' = PStr (record_hash sha d)"
  for sha :: "string \<Rightarrow> string"
  by unfold_locales (simp_all add: record_hash_def canonical_hash_eq_json_digest)

interpretation manifest_seal: digest_seal sha "''accepted_edition_manifest_sha256''" "manifest_hash_valid sha"
  for sha :: "string \<Rightarrow> string"
  by unfold_locales (simp_all add: manifest_hash_valid_def canonical_hash_eq_json_digest Let_def)

interpretation certificate_seal: digest_seal sha "''approval_certificate_sha256''" "certificate_hash_valid sha"
  for sha :: "string \<Rightarrow> string"
  by unfold_locales (simp_all add: certificate_hash_valid_def canonical_hash_eq_json_digest Let_def)

lemma valid_record_sealed:
  "valid_record sha op r \<Longrightarrow> dget r ''integrity_sha256'' = PStr (record_hash sha r)"
  by (simp add: valid_record_parts seal_violations_def split: if_splits)

section \<open>A review decision\<close>

lemma decision_retained_read:
  "dget (decision_retained updated candidate decision history) ''review_history'' = PList (history @ [PDict candidate])"
  "dget (decision_retained updated candidate decision history) ''review_decision'' = PDict candidate"
  "dget (decision_retained updated candidate decision history) ''accepted_edition'' =
     (if decision = ''approved'' then PDict candidate else PNone)"
  "k \<notin> {''review_history'', ''review_decision'', ''accepted_edition'', ''approved_delivery_package'', ''delivery_authorization''} \<Longrightarrow>
     dget (decision_retained updated candidate decision history) k = dget updated k"
  unfolding decision_retained_def Let_def by simp_all

lemma decided_read:
  fixes sha updated candidate decision status history now revision
  defines "out \<equiv> decided_record sha updated candidate decision status history now revision"
  shows "dget out ''status'' = PStr status"
    "dget out ''client_delivery_allowed'' = PBool False"
    "dget out ''human_review_completed'' = PBool (decision \<in> {''approved'', ''rejected''})"
    "dget out ''review_decision'' = PDict candidate"
    "dget out ''review_history'' = PList (history @ [PDict candidate])"
    "dget out ''completed_stages'' = dget updated ''completed_stages''"
    "dget out ''progress_percent'' = dget updated ''progress_percent''"
    "dget out ''revision'' = PInt (revision + 1)"
    "dget out ''stage_results'' = dget updated ''stage_results''"
    "dget out ''identity'' = dget updated ''identity''"
    "dget out ''accepted_edition'' = (if decision = ''approved'' then PDict candidate else PNone)"
  unfolding out_def decided_record_def Let_def
  by (simp_all add: seal_record_read decision_retained_read)

lemma apply_reviewE:
  assumes "apply_comprehensive_review_decision sha op now r manifest = Inr r'"
  obtains status items revision where
    "valid_record sha op r" "record_status r = ''review_required''"
    "list_or_empty (dget r ''completed_stages'') = Inr (map PStr COMPREHENSIVE_STAGES)"
    "review_manifest_errors sha r (PDict manifest) = Inr []"
    "expected_review_status (manifest_decision manifest) = Some status"
    "list_or_empty (dget r ''review_history'') = Inr items"
    "py_int (py_or (dget r ''revision'') (PInt 0)) = Inr revision"
    "r' = decided_record sha (copy_record_for_update r) manifest (manifest_decision manifest) status
       (filter is_dict items) now revision"
    "valid_record sha op r'"
proof -
  from assms obtain completed status items revision where
    "valid_record sha op r" "record_status r = ''review_required''"
    "list_or_empty (dget r ''completed_stages'') = Inr completed"
    "py_eq (PList completed) (PList (map PStr COMPREHENSIVE_STAGES))"
    "review_manifest_errors sha r (PDict manifest) = Inr []"
    "expected_review_status (manifest_decision manifest) = Some status"
    "list_or_empty (dget (copy_record_for_update r) ''review_history'') = Inr items"
    "py_int (py_or (dget (copy_record_for_update r) ''revision'') (PInt 0)) = Inr revision"
    "r' = decided_record sha (copy_record_for_update r) manifest (manifest_decision manifest) status
       (filter is_dict items) now revision"
    "valid_record sha op r'"
    by (auto simp: apply_comprehensive_review_decision_def require_valid_def bind_res_eq_Inr Let_def
        split: if_splits option.splits)
  then show thesis using that by (simp add: py_eq_strings copy_record_read)
qed

section \<open>Reachable records\<close>

inductive run_reachable :: "(string \<Rightarrow> string) \<Rightarrow> (dict \<Rightarrow> bool) \<Rightarrow> dict \<Rightarrow> bool"
  for sha :: "string \<Rightarrow> string" and operator_delivery :: "dict \<Rightarrow> bool" where
  created: "create_comprehensive_run_record sha now req = Inr r \<Longrightarrow> run_reachable sha operator_delivery r"
| staged: "run_reachable sha operator_delivery r \<Longrightarrow>
    apply_comprehensive_stage_result sha operator_delivery now r stage_id result = Inr r' \<Longrightarrow>
    run_reachable sha operator_delivery r'"
| reviewed: "run_reachable sha operator_delivery r \<Longrightarrow>
    apply_comprehensive_review_decision sha operator_delivery now r manifest = Inr r' \<Longrightarrow>
    run_reachable sha operator_delivery r'"

text \<open>The shape the transitions rely on and keep.\<close>

definition BOUND_FIELDS :: "string list" where
  "BOUND_FIELDS = RECORD_IDENTITY_FIELDS @ [''assessment_depth'', ''report_language'']"

definition run_shape :: "dict \<Rightarrow> bool" where
  "run_shape r \<longleftrightarrow>
     (\<exists>identity. dget r ''identity'' = PDict identity \<and>
        (\<forall>f \<in> set BOUND_FIELDS. \<exists>s. map_of identity f = Some (PStr s) \<and> py_strip s = s \<and> s \<noteq> [])) \<and>
     (\<exists>results. dget r ''stage_results'' = PDict results) \<and>
     (\<exists>k. dget r ''revision'' = PInt k) \<and>
     (dget r ''review_history'' = PNone \<or> is_list (dget r ''review_history''))"

text \<open>
  The strengthened invariant: only a run with every stage completed waits for review or has
  been reviewed.
\<close>

definition run_at :: "nat \<Rightarrow> dict \<Rightarrow> bool" where
  "run_at m r \<longleftrightarrow> at_stage m r \<and>
     dget r ''completed_stages'' = PList (map PStr (take m COMPREHENSIVE_STAGES)) \<and>
     (unreviewed r \<or> m = length COMPREHENSIVE_STAGES) \<and>
     (record_status r = ''review_required'' \<longrightarrow> m = length COMPREHENSIVE_STAGES)"

definition run_inv :: "(string \<Rightarrow> string) \<Rightarrow> (dict \<Rightarrow> bool) \<Rightarrow> dict \<Rightarrow> bool" where
  "run_inv sha operator_delivery r \<longleftrightarrow> valid_record sha operator_delivery r \<and>
     dget r ''client_delivery_allowed'' = PBool False \<and> run_shape r \<and> (\<exists>m. run_at m r)"

lemma run_invI:
  "valid_record sha op r \<Longrightarrow> dget r ''client_delivery_allowed'' = PBool False \<Longrightarrow> run_shape r \<Longrightarrow> run_at m r \<Longrightarrow>
   run_inv sha op r"
  unfolding run_inv_def by blast

lemma at_stage_unique:
  "at_stage m r \<Longrightarrow> list_or_empty (dget r ''completed_stages'') = Inr (map PStr (take n COMPREHENSIVE_STAGES)) \<Longrightarrow>
   n \<le> length COMPREHENSIVE_STAGES \<Longrightarrow> n = m"
  by (auto simp: at_stage_def dest!: arg_cong [where f = length])

lemma run_atD:
  assumes "run_at m r"
  shows "at_stage m r" "unreviewed r \<or> m = length COMPREHENSIVE_STAGES"
    "dget r ''completed_stages'' = PList (map PStr (take m COMPREHENSIVE_STAGES))"
  using assms unfolding run_at_def by blast+

lemma unreviewed_fresh: "unreviewed r \<Longrightarrow> dget r ''review_decision'' = PNone \<and> dget r ''review_history'' = PNone"
  by (simp add: unreviewed_def)

lemma unreviewed_blocked: "unreviewed r \<Longrightarrow> dget r ''client_delivery_allowed'' = PBool False"
  unfolding unreviewed_def by blast

lemma created_run_inv:
  assumes sha: "\<forall>x. sha x \<noteq> []" and app: "create_comprehensive_run_record sha now req = Inr r"
  shows "run_inv sha op r \<and> run_at 0 r \<and> dget r ''stage_results'' = PDict [] \<and> record_status r = ''ready'' \<and>
    dget r ''identity'' = PDict (map (\<lambda>(field, value). (field, PStr (py_strip value))) (request_identity req))"
  using app
proof (rule createE)
  fix identity evidence
  assume ident: "identity = map (\<lambda>(field, value). (field, PStr (py_strip value))) (request_identity req)"
      "\<forall>(field, value) \<in> set (request_identity req). py_strip value \<noteq> []"
    and look: "\<And>k. k \<notin> set (''integrity_sha256'' # PROVIDER_FIELDS) \<Longrightarrow>
      dget r k = dget (new_record_fields identity evidence now) k"
  note read = look new_record_read PROVIDER_FIELDS_def
  have fields: "dget r ''identity'' = PDict identity" "dget r ''stage_results'' = PDict []" "dget r ''revision'' = PInt 1"
    "dget r ''review_history'' = PNone" "dget r ''completed_stages'' = PList []" "dget r ''status'' = PStr ''ready''"
    by (simp_all add: read)
  have bound: "\<forall>f \<in> set BOUND_FIELDS. \<exists>s. map_of identity f = Some (PStr s) \<and> py_strip s = s \<and> s \<noteq> []"
    using ident(2) by (simp add: ident(1) request_identity_def BOUND_FIELDS_def RECORD_IDENTITY_FIELDS_def py_strip_idem)
  have shape: "run_shape r" unfolding run_shape_def using fields bound by blast
  have status: "record_status r = ''ready''" by (simp add: record_status_def fields py_lower_run_statuses)
  note base = created_record_valid [OF sha app, of op]
  have at: "run_at 0 r" unfolding run_at_def using base fields(5) status by simp
  show ?thesis using run_invI [OF _ _ shape at] base unreviewed_blocked at status fields ident(1) by blast
qed

lemma advance_shape:
  assumes "run_shape r" and "dget (copy_record_for_update r) ''stage_results'' = PDict results"
  shows "run_shape (advance_record sha (copy_record_for_update r) stage_id status completed (PDict results') now revision)"
  using assms
  by (simp add: run_shape_def advance_read advance_read(11) [unfolded stable_fields_def, simplified] copy_record_read)

lemma staged_run_inv:
  assumes inv: "run_inv sha op r"
    and app: "apply_comprehensive_stage_result sha op now r stage_id result = Inr r'"
  shows "run_inv sha op r'"
  using app
proof (rule apply_stageE)
  fix n identity normalized results revision
  assume n: "n < length COMPREHENSIVE_STAGES" "stage_id = COMPREHENSIVE_STAGES ! n"
      "list_or_empty (dget r ''completed_stages'') = Inr (map PStr (take n COMPREHENSIVE_STAGES))"
    and results: "dget (copy_record_for_update r) ''stage_results'' = PDict results"
    and out: "r' = advance_record sha (copy_record_for_update r) stage_id (stage_result_status result)
       (map PStr (take n COMPREHENSIVE_STAGES)) (PDict (dset results stage_id (PDict normalized))) now revision"
  obtain m where m: "run_at m r" and shape: "run_shape r" using inv by (auto simp: run_inv_def)
  have "n = m" using at_stage_unique [OF run_atD(1) [OF m] n(3)] n(1) by simp
  then have "unreviewed r" using run_atD(2) [OF m] n(1) by blast
  then obtain m' where base: "valid_record sha op r'" "unreviewed r'" "at_stage m' r'"
      "record_status r' = ''review_required'' \<longrightarrow> m' = length COMPREHENSIVE_STAGES"
    using stage_result_keeps_valid [OF app] unreviewed_fresh by blast
  have "dget r' ''completed_stages'' = PList (map PStr (take m' COMPREHENSIVE_STAGES))"
    using base(3) run_atD(3) [OF m] \<open>n = m\<close>
    by (auto simp: at_stage_def out advance_read copy_record_read list_or_empty_PList split: if_splits)
  then have "run_at m' r'" using base by (simp add: run_at_def)
  then show ?thesis
    using run_invI [OF base(1) unreviewed_blocked [OF base(2)]] advance_shape [OF shape results] out by blast
qed

lemma reviewed_run_inv:
  assumes inv: "run_inv sha op r"
    and app: "apply_comprehensive_review_decision sha op now r manifest = Inr r'"
  shows "run_inv sha op r'"
  using app
proof (rule apply_reviewE)
  fix status items revision
  let ?N = "length COMPREHENSIVE_STAGES"
  assume full: "list_or_empty (dget r ''completed_stages'') = Inr (map PStr COMPREHENSIVE_STAGES)"
    and valid: "valid_record sha op r'"
    and out: "r' = decided_record sha (copy_record_for_update r) manifest (manifest_decision manifest) status
       (filter is_dict items) now revision"
  obtain m where m: "run_at m r" and shape: "run_shape r" using inv by (auto simp: run_inv_def)
  have "?N = m" using at_stage_unique [OF run_atD(1) [OF m], of ?N] full by simp
  with m have "run_at ?N r'"
    by (simp add: run_at_def at_stage_def out decided_read copy_record_read)
  moreover have "run_shape r'"
    using shape by (auto simp: run_shape_def out decided_read copy_record_read is_list_def
        copy_record_for_update_def dsetdefault_def split: option.splits)
  ultimately show ?thesis using valid by (auto intro: run_invI simp: out decided_read(2))
qed

lemma reachable_inv:
  assumes "\<forall>x. sha x \<noteq> []" and "run_reachable sha op r"
  shows "run_inv sha op r"
  using assms(2)
proof induction
  case (created now req r)
  with created_run_inv [OF assms(1)] show ?case by blast
qed (blast intro: staged_run_inv reviewed_run_inv)+

text \<open>What validity says of an approved record.\<close>

lemma sort_remdups_Nil: "sort (remdups xs) = [] \<longleftrightarrow> xs = []"
  by (metis remdups_eq_nil_iff set_empty set_sort)

lemma map_py_str_Nil: "map py_str (map PStr xs) = [] \<longleftrightarrow> xs = []" by simp

lemma list_or_empty_strings: "list_or_empty (PList (map PStr xs)) = Inr (map PStr xs)"
  by (cases xs) (simp_all add: list_or_empty_def py_iter_def)

lemma validate_accepted_edition_errors:
  assumes "validate_accepted_edition sha package candidate trusted = Inr v"
  shows "\<exists>errors. accepted_edition_errors sha package candidate trusted = Inr errors \<and>
    dget v ''validation_errors'' = PList (map PStr errors)"
  using assms by (auto simp: validate_accepted_edition_def bind_res_eq_Inr Let_def)

lemma review_manifest_clean:
  assumes "review_manifest_errors sha r candidate0 = Inr []"
  obtains candidate where "candidate0 = PDict candidate" "manifest_hash_valid sha candidate"
    "certificate_hash_valid sha (edition_review candidate)"
    "manifest_decision candidate \<in> set REVIEW_DECISIONS"
    "manifest_decision candidate = ''approved'' \<longrightarrow>
       accepted_edition_errors sha (report_package_from_record r) candidate
         (Some (as_dict (dget r ''identity''))) = Inr []"
    "manifest_identity_errors (as_dict (dget r ''identity'')) candidate = []"
proof -
  let ?package = "report_package_from_record r"
  let ?identity = "as_dict (dget r ''identity'')"
  from assms obtain candidate recorded outcome where
    c: "candidate0 = PDict candidate" and seal: "manifest_seal_errors sha candidate recorded = []" and
    ident: "manifest_identity_errors ?identity candidate = []" and
    outcome: "manifest_outcome_errors sha ?package candidate ?identity = Inr []"
    by (auto simp: review_manifest_errors_def bind_res_eq_Inr Let_def sort_remdups_Nil split: py.splits if_splits)
  have "accepted_edition_errors sha ?package candidate (Some ?identity) = Inr []"
    if approved: "manifest_decision candidate = ''approved''"
  proof -
    obtain v errs where v: "validate_accepted_edition sha ?package candidate (Some ?identity) = Inr v"
        "list_or_empty (dget v ''validation_errors'') = Inr errs" "map py_str errs = []"
      using outcome unfolding manifest_outcome_errors_def if_P [OF approved] bind_res_eq_Inr by blast
    from validate_accepted_edition_errors [OF v(1)] v(2,3) show ?thesis
      by (auto simp: list_or_empty_strings)
  qed
  with c seal ident show thesis
    using that by (auto simp: manifest_seal_errors_def split: if_splits)
qed

lemma expected_status_approved: "expected_review_status d = Some ''approved'' \<Longrightarrow> d = ''approved''"
  unfolding expected_review_status_def by (simp split: if_splits)

lemma expected_status_known: "d \<in> set REVIEW_DECISIONS \<Longrightarrow> \<exists>s. expected_review_status d = Some s"
  unfolding expected_review_status_def REVIEW_DECISIONS_def by auto

lemma approved_record_bound:
  assumes valid: "valid_record sha op r" and status: "record_status r = ''approved''"
  obtains manifest where "dget r ''review_decision'' = PDict manifest" "manifest_decision manifest = ''approved''"
    "manifest_hash_valid sha manifest" "certificate_hash_valid sha (edition_review manifest)"
    "same_dict (dget r ''accepted_edition'') (PDict manifest)"
    "accepted_edition_errors sha (report_package_from_record r) manifest (Some (as_dict (dget r ''identity''))) = Inr []"
    "dget r ''human_review_completed'' = PBool True"
proof -
  have parts: "delivery_violations sha op r = Inr []" "history_violations r = []" "decision_violations sha r = Inr []"
    using valid by (simp_all add: valid_record_parts)
  have completed: "dget r ''human_review_completed'' = PBool True"
    using parts(1) status by (auto simp: delivery_violations_def bind_res_eq_Inr Let_def split: if_splits)
  have dict: "is_dict (dget r ''review_decision'')"
    using parts(2) status by (auto simp: history_violations_def Let_def split: if_splits)
  then obtain manifest where m: "dget r ''review_decision'' = PDict manifest"
    by (cases "dget r ''review_decision''") (auto simp: is_dict_def)
  then have errs: "review_manifest_errors sha r (PDict manifest) = Inr []"
    and exp: "\<forall>e. expected_review_status (manifest_decision manifest) = Some e \<longrightarrow> e = ''approved''"
    and acc: "manifest_decision manifest = ''approved'' \<longrightarrow> same_dict (dget r ''accepted_edition'') (PDict manifest)"
    using parts(3) unfolding decision_violations_def Let_def status as_dict_def
    by (auto simp: bind_res_eq_Inr split: if_splits option.splits)
  from errs show thesis
  proof (rule review_manifest_clean)
    fix candidate
    assume c: "PDict manifest = PDict candidate" "manifest_hash_valid sha candidate"
      "certificate_hash_valid sha (edition_review candidate)" "manifest_decision candidate \<in> set REVIEW_DECISIONS"
      "manifest_decision candidate = ''approved'' \<longrightarrow> accepted_edition_errors sha (report_package_from_record r)
         candidate (Some (as_dict (dget r ''identity''))) = Inr []"
    have "manifest_decision manifest = ''approved''"
      using exp expected_status_known [OF c(4)] c(1) expected_status_approved by blast
    then show thesis using that [OF m] c acc completed by blast
  qed
qed

section \<open>Every stage can be recorded, in order\<close>

text \<open>
  A stage result may leave out the fields that bind it to the run, or repeat the values of the
  identity; any other value is identity drift.
\<close>

definition names_no_other_run :: "dict \<Rightarrow> dict \<Rightarrow> bool" where
  "names_no_other_run identity result \<longleftrightarrow> (\<forall>f \<in> set RUN_BINDING_FIELDS.
     \<not> truthy (dget result f) \<or> PStr (py_strip (py_str (dget result f))) = dget identity f)"

lemma unbound_names_no_run:
  "\<forall>f \<in> set RUN_BINDING_FIELDS. dget result f = PNone \<Longrightarrow> names_no_other_run identity result"
  by (simp add: names_no_other_run_def)

lemma stage_binding_accepted:
  assumes "\<forall>f \<in> set RUN_BINDING_FIELDS. \<exists>s. map_of identity f = Some (PStr s) \<and> py_strip s = s \<and> s \<noteq> []"
    and "names_no_other_run identity result"
  shows "check_identity_drift stage_id result identity RUN_BINDING_FIELDS = Inr ()"
proof -
  have "check_identity_drift stage_id result identity fs = Inr ()" if "set fs \<subseteq> set RUN_BINDING_FIELDS" for fs
    using that
  proof (induction fs)
    case (Cons f fs)
    then obtain s where "map_of identity f = Some (PStr s)" "py_strip s = s" using assms(1) by auto
    moreover have "\<not> truthy (dget result f) \<or> PStr (py_strip (py_str (dget result f))) = dget identity f"
      using Cons.prems assms(2) by (simp add: names_no_other_run_def)
    ultimately show ?case using Cons by (auto simp: dindex_def dget_def py_or_def Let_def)
  qed simp
  then show ?thesis by simp
qed

definition STAGE_BOUND_FIELDS :: "string list" where
  "STAGE_BOUND_FIELDS = [''stage_id'', ''status'', ''human_review_required'', ''client_delivery_allowed''] @
     RUN_BINDING_FIELDS @ [''assessment_depth'', ''report_language'']"

lemma normalize_stage_accepted:
  assumes "\<forall>f \<in> set (RUN_BINDING_FIELDS @ [''assessment_depth'', ''report_language'']). map_of identity f \<noteq> None"
  shows "\<exists>normalized. normalize_stage_result stage_id result identity = Inr normalized \<and>
    (\<forall>k. k \<notin> set STAGE_BOUND_FIELDS \<longrightarrow> map_of normalized k = map_of result k)"
proof -
  let ?fields = "RUN_BINDING_FIELDS @ [''assessment_depth'', ''report_language'']"
  let ?bound = "map (\<lambda>f. (f, dget identity f)) ?fields"
  let ?extra = "[(''human_review_required'', PBool True), (''client_delivery_allowed'', PBool False)]"
  have "map_res (\<lambda>field. bind_res (dindex identity field) (\<lambda>v. Inr (field, v))) ?fields = Inr ?bound"
    using assms by (intro map_res_all) (auto simp: dindex_def dget_def split: option.splits)
  moreover have "map_of (dupdate (dset (dset result ''stage_id'' (PStr stage_id)) ''status'' (PStr (stage_result_status result)))
      (?bound @ ?extra)) k = map_of result k" if "k \<notin> set STAGE_BOUND_FIELDS" for k
    using that by (simp add: STAGE_BOUND_FIELDS_def RUN_BINDING_FIELDS_def)
  ultimately show ?thesis by (simp add: normalize_stage_result_def)
qed

lemma dindex_of_dget: "dget d k \<noteq> PNone \<Longrightarrow> dindex d k = Inr (dget d k)"
  by (auto simp: dindex_def dget_def split: option.splits)

lemma stage_applied:
  assumes inv: "run_inv sha op r" and at: "run_at n r" and n: "n < length COMPREHENSIVE_STAGES"
    and named: "names_no_other_run (as_dict (dget r ''identity'')) result"
  obtains normalized results k where
    "apply_comprehensive_stage_result sha op now r (COMPREHENSIVE_STAGES ! n) result =
       Inr (advance_record sha (copy_record_for_update r) (COMPREHENSIVE_STAGES ! n) (stage_result_status result)
         (map PStr (take n COMPREHENSIVE_STAGES)) (PDict (dset results (COMPREHENSIVE_STAGES ! n) (PDict normalized))) now k)"
    "\<forall>k. k \<notin> set STAGE_BOUND_FIELDS \<longrightarrow> map_of normalized k = map_of result k" "dget r ''stage_results'' = PDict results"
proof -
  let ?u = "copy_record_for_update r" and ?s = "COMPREHENSIVE_STAGES ! n"
  let ?done = "map PStr (take n COMPREHENSIVE_STAGES)"
  obtain identity results k where shape: "dget r ''identity'' = PDict identity"
      "\<forall>f \<in> set BOUND_FIELDS. \<exists>s. map_of identity f = Some (PStr s) \<and> py_strip s = s \<and> s \<noteq> []"
      "dget r ''stage_results'' = PDict results" "dget r ''revision'' = PInt k"
    using inv by (auto simp: run_inv_def run_shape_def)
  have bind: "set RUN_BINDING_FIELDS \<subseteq> set BOUND_FIELDS" "{''assessment_depth'', ''report_language''} \<subseteq> set BOUND_FIELDS"
    by (simp_all add: RUN_BINDING_FIELDS_def BOUND_FIELDS_def RECORD_IDENTITY_FIELDS_def)
  have drift: "check_identity_drift ?s result identity RUN_BINDING_FIELDS = Inr ()"
    using shape(2) bind(1) named unfolding shape(1) as_dict_PDict by (intro stage_binding_accepted) blast+
  have "\<forall>f \<in> set (RUN_BINDING_FIELDS @ [''assessment_depth'', ''report_language'']). map_of identity f \<noteq> None"
    using shape(2) bind unfolding set_append by fastforce
  then obtain normalized where norm: "normalize_stage_result ?s result identity = Inr normalized"
      "\<forall>k. k \<notin> set STAGE_BOUND_FIELDS \<longrightarrow> map_of normalized k = map_of result k"
    using normalize_stage_accepted by blast
  have stages: "dget ?u ''stage_results'' = PDict results"
    using shape(3) by (auto simp: copy_record_for_update_def dsetdefault_def dget_def split: option.splits)
  have rev: "py_int (py_or (dget r ''revision'') (PInt 0)) = Inr k"
    by (simp add: shape(4) py_or_def py_int_def)
  have valid: "valid_record sha op r" using inv by (simp add: run_inv_def)
  have look: "dindex ?u ''completed_stages'' = Inr (PList ?done)" "dindex ?u ''identity'' = Inr (PDict identity)"
      "dindex ?u ''stage_results'' = Inr (PDict results)"
    using run_atD(3) [OF at] shape(1) stages by (simp_all add: dindex_of_dget copy_record_read)
  have app: "apply_comprehensive_stage_result sha op now r ?s result =
      Inr (advance_record sha ?u ?s (stage_result_status result) ?done (PDict (dset results ?s (PDict normalized))) now k)"
    using n by (simp add: apply_comprehensive_stage_result_def require_valid_def valid look py_iter_def
        expected_stage_def drift norm(1) set_item_def copy_record_read rev)
  show thesis by (rule that [OF app norm(2) shape(3)])
qed

lemma stage_accepted:
  assumes inv: "run_inv sha op r" and at: "run_at n r" and n: "n < length COMPREHENSIVE_STAGES"
    and named: "names_no_other_run (as_dict (dget r ''identity'')) result"
    and success: "stage_result_status result \<in> set SUCCESS_STAGE_STATUSES"
  obtains r' normalized where
    "apply_comprehensive_stage_result sha op now r (COMPREHENSIVE_STAGES ! n) result = Inr r'"
    "run_inv sha op r'" "run_at (Suc n) r'" "dget r' ''identity'' = dget r ''identity''"
    "record_status r' = (if Suc n = length COMPREHENSIVE_STAGES then ''review_required'' else ''running'')"
    "\<forall>k. k \<notin> set STAGE_BOUND_FIELDS \<longrightarrow> map_of normalized k = map_of result k"
    "dget r' ''stage_results'' = PDict (dset (as_dict (dget r ''stage_results'')) (COMPREHENSIVE_STAGES ! n) (PDict normalized))"
proof -
  let ?u = "copy_record_for_update r" and ?s = "COMPREHENSIVE_STAGES ! n"
  let ?done = "map PStr (take n COMPREHENSIVE_STAGES)"
  obtain normalized results k where a: "apply_comprehensive_stage_result sha op now r ?s result =
       Inr (advance_record sha ?u ?s (stage_result_status result) ?done (PDict (dset results ?s (PDict normalized))) now k)"
    "\<forall>k. k \<notin> set STAGE_BOUND_FIELDS \<longrightarrow> map_of normalized k = map_of result k" "dget r ''stage_results'' = PDict results"
    using inv at n named by (rule stage_applied)
  let ?r' = "advance_record sha ?u ?s (stage_result_status result) ?done (PDict (dset results ?s (PDict normalized))) now k"
  have len: "length (progressed ?done ?s (stage_result_status result)) = Suc n"
    using n success by (simp add: progressed_def)
  have inv': "run_inv sha op ?r'" by (rule staged_run_inv [OF inv a(1)])
  obtain m where m: "run_at m ?r'" using inv' by (auto simp: run_inv_def)
  have "length (map PStr (take m COMPREHENSIVE_STAGES)) = Suc n"
    using run_atD(3) [OF m] success len by (simp add: advance_read)
  then have "run_at (Suc n) ?r'" using m run_atD(1) [OF m] n by (auto simp: at_stage_def)
  moreover have "record_status ?r' = (if Suc n = length COMPREHENSIVE_STAGES then ''review_required'' else ''running'')"
    using success by (simp add: record_status_def advance_read(1) len status_after_stage_def py_lower_run_statuses)
  moreover have "dget ?r' ''identity'' = dget r ''identity''"
    using advance_read(11) [unfolded stable_fields_def, simplified] by (simp add: copy_record_read)
  ultimately show thesis
    using that [OF a(1) inv'] a(2) by (simp add: advance_read(9) a(3))
qed

text \<open>A sequence of stage results, one per stage.\<close>

fun apply_stages ::
  "(string \<Rightarrow> string) \<Rightarrow> (dict \<Rightarrow> bool) \<Rightarrow> string \<Rightarrow> (string \<Rightarrow> dict) \<Rightarrow> string list \<Rightarrow> dict \<Rightarrow> dict res" where
  "apply_stages sha operator_delivery now results [] record = Inr record"
| "apply_stages sha operator_delivery now results (stage_id # rest) record =
     bind_res (apply_comprehensive_stage_result sha operator_delivery now record stage_id (results stage_id))
       (apply_stages sha operator_delivery now results rest)"

lemma apply_stages_append:
  "apply_stages sha op now results (xs @ ys) r =
     bind_res (apply_stages sha op now results xs r) (apply_stages sha op now results ys)"
  by (induction xs arbitrary: r) (auto simp: bind_res_def split: sum.splits)

lemma apply_stages_reachable:
  "run_reachable sha op r \<Longrightarrow> apply_stages sha op now results ss r = Inr r' \<Longrightarrow> run_reachable sha op r'"
  by (induction ss arbitrary: r) (auto simp: bind_res_eq_Inr intro: run_reachable.staged)

text \<open>The results of the first \<open>n\<close> stages are retained as submitted, bound to the run.\<close>

definition retains :: "(string \<Rightarrow> dict) \<Rightarrow> nat \<Rightarrow> dict \<Rightarrow> bool" where
  "retains results n r \<longleftrightarrow> (\<exists>d. dget r ''stage_results'' = PDict d \<and>
     (\<forall>s. s \<notin> set (take n COMPREHENSIVE_STAGES) \<longrightarrow> dget d s = PNone) \<and>
     (\<forall>s \<in> set (take n COMPREHENSIVE_STAGES). \<exists>x. dget d s = PDict x \<and>
        (\<forall>k. k \<notin> set STAGE_BOUND_FIELDS \<longrightarrow> map_of x k = map_of (results s) k)))"

lemma retainsE:
  assumes "retains results n r" and "s \<in> set (take n COMPREHENSIVE_STAGES)"
  obtains d x where "dget r ''stage_results'' = PDict d" "dget d s = PDict x"
    "\<And>k. k \<notin> set STAGE_BOUND_FIELDS \<Longrightarrow> map_of x k = map_of (results s) k"
    "\<And>k. k \<notin> set STAGE_BOUND_FIELDS \<Longrightarrow> dget x k = dget (results s) k"
  using assms by (fastforce simp: retains_def dget_def)

lemma retains_step:
  assumes "retains results n r" and n: "n < length COMPREHENSIVE_STAGES"
    and "dget r' ''stage_results'' = PDict (dset (as_dict (dget r ''stage_results'')) (COMPREHENSIVE_STAGES ! n) (PDict x))"
    and "\<forall>k. k \<notin> set STAGE_BOUND_FIELDS \<longrightarrow> map_of x k = map_of (results (COMPREHENSIVE_STAGES ! n)) k"
  shows "retains results (Suc n) r'"
proof -
  let ?s = "COMPREHENSIVE_STAGES ! n"
  have set: "set (take (Suc n) COMPREHENSIVE_STAGES) = insert ?s (set (take n COMPREHENSIVE_STAGES))"
    using n by (simp add: take_Suc_conv_app_nth)
  obtain d where d: "dget r ''stage_results'' = PDict d"
     "\<forall>s. s \<notin> set (take n COMPREHENSIVE_STAGES) \<longrightarrow> dget d s = PNone"
     "\<forall>s \<in> set (take n COMPREHENSIVE_STAGES). \<exists>x. dget d s = PDict x \<and>
        (\<forall>k. k \<notin> set STAGE_BOUND_FIELDS \<longrightarrow> map_of x k = map_of (results s) k)"
    using assms(1) by (auto simp: retains_def)
  let ?d = "dset d ?s (PDict x)"
  have "\<forall>s. s \<notin> insert ?s (set (take n COMPREHENSIVE_STAGES)) \<longrightarrow> dget ?d s = PNone" using d(2) by simp
  moreover have "\<forall>s \<in> insert ?s (set (take n COMPREHENSIVE_STAGES)). \<exists>x. dget ?d s = PDict x \<and>
      (\<forall>k. k \<notin> set STAGE_BOUND_FIELDS \<longrightarrow> map_of x k = map_of (results s) k)"
    using d(3) assms(4) by simp
  moreover have "dget r' ''stage_results'' = PDict ?d" using assms(3) d(1) by simp
  ultimately show ?thesis unfolding retains_def set by blast
qed

lemma run_to_stage:
  assumes sha: "\<forall>x. sha x \<noteq> []" and created: "create_comprehensive_run_record sha now req = Inr r0"
    and ok: "\<forall>s \<in> set COMPREHENSIVE_STAGES. stage_result_status (results s) \<in> set SUCCESS_STAGE_STATUSES \<and>
      names_no_other_run (as_dict (dget r0 ''identity'')) (results s)"
    and n: "n \<le> length COMPREHENSIVE_STAGES"
  shows "\<exists>r. apply_stages sha op now' results (take n COMPREHENSIVE_STAGES) r0 = Inr r \<and> run_inv sha op r \<and>
    run_at n r \<and> retains results n r \<and> dget r ''identity'' = dget r0 ''identity'' \<and>
    record_status r = (if n = 0 then ''ready'' else if n = length COMPREHENSIVE_STAGES then ''review_required''
      else ''running'')"
  using n
proof (induction n)
  case 0
  from created_run_inv [OF sha created, of op] show ?case by (simp add: retains_def)
next
  case (Suc n)
  then obtain r where r: "apply_stages sha op now' results (take n COMPREHENSIVE_STAGES) r0 = Inr r" "run_inv sha op r"
      "run_at n r" "retains results n r" "dget r ''identity'' = dget r0 ''identity''"
    by auto
  let ?s = "COMPREHENSIVE_STAGES ! n"
  have n: "n < length COMPREHENSIVE_STAGES" using Suc.prems by simp
  have s: "stage_result_status (results ?s) \<in> set SUCCESS_STAGE_STATUSES" "names_no_other_run (as_dict (dget r ''identity'')) (results ?s)"
    using ok n r(5) by simp_all
  obtain r' x where r': "apply_comprehensive_stage_result sha op now' r ?s (results ?s) = Inr r'"
    "run_inv sha op r'" "run_at (Suc n) r'" "dget r' ''identity'' = dget r ''identity''"
    "record_status r' = (if Suc n = length COMPREHENSIVE_STAGES then ''review_required'' else ''running'')"
    "\<forall>k. k \<notin> set STAGE_BOUND_FIELDS \<longrightarrow> map_of x k = map_of (results ?s) k"
    "dget r' ''stage_results'' = PDict (dset (as_dict (dget r ''stage_results'')) ?s (PDict x))"
    by (rule stage_accepted [OF r(2,3) n s(2,1)])
  have "apply_stages sha op now' results (take (Suc n) COMPREHENSIVE_STAGES) r0 = Inr r'"
    using r(1) r'(1) n by (simp add: take_Suc_conv_app_nth apply_stages_append)
  moreover have "retains results (Suc n) r'" using r(4) n r'(7,6) by (rule retains_step)
  ultimately show ?case using r' r(5) by simp
qed

lemma identity_violations_review:
  assumes "identity_violations r strategic = []"
  shows "dget r ''human_review_required'' = PBool True"
proof (rule ccontr)
  assume "dget r ''human_review_required'' \<noteq> PBool True"
  then have "identity_violations r strategic \<noteq> []" by (simp add: identity_violations_def)
  with assms show False by blast
qed

text \<open>
  C1. Every record a run can reach, by any sequence of stage results and review decisions, is
  valid and keeps client delivery blocked behind human review; its completed stages are a prefix
  of the contract; a decision exists only when every stage is complete; and an approved run has a
  completed review whose sealed, certified manifest is the accepted edition and matches the
  current report without errors.
\<close>

theorem reachable_run_is_gated:
  assumes "\<forall>x. sha x \<noteq> []" and "run_reachable sha op r"
  shows "record_violations sha op r = Inr [] \<and>
    dget r ''human_review_required'' = PBool True \<and> dget r ''client_delivery_allowed'' = PBool False \<and>
    (\<exists>m. list_or_empty (dget r ''completed_stages'') = Inr (map PStr (take m COMPREHENSIVE_STAGES)) \<and>
      (dget r ''review_decision'' \<noteq> PNone \<or> record_status r \<in> {''approved'', ''rejected'', ''review_required''} \<longrightarrow>
         m = length COMPREHENSIVE_STAGES)) \<and>
    (record_status r = ''approved'' \<longrightarrow> dget r ''human_review_completed'' = PBool True \<and>
      (\<exists>manifest. same_dict (dget r ''accepted_edition'') (PDict manifest) \<and> manifest_decision manifest = ''approved'' \<and>
        manifest_hash_valid sha manifest \<and> certificate_hash_valid sha (edition_review manifest) \<and>
        accepted_edition_errors sha (report_package_from_record r) manifest
          (Some (as_dict (dget r ''identity''))) = Inr []))"
proof -
  have inv: "run_inv sha op r" using assms by (rule reachable_inv)
  then obtain m where m: "run_at m r" by (auto simp: run_inv_def)
  have valid: "valid_record sha op r" using inv by (simp add: run_inv_def)
  then have review: "dget r ''human_review_required'' = PBool True"
    by (auto simp: valid_record_parts dest: identity_violations_review)
  have "dget r ''review_decision'' \<noteq> PNone \<or> record_status r \<in> {''approved'', ''rejected'', ''review_required''} \<longrightarrow>
      m = length COMPREHENSIVE_STAGES"
    using m unfolding run_at_def unreviewed_def by blast
  moreover have "list_or_empty (dget r ''completed_stages'') = Inr (map PStr (take m COMPREHENSIVE_STAGES))"
    using run_atD(3) [OF m] by simp
  moreover have "dget r ''human_review_completed'' = PBool True \<and>
      (\<exists>manifest. same_dict (dget r ''accepted_edition'') (PDict manifest) \<and> manifest_decision manifest = ''approved'' \<and>
        manifest_hash_valid sha manifest \<and> certificate_hash_valid sha (edition_review manifest) \<and>
        accepted_edition_errors sha (report_package_from_record r) manifest
          (Some (as_dict (dget r ''identity''))) = Inr [])" if "record_status r = ''approved''"
    by (rule approved_record_bound [OF valid that]) blast
  ultimately show ?thesis using valid review inv unfolding run_inv_def by blast
qed

text \<open>
  C7. Nothing in the record rules can strand a run: from every created record, successful
  results for the stages of the contract, in its order, each leaving out the binding fields of
  the run or repeating their values, are all accepted and lead to a run that waits for human
  review with every stage complete and every result retained.
\<close>

theorem run_can_reach_review:
  assumes "\<forall>x. sha x \<noteq> []" and "create_comprehensive_run_record sha now req = Inr r0"
    and "\<forall>s \<in> set COMPREHENSIVE_STAGES. stage_result_status (results s) \<in> set SUCCESS_STAGE_STATUSES \<and>
      names_no_other_run (as_dict (dget r0 ''identity'')) (results s)"
  shows "\<exists>r. apply_stages sha op now' results COMPREHENSIVE_STAGES r0 = Inr r \<and> record_violations sha op r = Inr [] \<and>
    record_status r = ''review_required'' \<and>
    dget r ''completed_stages'' = PList (map PStr COMPREHENSIVE_STAGES) \<and>
    retains results (length COMPREHENSIVE_STAGES) r"
proof -
  obtain r where r: "apply_stages sha op now' results COMPREHENSIVE_STAGES r0 = Inr r" "run_inv sha op r"
      "run_at (length COMPREHENSIVE_STAGES) r" "retains results (length COMPREHENSIVE_STAGES) r"
      "record_status r = ''review_required''"
    using run_to_stage [OF assms, of "length COMPREHENSIVE_STAGES" op now'] by (auto simp: length_stages)
  then show ?thesis using run_atD(3) [OF r(3)] by (auto simp: run_inv_def)
qed

section \<open>Tampering and restoring\<close>

text \<open>
  C8. A run record is tamper evident: two valid records with the same integrity digest have the
  same content (everything but the digest itself) up to the order of keys, unless the encoded
  texts of these two records are different texts with the same digest.
\<close>

theorem run_record_tamper_evident:
  assumes "record_violations sha op r = Inr []" and "record_violations sha op r' = Inr []"
    and "dget r ''integrity_sha256'' = dget r' ''integrity_sha256''"
    and "wf_py (PDict (dpop r ''integrity_sha256''))" and "wf_py (PDict (dpop r' ''integrity_sha256''))"
  shows "canon (PDict (dpop r ''integrity_sha256'')) = canon (PDict (dpop r' ''integrity_sha256'')) \<or>
    texts_collide sha (PDict (dpop r ''integrity_sha256'')) (PDict (dpop r' ''integrity_sha256''))"
  using assms valid_record_sealed [OF assms(1)] valid_record_sealed [OF assms(2)]
  by (intro record_seal.same_claim) (simp_all del: wf_py.simps)

definition sample_legacy :: dict where
  "sample_legacy = [(''artifact_schema'', PStr LEGACY_VERSION), (''service_id'', PStr ''comprehensive''),
     (''identity'', PDict [(''run_id'', PStr ''r''), (''repository'', PStr ''o''), (''commit_sha'', PStr ''c''),
        (''evidence_ledger_id'', PStr ''l''), (''customer_id'', PStr ''u''), (''project_id'', PStr ''p'')]),
     (''status'', PStr ''ready''), (''completed_stages'', PList []), (''stage_results'', PDict []),
     (''progress_percent'', PFloat 0 0), (''client_delivery_allowed'', PBool False),
     (''human_review_required'', PBool True), (''terminal'', PBool False)]"

text \<open>The same record with its keys in the opposite order, and both sealed.\<close>

definition reversed_legacy :: dict where
  "reversed_legacy = rev sample_legacy"

lemma fresh_legacy_valid:
  assumes "dget r ''artifact_schema'' = PStr LEGACY_VERSION" and "identity_violations r False = []"
    and "unreviewed r" and "at_stage 0 r" and "dget r ''integrity_sha256'' = PStr (record_hash sha r)"
    and "truthy (dget r ''terminal'') \<longleftrightarrow> record_status r \<in> set TERMINAL_STATUSES"
  shows "record_violations sha op r = Inr []"
  using assms unreviewed_parts [OF assms(3)] at_stage_progress [OF assms(4)]
  by (simp add: valid_record_parts evidence_violations_def seal_violations_def)

lemma legacy_sample_valid:
  assumes read: "\<And>k. k \<noteq> ''integrity_sha256'' \<Longrightarrow> dget r k = dget sample_legacy k"
  shows "dget r ''artifact_schema'' = PStr LEGACY_VERSION" "identity_violations r False = []"
    "unreviewed r" "at_stage 0 r"
    "truthy (dget r ''terminal'') \<longleftrightarrow> record_status r \<in> set TERMINAL_STATUSES"
proof -
  show "dget r ''artifact_schema'' = PStr LEGACY_VERSION"
    by (simp add: read sample_legacy_def)
  show "identity_violations r False = []"
    by (simp add: identity_violations_def read sample_legacy_def RECORD_IDENTITY_FIELDS_def py_strip_def is_space_def)
  have status: "record_status r = ''ready''" by (simp add: record_status_def read sample_legacy_def py_lower_run_statuses)
  show "unreviewed r" by (simp add: unreviewed_def status) (simp add: read sample_legacy_def)
  show "at_stage 0 r" by (simp add: at_stage_def percent_value_zero read) (simp add: sample_legacy_def)
  show "truthy (dget r ''terminal'') \<longleftrightarrow> record_status r \<in> set TERMINAL_STATUSES"
    by (simp add: status TERMINAL_STATUSES_def) (simp add: read sample_legacy_def)
qed

lemma sealed_legacy_valid:
  assumes "r \<in> {sample_legacy, reversed_legacy}"
  shows "record_violations sha op (seal_record sha r) = Inr []"
proof -
  have "dget (seal_record sha r) k = dget sample_legacy k" if "k \<noteq> ''integrity_sha256''" for k
  proof -
    have "distinct (map fst sample_legacy)" by (simp add: sample_legacy_def)
    then have "map_of reversed_legacy = map_of sample_legacy"
      unfolding reversed_legacy_def by (subst map_of_inject_set) (simp_all add: rev_map [symmetric])
    then have "dget r k = dget sample_legacy k" using assms unfolding dget_def by auto
    then show ?thesis using that by (simp add: seal_record_read)
  qed
  note facts = legacy_sample_valid [OF this]
  show ?thesis using facts(1-4) seal_record_sealed facts(5) by (rule fresh_legacy_valid)
qed

text \<open>
  Under a hash without collisions (here: the identity on texts) the theorem gives equal content.
\<close>

theorem run_record_tamper_evident_witness:
  "canon (PDict (dpop (seal_record (\<lambda>s. s) sample_legacy) ''integrity_sha256'')) =
   canon (PDict (dpop (seal_record (\<lambda>s. s) reversed_legacy) ''integrity_sha256''))"
proof -
  let ?a = "PDict (dpop (seal_record (\<lambda>s. s) sample_legacy) ''integrity_sha256'')"
  let ?b = "PDict (dpop (seal_record (\<lambda>s. s) reversed_legacy) ''integrity_sha256'')"
  have unsealed: "dpop sample_legacy ''integrity_sha256'' = sample_legacy" "dpop reversed_legacy ''integrity_sha256'' = reversed_legacy"
    by (intro dpop_absent; simp add: reversed_legacy_def sample_legacy_def)+
  have content: "?a = PDict sample_legacy" "?b = PDict reversed_legacy"
    by (simp_all add: seal_record_def field_seal.dpop_seal unsealed)
  have dumps: "json_dumps (PDict sample_legacy) = json_dumps (PDict reversed_legacy)"
    unfolding reversed_legacy_def by (intro json_dumps_perm) (simp_all add: sample_legacy_def)
  have "canon ?a = canon ?b \<or> texts_collide (\<lambda>s. s) ?a ?b"
  proof (rule run_record_tamper_evident)
    show "record_violations (\<lambda>s. s) (\<lambda>_. False) (seal_record (\<lambda>s. s) sample_legacy) = Inr []"
      "record_violations (\<lambda>s. s) (\<lambda>_. False) (seal_record (\<lambda>s. s) reversed_legacy) = Inr []"
      by (simp_all add: sealed_legacy_valid)
    show "dget (seal_record (\<lambda>s. s) sample_legacy) ''integrity_sha256'' =
        dget (seal_record (\<lambda>s. s) reversed_legacy) ''integrity_sha256''"
      by (simp add: seal_record_def record_hash_def unsealed canonical_hash_eq_json_digest json_digest_def dumps)
    show "wf_py ?a" "wf_py ?b" by (simp_all add: content) (simp_all add: reversed_legacy_def sample_legacy_def)
  qed
  then show ?thesis by (simp add: texts_collide_def)
qed

text \<open>The upgrade of a record of the previous version.\<close>

definition upgraded_identity :: "dict \<Rightarrow> dict" where
  "upgraded_identity identity = dsetdefault (dsetdefault identity ''assessment_depth'' (PStr ''not_recorded''))
     ''report_language'' (PStr ''not_recorded'')"

lemma upgraded_identity_read:
  "has_key identity f \<Longrightarrow> dget (upgraded_identity identity) f = dget identity f"
  by (auto simp: upgraded_identity_def dsetdefault_def dget_def split: option.splits)

lemma upgraded_identity_default:
  assumes "f \<in> {''assessment_depth'', ''report_language''}" and "\<not> has_key identity f"
  shows "dget (upgraded_identity identity) f = PStr ''not_recorded''"
  using assms by (auto simp: upgraded_identity_def dsetdefault_def)

lemma identity_violations_fields:
  assumes "identity_violations r False = []" and "f \<in> set RECORD_IDENTITY_FIELDS"
  shows "text_of (dget (as_dict (dget r ''identity'')) f) \<noteq> []"
  using assms unfolding identity_violations_def append_is_Nil_conv concat_map_Nil_iff
  by (auto split: if_splits)

lemma identity_violations_service:
  assumes "identity_violations r strategic = []"
  shows "dget r ''service_id'' = PStr ''comprehensive''"
proof (rule ccontr)
  assume "dget r ''service_id'' \<noteq> PStr ''comprehensive''"
  then have "identity_violations r strategic \<noteq> []" by (simp add: identity_violations_def)
  with assms show False by blast
qed

definition upgraded_record :: "(string \<Rightarrow> string) \<Rightarrow> dict \<Rightarrow> dict \<Rightarrow> dict" where
  "upgraded_record sha r evidence = seal_record sha (dset (dsetdefault (dset (dset r ''identity''
     (PDict (upgraded_identity (as_dict (dget r ''identity''))))) ''human_evidence'' (PDict evidence))
     ''human_review_completed'' (PBool False)) ''artifact_schema'' (PStr VERSION))"

lemma upgraded_record_read:
  "dget (upgraded_record sha r p) ''artifact_schema'' = PStr VERSION"
  "dget (upgraded_record sha r p) ''identity'' = PDict (upgraded_identity (as_dict (dget r ''identity'')))"
  "dget (upgraded_record sha r p) ''human_evidence'' = PDict p"
  "dget (upgraded_record sha r p) ''integrity_sha256'' = PStr (record_hash sha (upgraded_record sha r p))"
  "k \<notin> {''artifact_schema'', ''integrity_sha256'', ''identity'', ''human_evidence'', ''human_review_completed''} \<Longrightarrow>
     dget (upgraded_record sha r p) k = dget r k"
  unfolding upgraded_record_def by (simp_all add: seal_record_read seal_record_sealed dsetdefault_def)

lemma upgraded_review_flag:
  "dget (upgraded_record sha r p) ''human_review_completed'' =
     (if has_key r ''human_review_completed'' then dget r ''human_review_completed'' else PBool False)"
  unfolding upgraded_record_def by (simp add: seal_record_read dsetdefault_def)

lemma progress_violations_cong:
  "dget r ''completed_stages'' = dget r' ''completed_stages'' \<Longrightarrow> dget r ''progress_percent'' = dget r' ''progress_percent'' \<Longrightarrow>
   progress_violations r = progress_violations r'"
  by (simp add: progress_violations_def)

lemma upgraded_record_valid:
  assumes sha: "\<forall>x. sha x \<noteq> []" and valid: "valid_record sha op r" and legacy: "dget r ''artifact_schema'' = PStr LEGACY_VERSION"
    and unrev: "unreviewed r" and evidence: "normalize_strategic_human_evidence sha PNone = Inr p"
    and given: "\<forall>f \<in> {''assessment_depth'', ''report_language''}. has_key (as_dict (dget r ''identity'')) f \<longrightarrow>
        text_of (dget (as_dict (dget r ''identity'')) f) \<noteq> []"
  shows "valid_record sha op (upgraded_record sha r p)" (is "valid_record sha op ?u")
proof -
  let ?id = "as_dict (dget r ''identity'')"
  note parts = valid [unfolded valid_record_parts legacy str_or_empty_PStr, simplified]
  have keep: "dget ?u k = dget r k" if "k \<in> {''service_id'', ''human_review_required'', ''status'', ''terminal'', ''completed_stages'',
      ''progress_percent'', ''review_decision'', ''review_history'', ''client_delivery_allowed'', ''accepted_edition''}" for k
    using that by (intro upgraded_record_read(5)) auto
  have status: "record_status ?u = record_status r" by (simp add: record_status_def keep)
  have unrev': "unreviewed ?u" using unrev by (simp add: unreviewed_def keep status)
  have flds: "text_of (dget (upgraded_identity ?id) f) \<noteq> []"
    if "f \<in> set (RECORD_IDENTITY_FIELDS @ [''assessment_depth'', ''report_language''])" for f
  proof (cases "f \<in> {''assessment_depth'', ''report_language''} \<and> \<not> has_key ?id f")
    case True
    have "py_strip ''not_recorded'' \<noteq> []" by code_simp
    with True upgraded_identity_default show ?thesis by simp
  next
    case False
    have "f \<in> set RECORD_IDENTITY_FIELDS \<or> f \<in> {''assessment_depth'', ''report_language''} \<and> has_key ?id f"
      using False that unfolding set_append by (simp only: Un_iff list.set) blast
    then have nonempty: "text_of (dget ?id f) \<noteq> []"
      using given identity_violations_fields [of r f] parts by blast
    then have "has_key ?id f" by (auto simp: dget_def split: option.splits)
    with nonempty show ?thesis by (simp add: upgraded_identity_read)
  qed
  have "identity_violations ?u strategic = []" for strategic
  proof (rule identity_violations_none)
    show "dget ?u ''service_id'' = PStr ''comprehensive''" "dget ?u ''human_review_required'' = PBool True"
      using parts identity_violations_review [of r False] identity_violations_service [of r False] by (simp_all add: keep)
    show "\<forall>f \<in> set (RECORD_IDENTITY_FIELDS @ [''assessment_depth'', ''report_language'']).
        text_of (dget (as_dict (dget ?u ''identity'')) f) \<noteq> []"
      unfolding upgraded_record_read(2) as_dict_PDict using flds by blast
  qed
  moreover have "evidence_violations sha ?u strategic = []" for strategic
    using normalized_evidence_verifies [OF sha evidence] evidence
    by (auto simp: evidence_violations_def upgraded_record_read(3) evidence_package_keys elim!: normalize_evidenceE)
  moreover have "seal_violations sha ?u = []"
    using parts by (simp add: seal_violations_def upgraded_record_read(4) status keep split: if_splits)
  moreover have "progress_violations ?u = Inr []"
    using parts progress_violations_cong [of ?u r] by (simp add: keep)
  ultimately show ?thesis using unreviewed_parts [OF unrev'] by (simp add: valid_record_parts)
qed

text \<open>
  C9. What restoring does to a valid record that has a \<open>stage_results\<close> entry: a record of the
  current version is restored unchanged. A record of the previous version that was not reviewed,
  and whose identity does not hold a blank depth or language, is upgraded to a valid record of
  the current version: its identity fields are kept and a missing depth or language reads
  \<open>not_recorded\<close>; its human evidence, whatever it held, is replaced by the empty package; the
  review flag is kept or set to false; the schema and the digest are new; every other field is
  the retained one.
\<close>

theorem restore_keeps_record:
  assumes sha: "\<forall>x. sha x \<noteq> []" and valid: "record_violations sha op r = Inr []" and stages: "has_key r ''stage_results''"
  shows "(dget r ''artifact_schema'' \<noteq> PStr LEGACY_VERSION \<longrightarrow> restore_comprehensive_run_record sha op r = Inr r) \<and>
    (dget r ''artifact_schema'' = PStr LEGACY_VERSION \<and> unreviewed r \<and>
     (\<forall>f \<in> {''assessment_depth'', ''report_language''}. has_key (as_dict (dget r ''identity'')) f \<longrightarrow>
        text_of (dget (as_dict (dget r ''identity'')) f) \<noteq> []) \<longrightarrow>
     (\<exists>r' p. restore_comprehensive_run_record sha op r = Inr r' \<and> record_violations sha op r' = Inr [] \<and>
       dget r' ''artifact_schema'' = PStr VERSION \<and>
       dget r' ''identity'' = PDict (upgraded_identity (as_dict (dget r ''identity''))) \<and>
       (\<forall>f. has_key (as_dict (dget r ''identity'')) f \<longrightarrow>
          dget (as_dict (dget r' ''identity'')) f = dget (as_dict (dget r ''identity'')) f) \<and>
       normalize_strategic_human_evidence sha PNone = Inr p \<and> dget r' ''human_evidence'' = PDict p \<and>
       dget r' ''human_review_completed'' =
         (if has_key r ''human_review_completed'' then dget r ''human_review_completed'' else PBool False) \<and>
       (\<forall>k. k \<notin> {''artifact_schema'', ''integrity_sha256'', ''identity'', ''human_evidence'', ''human_review_completed''} \<longrightarrow>
          dget r' k = dget r k)))"
    (is "(_ \<longrightarrow> ?same) \<and> (?legacy \<and> ?unrev \<and> ?given \<longrightarrow> ?up)")
proof -
  have copy: "copy_record_for_update r = r"
    using stages by (auto simp: copy_record_for_update_def dsetdefault_def)
  have ?same if "dget r ''artifact_schema'' \<noteq> PStr LEGACY_VERSION"
    using that valid by (simp add: restore_comprehensive_run_record_def copy require_valid_def Let_def)
  moreover have ?up if legacy: ?legacy and unrev: ?unrev and given: ?given
  proof -
    obtain p where p: "normalize_strategic_human_evidence sha PNone = Inr p" using normalize_evidence_none by blast
    have ok: "valid_record sha op (upgraded_record sha r p)"
      using sha valid legacy unrev p given by (rule upgraded_record_valid)
    have "restore_comprehensive_run_record sha op r = Inr (upgraded_record sha r p)"
      unfolding restore_comprehensive_run_record_def copy require_valid_def Let_def
        upgraded_identity_def [symmetric] upgraded_record_def [symmetric]
      by (simp only: valid legacy p ok bind_res_simps simp_thms if_True if_False)
    moreover have "\<forall>f. has_key (as_dict (dget r ''identity'')) f \<longrightarrow>
        dget (as_dict (dget (upgraded_record sha r p) ''identity'')) f = dget (as_dict (dget r ''identity'')) f"
      unfolding upgraded_record_read(2) as_dict_PDict using upgraded_identity_read by blast
    moreover have "\<forall>k. k \<notin> {''artifact_schema'', ''integrity_sha256'', ''identity'', ''human_evidence'',
        ''human_review_completed''} \<longrightarrow> dget (upgraded_record sha r p) k = dget r k"
      by (intro allI impI upgraded_record_read(5))
    ultimately show ?up
      using ok p upgraded_record_read(1,2,3) upgraded_review_flag
      by (intro exI [of _ "upgraded_record sha r p"] exI [of _ p] conjI) assumption+
  qed
  ultimately show ?thesis by blast
qed

theorem restore_keeps_record_witness:
  "\<exists>r. restore_comprehensive_run_record (\<lambda>_. ''d'') (\<lambda>_. False) (seal_record (\<lambda>_. ''d'') sample_legacy) = Inr r \<and>
     dget r ''artifact_schema'' = PStr VERSION \<and> record_violations (\<lambda>_. ''d'') (\<lambda>_. False) r = Inr [] \<and>
     dget (as_dict (dget r ''identity'')) ''repository'' = PStr ''o''"
proof -
  let ?r = "seal_record (\<lambda>_. ''d'') sample_legacy"
  have valid: "record_violations (\<lambda>_. ''d'') (\<lambda>_. False) ?r = Inr []" by (simp add: sealed_legacy_valid)
  have key: "has_key ?r ''stage_results''" by (simp add: seal_record_def sample_legacy_def)
  have ident: "dget ?r ''identity'' = dget sample_legacy ''identity''" by (simp add: seal_record_read)
  have given: "\<forall>f \<in> {''assessment_depth'', ''report_language''}. has_key (as_dict (dget ?r ''identity'')) f \<longrightarrow>
      text_of (dget (as_dict (dget ?r ''identity'')) f) \<noteq> []"
    unfolding ident by (simp add: sample_legacy_def)
  have repo: "has_key (as_dict (dget ?r ''identity'')) ''repository''"
      "dget (as_dict (dget ?r ''identity'')) ''repository'' = PStr ''o''"
    unfolding ident by (simp_all add: sample_legacy_def)
  have "unreviewed ?r" "dget ?r ''artifact_schema'' = PStr LEGACY_VERSION"
    by (rule legacy_sample_valid, simp add: seal_record_read)+
  with restore_keeps_record [of "\<lambda>_. ''d''" "\<lambda>_. False" ?r] valid key given repo show ?thesis by auto
qed

end
