(* ===== verification/RunStore.thy ===== *)
theory RunStore
  imports StoreIntake StoreJobs RunLifecycle
begin

text \<open>
  The store of run records (\<open>nico/comprehensive_run_store.py\<close>): five tables, every write revalidates
  the record, a save needs the revision it was computed from, the review history is committed
  beside the record and may only grow, and a publication and the lease of its renderer are
  one transaction. A transaction is one step: what other connections do happens before or after it.
\<close>

section \<open>Tables\<close>

record run_row =
  rw_customer_id :: string
  rw_project_id :: string
  rw_repository :: string
  rw_commit_sha :: string
  rw_ledger_id :: string
  rw_status :: string
  rw_revision :: int
  rw_terminal :: bool
  rw_integrity :: string
  rw_updated_at :: string
  rw_payload :: string

record projection_row =
  pj_revision :: int
  pj_run_integrity :: string
  pj_sha256 :: string
  pj_updated_at :: string
  pj_projection :: string

record store_db =
  db_runs :: "(string \<times> run_row) list"
  db_commitments :: "(string \<times> int \<times> string) list"
  db_projections :: "(string \<times> projection_row) list"
  db_jobs :: job_table
  db_intake :: intake_table

text \<open>
  What the store is given: \<open>zlib\<close>, the hash function, the predicate for operator deliveries of the record
  validation, and the projection builder that the request layer binds.
\<close>

record ('c, 'd) store_env =
  se_zlib :: "('c, 'd) zlib"
  se_sha :: "string \<Rightarrow> string"
  se_operator :: "dict \<Rightarrow> bool"
  se_builder :: "(dict \<Rightarrow> py res) option"

text \<open>A transaction that raises is rolled back.\<close>

definition transact :: "store_db \<Rightarrow> ('a \<times> store_db) res \<Rightarrow> ('a, store_db) tx" where
  "transact db m = (case m of Inl e \<Rightarrow> (Inl e, db) | Inr (x, db') \<Rightarrow> (Inr x, db'))"

text \<open>A text column is bound to a string; the production dialect refuses a value of another type.\<close>

definition sql_text :: "py \<Rightarrow> string res" where
  "sql_text v = (case v of PStr s \<Rightarrow> Inr s | _ \<Rightarrow> Inl (DatabaseError ''text column''))"

section \<open>The commitment to the review history\<close>

definition store_history :: "dict \<Rightarrow> py list res" where
  "store_history rec =
    (case dget rec ''review_history'' of
       PNone \<Rightarrow> Inr []
     | PList items \<Rightarrow> if list_all is_dict items then Inr items
         else Inl (ValueError ''review_history_commitment_payload_invalid'')
     | _ \<Rightarrow> Inl (ValueError ''review_history_commitment_payload_invalid''))"

definition review_history_sha256 :: "(string \<Rightarrow> string) \<Rightarrow> py list \<Rightarrow> string" where
  "review_history_sha256 sha history = sha (utf8 (json_dumps (PList history)))"

definition decode_run_payload :: "('c, 'd) store_env \<Rightarrow> py \<Rightarrow> dict res" where
  "decode_run_payload env payload =
    bind_res (decode_json_object_payload payload) (decode_run_storage (se_zlib env) (se_sha env))"

definition assert_review_history_commitment ::
  "(string \<Rightarrow> string) \<Rightarrow> dict \<Rightarrow> int \<times> string \<Rightarrow> bool \<Rightarrow> py list res" where
  "assert_review_history_commitment sha rec commitment allow_append =
    (let committed_count = fst commitment; committed_digest = py_casefold (py_strip (snd commitment)) in
     bind_res (store_history rec) (\<lambda>history.
       if committed_count < 0 \<or> int (length history) < committed_count
       then Inl (ValueError ''review_history_commitment_cannot_be_truncated'')
       else if review_history_sha256 sha (take (nat committed_count) history) \<noteq> committed_digest
       then Inl (ValueError ''review_history_commitment_prefix_mismatch'')
       else if \<not> allow_append \<and> int (length history) \<noteq> committed_count
       then Inl (ValueError ''review_history_commitment_uncommitted_events'')
       else Inr history))"

definition initialize_missing_commitment ::
  "('c, 'd) store_env \<Rightarrow> string \<Rightarrow> py \<Rightarrow> store_db \<Rightarrow> ((int \<times> string) \<times> store_db) res" where
  "initialize_missing_commitment env run_id payload db =
    (let normalized = py_strip run_id in
     if normalized = [] then Inl (ValueError ''review_history_commitment_run_id_required'')
     else
       bind_res (bind_res (decode_run_payload env payload) store_history) (\<lambda>history.
       let history_digest = review_history_sha256 (se_sha env) history;
           db' = (if map_of (db_commitments db) normalized = None
             then db\<lparr>db_commitments := AList.update normalized (int (length history), history_digest) (db_commitments db)\<rparr>
             else db) in
       case map_of (db_commitments db') normalized of
         None \<Rightarrow> Inl (ValueError ''review_history_commitment_backfill_conflict'')
       | Some (n, digest) \<Rightarrow>
           if n \<noteq> int (length history) \<or> py_casefold (py_strip digest) \<noteq> history_digest
           then Inl (ValueError ''review_history_commitment_backfill_conflict'')
           else Inr ((n, digest), db')))"

text \<open>The commitment of a row read with its \<open>LEFT JOIN\<close>, or a new one.\<close>

definition commitment_of ::
  "('c, 'd) store_env \<Rightarrow> string \<Rightarrow> string \<Rightarrow> py \<Rightarrow> store_db \<Rightarrow> ((int \<times> string) \<times> store_db) res" where
  "commitment_of env row_id run_id payload db =
    (case map_of (db_commitments db) row_id of
       Some commitment \<Rightarrow> Inr (commitment, db)
     | None \<Rightarrow> initialize_missing_commitment env run_id payload db)"

section \<open>Writing\<close>

definition copy_record_for_store :: "dict \<Rightarrow> dict" where
  "copy_record_for_store rec = dsetdefault rec ''stage_results'' (PDict [])"

definition validated_copy :: "('c, 'd) store_env \<Rightarrow> dict \<Rightarrow> dict res" where
  "validated_copy env rec =
    (let canonical = copy_record_for_store rec in
     bind_res (require_valid (se_sha env) (se_operator env) ''invalid_run_record'' canonical) (\<lambda>_. Inr canonical))"

definition build_browser_projection :: "('c, 'd) store_env \<Rightarrow> dict \<Rightarrow> dict option res" where
  "build_browser_projection env rec =
    (case se_builder env of
       None \<Rightarrow> Inr None
     | Some builder \<Rightarrow>
         bind_res (builder rec) (\<lambda>projection.
           case projection of
             PDict d \<Rightarrow> Inr (Some d)
           | _ \<Rightarrow> Inl (TypeError ''browser_projection_must_be_object'')))"

definition browser_projection_json :: "dict \<Rightarrow> string" where
  "browser_projection_json projection = json_dumps (PDict projection)"

definition browser_projection_sha256 :: "(string \<Rightarrow> string) \<Rightarrow> dict \<Rightarrow> string" where
  "browser_projection_sha256 sha projection = sha (utf8 (browser_projection_json projection))"

text \<open>\<open>record[key]\<close> on the identity, which a valid record holds as a dictionary.\<close>

definition identity_of :: "dict \<Rightarrow> dict res" where
  "identity_of rec = bind_res (dindex rec ''identity'') (\<lambda>v. Inr (as_dict v))"

definition write_browser_projection ::
  "('c, 'd) store_env \<Rightarrow> dict \<Rightarrow> dict option \<Rightarrow> store_db \<Rightarrow> store_db res" where
  "write_browser_projection env rec projection db =
    (case projection of
       None \<Rightarrow> Inr db
     | Some p \<Rightarrow>
         bind_res (identity_of rec) (\<lambda>identity.
         bind_res (dindex identity ''run_id'') (\<lambda>run_id.
         bind_res (bind_res (dindex rec ''revision'') py_int) (\<lambda>revision.
         bind_res (dindex rec ''integrity_sha256'') (\<lambda>integrity.
         bind_res (dindex rec ''updated_at'') (\<lambda>updated_at.
           Inr (db\<lparr>db_projections := AList.update (py_str run_id)
             \<lparr>pj_revision = revision, pj_run_integrity = py_str integrity,
              pj_sha256 = browser_projection_sha256 (se_sha env) p, pj_updated_at = py_str updated_at,
              pj_projection = browser_projection_json p\<rparr> (db_projections db)\<rparr>)))))))"

text \<open>The tuple of \<open>_row_values\<close>: the text columns as they are, before they are bound.\<close>

record row_values =
  v_texts :: "py list"
  v_revision :: int
  v_terminal :: bool
  v_payload :: string

definition compute_row_values :: "('c, 'd) store_env \<Rightarrow> dict \<Rightarrow> row_values res" where
  "compute_row_values env rec =
    bind_res (identity_of rec) (\<lambda>identity.
    bind_res (encode_run_storage (se_zlib env) (se_sha env) rec) (\<lambda>payload.
    bind_res (map_res (dindex identity) [''run_id'', ''customer_id'', ''project_id'', ''repository'', ''commit_sha'',
      ''evidence_ledger_id'']) (\<lambda>identities.
    bind_res (dindex rec ''status'') (\<lambda>status.
    bind_res (bind_res (dindex rec ''revision'') py_int) (\<lambda>revision.
    bind_res (dindex rec ''terminal'') (\<lambda>terminal.
    bind_res (dindex rec ''integrity_sha256'') (\<lambda>integrity.
    bind_res (dindex rec ''updated_at'') (\<lambda>updated_at.
      Inr \<lparr>v_texts = identities @ [status, integrity, updated_at], v_revision = revision,
        v_terminal = truthy terminal, v_payload = payload\<rparr>))))))))"

definition bound_row :: "row_values \<Rightarrow> (string \<times> run_row) res" where
  "bound_row vals =
    bind_res (map_res sql_text (v_texts vals)) (\<lambda>texts.
      case texts of
        [run_id, customer, project, repository, commit, ledger, status, integrity, updated_at] \<Rightarrow>
          Inr (run_id, \<lparr>rw_customer_id = customer, rw_project_id = project, rw_repository = repository,
            rw_commit_sha = commit, rw_ledger_id = ledger, rw_status = status, rw_revision = v_revision vals,
            rw_terminal = v_terminal vals, rw_integrity = integrity, rw_updated_at = updated_at,
            rw_payload = v_payload vals\<rparr>)
      | _ \<Rightarrow> Inl (DatabaseError ''parameters''))"

text \<open>The statements of \<open>create\<close>, and then the handler that turns every exception into a conflict.\<close>

definition insert_run ::
  "('c, 'd) store_env \<Rightarrow> dict \<Rightarrow> row_values \<Rightarrow> py list \<Rightarrow> dict option \<Rightarrow> store_db \<Rightarrow> store_db res" where
  "insert_run env canonical vals history projection db =
    bind_res (bound_row vals) (\<lambda>(run_id, row).
      if map_of (db_runs db) run_id \<noteq> None then Inl (DatabaseError ''primary key'')
      else if map_of (db_commitments db) run_id \<noteq> None then Inl (DatabaseError ''primary key'')
      else write_browser_projection env canonical projection
        (db\<lparr>db_runs := AList.update run_id row (db_runs db),
            db_commitments := AList.update run_id (int (length history), review_history_sha256 (se_sha env) history)
              (db_commitments db)\<rparr>))"

definition create_run :: "('c, 'd) store_env \<Rightarrow> dict \<Rightarrow> store_db \<Rightarrow> (dict, store_db) tx" where
  "create_run env rec db = transact db (
    bind_res (validated_copy env rec) (\<lambda>canonical.
    bind_res (build_browser_projection env canonical) (\<lambda>projection.
    bind_res (identity_of canonical) (\<lambda>identity.
    bind_res (compute_row_values env canonical) (\<lambda>vals.
    bind_res (store_history canonical) (\<lambda>history.
      case insert_run env canonical vals history projection db of
        Inl e \<Rightarrow> Inl (RunConflict (''run_already_exists:'' @ py_str (dget identity ''run_id'')))
      | Inr db' \<Rightarrow> Inr (copy_record_for_store canonical, db')))))))"

section \<open>Reading\<close>

definition restore_row ::
  "('c, 'd) store_env \<Rightarrow> string \<Rightarrow> run_row \<Rightarrow> store_db \<Rightarrow> (dict \<times> store_db) res" where
  "restore_row env run_id row db =
    bind_res (decode_run_payload env (PStr (rw_payload row))) (\<lambda>payload.
    bind_res (commitment_of env run_id run_id (PDict payload) db) (\<lambda>(commitment, db').
    bind_res (assert_review_history_commitment (se_sha env) payload commitment False) (\<lambda>_.
    bind_res (restore_comprehensive_run_record (se_sha env) (se_operator env) payload) (\<lambda>restored.
      Inr (restored, db')))))"

definition load_run :: "('c, 'd) store_env \<Rightarrow> string \<Rightarrow> store_db \<Rightarrow> (dict, store_db) tx" where
  "load_run env run_id db = transact db (
    let normalized = py_strip run_id in
    if normalized = [] then Inl (ValueError ''run_id_required'')
    else case map_of (db_runs db) normalized of
        None \<Rightarrow> Inl (RunNotFound normalized)
      | Some row \<Rightarrow> restore_row env normalized row db)"

definition load_without_maintenance :: "('c, 'd) store_env \<Rightarrow> string \<Rightarrow> store_db \<Rightarrow> dict res" where
  "load_without_maintenance env run_id db =
    (let normalized = py_strip run_id in
     if normalized = [] then Inl (ValueError ''run_id_required'')
     else case map_of (db_runs db) normalized of
         None \<Rightarrow> Inl (RunNotFound normalized)
       | Some row \<Rightarrow>
           (case map_of (db_commitments db) normalized of
              None \<Rightarrow> Inl (ValueError ''capture_diagnostic_review_commitment_unavailable'')
            | Some commitment \<Rightarrow>
                bind_res (decode_run_payload env (PStr (rw_payload row))) (\<lambda>payload.
                bind_res (assert_review_history_commitment (se_sha env) payload commitment False) (\<lambda>_.
                  restore_comprehensive_run_record (se_sha env) (se_operator env) payload))))"

text \<open>\<open>ORDER BY updated_at DESC, run_id DESC\<close>.\<close>

definition recent_order :: "(string \<times> run_row) list \<Rightarrow> (string \<times> run_row) list" where
  "recent_order rows = rev (sort_key (\<lambda>(run_id, row). rw_updated_at row) (sort_key fst rows))"

fun restore_rows ::
  "('c, 'd) store_env \<Rightarrow> (string \<times> run_row) list \<Rightarrow> store_db \<Rightarrow> (dict list \<times> store_db) res" where
  "restore_rows env [] db = Inr ([], db)"
| "restore_rows env ((run_id, row) # rows) db =
     bind_res (restore_row env run_id row db) (\<lambda>(restored, db').
     bind_res (restore_rows env rows db') (\<lambda>(others, db'').
       Inr (restored # others, db'')))"

definition list_recent ::
  "('c, 'd) store_env \<Rightarrow> string \<Rightarrow> string \<Rightarrow> int \<Rightarrow> store_db \<Rightarrow> (dict list, store_db) tx" where
  "list_recent env customer_id project_id limit db = transact db (
    let customer = py_strip customer_id; project = py_strip project_id in
    if customer = [] \<or> project = [] then Inl (ValueError ''customer_and_project_required'')
    else restore_rows env
      (take (nat (max 1 (min 200 limit)))
        (recent_order (filter (\<lambda>(run_id, row). rw_customer_id row = customer \<and> rw_project_id row = project) (db_runs db)))) db)"

section \<open>Saving\<close>

definition PUBLICATION_STAGE_ID :: string where
  "PUBLICATION_STAGE_ID = ''final_comprehensive_report_generation''"

text \<open>\<open>value.get(key, default)\<close>.\<close>

definition get_or :: "py \<Rightarrow> string \<Rightarrow> py \<Rightarrow> py res" where
  "get_or v key fallback =
    (case v of
       PDict d \<Rightarrow> Inr (case map_of d key of None \<Rightarrow> fallback | Some x \<Rightarrow> x)
     | _ \<Rightarrow> Inl (AttributeError (quoted (type_name v) @ '' object has no attribute 'get' '')))"

text \<open>\<open>text in value\<close>.\<close>

definition py_contains :: "string \<Rightarrow> py \<Rightarrow> bool res" where
  "py_contains x v =
    (case v of
       PList items \<Rightarrow> Inr (list_ex (py_eq (PStr x)) items)
     | PDict d \<Rightarrow> Inr (has_key d x)
     | PStr s \<Rightarrow> Inr (list_ex (\<lambda>i. take (length x) (drop i s) = x) [0..<Suc (length s)])
     | _ \<Rightarrow> Inl (TypeError (''argument of type '' @ quoted (type_name v) @ '' is not iterable'')))"

definition publication_status :: "dict \<Rightarrow> string option \<Rightarrow> (string \<times> string) option res" where
  "publication_status canonical publication_lease_id =
    (case publication_lease_id of
       None \<Rightarrow> Inr None
     | Some lease \<Rightarrow>
         bind_res (bind_res (get_or (PDict canonical) ''stage_results'' (PDict []))
             (\<lambda>results. get_or results PUBLICATION_STAGE_ID (PDict []))) (\<lambda>result.
         if lease = [] then Inl (ValueError ''final_report_publication_lease_mismatch'')
         else
           bind_res (bind_res (get_or result ''stage_execution'' (PDict []))
               (\<lambda>execution. get_or execution ''publication_lease_id'' PNone)) (\<lambda>held.
           if held \<noteq> PStr lease then Inl (ValueError ''final_report_publication_lease_mismatch'')
           else
             bind_res (bind_res (get_or (PDict canonical) ''completed_stages'' (PList []))
                 (py_contains PUBLICATION_STAGE_ID)) (\<lambda>completed.
               Inr (Some (lease, if completed then ''complete'' else ''blocked''))))))"

text \<open>The statements of \<open>save\<close>: canonical completion and the renderer lease are one durable fact.\<close>

definition publish_lease ::
  "rat \<Rightarrow> string \<Rightarrow> string \<Rightarrow> (string \<times> string) option \<Rightarrow> job_table \<Rightarrow> job_table res" where
  "publish_lease now run_id updated_at publication jobs =
    (case publication of
       None \<Rightarrow> Inr jobs
     | Some (lease, status) \<Rightarrow>
         (case publish_job lease run_id status now updated_at jobs of
            None \<Rightarrow> Inl (RunConflict ''final_report_publication_lease_inactive'')
          | Some jobs' \<Rightarrow> Inr jobs'))"

definition update_persisted ::
  "('c, 'd) store_env \<Rightarrow> rat \<Rightarrow> dict \<Rightarrow> string \<Rightarrow> run_row \<Rightarrow> row_values \<Rightarrow> int \<Rightarrow> (string \<times> string) option \<Rightarrow>
   dict option \<Rightarrow> store_db \<Rightarrow> store_db res" where
  "update_persisted env now canonical run_id persisted vals expected publication projection db =
    bind_res (commitment_of env run_id run_id (PStr (rw_payload persisted)) db) (\<lambda>(commitment, db1).
    bind_res (assert_review_history_commitment (se_sha env) canonical commitment True) (\<lambda>history.
    bind_res (bound_row vals) (\<lambda>(_, row).
    if rw_revision persisted \<noteq> expected
    then Inl (RunConflict (''stale_revision:'' @ run_id @ '':expected:'' @ int_str expected))
    else if map_of (db_commitments db1) run_id \<noteq> Some commitment
    then Inl (RunConflict (''review_history_commitment_conflict:'' @ run_id))
    else
      bind_res (dindex canonical ''updated_at'') (\<lambda>updated_at.
      bind_res (publish_lease now run_id (py_str updated_at) publication (db_jobs db1)) (\<lambda>jobs.
        write_browser_projection env canonical projection
          (db1\<lparr>db_runs := AList.update run_id row (db_runs db1),
               db_commitments := AList.update run_id
                 (int (length history), review_history_sha256 (se_sha env) history) (db_commitments db1),
               db_jobs := jobs\<rparr>))))))"

definition update_run ::
  "('c, 'd) store_env \<Rightarrow> rat \<Rightarrow> dict \<Rightarrow> py \<Rightarrow> row_values \<Rightarrow> int \<Rightarrow> (string \<times> string) option \<Rightarrow> dict option \<Rightarrow>
   store_db \<Rightarrow> store_db res" where
  "update_run env now canonical run_value vals expected publication projection db =
    bind_res (sql_text run_value) (\<lambda>run_id.
    case map_of (db_runs db) run_id of
      None \<Rightarrow> Inl (RunConflict (''review_history_commitment_missing:'' @ run_id))
    | Some persisted \<Rightarrow>
        update_persisted env now canonical run_id persisted vals expected publication projection db)"

definition save_run ::
  "('c, 'd) store_env \<Rightarrow> rat \<Rightarrow> dict \<Rightarrow> int \<Rightarrow> string option \<Rightarrow> store_db \<Rightarrow> (dict, store_db) tx" where
  "save_run env now rec expected_revision publication_lease_id db = transact db (
    bind_res (validated_copy env rec) (\<lambda>canonical.
    bind_res (build_browser_projection env canonical) (\<lambda>projection.
    bind_res (identity_of canonical) (\<lambda>identity.
    bind_res (publication_status canonical publication_lease_id) (\<lambda>publication.
    bind_res (bind_res (dindex canonical ''revision'') py_int) (\<lambda>current_revision.
    if current_revision \<noteq> expected_revision + 1
    then Inl (RunConflict (''revision_must_advance_once:expected:'' @ int_str (expected_revision + 1) @
      '':actual:'' @ int_str current_revision))
    else
      bind_res (compute_row_values env canonical) (\<lambda>vals.
      bind_res (dindex identity ''run_id'') (\<lambda>run_value.
      bind_res (update_run env now canonical run_value vals expected_revision publication projection db) (\<lambda>db'.
        Inr (copy_record_for_store canonical, db'))))))))))"

section \<open>Browser projections\<close>

definition projected_field :: "dict \<Rightarrow> string \<Rightarrow> string" where
  "projected_field projection field =
    (let rec = as_dict (dget projection ''record''); identity = as_dict (dget rec ''identity'') in
     py_strip (if has_key projection field then py_str (dget projection field)
       else py_str (py_or (dget identity field) (PStr []))))"

definition projection_errors :: "string \<Rightarrow> run_row \<Rightarrow> dict \<Rightarrow> unit res" where
  "projection_errors run_id row projection =
    (let response = as_dict (dget projection ''response_projection'') in
     case find (\<lambda>(field, expected). projected_field projection field \<noteq> expected)
         [(''run_id'', run_id), (''customer_id'', rw_customer_id row), (''project_id'', rw_project_id row),
          (''repository'', rw_repository row), (''commit_sha'', rw_commit_sha row)] of
       Some (field, _) \<Rightarrow> Inl (ValueError (''browser_projection_identity_mismatch:'' @ field))
     | None \<Rightarrow>
         bind_res (py_int (py_or (dget projection ''revision'') (PInt (-1)))) (\<lambda>revision.
         if revision \<noteq> rw_revision row then Inl (ValueError ''browser_projection_response_revision_mismatch'')
         else if py_casefold (text_of (dget projection ''integrity_sha256'')) \<noteq> py_casefold (py_strip (rw_integrity row))
         then Inl (ValueError ''browser_projection_response_integrity_mismatch'')
         else if text_of (dget projection ''canonical_status'') \<noteq> rw_status row
         then Inl (ValueError ''browser_projection_status_mismatch'')
         else if truthy (dget projection ''terminal'') \<noteq> rw_terminal row
         then Inl (ValueError ''browser_projection_terminal_mismatch'')
         else if dget response ''browser_projection'' \<noteq> PBool True
         then Inl (ValueError ''browser_projection_contract_missing'')
         else if dget response ''durable_projection'' \<noteq> PBool True
         then Inl (ValueError ''browser_projection_durability_contract_missing'')
         else Inr ()))"

text \<open>The inner join with the row of the run, and the checks in their order.\<close>

definition load_browser_projection :: "('c, 'd) store_env \<Rightarrow> string \<Rightarrow> store_db \<Rightarrow> dict option res" where
  "load_browser_projection env run_id db =
    (let normalized = py_strip run_id in
     if normalized = [] then Inl (ValueError ''run_id_required'')
     else case (map_of (db_projections db) normalized, map_of (db_runs db) normalized) of
         (Some stored, Some row) \<Rightarrow>
           bind_res (decode_json_object_payload (PStr (pj_projection stored))) (\<lambda>projection.
           if py_casefold (py_strip (pj_sha256 stored)) \<noteq> browser_projection_sha256 (se_sha env) projection
           then Inl (ValueError ''browser_projection_hash_mismatch'')
           else if pj_revision stored \<noteq> rw_revision row
           then Inl (ValueError ''browser_projection_revision_mismatch'')
           else if py_casefold (py_strip (pj_run_integrity stored)) \<noteq> py_casefold (py_strip (rw_integrity row))
           then Inl (ValueError ''browser_projection_run_integrity_mismatch'')
           else bind_res (projection_errors normalized row projection) (\<lambda>_. Inr (Some projection)))
       | _ \<Rightarrow> Inr None)"

definition swap_projection ::
  "('c, 'd) store_env \<Rightarrow> string \<Rightarrow> dict \<Rightarrow> dict \<Rightarrow> int \<Rightarrow> string \<Rightarrow> store_db \<Rightarrow> store_db" where
  "swap_projection env run_id projection expected revision integrity db =
    (case (map_of (db_projections db) run_id, map_of (db_runs db) run_id) of
       (Some stored, Some row) \<Rightarrow>
         if pj_sha256 stored = browser_projection_sha256 (se_sha env) expected \<and> pj_revision stored = revision \<and>
            pj_run_integrity stored = integrity \<and> rw_revision row = revision \<and> rw_integrity row = integrity
         then db\<lparr>db_projections := AList.update run_id
           (stored\<lparr>pj_projection := browser_projection_json projection,
                   pj_sha256 := browser_projection_sha256 (se_sha env) projection\<rparr>) (db_projections db)\<rparr>
         else db
     | _ \<Rightarrow> db)"

definition refresh_browser_projection ::
  "('c, 'd) store_env \<Rightarrow> string \<Rightarrow> dict \<Rightarrow> store_db \<Rightarrow> (dict option, store_db) tx" where
  "refresh_browser_projection env run_id expected db =
    (case load_run env run_id db of
       (Inl e, db1) \<Rightarrow> (Inl e, db1)
     | (Inr rec, db1) \<Rightarrow>
         (case build_browser_projection env rec of
            Inl e \<Rightarrow> (Inl e, db1)
          | Inr None \<Rightarrow> (Inr None, db1)
          | Inr (Some projection) \<Rightarrow>
              (case bind_res (bind_res (dindex rec ''revision'') py_int) (\<lambda>revision.
                  bind_res (dindex rec ''integrity_sha256'') (\<lambda>integrity. Inr (revision, py_str integrity))) of
                 Inl e \<Rightarrow> (Inl e, db1)
               | Inr (revision, integrity) \<Rightarrow>
                   (let db2 = swap_projection env run_id projection expected revision integrity db1
                    in (load_browser_projection env run_id db2, db2)))))"

section \<open>What a transaction changes\<close>

lemma transact_Inr: "transact db m = (Inr x, db') \<longleftrightarrow> m = Inr (x, db')"
  by (auto simp: transact_def split: sum.splits)

lemma transact_snd: "snd (transact db m) = (case m of Inl e \<Rightarrow> db | Inr (x, db') \<Rightarrow> db')"
  by (auto simp: transact_def split: sum.splits)

lemma case_sum_Inr: "(case m of Inl e \<Rightarrow> Inl (f e) | Inr x \<Rightarrow> Inr (g x)) = Inr y \<longleftrightarrow> (\<exists>x. m = Inr x \<and> g x = y)"
  by (cases m) auto

lemma sql_text_Inr: "sql_text v = Inr s \<longleftrightarrow> v = PStr s"
  by (auto simp: sql_text_def split: py.splits)

lemma copy_for_store_idem: "copy_record_for_store (copy_record_for_store rec) = copy_record_for_store rec"
  by (simp add: copy_record_for_store_def dsetdefault_def)

text \<open>Reading may only add commitments.\<close>

definition same_rows :: "store_db \<Rightarrow> store_db \<Rightarrow> bool" where
  "same_rows db db' \<longleftrightarrow> db_runs db' = db_runs db \<and> db_projections db' = db_projections db \<and> db_jobs db' = db_jobs db \<and>
     db_intake db' = db_intake db \<and>
     (\<forall>k c. map_of (db_commitments db) k = Some c \<longrightarrow> map_of (db_commitments db') k = Some c)"

lemma same_rows_refl: "same_rows db db"
  by (simp add: same_rows_def)

lemma same_rows_trans: "same_rows db db' \<Longrightarrow> same_rows db' db'' \<Longrightarrow> same_rows db db''"
  by (simp add: same_rows_def)

lemma write_projection_keeps:
  "write_browser_projection env rec projection db = Inr db' \<Longrightarrow>
   db_runs db' = db_runs db \<and> db_commitments db' = db_commitments db \<and> db_jobs db' = db_jobs db \<and> db_intake db' = db_intake db"
  by (auto simp: write_browser_projection_def bind_res_eq_Inr split: option.splits)

lemma initialize_Inr:
  assumes "initialize_missing_commitment env run_id payload db = Inr (commitment, db')"
  shows "same_rows db db'"
    and "map_of (db_commitments db') k = Some c \<Longrightarrow> map_of (db_commitments db) k = Some c \<or> k = py_strip run_id \<and> c = commitment"
    and "\<exists>d history. decode_run_payload env payload = Inr d \<and> store_history d = Inr history \<and>
       fst commitment = int (length history) \<and> py_casefold (py_strip (snd commitment)) = review_history_sha256 (se_sha env) history"
  using assms unfolding initialize_missing_commitment_def Let_def
  by (auto simp: bind_res_eq_Inr map_of_update same_rows_def split: if_split_asm option.split_asm prod.split_asm)

lemma commitment_of_keeps: "commitment_of env row_id run_id payload db = Inr (commitment, db') \<Longrightarrow> same_rows db db'"
  using initialize_Inr(1) same_rows_refl by (fastforce simp: commitment_of_def split: option.split_asm)

lemma restore_row_Inr:
  assumes "restore_row env run_id row db = Inr (rec, db')"
  obtains payload commitment history where "decode_run_payload env (PStr (rw_payload row)) = Inr payload"
    "commitment_of env run_id run_id (PDict payload) db = Inr (commitment, db')"
    "assert_review_history_commitment (se_sha env) payload commitment False = Inr history"
    "restore_comprehensive_run_record (se_sha env) (se_operator env) payload = Inr rec"
proof -
  obtain payload where payload: "decode_run_payload env (PStr (rw_payload row)) = Inr payload"
    using assms by (auto simp: restore_row_def bind_res_eq_Inr)
  obtain commitment db1 where c: "commitment_of env run_id run_id (PDict payload) db = Inr (commitment, db1)"
    using assms by (auto simp: restore_row_def bind_res_eq_Inr payload)
  have "bind_res (assert_review_history_commitment (se_sha env) payload commitment False) (\<lambda>_.
      bind_res (restore_comprehensive_run_record (se_sha env) (se_operator env) payload) (\<lambda>restored.
        Inr (restored, db1))) = Inr (rec, db')"
    using assms by (simp only: restore_row_def payload bind_res_simps c prod.case)
  then obtain history where "assert_review_history_commitment (se_sha env) payload commitment False = Inr history"
    "restore_comprehensive_run_record (se_sha env) (se_operator env) payload = Inr rec" "db1 = db'"
    by (auto simp: bind_res_eq_Inr)
  then show thesis using that payload c by blast
qed

lemma restore_row_keeps: "restore_row env run_id row db = Inr (rec, db') \<Longrightarrow> same_rows db db'"
  by (erule restore_row_Inr) (rule commitment_of_keeps)

lemma restore_rows_keeps: "restore_rows env rows db = Inr (recs, db') \<Longrightarrow> same_rows db db'"
proof (induction env rows db arbitrary: recs db' rule: restore_rows.induct)
  case (2 env run_id row rows db)
  then obtain r db1 others where "restore_row env run_id row db = Inr (r, db1)" "restore_rows env rows db1 = Inr (others, db')"
    by (auto simp: bind_res_eq_Inr)
  then show ?case using restore_row_keeps 2(1) same_rows_trans by fastforce
qed (simp add: same_rows_refl)

lemma bound_row_Inr:
  assumes "compute_row_values env rec = Inr vals" and "bound_row vals = Inr (run_id, row)"
  shows "dget (as_dict (dget rec ''identity'')) ''run_id'' = PStr run_id \<and>
    bind_res (dindex rec ''revision'') py_int = Inr (rw_revision row) \<and> dget rec ''integrity_sha256'' = PStr (rw_integrity row) \<and>
    dget rec ''status'' = PStr (rw_status row) \<and> truthy (dget rec ''terminal'') = rw_terminal row \<and>
    encode_run_storage (se_zlib env) (se_sha env) rec = Inr (rw_payload row)"
proof -
  obtain identity payload identities status revision terminal integrity updated_at where
    c: "identity_of rec = Inr identity" "encode_run_storage (se_zlib env) (se_sha env) rec = Inr payload"
      "map_res (dindex identity) [''run_id'', ''customer_id'', ''project_id'', ''repository'', ''commit_sha'', ''evidence_ledger_id''] = Inr identities"
      "dindex rec ''status'' = Inr status" "bind_res (dindex rec ''revision'') py_int = Inr revision"
      "dindex rec ''terminal'' = Inr terminal" "dindex rec ''integrity_sha256'' = Inr integrity"
      "dindex rec ''updated_at'' = Inr updated_at"
    and vals: "vals = \<lparr>v_texts = identities @ [status, integrity, updated_at], v_revision = revision,
        v_terminal = truthy terminal, v_payload = payload\<rparr>"
    using assms(1) unfolding compute_row_values_def by (simp only: bind_res_eq_Inr) blast
  obtain a b c' d e f where ids: "identities = [a, b, c', d, e, f]" "dindex identity ''run_id'' = Inr a"
    using c(3) by (auto simp: bind_res_eq_Inr)
  have "a = PStr run_id" "status = PStr (rw_status row)" "integrity = PStr (rw_integrity row)"
    "rw_revision row = revision" "rw_terminal row = truthy terminal" "rw_payload row = payload"
    using assms(2) unfolding bound_row_def vals ids(1) by (auto simp: bind_res_eq_Inr sql_text_Inr)
  moreover have "identity = as_dict (dget rec ''identity'')" using c(1) by (auto simp: identity_of_def bind_res_eq_Inr dindex_dget)
  ultimately show ?thesis using c ids(2) dindex_dget by fastforce
qed

lemma validated_copy_Inr:
  "validated_copy env rec = Inr canonical \<longleftrightarrow>
   canonical = copy_record_for_store rec \<and> valid_record (se_sha env) (se_operator env) canonical"
  by (auto simp: validated_copy_def Let_def require_valid_def bind_res_eq_Inr split: if_split_asm)

text \<open>The run id a row is stored under.\<close>

definition run_of :: "dict \<Rightarrow> py" where
  "run_of rec = dget (as_dict (dget rec ''identity'')) ''run_id''"

text \<open>The columns beside the payload repeat fields of the record.\<close>

definition row_columns :: "dict \<Rightarrow> run_row \<Rightarrow> bool" where
  "row_columns r row \<longleftrightarrow> dget r ''status'' = PStr (rw_status row) \<and> dget r ''integrity_sha256'' = PStr (rw_integrity row) \<and>
     truthy (dget r ''terminal'') = rw_terminal row"

lemma create_run_Inr:
  assumes "create_run env rec db = (Inr r, db')"
  obtains run_id row history where
    "r = copy_record_for_store rec" "valid_record (se_sha env) (se_operator env) r" "run_of r = PStr run_id"
    "map_of (db_runs db) run_id = None" "map_of (db_commitments db) run_id = None" "store_history r = Inr history"
    "db_runs db' = AList.update run_id row (db_runs db)"
    "db_commitments db' = AList.update run_id (int (length history), review_history_sha256 (se_sha env) history) (db_commitments db)"
    "db_jobs db' = db_jobs db" "db_intake db' = db_intake db"
    "encode_run_storage (se_zlib env) (se_sha env) r = Inr (rw_payload row)"
    "bind_res (dindex r ''revision'') py_int = Inr (rw_revision row)" "row_columns r row"
proof -
  obtain projection identity vals history where
    v: "validated_copy env rec = Inr r" and c: "compute_row_values env r = Inr vals" and h: "store_history r = Inr history"
    and ins: "insert_run env r vals history projection db = Inr db'"
    using assms unfolding create_run_def transact_Inr bind_res_eq_Inr case_sum_Inr validated_copy_Inr
    by (auto simp: copy_for_store_idem)
  obtain run_id row where b: "bound_row vals = Inr (run_id, row)" "map_of (db_runs db) run_id = None"
      "map_of (db_commitments db) run_id = None"
    and w: "write_browser_projection env r projection (db\<lparr>db_runs := AList.update run_id row (db_runs db),
      db_commitments := AList.update run_id (int (length history), review_history_sha256 (se_sha env) history)
        (db_commitments db)\<rparr>) = Inr db'"
    using ins unfolding insert_run_def by (auto simp: bind_res_eq_Inr simp del: not_None_eq not_Some_eq split: if_split_asm)
  show thesis
    using b(2,3) h bound_row_Inr [OF c b(1)] write_projection_keeps [OF w]
    by (intro that [of run_id history row] v [unfolded validated_copy_Inr, THEN conjunct1] v [unfolded validated_copy_Inr, THEN conjunct2])
      (simp_all add: run_of_def row_columns_def)
qed

lemma save_run_Inr:
  assumes "save_run env now rec expected lease db = (Inr r, db')"
  obtains run_id persisted row commitment db1 history publication where
    "r = copy_record_for_store rec" "valid_record (se_sha env) (se_operator env) r" "run_of r = PStr run_id"
    "map_of (db_runs db) run_id = Some persisted" "rw_revision persisted = expected"
    "commitment_of env run_id run_id (PStr (rw_payload persisted)) db = Inr (commitment, db1)"
    "assert_review_history_commitment (se_sha env) r commitment True = Inr history"
    "map_of (db_commitments db1) run_id = Some commitment"
    "db_runs db' = AList.update run_id row (db_runs db)"
    "db_commitments db' = AList.update run_id (int (length history), review_history_sha256 (se_sha env) history) (db_commitments db1)"
    "rw_revision row = expected + 1" "encode_run_storage (se_zlib env) (se_sha env) r = Inr (rw_payload row)"
    "bind_res (dindex r ''revision'') py_int = Inr (rw_revision row)"
    "publication_status r lease = Inr publication"
    "case publication of None \<Rightarrow> db_jobs db' = db_jobs db
     | Some (l, status) \<Rightarrow> \<exists>updated. publish_job l run_id status now updated (db_jobs db) = Some (db_jobs db')"
    "db_intake db' = db_intake db" "row_columns r row"
proof -
  obtain projection identity publication vals run_value where
    v: "validated_copy env rec = Inr r" and i: "identity_of r = Inr identity" and p: "publication_status r lease = Inr publication"
    and rev: "bind_res (dindex r ''revision'') py_int = Inr (expected + 1)" and c: "compute_row_values env r = Inr vals"
    and rv: "dindex identity ''run_id'' = Inr run_value"
    and up: "update_run env now r run_value vals expected publication projection db = Inr db'"
    using assms unfolding save_run_def transact_Inr bind_res_eq_Inr validated_copy_Inr
    by (auto simp: copy_for_store_idem bind_res_eq_Inr split: if_split_asm)
  obtain run_id persisted where u: "run_value = PStr run_id" "map_of (db_runs db) run_id = Some persisted"
    and up: "update_persisted env now r run_id persisted vals expected publication projection db = Inr db'"
    using up unfolding update_run_def by (auto simp: bind_res_eq_Inr sql_text_Inr split: option.split_asm)
  obtain commitment db1 where cm: "commitment_of env run_id run_id (PStr (rw_payload persisted)) db = Inr (commitment, db1)"
    using up unfolding update_persisted_def by (auto simp: bind_res_eq_Inr)
  obtain history where h: "assert_review_history_commitment (se_sha env) r commitment True = Inr history"
    using up unfolding update_persisted_def cm bind_res_simps prod.case by (auto simp: bind_res_eq_Inr)
  obtain run_id' row where b: "bound_row vals = Inr (run_id', row)"
    using up unfolding update_persisted_def cm bind_res_simps prod.case h by (auto simp: bind_res_eq_Inr)
  have e: "rw_revision persisted = expected" "map_of (db_commitments db1) run_id = Some commitment"
    using up unfolding update_persisted_def cm bind_res_simps prod.case h b by (simp_all split: if_split_asm)
  obtain updated_at jobs where j: "publish_lease now run_id updated_at publication (db_jobs db1) = Inr jobs"
    and w: "write_browser_projection env r projection
      (db1\<lparr>db_runs := AList.update run_id row (db_runs db1),
           db_commitments := AList.update run_id (int (length history), review_history_sha256 (se_sha env) history) (db_commitments db1),
           db_jobs := jobs\<rparr>) = Inr db'"
    using up e unfolding update_persisted_def cm bind_res_simps prod.case h b by (auto simp: bind_res_eq_Inr)
  note br = bound_row_Inr [OF c b] and keep = commitment_of_keeps [OF cm, unfolded same_rows_def] and wk = write_projection_keeps [OF w]
  have id: "identity = as_dict (dget r ''identity'')" using i by (auto simp: identity_of_def bind_res_eq_Inr dindex_dget)
  have "case publication of None \<Rightarrow> db_jobs db' = db_jobs db
     | Some (l, status) \<Rightarrow> \<exists>updated. publish_job l run_id status now updated (db_jobs db) = Some (db_jobs db')"
    using j wk keep by (auto simp: publish_lease_def split: option.splits)
  then show thesis
    using u cm h e p br rev dindex_dget [OF rv] id wk keep
    by (intro that [of run_id persisted commitment db1 history row publication]
        v [unfolded validated_copy_Inr, THEN conjunct1] v [unfolded validated_copy_Inr, THEN conjunct2])
      (simp_all add: run_of_def row_columns_def)
qed

lemma hex_text_stable:
  assumes "is_sha256_text s"
  shows "py_casefold (py_strip s) = s"
proof -
  have "\<forall>c \<in> set s. lower_char c = c \<and> code_of c \<noteq> 223 \<and> \<not> is_space c"
    using assms hex_char by (auto simp only: is_sha256_text_def)
  then show ?thesis using strip_solid [of s] casefold_lower [of s] by metis
qed

lemma encoded_object:
  assumes "encode_run_storage z sha rec = Inr t" and "wf_py (PDict rec)"
  shows "\<exists>d. wf_py (PDict d) \<and> t = json_dumps (PDict d)"
proof -
  have key: "\<not> has_key rec ENVELOPE_KEY"
    using assms(1) by (auto simp: encode_run_storage_def encode_legacy_run_storage_def COMPRESSED_LIMIT_CODE_def split: if_splits)
  have plain: "t = json_dumps (PDict rec)"
    if "legacy_stream z sha COMPRESSION_THRESHOLD_BYTES MAX_UNCOMPRESSED_BYTES MAX_COMPRESSED_BYTES (iterencode (PDict rec)) = Inr (Inl pending)"
      "decode_text pending = Inr t" for pending
    using legacy_stream_text [OF that(1)] that(2)
    by (simp add: utf8_concat [symmetric] iterencode_text decode_text_def utf8_decode_utf8)
  show ?thesis
    using assms(1) unfolding encode_run_storage_def
    by (cases "encode_legacy_run_storage z sha rec")
      (auto simp: encode_legacy_Inr [OF key] bind_res_eq_Inr split: sum.split_asm if_split_asm
        simp del: wf_py.simps dest: plain intro: envelope_wf exI [of _ rec] assms(2))
qed

section \<open>Stored records\<close>

text \<open>What is used of the hash function and of \<open>zlib\<close>.\<close>

definition env_ok :: "('c, 'd) store_env \<Rightarrow> bool" where
  "env_ok env \<longleftrightarrow> zlib_lossless (se_zlib env) \<and> (\<forall>x. is_sha256_text (se_sha env x))"

lemma sha_stable: "env_ok env \<Longrightarrow> py_casefold (py_strip (se_sha env x)) = se_sha env x"
  using hex_text_stable by (simp add: env_ok_def)

lemma canon_idem: "wf_py v \<Longrightarrow> canon (canon v) = canon v"
  using loads_dumps [of v] loads_dumps [OF wf_canon [of v]] by (simp add: json_dumps_canon)

lemma stored_payload_decodes:
  assumes "env_ok env" and "wf_py (PDict r)" and "encode_run_storage (se_zlib env) (se_sha env) r = Inr t"
  shows "decode_run_payload env (PStr t) = Inr (as_dict (canon (PDict r)))"
proof -
  obtain d where "t = json_dumps (PDict d)" "wf_py (PDict d)"
    using encoded_object [OF assms(3,2)] by blast
  then have "loads_text t = Inr (PDict (as_dict (canon (PDict d))))"
    using loads_dumps [of "PDict d"] by (simp add: loads_text_def)
  moreover have "bind_res (loads_text t) (\<lambda>v. decode_run_storage (se_zlib env) (se_sha env) (as_dict v)) = Inr (as_dict (canon (PDict r)))"
    using assms by (intro run_storage_round_trip) (simp_all add: env_ok_def)
  ultimately show ?thesis by (simp add: decode_run_payload_def decode_json_object_payload_def)
qed

lemma is_dict_canon [simp]: "is_dict (canon v) = is_dict v"
  by (cases v) simp_all

lemma store_history_canon:
  assumes "wf_py (PDict r)" and "store_history r = Inr h"
  shows "store_history (as_dict (canon (PDict r))) = Inr (map canon h)"
    and "review_history_sha256 sha (map canon h) = review_history_sha256 sha h" and "wf_py (PList h)"
proof -
  have d: "dget (as_dict (canon (PDict r))) ''review_history'' = canon (dget r ''review_history'')"
    using assms(1) by (rule dget_canon)
  show "store_history (as_dict (canon (PDict r))) = Inr (map canon h)"
    using assms(2) unfolding store_history_def d by (auto simp: list_all_iff split: py.splits if_split_asm)
  show "review_history_sha256 sha (map canon h) = review_history_sha256 sha h"
    using json_dumps_canon [of "PList h"] by (simp add: review_history_sha256_def)
  have "wf_py (dget r ''review_history'')" using assms(1) by (rule wf_dget)
  then show "wf_py (PList h)" using assms(2) by (auto simp: store_history_def split: py.splits if_split_asm)
qed

text \<open>The row of a run holds a valid record, its revision and the commitment to its history.\<close>

definition row_holds :: "('c, 'd) store_env \<Rightarrow> run_row \<Rightarrow> (int \<times> string) option \<Rightarrow> dict \<Rightarrow> bool" where
  "row_holds env row commitment r \<longleftrightarrow> wf_py (PDict r) \<and> valid_record (se_sha env) (se_operator env) r \<and>
     encode_run_storage (se_zlib env) (se_sha env) r = Inr (rw_payload row) \<and>
     bind_res (dindex r ''revision'') py_int = Inr (rw_revision row) \<and> row_columns r row \<and>
     (\<exists>h. store_history r = Inr h \<and> commitment = Some (int (length h), review_history_sha256 (se_sha env) h))"

definition store_inv :: "('c, 'd) store_env \<Rightarrow> store_db \<Rightarrow> bool" where
  "store_inv env db \<longleftrightarrow> env_ok env \<and> distinct (map fst (db_runs db)) \<and>
     (\<forall>run row. map_of (db_runs db) run = Some row \<longrightarrow> (\<exists>r. row_holds env row (map_of (db_commitments db) run) r))"

lemma store_invD:
  assumes "store_inv env db" and "map_of (db_runs db) run = Some row"
  obtains r where "env_ok env" "row_holds env row (map_of (db_commitments db) run) r"
  using assms unfolding store_inv_def by blast

lemma committed_history_accepted:
  assumes "env_ok env" and "wf_py (PDict r)" and "store_history r = Inr h"
  shows "assert_review_history_commitment (se_sha env) (as_dict (canon (PDict r)))
      (int (length h), review_history_sha256 (se_sha env) h) False = Inr (map canon h)"
  using store_history_canon [OF assms(2,3)] sha_stable [OF assms(1)]
  by (simp add: assert_review_history_commitment_def) (simp add: review_history_sha256_def)

lemma restore_held_row:
  assumes "env_ok env" and "row_holds env row (map_of (db_commitments db) run) r"
  shows "restore_row env run row db =
    map_sum id (\<lambda>x. (x, db)) (restore_comprehensive_run_record (se_sha env) (se_operator env) (as_dict (canon (PDict r))))"
proof -
  obtain h where h: "store_history r = Inr h" "map_of (db_commitments db) run = Some (int (length h), review_history_sha256 (se_sha env) h)"
    and r: "wf_py (PDict r)" "encode_run_storage (se_zlib env) (se_sha env) r = Inr (rw_payload row)"
    using assms(2) by (auto simp: row_holds_def)
  show ?thesis
    unfolding restore_row_def stored_payload_decodes [OF assms(1) r] bind_res_simps commitment_of_def h(2) option.case prod.case
      committed_history_accepted [OF assms(1) r(1) h(1)]
    by (cases "restore_comprehensive_run_record (se_sha env) (se_operator env) (as_dict (canon (PDict r)))") simp_all
qed

lemma restore_held_rows:
  assumes "store_inv env db" and "\<forall>(run, row) \<in> set rows. map_of (db_runs db) run = Some row"
  shows "restore_rows env rows db = Inr (rs, db') \<Longrightarrow> db' = db"
  using assms(2)
proof (induction rows arbitrary: rs db')
  case (Cons p rows)
  obtain run row where p: "p = (run, row)" by (cases p)
  have "map_of (db_runs db) run = Some row" using Cons.prems(2) p by simp
  then obtain r where "env_ok env" "row_holds env row (map_of (db_commitments db) run) r"
    by (rule store_invD [OF assms(1)])
  note one = restore_held_row [OF this]
  obtain x db1 xs where x: "restore_row env run row db = Inr (x, db1)" and xs: "restore_rows env rows db1 = Inr (xs, db')"
    using Cons.prems(1) unfolding p by (auto simp: bind_res_eq_Inr)
  have "db1 = db"
    using x one by (cases "restore_comprehensive_run_record (se_sha env) (se_operator env) (as_dict (canon (PDict r)))") auto
  then show ?case using Cons.IH [of xs db'] xs Cons.prems(2) by simp
qed simp

section \<open>Sequences of transactions\<close>

inductive store_step :: "('c, 'd) store_env \<Rightarrow> store_db \<Rightarrow> store_db \<Rightarrow> bool" for env where
  create: "wf_py (PDict rec) \<Longrightarrow> create_run env rec db = (Inr r, db') \<Longrightarrow> store_step env db db'"
| save: "wf_py (PDict rec) \<Longrightarrow> save_run env now rec expected lease db = (Inr r, db') \<Longrightarrow> store_step env db db'"
| load: "load_run env run db = (Inr r, db') \<Longrightarrow> store_step env db db'"
| recent: "list_recent env customer project limit db = (Inr rs, db') \<Longrightarrow> store_step env db db'"
| jobs: "job_step (db_jobs db) jobs' \<Longrightarrow> store_step env db (db\<lparr>db_jobs := jobs'\<rparr>)"
| intake: "intake_step (se_sha env) (db_intake db) intake' \<Longrightarrow> store_step env db (db\<lparr>db_intake := intake'\<rparr>)"
| refresh: "store_step env db (snd (refresh_browser_projection env run projection db))"

definition empty_store :: store_db where
  "empty_store = \<lparr>db_runs = [], db_commitments = [], db_projections = [], db_jobs = [], db_intake = []\<rparr>"

lemma wf_copy_for_store: "wf_py (PDict rec) \<Longrightarrow> wf_py (PDict (copy_record_for_store rec))"
  by (auto simp: copy_record_for_store_def dsetdefault_def dset_append list_all_iff dom_map_of_conv_image_fst
      map_of_eq_None_iff)

lemma asserted_history:
  assumes "assert_review_history_commitment sha r commitment may_append = Inr h"
  shows "store_history r = Inr h \<and> 0 \<le> fst commitment \<and> nat (fst commitment) \<le> length h \<and>
    review_history_sha256 sha (take (nat (fst commitment)) h) = py_casefold (py_strip (snd commitment))"
  using assms by (auto simp: assert_review_history_commitment_def Let_def bind_res_eq_Inr split: if_split_asm)

lemma inv_same_runs:
  assumes "store_inv env db" and "db_runs db' = db_runs db" and "db_commitments db' = db_commitments db"
  shows "store_inv env db'"
  using assms by (simp add: store_inv_def)

lemma create_keeps_inv:
  assumes "store_inv env db" and "wf_py (PDict rec)" and "create_run env rec db = (Inr r, db')"
  shows "store_inv env db'"
proof -
  obtain run row h where c: "r = copy_record_for_store rec" "valid_record (se_sha env) (se_operator env) r"
    "store_history r = Inr h" "db_runs db' = AList.update run row (db_runs db)"
    "db_commitments db' = AList.update run (int (length h), review_history_sha256 (se_sha env) h) (db_commitments db)"
    "encode_run_storage (se_zlib env) (se_sha env) r = Inr (rw_payload row)" "bind_res (dindex r ''revision'') py_int = Inr (rw_revision row)"
    "row_columns r row"
    by (rule create_run_Inr [OF assms(3)])
  then have "row_holds env row (map_of (db_commitments db') run) r"
    using wf_copy_for_store [OF assms(2)] by (simp add: row_holds_def map_of_update)
  then show ?thesis using assms(1) c(4,5) by (auto simp: store_inv_def map_of_update distinct_update)
qed

lemma held_commitment:
  assumes "store_inv env db" and "map_of (db_runs db) run = Some row"
    and "commitment_of env run run' payload db = Inr (commitment, db1)"
  shows "db1 = db \<and> map_of (db_commitments db) run = Some commitment"
proof -
  obtain r where "row_holds env row (map_of (db_commitments db) run) r" using assms(1,2) by (rule store_invD)
  then obtain c where "map_of (db_commitments db) run = Some c" by (auto simp: row_holds_def)
  then show ?thesis using assms(3) by (simp add: commitment_of_def)
qed

lemma save_keeps_inv:
  assumes "store_inv env db" and "wf_py (PDict rec)" and "save_run env now rec expected lease db = (Inr r, db')"
  shows "store_inv env db'"
proof -
  obtain run persisted row commitment db1 h where c: "r = copy_record_for_store rec"
    "valid_record (se_sha env) (se_operator env) r" "map_of (db_runs db) run = Some persisted"
    "commitment_of env run run (PStr (rw_payload persisted)) db = Inr (commitment, db1)"
    "assert_review_history_commitment (se_sha env) r commitment True = Inr h"
    "db_runs db' = AList.update run row (db_runs db)"
    "db_commitments db' = AList.update run (int (length h), review_history_sha256 (se_sha env) h) (db_commitments db1)"
    "rw_revision row = expected + 1" "encode_run_storage (se_zlib env) (se_sha env) r = Inr (rw_payload row)"
    "bind_res (dindex r ''revision'') py_int = Inr (rw_revision row)" "row_columns r row"
    by (rule save_run_Inr [OF assms(3)])
  have "db1 = db" using held_commitment [OF assms(1) c(3,4)] by blast
  have "row_holds env row (map_of (db_commitments db') run) r"
    using wf_copy_for_store [OF assms(2)] asserted_history [OF c(5)] c by (simp add: row_holds_def map_of_update)
  then show ?thesis using assms(1) c(6,7) \<open>db1 = db\<close> by (auto simp: store_inv_def map_of_update distinct_update)
qed

lemma load_keeps_db:
  assumes "store_inv env db" and "load_run env run db = (Inr r, db')"
  shows "db' = db"
proof -
  obtain row where row: "map_of (db_runs db) (py_strip run) = Some row" "restore_row env (py_strip run) row db = Inr (r, db')"
    using assms(2) by (auto simp: load_run_def transact_Inr Let_def split: if_split_asm option.split_asm)
  obtain r0 where "env_ok env" "row_holds env row (map_of (db_commitments db) (py_strip run)) r0"
    using assms(1) row(1) by (rule store_invD)
  from restore_held_row [OF this] row(2) show ?thesis
    by (cases "restore_comprehensive_run_record (se_sha env) (se_operator env) (as_dict (canon (PDict r0)))") auto
qed

lemma recent_order_set [simp]: "set (recent_order rows) = set rows"
  by (simp add: recent_order_def)

lemma recent_keeps_db:
  assumes "store_inv env db" and "list_recent env customer project limit db = (Inr rs, db')"
  shows "db' = db"
proof -
  let ?rows = "take (nat (max 1 (min 200 limit))) (recent_order (filter (\<lambda>(run_id, row).
    rw_customer_id row = py_strip customer \<and> rw_project_id row = py_strip project) (db_runs db)))"
  have "restore_rows env ?rows db = Inr (rs, db')"
    using assms(2) by (auto simp: list_recent_def transact_Inr Let_def split: if_split_asm)
  moreover have "\<forall>(run, row) \<in> set ?rows. map_of (db_runs db) run = Some row"
    using assms(1) by (auto simp: store_inv_def dest!: in_set_takeD)
  ultimately show ?thesis using restore_held_rows [OF assms(1)] by blast
qed

lemma swap_keeps: "db_runs (swap_projection env run p e n i db) = db_runs db \<and>
    db_commitments (swap_projection env run p e n i db) = db_commitments db"
  by (auto simp: swap_projection_def split: option.splits)

lemma load_keeps_runs: "db_runs (snd (load_run env run db)) = db_runs db"
proof -
  have "db_runs db' = db_runs db" if "restore_row env (py_strip run) row db = Inr (r, db')" for row r db'
    using restore_row_keeps [OF that] by (simp add: same_rows_def)
  then show ?thesis
    by (auto simp: load_run_def transact_snd Let_def split: sum.splits option.splits if_splits)
qed

lemma refresh_keeps_runs: "db_runs (snd (refresh_browser_projection env run projection db)) = db_runs db"
  using load_keeps_runs [of env run db]
  by (cases "load_run env run db")
    (auto simp: refresh_browser_projection_def Let_def swap_keeps split: sum.split option.split prod.split)

lemma refresh_keeps:
  assumes "store_inv env db"
  shows "db_runs (snd (refresh_browser_projection env run projection db)) = db_runs db \<and>
    db_commitments (snd (refresh_browser_projection env run projection db)) = db_commitments db"
proof (cases "load_run env run db")
  case (Pair out db1)
  have "db1 = db"
  proof (cases out)
    case (Inr r)
    then show ?thesis using load_keeps_db [OF assms] Pair by simp
  next
    case (Inl e)
    then show ?thesis using Pair by (auto simp: load_run_def transact_def split: sum.split_asm)
  qed
  then show ?thesis
    unfolding refresh_browser_projection_def Pair
    by (auto simp: Let_def swap_keeps split: sum.split option.split prod.split)
qed

lemma store_step_inv:
  assumes "store_step env db db'" and "store_inv env db"
  shows "store_inv env db'"
  using assms
proof (induction rule: store_step.induct)
  case (refresh db run projection)
  then show ?case using refresh_keeps [OF refresh] by (intro inv_same_runs [OF refresh]) simp_all
qed (auto intro: create_keeps_inv save_keeps_inv inv_same_runs dest: load_keeps_db recent_keeps_db)

section \<open>The contract of a versioned store\<close>

text \<open>
  What a client of the store relies on: saving needs the current revision and advances it by one,
  no transaction moves a revision back or removes a run, and a transaction only extends the log
  of a run, unless it broke that log (for the store: it replaced the history by another text with
  the same digest).
\<close>

locale versioned_store =
  fixes step :: "'db \<Rightarrow> 'db \<Rightarrow> bool" and good :: "'db \<Rightarrow> bool" and broken :: "'db \<Rightarrow> 'db \<Rightarrow> string \<Rightarrow> bool"
    and revision :: "'db \<Rightarrow> string \<Rightarrow> int option" and log :: "'db \<Rightarrow> string \<Rightarrow> 'e list option"
    and saves :: "'db \<Rightarrow> string \<Rightarrow> int \<Rightarrow> 'db \<Rightarrow> bool"
  assumes saves_revision: "saves db k n db' \<Longrightarrow> revision db k = Some n \<and> revision db' k = Some (n + 1)"
    and revision_grows: "step db db' \<Longrightarrow> revision db k = Some n \<Longrightarrow> \<exists>m \<ge> n. revision db' k = Some m"
    and good_step: "step db db' \<Longrightarrow> good db \<Longrightarrow> good db'"
    and log_grows: "step db db' \<Longrightarrow> good db \<Longrightarrow> log db k = Some es \<Longrightarrow> (\<exists>new. log db' k = Some (es @ new)) \<or> broken db db' k"
begin

lemma revision_always_grows:
  assumes "step\<^sup>*\<^sup>* db db'" and "revision db k = Some n"
  shows "\<exists>m \<ge> n. revision db' k = Some m"
  using assms by (induction rule: rtranclp_induct) (simp, meson order_trans revision_grows)

lemma no_lost_update:
  assumes "saves db k n db1" and "step\<^sup>*\<^sup>* db1 db2"
  shows "\<not> saves db2 k n db3"
proof
  assume "saves db2 k n db3"
  then have "revision db2 k = Some n" using saves_revision by blast
  moreover obtain m where "revision db2 k = Some m" "n + 1 \<le> m"
    using revision_always_grows [OF assms(2)] saves_revision [OF assms(1)] by blast
  ultimately show False by simp
qed

lemma always_good: "step\<^sup>*\<^sup>* db db' \<Longrightarrow> good db \<Longrightarrow> good db'"
  by (induction rule: rtranclp_induct) (auto intro: good_step)

lemma log_append_only:
  assumes "step\<^sup>*\<^sup>* db db'" and "good db" and "log db k = Some es"
  shows "(\<exists>new. log db' k = Some (es @ new)) \<or> (\<exists>a b. step\<^sup>*\<^sup>* db a \<and> step a b \<and> step\<^sup>*\<^sup>* b db' \<and> broken a b k)"
  using assms
proof (induction rule: rtranclp_induct)
  case base
  then show ?case by simp
next
  case (step db' db'')
  have good: "good db'" using step always_good by blast
  from step.IH [OF step.prems] show ?case
  proof
    assume "\<exists>new. log db' k = Some (es @ new)"
    then obtain new where "log db' k = Some (es @ new)" ..
    from log_grows [OF step.hyps(2) good this] step.hyps show ?thesis by auto
  next
    assume "\<exists>a b. step\<^sup>*\<^sup>* db a \<and> step a b \<and> step\<^sup>*\<^sup>* b db' \<and> broken a b k"
    then show ?thesis using step.hyps(2) by (meson rtranclp.rtrancl_into_rtrancl)
  qed
qed

end

text \<open>The revision of a run, and its committed history as it is read back.\<close>

definition stored_revision :: "store_db \<Rightarrow> string \<Rightarrow> int option" where
  "stored_revision db run = map_option rw_revision (map_of (db_runs db) run)"

definition stored_history :: "('c, 'd) store_env \<Rightarrow> store_db \<Rightarrow> string \<Rightarrow> py list option" where
  "stored_history env db run =
    (case map_of (db_runs db) run of
       None \<Rightarrow> None
     | Some row \<Rightarrow>
         (case bind_res (decode_run_payload env (PStr (rw_payload row))) store_history of
            Inl e \<Rightarrow> None
          | Inr h \<Rightarrow> Some h))"

definition saves_run :: "('c, 'd) store_env \<Rightarrow> store_db \<Rightarrow> string \<Rightarrow> int \<Rightarrow> store_db \<Rightarrow> bool" where
  "saves_run env db run n db' \<longleftrightarrow> (\<exists>now rec lease r. save_run env now rec n lease db = (Inr r, db') \<and> run_of r = PStr run)"

text \<open>
  A transaction that forged the history of a run: it stored a history at least as long, whose
  beginning has another text than the history it replaced, with the same digest.
\<close>

definition history_forged :: "('c, 'd) store_env \<Rightarrow> store_db \<Rightarrow> store_db \<Rightarrow> string \<Rightarrow> bool" where
  "history_forged env db db' run \<longleftrightarrow> (\<exists>es es'. stored_history env db run = Some es \<and>
     stored_history env db' run = Some es' \<and> length es \<le> length es' \<and>
     texts_collide (se_sha env) (PList es) (PList (take (length es) es')))"

lemma saves_run_revision:
  assumes "saves_run env db run n db'"
  shows "stored_revision db run = Some n \<and> stored_revision db' run = Some (n + 1)"
proof -
  obtain now rec lease r where s: "save_run env now rec n lease db = (Inr r, db')" "run_of r = PStr run"
    using assms by (auto simp: saves_run_def)
  from save_run_Inr [OF s(1)] obtain run' persisted row where
    "run_of r = PStr run'" "map_of (db_runs db) run' = Some persisted" "rw_revision persisted = n"
    "db_runs db' = AList.update run' row (db_runs db)" "rw_revision row = n + 1" by metis
  then show ?thesis using s(2) by (simp add: stored_revision_def map_of_update)
qed

text \<open>What a step does to the row of one run.\<close>

lemma step_row:
  assumes "store_step env db db'" and "map_of (db_runs db) run = Some row"
  obtains (same) "map_of (db_runs db') run = Some row" "store_inv env db \<Longrightarrow> map_of (db_commitments db') run = map_of (db_commitments db) run"
  | (saved) now rec lease r where "save_run env now rec (rw_revision row) lease db = (Inr r, db')" "run_of r = PStr run" "wf_py (PDict rec)"
proof -
  have keep: thesis if "db_runs db' = db_runs db" "store_inv env db \<Longrightarrow> db_commitments db' = db_commitments db"
    using that assms(2) by (intro same) simp_all
  from assms(1) show thesis
  proof cases
    case (create rec r)
    from create_run_Inr [OF create(2)] obtain run' row' h where
      "map_of (db_runs db) run' = None" "db_runs db' = AList.update run' row' (db_runs db)"
      "db_commitments db' = AList.update run' (int (length h), review_history_sha256 (se_sha env) h) (db_commitments db)" by metis
    then show thesis using assms(2) by (intro same) (auto simp: map_of_update)
  next
    case (save rec now expected lease r)
    from save_run_Inr [OF save(2)] obtain run' persisted row' commitment db1 h where c:
      "run_of r = PStr run'" "map_of (db_runs db) run' = Some persisted" "rw_revision persisted = expected"
      "commitment_of env run' run' (PStr (rw_payload persisted)) db = Inr (commitment, db1)"
      "db_runs db' = AList.update run' row' (db_runs db)"
      "db_commitments db' = AList.update run' (int (length h), review_history_sha256 (se_sha env) h) (db_commitments db1)" by metis
    show thesis
    proof (cases "run' = run")
      case True
      then show thesis using saved [of now rec lease r] save c assms(2) by simp
    next
      case False
      then show thesis
        using c assms(2) held_commitment [OF _ c(2,4)] by (intro same) (auto simp: map_of_update)
    qed
  next
    case (load run0 r)
    have "db_runs db' = db_runs db" using load_keeps_runs [of env run0 db] load by simp
    then show thesis using load_keeps_db [OF _ load] keep by blast
  next
    case (recent customer project limit rs)
    have "db_runs db' = db_runs db"
      using recent restore_rows_keeps
      by (fastforce simp: list_recent_def transact_Inr Let_def same_rows_def split: if_split_asm)
    then show thesis using recent_keeps_db [OF _ recent] keep by blast
  next
    case (refresh run0 projection)
    then show thesis using refresh_keeps refresh_keeps_runs keep by metis
  qed (use keep in simp_all)
qed

lemma stored_history_held:
  assumes "store_inv env db" and "map_of (db_runs db) run = Some row"
    and "row_holds env row (map_of (db_commitments db) run) r" and "store_history r = Inr h"
  shows "stored_history env db run = Some (map canon h)"
proof -
  have "decode_run_payload env (PStr (rw_payload row)) = Inr (as_dict (canon (PDict r)))"
    using assms(1,3) by (intro stored_payload_decodes) (simp_all add: store_inv_def row_holds_def)
  moreover have "store_history (as_dict (canon (PDict r))) = Inr (map canon h)"
    using assms(3,4) by (intro store_history_canon(1)) (simp_all add: row_holds_def)
  ultimately show ?thesis using assms(2) by (simp add: stored_history_def)
qed

lemma same_history_text:
  assumes "review_history_sha256 sha h = review_history_sha256 sha h'" and "wf_py (PList h)" and "wf_py (PList h')"
  shows "map canon h = map canon h' \<or> texts_collide sha (PList (map canon h)) (PList (map canon h'))"
proof -
  have canon: "json_dumps (PList (map canon xs)) = json_dumps (PList xs)" for xs
    using json_dumps_canon [of "PList xs"] by simp
  have "canon (PList h) = canon (PList h') \<or> texts_collide sha (PList h) (PList h')"
    using assms by (intro same_digest_agree) (simp_all add: review_history_sha256_def json_digest_def)
  then show ?thesis unfolding texts_collide_def canon by simp
qed

lemma step_history_grows:
  assumes "store_step env db db'" and "store_inv env db" and "stored_history env db run = Some es"
  shows "(\<exists>new. stored_history env db' run = Some (es @ new)) \<or> history_forged env db db' run"
proof -
  obtain row where row: "map_of (db_runs db) run = Some row" using assms(3) by (auto simp: stored_history_def split: option.splits)
  obtain r0 where ok: "env_ok env" and r0: "row_holds env row (map_of (db_commitments db) run) r0" by (rule store_invD [OF assms(2) row])
  then obtain h0 where h0: "store_history r0 = Inr h0" "wf_py (PDict r0)"
      "map_of (db_commitments db) run = Some (int (length h0), review_history_sha256 (se_sha env) h0)"
    by (auto simp: row_holds_def simp del: wf_py.simps)
  have es: "es = map canon h0" using stored_history_held [OF assms(2) row r0 h0(1)] assms(3) by simp
  from assms(1) row show ?thesis
  proof (cases rule: step_row)
    case same
    then show ?thesis using assms(3) row by (auto simp: stored_history_def)
  next
    case (saved now rec lease r)
    from save_run_Inr [OF saved(1)] obtain run' persisted row' commitment db1 h where c:
      "r = copy_record_for_store rec" "run_of r = PStr run'" "map_of (db_runs db) run' = Some persisted"
      "commitment_of env run' run' (PStr (rw_payload persisted)) db = Inr (commitment, db1)"
      "assert_review_history_commitment (se_sha env) r commitment True = Inr h"
      "db_runs db' = AList.update run' row' (db_runs db)"
      "encode_run_storage (se_zlib env) (se_sha env) r = Inr (rw_payload row')" by metis
    have run: "run' = run" using c(2) saved(2) by simp
    have cm: "commitment = (int (length h0), review_history_sha256 (se_sha env) h0)"
      using held_commitment [OF assms(2) c(3,4)] h0(3) run by simp
    note a = asserted_history [OF c(5), unfolded cm fst_conv snd_conv nat_int]
    have wf: "wf_py (PDict r)" unfolding c(1) using saved(3) by (rule wf_copy_for_store)
    have st: "stored_history env db' run = Some (map canon h)"
      using stored_payload_decodes [OF ok wf c(7)] store_history_canon(1) [OF wf] a c(6) run
      by (simp add: stored_history_def map_of_update)
    have wfh: "wf_py (PList h0)" "wf_py (PList (take (length h0) h))"
      using store_history_canon(3) [OF wf] store_history_canon(3) [OF h0(2,1)] a
      by (auto simp: list_all_iff dest: in_set_takeD)
    have "review_history_sha256 (se_sha env) h0 = review_history_sha256 (se_sha env) (take (length h0) h)"
      using a sha_stable [OF ok] by (simp add: review_history_sha256_def)
    from same_history_text [OF this wfh] show ?thesis
    proof
      assume eq: "map canon h0 = map canon (take (length h0) h)"
      have "map canon h = map canon (take (length h0) h) @ map canon (drop (length h0) h)"
        by (metis append_take_drop_id map_append)
      then show ?thesis using st es eq by simp
    next
      assume "texts_collide (se_sha env) (PList (map canon h0)) (PList (map canon (take (length h0) h)))"
      then have "history_forged env db db' run"
        unfolding history_forged_def using assms(3) st es a by (simp add: take_map)
      then show ?thesis ..
    qed
  qed
qed

interpretation run_versions: versioned_store "store_step env" "store_inv env" "history_forged env"
    stored_revision "stored_history env" "saves_run env"
  for env :: "('c, 'd) store_env"
proof unfold_locales
  fix db db' :: store_db and k :: string and n
  show "saves_run env db k n db' \<Longrightarrow> stored_revision db k = Some n \<and> stored_revision db' k = Some (n + 1)"
    by (rule saves_run_revision)
  show "store_step env db db' \<Longrightarrow> store_inv env db \<Longrightarrow> store_inv env db'" by (rule store_step_inv)
  show "(\<exists>new. stored_history env db' k = Some (es @ new)) \<or> history_forged env db db' k"
    if "store_step env db db'" "store_inv env db" "stored_history env db k = Some es" for es
    using that by (rule step_history_grows)
  assume step: "store_step env db db'" and "stored_revision db k = Some n"
  then obtain row where row: "map_of (db_runs db) k = Some row" "rw_revision row = n" by (auto simp: stored_revision_def)
  from step row(1) show "\<exists>m \<ge> n. stored_revision db' k = Some m"
  proof (cases rule: step_row)
    case same
    then show ?thesis using row by (auto simp: stored_revision_def)
  next
    case (saved now rec lease r)
    then have "saves_run env db k n db'" using row(2) by (auto simp: saves_run_def)
    from saves_run_revision [OF this] show ?thesis by force
  qed
qed

end
