(* ===== verification/RecordOrder.thy ===== *)
theory RecordOrder
  imports StoreTables RunLifecycle
begin

text \<open>
  The order of dictionary keys does not matter to the validation: a reachable record that was not reviewed yet is
  valid also after it was written and read back, when all its keys are sorted. Records and
  evidence packages are built with distinct keys.
\<close>

section \<open>Sealed dictionaries\<close>

lemma dpop_canon: "PDict (dpop (as_dict (canon (PDict d))) k) = canon (PDict (dpop d k))"
  by (simp add: canon_dict AList.delete_eq filter_map comp_def sort_items_def filter_sort split_def del: canon.simps)

lemma json_digest_canon: "json_digest sha (canon v) = json_digest sha v"
  by (simp add: json_digest_def json_dumps_canon)

lemma digest_rest_canon: "json_digest sha (PDict (dpop (as_dict (canon (PDict d))) k)) = json_digest sha (PDict (dpop d k))"
  by (simp only: dpop_canon json_digest_canon)

lemma truthy_canon [simp]: "truthy (canon v) = truthy v"
proof (cases v)
  case (PDict d)
  have "sort_items d = [] \<longleftrightarrow> d = []" unfolding sort_items_def by (metis length_0_conv length_sort)
  then show ?thesis by (simp add: PDict canon_dict del: canon.simps)
qed simp_all

text \<open>A text that does not start like a list or a dictionary is the text of a scalar.\<close>

lemma plain_text_canon:
  assumes "take 1 s \<noteq> ''[''" and "take 1 s \<noteq> ''{''"
  shows "str_or_empty (canon v) = s \<longleftrightarrow> str_or_empty v = s"
proof (cases "is_list v \<or> is_dict v")
  case False
  then have "canon v = v" by (cases v) (simp_all add: is_list_def)
  then show ?thesis by simp
next
  case True
  have tr: "truthy (canon v) = truthy v" by simp
  have "canon v = v" if "\<not> truthy v" using True that by (cases v) (simp_all add: is_list_def sort_items_def)
  moreover have "str_or_empty (canon v) \<noteq> s \<and> str_or_empty v \<noteq> s" if t: "truthy v"
  proof -
    have not_s: "py_str w \<noteq> s" if "is_list w \<or> is_dict w" for w
    proof -
      have "take 1 (py_str w) = ''['' \<or> take 1 (py_str w) = ''{''"
        using that by (cases w) (simp_all add: is_list_def is_dict_def py_str_def)
      then show ?thesis using assms by blast
    qed
    have "is_list (canon v) \<or> is_dict (canon v)" using True by (cases v) (simp_all add: is_list_def)
    then show ?thesis using not_s [of v] not_s [of "canon v"] True t tr by (simp add: str_or_empty_def py_or_def)
  qed
  ultimately show ?thesis by metis
qed

lemma sha_text_scalar: "is_sha256_text s \<Longrightarrow> take 1 s \<noteq> ''['' \<and> take 1 s \<noteq> ''{''"
  by (cases s) (auto simp: is_sha256_text_def)

lemma field_seal_canon:
  assumes "\<forall>x. is_sha256_text (sha x)" and "wf_py (PDict d)" and "field_seal_valid sha field d"
  shows "field_seal_valid sha field (as_dict (canon (PDict d)))"
proof -
  have "str_or_empty (dget d field) = json_digest sha (PDict (dpop d field))"
    using assms(3) by (rule field_seal.holds_digest)
  moreover have "is_sha256_text (json_digest sha (PDict (dpop d field)))" using assms(1) by (simp add: json_digest_def)
  moreover note plain_text_canon sha_text_scalar
  ultimately have "str_or_empty (canon (dget d field)) = json_digest sha (PDict (dpop d field))" by metis
  moreover have "json_digest sha (PDict (dpop d field)) \<noteq> []"
    using assms(3) unfolding field_seal_valid_def Let_def by metis
  ultimately show ?thesis
    unfolding field_seal_valid_def Let_def digest_rest_canon dget_canon [OF assms(2)] by simp
qed


section \<open>Records\<close>

lemma evidence_canon:
  assumes sha: "\<forall>x. is_sha256_text (sha x)" and wf: "wf_py (PDict d)"
    and ok: "verify_strategic_human_evidence sha (PDict d)"
  shows "verify_strategic_human_evidence sha (PDict (as_dict (canon (PDict d))))"
proof -
  obtain modules where m: "dget d ''modules'' = PDict modules" "set (map fst modules) = set (map fst MODULES)"
      "\<forall>(key, raw) \<in> set modules. verify_module sha key raw" "field_seal_valid sha ''human_evidence_sha256'' d"
    using ok by (auto simp: verify_strategic_human_evidence_def list_all_iff split: py.split_asm)
  have wfm: "wf_py (PDict modules)" using wf_dget [OF wf, of "''modules''"] m(1) by simp
  have plain: "take 1 key \<noteq> ''['' \<and> take 1 key \<noteq> ''{''" if "key \<in> set (map fst MODULES)" for key
  proof -
    have "list_all (\<lambda>key. take 1 key \<noteq> ''['' \<and> take 1 key \<noteq> ''{'') (map fst MODULES)" by code_simp
    then show ?thesis using that unfolding list_all_iff by blast
  qed
  have one: "verify_module sha key (canon raw)" if in_m: "(key, raw) \<in> set modules" for key raw
  proof -
    have v: "verify_module sha key raw" using m(3) in_m by blast
    then obtain x where x: "raw = PDict x" "str_or_empty (dget x ''module_id'') = key" "field_seal_valid sha ''module_sha256'' x"
      by (auto simp: verify_module_def split: py.split_asm)
    have wfx: "wf_py (PDict x)" using wfm [unfolded wf_py.simps(2) list_all_iff] in_m unfolding x(1) by blast
    have "key \<in> set (map fst MODULES)" using in_m m(2) by force
    then have "str_or_empty (dget (as_dict (canon (PDict x))) ''module_id'') = key"
      unfolding dget_canon [OF wfx] using x(2) plain plain_text_canon by metis
    then show ?thesis
      using field_seal_canon [OF sha wfx x(3)] unfolding x(1) verify_module_def
      by (subst canon_is_dict) (simp del: canon.simps)
  qed
  have "\<forall>(key, raw) \<in> set (as_dict (canon (PDict modules))). verify_module sha key raw"
    using one by (auto simp: canon_dict sort_items_def simp del: canon.simps)
  moreover have "dget (as_dict (canon (PDict d))) ''modules'' = PDict (as_dict (canon (PDict modules)))"
    unfolding dget_canon [OF wf] m(1) by (rule canon_is_dict)
  moreover have "set (map fst (as_dict (canon (PDict modules)))) = set (map fst MODULES)" using keys_canon m(2) by metis
  ultimately show ?thesis
    using field_seal_canon [OF sha wf m(4)] by (simp add: verify_strategic_human_evidence_def list_all_iff del: canon.simps set_map)
qed

lemma schema_canon: "str_or_empty (canon v) = LEGACY_VERSION \<longleftrightarrow> str_or_empty v = LEGACY_VERSION"
  by (rule plain_text_canon) (simp_all add: LEGACY_VERSION_def)

lemma canon_keeps_valid:
  assumes sha: "\<forall>x. is_sha256_text (sha x)" and wf: "wf_py (PDict r)" and inv: "run_inv sha op r" and unrev: "unreviewed r"
    and status: "dget r ''status'' = PStr s"
  shows "valid_record sha op (as_dict (canon (PDict r)))"
proof -
  let ?r = "as_dict (canon (PDict r))"
  let ?strategic = "str_or_empty (dget r ''artifact_schema'') \<noteq> LEGACY_VERSION"
  note read = dget_canon [OF wf]
  have parts: "identity_violations r ?strategic = []" "evidence_violations sha r ?strategic = []" "seal_violations sha r = []"
    and shape: "run_shape r" using inv by (simp_all add: run_inv_def valid_record_parts)
  obtain m where m: "run_at m r" using inv by (auto simp: run_inv_def)
  have st: "record_status ?r = record_status r" unfolding record_status_def read status by simp
  have unrev': "unreviewed ?r" using unrev unfolding unreviewed_def st read by simp
  have "at_stage m ?r"
    using run_atD(1,3) [OF m] unfolding at_stage_def read by (simp add: percent_value_def comp_def split_def)
  then have progress: "progress_violations ?r = Inr []" by (rule at_stage_progress)
  have "record_hash sha ?r = record_hash sha r"
    by (simp only: record_hash_def canonical_hash_eq_json_digest digest_rest_canon)
  then have seal: "seal_violations sha ?r = []"
    using parts(3) by (auto simp: seal_violations_def st read simp del: canon.simps(2) split: if_split_asm)
  obtain identity where identity: "dget r ''identity'' = PDict identity"
      "\<forall>f \<in> set BOUND_FIELDS. \<exists>s. map_of identity f = Some (PStr s) \<and> py_strip s = s \<and> s \<noteq> []"
    using shape by (auto simp: run_shape_def)
  have wfi: "wf_py (PDict identity)" using wf_dget [OF wf, of "''identity''"] identity(1) by simp
  have "text_of (dget (as_dict (dget ?r ''identity'')) f) \<noteq> []" if "f \<in> set BOUND_FIELDS" for f
    using bspec [OF identity(2) that] unfolding read identity(1) dget_canon [OF wfi] by (auto simp: dget_def text_of_def)
  moreover have "dget ?r ''service_id'' = PStr ''comprehensive''" "dget ?r ''human_review_required'' = PBool True"
    using parts(1) unfolding identity_violations_def read by (simp_all split: if_split_asm)
  ultimately have ident: "identity_violations ?r ?strategic = []"
    by (intro identity_violations_none) (auto simp: BOUND_FIELDS_def)
  have "evidence_violations sha ?r ?strategic = []"
  proof (cases ?strategic)
    case True
    then obtain e where e: "dget r ''human_evidence'' = PDict e" "dget e ''artifact_schema'' = PStr HUMAN_EVIDENCE_VERSION"
        "verify_strategic_human_evidence sha (PDict e)"
      using parts(2) by (auto simp: evidence_violations_def split: py.split_asm if_split_asm)
    have wfe: "wf_py (PDict e)" using wf_dget [OF wf, of "''human_evidence''"] e(1) by simp
    have "dget ?r ''human_evidence'' = PDict (as_dict (canon (PDict e)))" unfolding read e(1) by (rule canon_is_dict)
    then show ?thesis
      using evidence_canon [OF sha wfe e(3)] dget_canon [OF wfe, of "''artifact_schema''"] e(2)
      by (simp add: evidence_violations_def del: canon.simps(2))
  qed (simp add: evidence_violations_def)
  then show ?thesis
    using ident progress seal unreviewed_parts [OF unrev'] unfolding valid_record_parts read schema_canon by blast
qed

section \<open>Distinct keys\<close>

lemma wf_str_list: "wf_py (str_list xs)"
  by (simp add: str_list_def list_all_iff)

lemma module_body_wf: "wf_py (PDict e) \<Longrightarrow> wf_py (PDict (module_body d s e))"
  by (simp add: module_body_def module_fields_def module_metadata_def wf_str_list)

lemma empty_module_wf: "normalize_module sha d PNone = Inr m \<Longrightarrow> wf_py (PDict m)"
  by (auto simp: normalize_module_def as_dict_def gather_required_empty bound_evidence_def Let_def
      dict_of_pairs_def simp del: wf_py.simps intro!: wf_dset module_body_wf) (simp_all)

lemma map_res_keyed:
  "map_res (\<lambda>(key, d). bind_res (f d) (\<lambda>m. Inr (key, m))) xs = Inr ys \<Longrightarrow>
   map fst ys = map fst xs \<and> (\<forall>(key, m) \<in> set ys. \<exists>d. f d = Inr m)"
  by (induction xs arbitrary: ys) (auto simp: bind_res_eq_Inr)

lemma evidence_package_wf:
  assumes "distinct (map fst modules)" and "\<forall>(key, m) \<in> set modules. wf_py (PDict m)"
  shows "wf_py (PDict (evidence_package modules))"
proof -
  have "wf_py (PDict (map (\<lambda>(key, module). (key, PDict module)) modules))"
    using assms by (auto simp: list_all_iff split_def comp_def simp del: wf_py.simps(2)) (auto simp: list_all_iff split_def comp_def)
  then show ?thesis unfolding evidence_package_def Let_def by (simp add: wf_str_list del: list.pred_map)
qed

lemma empty_evidence_wf:
  assumes "normalize_strategic_human_evidence sha PNone = Inr p"
  shows "wf_py (PDict p)"
  using assms
proof (rule normalize_evidenceE)
  fix modules
  assume m: "map_res (\<lambda>(key, definition). bind_res (normalize_module sha definition
         (case map_of (module_inputs PNone) key of Some d \<Rightarrow> PDict d | None \<Rightarrow> PNone))
       (\<lambda>module. Inr (key, module))) MODULES = Inr modules"
    and p: "p = dset (evidence_package modules) ''human_evidence_sha256'' (PStr (json_digest sha (PDict (evidence_package modules))))"
  have "module_inputs PNone = []" by (simp add: module_inputs_def as_dict_def known_modules_def Let_def)
  with m have "map fst modules = map fst MODULES \<and> (\<forall>(key, m) \<in> set modules. \<exists>d. normalize_module sha d PNone = Inr m)"
    by (intro map_res_keyed) simp
  moreover have "distinct (map fst MODULES)" by code_simp
  ultimately have "wf_py (PDict (evidence_package modules))"
    using empty_module_wf by (intro evidence_package_wf) (simp, blast)
  then show ?thesis unfolding p by (rule wf_dset) simp
qed

end
