(* ===== verification/ReviewLifecycle.thy ===== *)
theory ReviewLifecycle
  imports RunLifecycle
begin

text \<open>
  Review of a reachable run: the manifest that \<open>build_reviewed_edition\<close> builds for a run record is
  accepted by \<open>apply_comprehensive_review_decision\<close> of \<open>nico/comprehensive_run_record.py\<close>, so that
  a complete human decision is always applied; and a concrete run from creation to approval.
\<close>

section \<open>Every complete decision is applied\<close>

lemma wf_review_certificate: "wf_py (PDict (review_certificate sha now r digest))"
  unfolding review_certificate_def Let_def by simp

lemma wf_edition_body:
  "wf_py (PDict (edition_digests sha (req_artifacts r))) \<Longrightarrow> wf_py (PDict (edition_body sha now r))"
  unfolding edition_body_def Let_def
  using wf_review_certificate [of sha now r "json_digest sha (PDict (edition_digests sha (req_artifacts r)))"]
    wf_string_list [of "edition_errors now r"]
  by (simp add: edition_identity_def del: wf_py.simps(1,2)) (simp add: wf_PDict_iff del: wf_py.simps(2))

lemma wf_reseal: "wf_py (PDict d) \<Longrightarrow> wf_py (PDict (reseal sha field d))"
  by (simp add: reseal_def Let_def wf_dset wf_dpop del: wf_py.simps(2))

lemma wf_set_if_text: "wf_py (PDict d) \<Longrightarrow> wf_py (PDict (set_if_text d k v))"
  by (simp add: set_if_text_def wf_dset del: wf_py.simps(2))

lemma wf_member: "wf_py (PDict d) \<Longrightarrow> wf_py (dget d k)"
  by (auto simp: wf_PDict_iff dget_def split: option.split dest!: map_of_SomeD simp del: wf_py.simps(2))

lemma wf_as_dict: "wf_py v \<Longrightarrow> wf_py (PDict (as_dict v))"
  by (cases v) (simp_all add: as_dict_def)

lemma wf_bind_ledger: "wf_py (PDict m) \<Longrightarrow> wf_py (PDict (bind_review_ledger_to_manifest sha m binding))"
  by (simp add: bind_review_ledger_to_manifest_def Let_def wf_reseal wf_set_if_text wf_dset wf_member wf_as_dict
      del: wf_py.simps(2))

lemma reviewed_edition_read:
  assumes built: "build_reviewed_edition sha ledger now record reviewer role decision reason t = Inr m"
    and clean: "dget m ''validation_errors'' = PList []"
  obtains r where
    "r = record_edition_request record reviewer role decision reason t" "edition_errors now r = []"
    "\<And>k. k \<notin> set LEDGER_KEYS \<Longrightarrow> k \<noteq> ''review'' \<Longrightarrow> dget m k = dget (edition_body sha now r) k"
    "\<And>k. k \<notin> set LEDGER_KEYS \<Longrightarrow> dget (edition_review m) k = dget (review_certificate sha now r
      (json_digest sha (PDict (package_digests sha (report_package_from_record record))))) k"
    "edition_digests sha (req_artifacts r) = package_digests sha (report_package_from_record record)"
    "has_report_bundle (PDict (report_package_from_record record)) = Inr False" "wf_py (PDict m)"
  using built
proof (rule build_reviewed_editionE)
  fix r b binding
  assume r: "r = record_edition_request record reviewer role decision reason t"
    and b: "b = dset (edition_body sha now r) ''accepted_edition_manifest_sha256''
       (PStr (json_digest sha (PDict (edition_body sha now r))))"
    and m: "m = bind_review_ledger_to_manifest sha b binding"
    and rec: "has_report_bundle (PDict record) = Inr False"
  have digests: "edition_digests sha (req_artifacts r) = package_digests sha (report_package_from_record record)"
    by (simp add: r request_digests_are_current)
  have read: "dget m k = dget (edition_body sha now r) k" if "k \<notin> set LEDGER_KEYS" "k \<noteq> ''review''" for k
    using that by (simp add: m b bind_ledger_read) (simp add: LEDGER_KEYS_def)
  have review: "dget (edition_review m) k = dget (review_certificate sha now r
      (json_digest sha (PDict (package_digests sha (report_package_from_record record))))) k" if "k \<notin> set LEDGER_KEYS" for k
    using that by (simp add: m b bind_ledger_review) (simp add: edition_review_def edition_read digests)
  have errs: "edition_errors now r = []"
    using clean read [of "''validation_errors''"] by (simp add: edition_read LEDGER_KEYS_def)
  have "wf_py (PDict m)"
    unfolding m b using wf_edition_body [of sha r now] wf_package_digests
    by (simp add: digests wf_bind_ledger wf_dset del: wf_py.simps(2))
  with r errs read review digests record_package_clean [OF rec] show thesis by (rule that)
qed

lemma empty_package_digests: "package_digests sha [] = []"
  by (simp add: package_digests_def package_artifacts_def artifact_missing_def package_pdf_def)

text \<open>The manifest of a complete decision on a record with a bound identity has no errors there.\<close>

definition review_complete :: "dict \<Rightarrow> string \<Rightarrow> bool" where
  "review_complete record decision \<longleftrightarrow>
     (let package = report_package_from_record record in
      (has_evidence_manifest package \<longrightarrow> \<not> artifact_missing (Value (dget package ''evidence_manifest_json''))) \<and>
      (py_casefold (py_strip decision) = ''approved'' \<longrightarrow>
         report_names_run package (as_dict (dget record ''identity''))))"

lemma casefold_decisions: "d \<in> set ALLOWED_DECISIONS \<Longrightarrow> py_casefold d = d \<and> d \<noteq> [] \<and> d \<in> set REVIEW_DECISIONS"
proof -
  have "list_all (\<lambda>d. py_casefold d = d \<and> d \<noteq> [] \<and> d \<in> set REVIEW_DECISIONS) ALLOWED_DECISIONS" by code_simp
  then show "d \<in> set ALLOWED_DECISIONS \<Longrightarrow> ?thesis" unfolding list_all_iff by blast
qed

lemma built_manifest_clean:
  assumes sha: "\<forall>x. sha x \<noteq> []"
    and built: "build_reviewed_edition sha ledger now record reviewer role decision reason t = Inr m"
    and clean: "dget m ''validation_errors'' = PList []"
    and complete: "review_complete record decision"
    and bound: "\<forall>f \<in> set REPORT_IDENTITY_FIELDS. \<exists>s. dget (as_dict (dget record ''identity'')) f = PStr s \<and> py_strip s = s"
  shows "review_manifest_errors sha record (PDict m) = Inr [] \<and> wf_py (PDict m) \<and>
    manifest_decision m = py_casefold (py_strip decision)"
  using built clean
proof (rule reviewed_edition_read)
  fix r
  let ?p = "report_package_from_record record" and ?id = "as_dict (dget record ''identity'')"
  assume r: "r = record_edition_request record reviewer role decision reason t"
    and noerr: "edition_errors now r = []"
    and read: "\<And>k. k \<notin> set LEDGER_KEYS \<Longrightarrow> k \<noteq> ''review'' \<Longrightarrow> dget m k = dget (edition_body sha now r) k"
    and review: "\<And>k. k \<notin> set LEDGER_KEYS \<Longrightarrow> dget (edition_review m) k = dget (review_certificate sha now r
      (json_digest sha (PDict (package_digests sha ?p)))) k"
    and digests: "edition_digests sha (req_artifacts r) = package_digests sha ?p"
    and clean_p: "has_report_bundle (PDict ?p) = Inr False" and wf: "wf_py (PDict m)"
  note facts = edition_errors_NilD [OF noerr]
  have dec: "edition_decision r = py_casefold (py_strip decision)"
    by (simp add: edition_decision_def r record_edition_request_def Let_def)
  have manifest: "has_evidence_manifest ?p \<longrightarrow> \<not> artifact_missing (Value (dget ?p ''evidence_manifest_json''))"
    using complete by (simp add: review_complete_def Let_def)
  have decision: "manifest_decision m = edition_decision r"
    using casefold_decisions [OF facts(5)]
    by (simp add: manifest_decision_def review LEDGER_KEYS_def) (simp add: edition_read)
  have keys: "map fst (package_digests sha ?p) = required_digests ?p"
    using facts(6) manifest unfolding r by (rule no_missing_digest_keys)
  then have nonempty: "?p \<noteq> []"
    by (auto simp: empty_package_digests required_digests_def)
  have "manifest_seal_errors sha m [] = []"
    using reviewed_edition_sealed [OF sha built] casefold_decisions [OF facts(5)] decision
    by (simp add: manifest_seal_errors_def manifest_hash_valid_def certificate_hash_valid_def field_seal_valid_def
        canonical_hash_eq_json_digest)
  moreover have "manifest_digest_errors ?p m (package_digests sha ?p) (json_digest sha (PDict (package_digests sha ?p))) = []"
    using keys py_eq_refl [OF wf_package_digests]
    by (simp add: manifest_digest_errors_def read review edition_read LEDGER_KEYS_def digests)
  moreover have "manifest_identity_errors ?id m = []"
  proof -
    have ident: "req_repository r = str_or_empty (dget ?id ''repository'')"
        "req_commit_sha r = str_or_empty (dget ?id ''commit_sha'')" "req_run_id r = str_or_empty (dget ?id ''run_id'')"
        "req_report_language r = str_or_empty (dget ?id ''report_language'')"
        "req_assessment_depth r = str_or_empty (dget ?id ''assessment_depth'')"
      by (simp_all add: r record_edition_request_def Let_def)
    have "\<forall>f \<in> set REPORT_IDENTITY_FIELDS. dget m f = PStr (py_strip (str_or_empty (dget ?id f)))"
      by (simp add: REPORT_IDENTITY_FIELDS_def read edition_read LEDGER_KEYS_def ident)
    then have "\<forall>f \<in> set REPORT_IDENTITY_FIELDS. str_or_empty (dget m f) = str_or_empty (dget ?id f)"
      using bound by force
    moreover have "\<forall>f \<in> set EVIDENCE_IDENTITY_FIELDS. text_of (dget m f) \<noteq> []"
      using facts(1) by (simp add: EVIDENCE_IDENTITY_FIELDS_def read edition_read LEDGER_KEYS_def edition_identity_def)
    ultimately show ?thesis unfolding manifest_identity_errors_def append_is_Nil_conv concat_map_Nil_iff by simp
  qed
  moreover have "manifest_outcome_errors sha ?p m ?id = Inr []"
  proof (cases "edition_decision r = ''approved''")
    case True
    then have names: "report_names_run ?p ?id" using complete dec by (simp add: review_complete_def Let_def)
    have "accepted_edition_errors sha ?p m (Some ?id) = Inr []"
      using built True [unfolded dec] clean manifest names by (rule reviewed_edition_no_errors)
    then show ?thesis
      using True decision digests_of_clean [OF clean_p]
      by (simp add: manifest_outcome_errors_def validate_accepted_edition_def)
  next
    case False
    then show ?thesis
      by (simp add: manifest_outcome_errors_def decision read LEDGER_KEYS_def) (simp add: edition_read)
  qed
  ultimately have "review_manifest_errors sha record (PDict m) = Inr []"
    using nonempty digests_of_clean [OF clean_p] by (simp add: review_manifest_errors_def clean Let_def)
  with wf decision dec show ?thesis by simp
qed

lemma decided_record_package:
  assumes "dget r ''stage_results'' = PDict results"
  shows "report_package_from_record (decided_record sha (copy_record_for_update r) m d s h now k) = report_package_from_record r"
proof -
  have "dget (decided_record sha (copy_record_for_update r) m d s h now k) ''reports'' = dget r ''reports''"
    unfolding decided_record_def Let_def by (simp add: seal_record_read copy_record_read decision_retained_read)
  moreover have "dget (copy_record_for_update r) ''stage_results'' = dget r ''stage_results''"
    using assms by (auto simp: copy_record_for_update_def dsetdefault_def dget_def split: option.splits)
  ultimately show ?thesis
    unfolding report_package_from_record_def decided_read(9) by metis
qed

lemma review_manifest_errors_cong:
  assumes "report_package_from_record r = report_package_from_record r'" and "dget r ''identity'' = dget r' ''identity''"
  shows "review_manifest_errors sha r c = review_manifest_errors sha r' c"
  unfolding review_manifest_errors_def assms ..

lemma decided_more_read:
  fixes sha updated candidate decision status history now revision
  defines "out \<equiv> decided_record sha updated candidate decision status history now revision"
  shows "dget out ''service_id'' = dget updated ''service_id''" "dget out ''human_evidence'' = dget updated ''human_evidence''"
    "dget out ''artifact_schema'' = dget updated ''artifact_schema''" "dget out ''human_review_required'' = PBool True"
    "dget out ''terminal'' = PBool True" "dget out ''integrity_sha256'' = PStr (record_hash sha out)"
  unfolding out_def decided_record_def Let_def by (simp_all add: seal_record_read seal_record_sealed decision_retained_read)

lemma py_int_revision: "py_int (py_or (PInt k) (PInt 0)) = Inr k"
  by (simp add: py_or_def py_int_def)

lemma decided_valid:
  assumes inv: "run_inv sha op r" and clean: "review_manifest_errors sha r (PDict m) = Inr []"
    and wf: "wf_py (PDict m)" and exp: "expected_review_status (manifest_decision m) = Some status"
    and dec: "manifest_decision m = d"
  shows "valid_record sha op (decided_record sha (copy_record_for_update r) m d status h now k)" (is "valid_record sha op ?r'")
proof -
  obtain results where results: "dget r ''stage_results'' = PDict results" using inv by (auto simp: run_inv_def run_shape_def)
  have valid: "valid_record sha op r" using inv by (simp add: run_inv_def)
  have errs: "review_manifest_errors sha ?r' (PDict m) = Inr []"
    using clean review_manifest_errors_cong [OF decided_record_package [OF results]]
    by (simp add: decided_read(10) copy_record_read)
  have status: "record_status ?r' = status" "status \<in> set TERMINAL_STATUSES" "status \<in> {''approved'', ''rejected'', ''review_required''}"
      "status = ''approved'' \<longleftrightarrow> d = ''approved''" "status = ''rejected'' \<longleftrightarrow> d = ''rejected''"
    using exp dec py_lower_run_statuses
    by (auto simp: expected_review_status_def record_status_def decided_read TERMINAL_STATUSES_def split: if_splits)
  have same: "same_dict (PDict m) (PDict m)" using py_eq_refl [OF wf] by (simp add: same_dict_def)
  have hist: "review_history ?r' = h @ [PDict m]" by (simp add: review_history_def decided_read)
  have "delivery_violations sha op ?r' = Inr []"
    using errs status by (cases "d = ''approved''") (simp_all add: delivery_violations_def decided_read Let_def)
  moreover have "history_violations ?r' = []"
    using same by (simp add: history_violations_def decided_read hist is_list_def Let_def)
  moreover have "decision_violations sha ?r' = Inr []"
    using errs exp same dec status(1) unfolding decision_violations_def Let_def
    by (simp add: decided_read hist)
  moreover have "accepted_violations ?r' = []"
    using same status by (simp add: accepted_violations_def decided_read hist Let_def)
  moreover have "progress_violations ?r' = Inr []"
    using valid by (simp add: valid_record_parts progress_violations_def decided_read copy_record_read)
  moreover have "seal_violations sha ?r' = []"
    using status by (simp add: seal_violations_def decided_more_read)
  moreover have "dget ?r' ''artifact_schema'' = dget r ''artifact_schema''"
    by (simp add: decided_more_read copy_record_read)
  moreover have "identity_violations ?r' strategic = [] \<and> evidence_violations sha ?r' strategic = evidence_violations sha r strategic"
    if "identity_violations r strategic = []" for strategic
    using stable_parts [of r ?r', OF _ decided_more_read(4) that]
    by (simp add: decided_more_read decided_read copy_record_read)
  ultimately show ?thesis using valid by (simp add: valid_record_parts)
qed

text \<open>
  C2. A human decision is never lost: on every reachable run that waits for review, a decision
  built from its report without validation errors (for an approval, on a report that names no
  other run) is accepted; it closes the review with the corresponding status, approves exactly
  that manifest, and still leaves client delivery blocked.
\<close>

theorem complete_review_decision_is_applied:
  assumes sha: "\<forall>x. sha x \<noteq> []" and reach: "run_reachable sha op r" and status: "record_status r = ''review_required''"
    and built: "build_reviewed_edition sha ledger now r reviewer role decision reason t = Inr m"
    and clean: "dget m ''validation_errors'' = PList []" and complete: "review_complete r decision"
  shows "\<exists>r' s. apply_comprehensive_review_decision sha op now' r m = Inr r' \<and>
    expected_review_status (py_casefold (py_strip decision)) = Some s \<and> dget r' ''status'' = PStr s \<and>
    dget r' ''accepted_edition'' = (if py_casefold (py_strip decision) = ''approved'' then PDict m else PNone) \<and>
    dget r' ''review_decision'' = PDict m \<and> dget r' ''client_delivery_allowed'' = PBool False"
proof -
  have inv: "run_inv sha op r" using sha reach by (rule reachable_inv)
  then have valid: "valid_record sha op r" and shape: "run_shape r" by (simp_all add: run_inv_def)
  obtain n where n: "run_at n r" using inv by (auto simp: run_inv_def)
  then have full: "dget r ''completed_stages'' = PList (map PStr COMPREHENSIVE_STAGES)"
    using status unfolding run_at_def by simp
  have sub: "set REPORT_IDENTITY_FIELDS \<subseteq> set BOUND_FIELDS"
    by (simp add: REPORT_IDENTITY_FIELDS_def BOUND_FIELDS_def RECORD_IDENTITY_FIELDS_def)
  have "\<forall>f \<in> set REPORT_IDENTITY_FIELDS. \<exists>s. dget (as_dict (dget r ''identity'')) f = PStr s \<and> py_strip s = s"
    using shape subsetD [OF sub] by (fastforce simp: run_shape_def dget_def)
  note m = built_manifest_clean [OF sha built clean complete this]
  have "manifest_decision m \<in> set REVIEW_DECISIONS"
    by (rule review_manifest_clean [OF conjunct1 [OF m]]) blast
  then obtain s where s: "expected_review_status (manifest_decision m) = Some s"
    using expected_status_known by blast
  obtain items where items: "list_or_empty (dget r ''review_history'') = Inr items"
    using shape by (auto simp: run_shape_def is_list_def split: py.splits)
  obtain k where k: "py_int (py_or (dget r ''revision'') (PInt 0)) = Inr k"
    using shape py_int_revision unfolding run_shape_def by metis
  let ?r' = "decided_record sha (copy_record_for_update r) m (manifest_decision m) s (filter is_dict items) now' k"
  have "valid_record sha op ?r'" using decided_valid [OF inv] m s by blast
  then have "apply_comprehensive_review_decision sha op now' r m = Inr ?r'"
    using valid status full m s items k py_eq_refl [OF wf_string_list [of COMPREHENSIVE_STAGES]]
    by (simp add: apply_comprehensive_review_decision_def require_valid_def copy_record_read Let_def)
  with m s show ?thesis by (auto simp: decided_read)
qed

section \<open>A concrete run\<close>

definition sample_request :: run_request where
  "sample_request = \<lparr> new_run_id = ''r'', new_repository = ''o'', new_commit_sha = ''c'', new_evidence_ledger_id = ''l'',
     new_customer_id = ''u'', new_project_id = ''p'', new_authorized = True, new_assessment_depth = ''s'',
     new_report_language = ''en'', new_human_evidence = PNone, new_repository_provider = [],
     new_provider_access_mode = [], new_provider_credential_used = None \<rparr>"

definition sample_results :: "string \<Rightarrow> dict" where
  "sample_results s =
    (if s = ''immutable_repository_snapshot'' then [(''tree_sha'', PStr ''t'')]
     else if s = ''dependency_security_static_analysis'' then [(''scan_id'', PStr ''x'')]
     else if s = ''final_comprehensive_report_generation'' then [(''report_package'', PDict sample_package)]
     else [])"

lemma sample_identity_bound:
  "map_res (\<lambda>(field, value). bind_res (required_field value field) (\<lambda>t. Inr (field, PStr t))) (request_identity sample_request)
   = Inr (map (\<lambda>(field, value). (field, PStr value)) (request_identity sample_request))"
  by code_simp

lemma sample_provider: "bind_provider sample_request d = Inr d"
  by (simp add: bind_provider_def sample_request_def)

lemma sample_created:
  "\<exists>p. create_comprehensive_run_record sha now sample_request = Inr (seal_record sha (new_record_fields
     (map (\<lambda>(field, value). (field, PStr value)) (request_identity sample_request)) p now))"
proof -
  have req: "new_authorized sample_request" "new_human_evidence sample_request = PNone" by (simp_all add: sample_request_def)
  obtain p where "normalize_strategic_human_evidence sha PNone = Inr p" using normalize_evidence_none by blast
  then have "create_comprehensive_run_record sha now sample_request = Inr (seal_record sha (new_record_fields
     (map (\<lambda>(field, value). (field, PStr value)) (request_identity sample_request)) p now))"
    by (simp add: create_comprehensive_run_record_def sample_identity_bound sample_provider req)
  then show ?thesis by blast
qed

lemma sample_results_ok:
  "\<forall>s \<in> set COMPREHENSIVE_STAGES. stage_result_status (sample_results s) \<in> set SUCCESS_STAGE_STATUSES \<and>
      names_no_other_run identity (sample_results s)"
proof -
  have "list_all (\<lambda>s. stage_result_status (sample_results s) \<in> set SUCCESS_STAGE_STATUSES \<and>
      list_all (\<lambda>f. dget (sample_results s) f = PNone) RUN_BINDING_FIELDS) COMPREHENSIVE_STAGES" by code_simp
  then show ?thesis unfolding list_all_iff by (blast intro: unbound_names_no_run)
qed

text \<open>The same results, each carrying the ids of the run.\<close>

definition bound_results :: "string \<Rightarrow> dict" where
  "bound_results s = dupdate (sample_results s) [(''run_id'', PStr ''r''), (''repository'', PStr ''o''),
     (''commit_sha'', PStr ''c''), (''evidence_ledger_id'', PStr ''l'')]"

lemma bound_results_ok:
  "\<forall>s \<in> set COMPREHENSIVE_STAGES. stage_result_status (bound_results s) \<in> set SUCCESS_STAGE_STATUSES \<and>
     names_no_other_run (map (\<lambda>(field, value). (field, PStr value)) (request_identity sample_request)) (bound_results s)"
proof -
  let ?i = "map (\<lambda>(field, value). (field, PStr value)) (request_identity sample_request)"
  have "PStr (py_strip (py_str (dget (bound_results s) f))) = dget ?i f"
    if "f = ''run_id'' \<or> f = ''repository'' \<or> f = ''commit_sha'' \<or> f = ''evidence_ledger_id''" for s f
    using that by (elim disjE; simp only:)
      (simp_all add: bound_results_def request_identity_def sample_request_def py_strip_def is_space_def)
  then have "names_no_other_run ?i (bound_results s)" for s
    unfolding names_no_other_run_def RUN_BINDING_FIELDS_def by simp
  moreover have "stage_result_status (bound_results s) = stage_result_status (sample_results s)" for s
    by (simp add: stage_result_status_def bound_results_def)
  ultimately show ?thesis using sample_results_ok by simp
qed

text \<open>What a stage result never touches.\<close>

definition ADVANCED_FIELDS :: "string list" where
  "ADVANCED_FIELDS = [''stage_results'', ''current_stage'', ''completed_stages'', ''status'', ''progress_percent'',
     ''updated_at'', ''revision'', ''terminal'', ''human_review_required'', ''human_review_completed'',
     ''client_delivery_allowed'', ''integrity_sha256'']"

lemma seal_record_frame: "k \<noteq> ''integrity_sha256'' \<Longrightarrow> map_of (seal_record sha r) k = map_of r k"
  by (simp add: seal_record_def)

lemma advance_frame:
  "k \<notin> set ADVANCED_FIELDS \<Longrightarrow> map_of (advance_record sha u stage_id status completed results now revision) k = map_of u k"
  unfolding advance_record_def Let_def by (simp add: seal_record_frame ADVANCED_FIELDS_def)

lemma copy_record_frame: "k \<noteq> ''stage_results'' \<Longrightarrow> map_of (copy_record_for_update r) k = map_of r k"
  by (simp add: copy_record_for_update_def dsetdefault_def)

lemma apply_stages_frame:
  "apply_stages sha op now results ss r = Inr r' \<Longrightarrow> k \<notin> set ADVANCED_FIELDS \<Longrightarrow> map_of r' k = map_of r k"
proof (induction ss arbitrary: r)
  case (Cons s ss)
  then obtain r1 where r1: "apply_comprehensive_stage_result sha op now r s (results s) = Inr r1"
      "apply_stages sha op now results ss r1 = Inr r'" by (auto simp: bind_res_eq_Inr)
  have "map_of r1 k = map_of r k"
    using r1(1) Cons.prems(2)
    by (elim apply_stageE) (simp add: advance_frame, simp add: copy_record_frame ADVANCED_FIELDS_def)
  then show ?case using Cons.IH [OF r1(2) Cons.prems(2)] by simp
qed simp

lemma clean_PNone: "has_report_bundle PNone = Inr False"
  by (simp add: has_report_bundle_def bundle_loop.simps(2))

lemma clean_intro:
  assumes unmarked: "\<not> marks_bundle d"
    and slots: "\<And>k. k \<in> set CONTAINERS \<Longrightarrow> dget d k = PNone \<or> is_dict (dget d k) \<and> has_report_bundle (dget d k) = Inr False"
    and stages: "\<And>stages s. dget d ''stage_results'' = PDict stages \<Longrightarrow> s \<in> set REPORT_STAGES \<Longrightarrow>
      has_report_bundle (dget stages s) = Inr False"
  shows "has_report_bundle (PDict d) = Inr False"
proof -
  let ?stages = "case dget d ''stage_results'' of PDict stages \<Rightarrow> map (dget stages) REPORT_STAGES | _ \<Rightarrow> []"
  have "container_child d k = Inr (dget d k)" if "k \<in> set CONTAINERS" for k
    using slots [OF that] by (auto simp: container_child_def is_dict_iff split: py.split)
  then have "map_res (container_child d) CONTAINERS = Inr (map (dget d) CONTAINERS)" by (rule map_res_all)
  then have children: "report_children d = Inr (map (dget d) CONTAINERS @ ?stages)" by (simp add: report_children_def)
  have "has_report_bundle c = Inr False" if "c \<in> set ?stages" for c
    using that stages by (cases "dget d ''stage_results''") auto
  moreover have "has_report_bundle c = Inr False" if "c \<in> set (map (dget d) CONTAINERS)" for c
    using that slots clean_PNone by force
  ultimately have "\<forall>c \<in> set (map (dget d) CONTAINERS @ ?stages). has_report_bundle c = Inr False"
    unfolding set_append by blast
  then have "bundle_loop (rev (map (dget d) CONTAINERS @ ?stages)) = Inr False"
    unfolding bundle_loop_clean_iff set_rev .
  with children unmarked show ?thesis by (simp add: has_report_bundle_def bundle_loop.simps(2))
qed

lemma sample_package_clean: "has_report_bundle (PDict sample_package) = Inr False"
  by (rule clean_intro)
    (auto simp: sample_package_def CONTAINERS_def marks_bundle_def has_report_bundle_def bundle_loop.simps(2)
      report_children_def container_child_def intro!: clean_intro)

lemma report_slots_free:
  "set (''report_bundle'' # ''report_bundle_schema'' # CONTAINERS) \<inter> set ADVANCED_FIELDS = {}"
  "\<forall>k \<in> set (''report_bundle'' # ''report_bundle_schema'' # CONTAINERS). map_of (seal_record sha (new_record_fields i p now)) k = None"
  by (simp_all add: CONTAINERS_def ADVANCED_FIELDS_def seal_record_frame new_record_fields_def)

text \<open>The run after all of its stages: what the review reads of it.\<close>

lemma sample_stage_facts:
  "''immutable_repository_snapshot'' \<in> set COMPREHENSIVE_STAGES" "''deep_scanner_triage'' \<in> set COMPREHENSIVE_STAGES"
  "''dependency_security_static_analysis'' \<in> set COMPREHENSIVE_STAGES"
  "''final_comprehensive_report_generation'' \<in> set COMPREHENSIVE_STAGES"
  by code_simp+

lemma sample_request_read:
  assumes kept: "retains sample_results (length COMPREHENSIVE_STAGES) r"
    and ident: "dget r ''identity'' = PDict (map (\<lambda>(field, value). (field, PStr value)) (request_identity sample_request))"
  shows "record_edition_request r a b c d t = record_edition_request sample_reviewable a b c d t"
    and "report_package_from_record r = sample_package"
proof -
  obtain results where results: "dget r ''stage_results'' = PDict results" and
    each: "\<And>s. s \<in> set COMPREHENSIVE_STAGES \<Longrightarrow> \<exists>x. dget results s = PDict x \<and>
        (\<forall>k. k \<notin> set STAGE_BOUND_FIELDS \<longrightarrow> dget x k = dget (sample_results s) k)"
    using kept by (fastforce simp: retains_def dget_def)
  obtain tree where tree: "dget results ''immutable_repository_snapshot'' = PDict tree"
      "\<forall>k. k \<notin> set STAGE_BOUND_FIELDS \<longrightarrow> dget tree k = dget [(''tree_sha'', PStr ''t'')] k"
    using each [OF sample_stage_facts(1)] by (auto simp: sample_results_def)
  obtain triage where triage: "dget results ''deep_scanner_triage'' = PDict triage"
      "\<forall>k. k \<notin> set STAGE_BOUND_FIELDS \<longrightarrow> dget triage k = PNone"
    using each [OF sample_stage_facts(2)] by (auto simp: sample_results_def)
  obtain scan where scan: "dget results ''dependency_security_static_analysis'' = PDict scan"
      "\<forall>k. k \<notin> set STAGE_BOUND_FIELDS \<longrightarrow> dget scan k = dget [(''scan_id'', PStr ''x'')] k"
    using each [OF sample_stage_facts(3)] by (auto simp: sample_results_def)
  obtain final where final: "dget results ''final_comprehensive_report_generation'' = PDict final"
      "\<forall>k. k \<notin> set STAGE_BOUND_FIELDS \<longrightarrow> dget final k = dget [(''report_package'', PDict sample_package)] k"
    using each [OF sample_stage_facts(4)] by (auto simp: sample_results_def)
  have unbound: "set [''snapshot'', ''evidence'', ''tree_sha'', ''scan_id'', ''scanner_run_id'', ''scanner'', ''report_package'']
      \<inter> set STAGE_BOUND_FIELDS = {}"
    by (simp add: STAGE_BOUND_FIELDS_def RUN_BINDING_FIELDS_def)
  have strip: "py_strip ''t'' = ''t''" "py_strip ''x'' = ''x''" by code_simp+
  show package: "report_package_from_record r = sample_package"
    using final unbound by (simp add: report_package_from_record_def results REPORT_STAGE_IDS_def)
  have "record_tree_sha r = ''t''"
    using tree unbound by (simp add: record_tree_sha_def results Let_def as_dict_def strip)
  moreover have "record_scanner_run_id r = ''x''"
    using triage scan unbound by (simp add: record_scanner_run_id_def results Let_def as_dict_def py_or_def strip)
  moreover have "report_package_from_record sample_reviewable = sample_package" "record_tree_sha sample_reviewable = ''t''"
      "record_scanner_run_id sample_reviewable = ''x''" by code_simp+
  ultimately show "record_edition_request r a b c d t = record_edition_request sample_reviewable a b c d t"
    by (simp add: record_edition_request_def Let_def package ident evidence_bundle_hash_def sample_request_def
        request_identity_def sample_reviewable_def)
qed

lemma sample_run_clean:
  assumes applied: "apply_stages sha op now' sample_results COMPREHENSIVE_STAGES (seal_record sha (new_record_fields i p now)) = Inr r"
    and kept: "retains sample_results (length COMPREHENSIVE_STAGES) r"
  shows "has_report_bundle (PDict r) = Inr False"
proof (rule clean_intro)
  have free: "map_of r k = None" if "k \<in> set (''report_bundle'' # ''report_bundle_schema'' # CONTAINERS)" for k
  proof -
    have "k \<notin> set ADVANCED_FIELDS" using report_slots_free(1) that by blast
    then show ?thesis using apply_stages_frame [OF applied] bspec [OF report_slots_free(2) that] by simp
  qed
  show "dget r k = PNone \<or> is_dict (dget r k) \<and> has_report_bundle (dget r k) = Inr False" if "k \<in> set CONTAINERS" for k
    using free [of k] that by (simp add: dget_def)
  have "''artifact_schema'' \<notin> set ADVANCED_FIELDS" by (simp add: ADVANCED_FIELDS_def)
  then have "map_of r ''artifact_schema'' = Some (PStr VERSION)"
    using apply_stages_frame [OF applied] by (simp add: seal_record_frame new_record_fields_def)
  then show "\<not> marks_bundle r"
    using free [of "''report_bundle''"] free [of "''report_bundle_schema''"]
    by (simp add: marks_bundle_def dget_def VERSION_def SCHEMA_PREFIXES_def starts_with_def)
  fix stages s
  assume stages: "dget r ''stage_results'' = PDict stages" and s: "s \<in> set REPORT_STAGES"
  show "has_report_bundle (dget stages s) = Inr False"
  proof (cases "s \<in> set COMPREHENSIVE_STAGES")
    case True
    then obtain x where x: "dget stages s = PDict x" "\<And>k. k \<notin> set STAGE_BOUND_FIELDS \<Longrightarrow> map_of x k = map_of (sample_results s) k"
      using kept stages by (auto elim: retainsE)
    show ?thesis unfolding x(1)
    proof (rule clean_intro)
      have none: "map_of (sample_results s) k = None" if "k \<in> set [''report_bundle'', ''report_bundle_schema'', ''artifact_schema'', ''stage_results'']" for k
        using that by (auto simp: sample_results_def)
      then show "\<not> marks_bundle x" using x(2) by (simp add: marks_bundle_def dget_def STAGE_BOUND_FIELDS_def RUN_BINDING_FIELDS_def)
      show "has_report_bundle (dget stages' s') = Inr False" if "dget x ''stage_results'' = PDict stages'" for stages' s'
        using that x(2) [of "''stage_results''"] none by (simp add: dget_def STAGE_BOUND_FIELDS_def RUN_BINDING_FIELDS_def)
      show "dget x k = PNone \<or> is_dict (dget x k) \<and> has_report_bundle (dget x k) = Inr False" if "k \<in> set CONTAINERS" for k
      proof -
        have "k \<notin> set STAGE_BOUND_FIELDS" using that by (auto simp: CONTAINERS_def STAGE_BOUND_FIELDS_def RUN_BINDING_FIELDS_def)
        then have "dget x k = dget (sample_results s) k" using x(2) by (simp add: dget_def)
        then show ?thesis using that sample_package_clean by (auto simp: sample_results_def CONTAINERS_def)
      qed
    qed
  next
    case False
    then show ?thesis using kept stages clean_PNone by (auto simp: retains_def)
  qed
qed

lemma sample_edition_clean: "has_report_bundle (PDict sample_reviewable) = Inr False"
  by (rule sample_reviewable_edition) (erule build_reviewed_editionE)

lemma sample_waiting_run:
  obtains r m where "run_reachable (\<lambda>_. ''d'') op r" "record_status r = ''review_required''"
    "build_reviewed_edition (\<lambda>_. ''d'') (\<lambda>_. Inr []) ''n'' r ''ann'' ''security reviewer'' ''approved'' ''ok'' None = Inr m"
    "dget m ''validation_errors'' = PList []" "review_complete r ''approved''"
proof -
  let ?sha = "\<lambda>_. ''d''"
  let ?i = "map (\<lambda>(field, value). (field, PStr value)) (request_identity sample_request)"
  have sha: "\<forall>x. ?sha x \<noteq> []" by simp
  obtain p where created: "create_comprehensive_run_record ?sha ''n'' sample_request = Inr (seal_record ?sha (new_record_fields ?i p ''n''))"
    using sample_created by blast
  obtain r where r: "apply_stages ?sha op ''n'' sample_results COMPREHENSIVE_STAGES (seal_record ?sha (new_record_fields ?i p ''n'')) = Inr r"
      "retains sample_results (length COMPREHENSIVE_STAGES) r" "record_status r = ''review_required''"
      "dget r ''identity'' = dget (seal_record ?sha (new_record_fields ?i p ''n'')) ''identity''"
    using run_to_stage [OF sha created sample_results_ok, of "length COMPREHENSIVE_STAGES" op "''n''"]
    by (auto simp: length_stages)
  have ident: "dget r ''identity'' = PDict ?i" unfolding r(4) by (simp add: seal_record_read new_record_read)
  note same = sample_request_read [OF r(2) ident]
  have clean: "has_report_bundle (PDict r) = Inr False" using r(1,2) by (rule sample_run_clean)
  obtain m where m: "build_reviewed_edition ?sha (\<lambda>_. Inr []) ''n'' sample_reviewable ''ann'' ''security reviewer''
      ''approved'' ''ok'' None = Inr m" "dget m ''validation_errors'' = PList []"
    by (rule sample_reviewable_edition)
  have built: "build_reviewed_edition ?sha (\<lambda>_. Inr []) ''n'' r ''ann'' ''security reviewer'' ''approved'' ''ok'' None = Inr m"
    using m(1) clean sample_edition_clean by (simp add: build_reviewed_edition_def same(1) review_ledger_binding_def)
  have complete: "review_complete r ''approved''"
    by (simp add: review_complete_def Let_def same(2) ident report_names_run_def report_identity_def sample_package_def
        as_dict_def has_evidence_manifest_def EVIDENCE_MANIFEST_KEYS_def)
  show thesis
    by (rule that [OF apply_stages_reachable [OF run_reachable.created [OF created] r(1)] r(3) built m(2) complete])
qed

theorem complete_review_decision_is_applied_witness:
  "\<exists>r m r'. run_reachable (\<lambda>_. ''d'') (\<lambda>_. False) r \<and>
     apply_comprehensive_review_decision (\<lambda>_. ''d'') (\<lambda>_. False) ''n'' r m = Inr r' \<and>
     dget r' ''status'' = PStr ''approved'' \<and> dget r' ''accepted_edition'' = PDict m"
proof (rule sample_waiting_run [of "\<lambda>_. False"])
  fix r m
  assume a: "run_reachable (\<lambda>_. ''d'') (\<lambda>_. False) r" "record_status r = ''review_required''"
    "build_reviewed_edition (\<lambda>_. ''d'') (\<lambda>_. Inr []) ''n'' r ''ann'' ''security reviewer'' ''approved'' ''ok'' None = Inr m"
    "dget m ''validation_errors'' = PList []" "review_complete r ''approved''"
  have "expected_review_status (py_casefold (py_strip ''approved'')) = Some ''approved''" by code_simp
  with complete_review_decision_is_applied [OF _ a, of "''n''"] a(1) sample_reviewable_facts(1) show ?thesis by auto
qed

text \<open>The other properties at the same run.\<close>

theorem reachable_run_is_gated_witness:
  "\<exists>r. run_reachable (\<lambda>_. ''d'') (\<lambda>_. False) r \<and> record_status r = ''review_required'' \<and>
     record_violations (\<lambda>_. ''d'') (\<lambda>_. False) r = Inr [] \<and> dget r ''client_delivery_allowed'' = PBool False"
proof (rule sample_waiting_run [of "\<lambda>_. False"])
  fix r m
  assume a: "run_reachable (\<lambda>_. ''d'') (\<lambda>_. False) r" "record_status r = ''review_required''"
  show ?thesis using reachable_run_is_gated [OF _ a(1)] a by auto
qed

theorem run_can_reach_review_witness:
  "\<exists>r0 r. create_comprehensive_run_record (\<lambda>_. ''d'') ''n'' sample_request = Inr r0 \<and>
     apply_stages (\<lambda>_. ''d'') (\<lambda>_. False) ''n'' bound_results COMPREHENSIVE_STAGES r0 = Inr r \<and>
     record_status r = ''review_required''"
proof -
  let ?i = "map (\<lambda>(field, value). (field, PStr value)) (request_identity sample_request)"
  obtain p where created: "create_comprehensive_run_record (\<lambda>_. ''d'') ''n'' sample_request =
      Inr (seal_record (\<lambda>_. ''d'') (new_record_fields ?i p ''n''))" (is "_ = Inr ?r0")
    using sample_created by blast
  have "as_dict (dget ?r0 ''identity'') = ?i" by (simp add: seal_record_read new_record_read)
  with run_can_reach_review [OF _ created, of bound_results "\<lambda>_. False" "''n''"] bound_results_ok created
  show ?thesis by auto
qed

end
