(* ===== verification/StoreGuarantees.thy ===== *)
theory StoreGuarantees
  imports RunStore RecordOrder ReviewLifecycle
begin

text \<open>
  What the run store guarantees to its callers: no lost update, an append-only review history, records
  that are read back as they were written, publication under an active lease, projections that
  belong to the stored revision, and the refinement of a map of versions.
\<close>

section \<open>A map of versions\<close>

text \<open>
  The abstract store: every run has a revision and a record of that revision; a run is never removed and
  its record is replaced only by the record of the next revision.
\<close>

type_synonym versions = "string \<rightharpoonup> int \<times> dict"

definition record_revision :: "dict \<Rightarrow> int res" where
  "record_revision r = bind_res (dindex r ''revision'') py_int"

inductive version_step :: "versions \<Rightarrow> versions \<Rightarrow> bool" where
  keep: "version_step m m"
| add: "m run = None \<Longrightarrow> record_revision r = Inr n \<Longrightarrow> run_of r = PStr run \<Longrightarrow> version_step m (m(run \<mapsto> (n, r)))"
| replace: "m run = Some (n, r) \<Longrightarrow> record_revision r' = Inr (n + 1) \<Longrightarrow> run_of r' = PStr run \<Longrightarrow>
    version_step m (m(run \<mapsto> (n + 1, r')))"

definition stored_versions :: "('c, 'd) store_env \<Rightarrow> store_db \<Rightarrow> versions" where
  "stored_versions env db run =
    (case map_of (db_runs db) run of
       None \<Rightarrow> None
     | Some row \<Rightarrow>
         (case decode_run_payload env (PStr (rw_payload row)) of
            Inl e \<Rightarrow> None
          | Inr r \<Rightarrow> Some (rw_revision row, r)))"

lemma dindex_canon:
  assumes "wf_py (PDict r)"
  shows "dindex (as_dict (canon (PDict r))) k = map_sum id canon (dindex r k)"
  using map_of_canon [OF assms, of k] by (simp add: dindex_def split: option.splits del: canon.simps)

lemma py_int_canon: "py_int v = Inr n \<Longrightarrow> py_int (canon v) = Inr n"
  by (cases v) (simp_all add: py_int_def)

lemma record_revision_canon:
  assumes "wf_py (PDict r)" and "record_revision r = Inr n"
  shows "record_revision (as_dict (canon (PDict r))) = Inr n"
  using assms(2) by (auto simp: record_revision_def dindex_canon [OF assms(1)] bind_res_eq_Inr py_int_canon simp del: canon.simps)

lemma as_dict_canon: "as_dict (canon v) = as_dict (canon (PDict (as_dict v)))"
  by (cases v) (simp_all add: as_dict_def sort_items_def)

lemma run_of_canon:
  assumes "wf_py (PDict r)"
  shows "run_of (as_dict (canon (PDict r))) = canon (run_of r)"
proof -
  have "wf_py (PDict (as_dict (dget r ''identity'')))"
    using wf_dget [OF assms, of "''identity''"] by (cases "dget r ''identity''") (simp_all add: as_dict_def)
  from dget_canon [OF this, of "''run_id''"] show ?thesis
    unfolding run_of_def dget_canon [OF assms] as_dict_canon [of "dget r ''identity''"] .
qed


lemma stored_version:
  assumes "env_ok env" and "wf_py (PDict r)" and "encode_run_storage (se_zlib env) (se_sha env) r = Inr (rw_payload row)"
    and "map_of (db_runs db) run = Some row"
  shows "stored_versions env db run = Some (rw_revision row, as_dict (canon (PDict r)))"
  using stored_payload_decodes [OF assms(1-3)] assms(4) by (simp add: stored_versions_def del: canon.simps)

lemma stored_versions_update:
  assumes "db_runs db' = AList.update run row (db_runs db)" and "env_ok env" and "wf_py (PDict r)"
    and "encode_run_storage (se_zlib env) (se_sha env) r = Inr (rw_payload row)"
  shows "stored_versions env db' = (stored_versions env db)(run \<mapsto> (rw_revision row, as_dict (canon (PDict r))))"
proof
  fix k
  show "stored_versions env db' k = ((stored_versions env db)(run \<mapsto> (rw_revision row, as_dict (canon (PDict r))))) k"
  proof (cases "k = run")
    case True
    then show ?thesis using stored_version [OF assms(2-4), of db' run] assms(1) by (simp add: map_of_update del: canon.simps)
  next
    case False
    then show ?thesis using assms(1) by (simp add: stored_versions_def map_of_update)
  qed
qed

lemma same_runs_versions: "db_runs db' = db_runs db \<Longrightarrow> stored_versions env db' = stored_versions env db"
  by (simp add: stored_versions_def fun_eq_iff)

lemma step_refines:
  assumes "store_inv env db" and "store_step env db db'"
  shows "version_step (stored_versions env db) (stored_versions env db')"
proof -
  have ok: "env_ok env" using assms(1) by (simp add: store_inv_def)
  have same: ?thesis if "db_runs db' = db_runs db" using same_runs_versions [OF that] version_step.keep by metis
  from assms(2) show ?thesis
  proof cases
    case (create rec r)
    from create_run_Inr [OF create(2)] obtain run row where c: "r = copy_record_for_store rec" "run_of r = PStr run"
      "map_of (db_runs db) run = None" "db_runs db' = AList.update run row (db_runs db)"
      "encode_run_storage (se_zlib env) (se_sha env) r = Inr (rw_payload row)"
      "bind_res (dindex r ''revision'') py_int = Inr (rw_revision row)" by metis
    have wf: "wf_py (PDict r)" unfolding c(1) using create(1) by (rule wf_copy_for_store)
    show ?thesis
      unfolding stored_versions_update [OF c(4) ok wf c(5)]
    proof (rule version_step.add)
      show "stored_versions env db run = None" using c(3) by (simp add: stored_versions_def)
      show "record_revision (as_dict (canon (PDict r))) = Inr (rw_revision row)"
        using c(6) by (intro record_revision_canon [OF wf]) (simp add: record_revision_def)
      show "run_of (as_dict (canon (PDict r))) = PStr run" using run_of_canon [OF wf] c(2) by simp
    qed
  next
    case (save rec now expected lease r)
    obtain run persisted row where c: "r = copy_record_for_store rec" "run_of r = PStr run"
      "map_of (db_runs db) run = Some persisted" "rw_revision persisted = expected"
      "db_runs db' = AList.update run row (db_runs db)" "rw_revision row = expected + 1"
      "encode_run_storage (se_zlib env) (se_sha env) r = Inr (rw_payload row)"
      "bind_res (dindex r ''revision'') py_int = Inr (rw_revision row)" by (rule save_run_Inr [OF save(2)])
    have wf: "wf_py (PDict r)" unfolding c(1) using save(1) by (rule wf_copy_for_store)
    obtain r0 where "row_holds env persisted (map_of (db_commitments db) run) r0" by (rule store_invD [OF assms(1) c(3)])
    then have old: "stored_versions env db run = Some (expected, as_dict (canon (PDict r0)))"
      using stored_version [OF ok _ _ c(3)] c(4) by (simp add: row_holds_def del: canon.simps wf_py.simps)
    show ?thesis
      unfolding stored_versions_update [OF c(5) ok wf c(7)] c(6)
    proof (rule version_step.replace [of "stored_versions env db", OF old])
      show "record_revision (as_dict (canon (PDict r))) = Inr (expected + 1)"
        using c(6,8) by (intro record_revision_canon [OF wf]) (simp add: record_revision_def)
      show "run_of (as_dict (canon (PDict r))) = PStr run" using run_of_canon [OF wf] c(2) by simp
    qed
  next
    case (load run0 r)
    then show ?thesis using load_keeps_runs [of env run0 db] by (intro same) simp
  next
    case (recent customer project limit rs)
    then show ?thesis using recent_keeps_db [OF assms(1)] same by blast
  next
    case (refresh run0 projection)
    then show ?thesis using refresh_keeps_runs same by metis
  qed (use same in simp_all)
qed

lemma empty_store_inv: "env_ok env \<Longrightarrow> store_inv env empty_store"
  by (simp add: store_inv_def empty_store_def)

section \<open>Reading back what was written\<close>

lemma written_row:
  assumes "create_run env rec db = (Inr r, db') \<or> save_run env now rec expected lease db = (Inr r, db')"
  obtains run row where "run_of r = PStr run" "r = copy_record_for_store rec" "map_of (db_runs db') run = Some row"
    "encode_run_storage (se_zlib env) (se_sha env) r = Inr (rw_payload row)"
  using assms
proof
  assume "create_run env rec db = (Inr r, db')"
  then obtain run row where "r = copy_record_for_store rec" "run_of r = PStr run"
    "db_runs db' = AList.update run row (db_runs db)" "encode_run_storage (se_zlib env) (se_sha env) r = Inr (rw_payload row)"
    by (rule create_run_Inr)
  then show thesis by (intro that [of run row]) (simp_all add: map_of_update)
next
  assume "save_run env now rec expected lease db = (Inr r, db')"
  then obtain run row where "r = copy_record_for_store rec" "run_of r = PStr run"
    "db_runs db' = AList.update run row (db_runs db)" "encode_run_storage (se_zlib env) (se_sha env) r = Inr (rw_payload row)"
    by (rule save_run_Inr)
  then show thesis by (intro that [of run row]) (simp_all add: map_of_update)
qed

lemma load_written:
  assumes "store_inv env db'" and "wf_py (PDict r)" and "map_of (db_runs db') run = Some row"
    and "encode_run_storage (se_zlib env) (se_sha env) r = Inr (rw_payload row)" and "py_strip run = run" and "run \<noteq> []"
  shows "load_run env run db' =
    (restore_comprehensive_run_record (se_sha env) (se_operator env) (as_dict (canon (PDict r))), db')"
proof -
  obtain r0 where ok: "env_ok env" and r0: "row_holds env row (map_of (db_commitments db') run) r0"
    by (rule store_invD [OF assms(1,3)])
  have "as_dict (canon (PDict r0)) = as_dict (canon (PDict r))"
    using stored_payload_decodes [OF ok assms(2,4)] stored_payload_decodes [OF ok, of r0 "rw_payload row"] r0
    by (simp add: row_holds_def del: wf_py.simps canon.simps)
  then show ?thesis
    using restore_held_row [OF ok r0] assms(3,5,6)
    by (cases "restore_comprehensive_run_record (se_sha env) (se_operator env) (as_dict (canon (PDict r)))")
      (simp_all add: load_run_def Let_def transact_def del: canon.simps)
qed

lemma reachable_schema:
  "run_reachable sha op r \<Longrightarrow> dget r ''artifact_schema'' = PStr VERSION \<and> (\<exists>s. dget r ''status'' = PStr s)"
proof (induction rule: run_reachable.induct)
  case (created now req r)
  then show ?case
  proof (rule createE)
    fix identity evidence
    assume "\<And>k. k \<notin> set (''integrity_sha256'' # PROVIDER_FIELDS) \<Longrightarrow>
      dget r k = dget (new_record_fields identity evidence now) k"
    then show ?thesis by (simp add: PROVIDER_FIELDS_def new_record_read)
  qed
next
  case (staged r now stage_id result r')
  then show ?case by (elim apply_stageE) (simp add: advance_read(1) advance_read(11) [unfolded stable_fields_def, simplified] copy_record_read)
next
  case (reviewed r now manifest r')
  have "dget (decided_record sha u c d s h n v) ''artifact_schema'' = dget u ''artifact_schema''" for u c d s h n v
    unfolding decided_record_def Let_def by (simp add: seal_record_read decision_retained_def Let_def)
  then show ?case using reviewed by (elim apply_reviewE) (simp add: decided_read(1) copy_record_read)
qed

lemma sha_text_nonempty: "is_sha256_text s \<Longrightarrow> s \<noteq> []"
  by (cases s) (simp_all add: is_sha256_text_def)

lemma reachable_restores:
  assumes sha: "\<forall>x. is_sha256_text (sha x)" and wf: "wf_py (PDict r)" and reach: "run_reachable sha op r" and unrev: "unreviewed r"
  shows "restore_comprehensive_run_record sha op (as_dict (canon (PDict r))) = Inr (as_dict (canon (PDict r)))"
proof -
  let ?r = "as_dict (canon (PDict r))"
  have "\<forall>x. sha x \<noteq> []" using sha sha_text_nonempty by blast
  then have inv: "run_inv sha op r" using reach by (rule reachable_inv)
  then obtain results where "dget r ''stage_results'' = PDict results" by (auto simp: run_inv_def run_shape_def)
  then have "map_of r ''stage_results'' = Some (PDict results)" by (cases "map_of r ''stage_results''") (simp_all add: dget_def)
  then have "map_of ?r ''stage_results'' = Some (canon (PDict results))" unfolding map_of_canon [OF wf] by simp
  then have "copy_record_for_update ?r = ?r" by (simp add: copy_record_for_update_def dsetdefault_def del: canon.simps)
  moreover have "dget ?r ''artifact_schema'' = PStr VERSION"
    using dget_canon [OF wf, of "''artifact_schema''"] reachable_schema [OF reach] by simp
  ultimately show ?thesis
    using canon_keeps_valid [OF sha wf inv unrev] reachable_schema [OF reach]
    by (auto simp: restore_comprehensive_run_record_def require_valid_def Let_def VERSION_def LEGACY_VERSION_def simp del: canon.simps)
qed

section \<open>Projections\<close>

lemma projection_checked:
  assumes "projection_errors run row p = Inr u"
  shows "py_int (py_or (dget p ''revision'') (PInt (-1))) = Inr (rw_revision row)"
    "text_of (dget p ''canonical_status'') = rw_status row" "truthy (dget p ''terminal'') = rw_terminal row"
    "py_casefold (text_of (dget p ''integrity_sha256'')) = py_casefold (py_strip (rw_integrity row))"
    "projected_field p ''run_id'' = run"
proof -
  have none: "find (\<lambda>(field, expected). projected_field p field \<noteq> expected)
      [(''run_id'', run), (''customer_id'', rw_customer_id row), (''project_id'', rw_project_id row),
       (''repository'', rw_repository row), (''commit_sha'', rw_commit_sha row)] = None"
    using assms unfolding projection_errors_def Let_def by (cases "find (\<lambda>(field, expected). projected_field p field \<noteq> expected)
      [(''run_id'', run), (''customer_id'', rw_customer_id row), (''project_id'', rw_project_id row),
       (''repository'', rw_repository row), (''commit_sha'', rw_commit_sha row)]") auto
  then show "projected_field p ''run_id'' = run" by (simp split: if_split_asm)
  obtain n where "py_int (py_or (dget p ''revision'') (PInt (-1))) = Inr n"
    using assms unfolding projection_errors_def Let_def none option.case by (auto simp: bind_res_eq_Inr)
  with assms show "py_int (py_or (dget p ''revision'') (PInt (-1))) = Inr (rw_revision row)"
    "text_of (dget p ''canonical_status'') = rw_status row" "truthy (dget p ''terminal'') = rw_terminal row"
    "py_casefold (text_of (dget p ''integrity_sha256'')) = py_casefold (py_strip (rw_integrity row))"
    unfolding projection_errors_def Let_def none option.case by (simp_all split: if_split_asm)
qed

lemma served_projection:
  assumes "store_inv env db" and "load_browser_projection env run db = Inr (Some p)"
  obtains n r where "stored_versions env db (py_strip run) = Some (n, r)"
    "py_int (py_or (dget p ''revision'') (PInt (-1))) = Inr n"
    "dget r ''status'' = PStr (text_of (dget p ''canonical_status''))" "truthy (dget p ''terminal'') = truthy (dget r ''terminal'')"
    "py_casefold (text_of (dget p ''integrity_sha256'')) = py_casefold (py_strip (str_or_empty (dget r ''integrity_sha256'')))"
    "projected_field p ''run_id'' = py_strip run"
proof -
  obtain row where row: "map_of (db_runs db) (py_strip run) = Some row" "projection_errors (py_strip run) row p = Inr ()"
    using assms(2) unfolding load_browser_projection_def Let_def
    by (auto simp: bind_res_eq_Inr split: if_split_asm option.split_asm)
  obtain r where ok: "env_ok env" and r: "row_holds env row (map_of (db_commitments db) (py_strip run)) r"
    by (rule store_invD [OF assms(1) row(1)])
  then have r: "wf_py (PDict r)" "encode_run_storage (se_zlib env) (se_sha env) r = Inr (rw_payload row)" "row_columns r row"
    by (simp_all add: row_holds_def)
  have v: "stored_versions env db (py_strip run) = Some (rw_revision row, as_dict (canon (PDict r)))"
    by (rule stored_version [OF ok r(1,2) row(1)])
  show thesis
    using r(3) projection_checked [OF row(2)]
    by (intro that [OF v]) (simp_all add: dget_canon [OF r(1)] row_columns_def del: canon.simps(2))
qed

lemma published_lease:
  assumes "save_run env now rec expected (Some lease) db = (Inr r, db')"
  shows "\<exists>run job job'. run_of r = PStr run \<and> map_of (db_jobs db) lease = Some job \<and> jr_run_id job = run \<and>
      jr_status job \<in> {''queued'', ''rendering'', ''running''} \<and> map_of (db_jobs db') lease = Some job' \<and>
      jr_status job' \<in> {''complete'', ''blocked''}"
proof -
  obtain run publication where c: "run_of r = PStr run" "publication_status r (Some lease) = Inr publication"
    "case publication of None \<Rightarrow> db_jobs db' = db_jobs db
     | Some (l, status) \<Rightarrow> \<exists>updated. publish_job l run status now updated (db_jobs db) = Some (db_jobs db')"
    using assms by (rule save_run_Inr)
  obtain status where p: "publication = Some (lease, status)" "status \<in> {''complete'', ''blocked''}"
    using c(2) unfolding publication_status_def by (auto simp: bind_res_eq_Inr split: if_split_asm)
  obtain updated where u: "publish_job lease run status now updated (db_jobs db) = Some (db_jobs db')" using c(3) p(1) by auto
  then obtain job where "map_of (db_jobs db) lease = Some job" "jr_run_id job = run"
    "jr_status job \<in> {''queued'', ''rendering'', ''running''}"
    "db_jobs db' = AList.update lease (job\<lparr>jr_status := status, jr_heartbeat := now, jr_updated_at := updated\<rparr>) (db_jobs db)"
    unfolding publish_job_def by (cases "map_of (db_jobs db) lease") (simp_all split: if_split_asm)
  then show ?thesis using c(1) p(2) by (auto simp: map_of_update)
qed

section \<open>A sample store\<close>

text \<open>Compression that stores, a constant digest, no operator deliveries and no projection builder.\<close>

definition sample_env :: "(unit, unit) store_env" where
  "sample_env = \<lparr>se_zlib = stored_zlib, se_sha = sample_digest, se_operator = (\<lambda>_. False), se_builder = None\<rparr>"

definition sample_stages :: dict where
  "sample_stages = [(PUBLICATION_STAGE_ID, PDict [(''stage_execution'', PDict [(''publication_lease_id'', PStr ''w'')])])]"

definition sample_stored :: "int \<Rightarrow> dict" where
  "sample_stored n = dset (dset (dset (dset sample_legacy ''stage_results'' (PDict sample_stages)) ''integrity_sha256'' (PStr (sample_digest []))) ''revision'' (PInt n))
     ''updated_at'' (PStr ''t'')"

lemma sample_env_ok: "env_ok sample_env"
  using stored_lossless sample_digest_text by (simp add: env_ok_def sample_env_def)

lemma sample_stored_wf: "wf_py (PDict (sample_stored n))"
  by (simp add: sample_stored_def sample_legacy_def sample_stages_def)

lemma sample_stored_read:
  "dget (sample_stored n) k = (if k = ''integrity_sha256'' then PStr (sample_digest []) else if k = ''revision'' then PInt n
     else if k = ''updated_at'' then PStr ''t''
     else if k = ''stage_results'' then PDict sample_stages else dget sample_legacy k)"
  by (simp add: sample_stored_def)

lemma sample_stored_valid: "valid_record sample_digest op (sample_stored n)"
proof -
  have status: "record_status (sample_stored n) = ''ready''"
    by (simp add: record_status_def sample_stored_read py_lower_run_statuses) (simp add: sample_legacy_def py_lower_run_statuses)
  have "unreviewed (sample_stored n)"
    by (simp add: unreviewed_def status sample_stored_read) (simp add: sample_legacy_def)
  moreover have "at_stage 0 (sample_stored n)"
    using legacy_sample_valid(4) [OF refl] by (simp add: at_stage_def sample_stored_read)
  moreover have "identity_violations (sample_stored n) False = []"
    using legacy_sample_valid(2) [OF refl] by (simp add: identity_violations_def sample_stored_read)
  moreover have "str_or_empty (dget (sample_stored n) ''artifact_schema'') = LEGACY_VERSION"
    using legacy_sample_valid(1) [OF refl] by (simp add: sample_stored_read)
  moreover have "seal_violations sample_digest (sample_stored n) = []"
    by (simp add: seal_violations_def status record_hash_def canonical_hash_eq_json_digest json_digest_def sample_digest_def
      sample_stored_read TERMINAL_STATUSES_def) (simp add: sample_legacy_def)
  ultimately show ?thesis
    using unreviewed_parts at_stage_progress by (simp add: valid_record_parts evidence_violations_def)
qed


lemma utf8_length: "length (utf8 s) \<le> 2 * length s"
  by (induction s) (auto simp: utf8_def utf8_char_def Let_def)

lemma sample_stored_lengths:
  "length (json_dumps (PDict (sample_stored 1))) \<le> 1000"
  "length (json_dumps (PDict (sample_stored 2))) \<le> 1000"
  by code_simp+

lemma sample_stored_text:
  assumes "n \<in> {1, 2}"
  shows "encode_run_storage stored_zlib sample_digest (sample_stored n) = Inr (json_dumps (PDict (sample_stored n)))"
proof (rule small_record_text)
  show "\<not> has_key (sample_stored n) ENVELOPE_KEY" by (simp add: sample_stored_def sample_legacy_def ENVELOPE_KEY_def)
  have "length (json_dumps (PDict (sample_stored n))) \<le> 1000" using assms sample_stored_lengths by blast
  then show "length (utf8 (json_dumps (PDict (sample_stored n)))) \<le> COMPRESSION_THRESHOLD_BYTES"
    using utf8_length [of "json_dumps (PDict (sample_stored n))"] unfolding COMPRESSION_THRESHOLD_BYTES_def by linarith
qed

definition sample_run_row :: "int \<Rightarrow> run_row" where
  "sample_run_row n = \<lparr>rw_customer_id = ''u'', rw_project_id = ''p'', rw_repository = ''o'', rw_commit_sha = ''c'',
     rw_ledger_id = ''l'', rw_status = ''ready'', rw_revision = n, rw_terminal = False, rw_integrity = sample_digest [],
     rw_updated_at = ''t'', rw_payload = json_dumps (PDict (sample_stored n))\<rparr>"

definition sample_db :: "int \<Rightarrow> job_table \<Rightarrow> store_db" where
  "sample_db n jobs = empty_store\<lparr>db_runs := [(''r'', sample_run_row n)], db_commitments := [(''r'', 0, sample_digest [])], db_jobs := jobs\<rparr>"

lemma sample_copy: "copy_record_for_store (sample_stored n) = sample_stored n"
  by (simp add: copy_record_for_store_def dsetdefault_def sample_stored_def sample_legacy_def)

lemma sample_run_identity: "dindex (sample_stored n) ''identity'' = Inr (dget sample_legacy ''identity'')"
  by (simp add: dindex_def sample_stored_def sample_legacy_def)

lemma sample_values:
  assumes "n \<in> {1, 2}"
  obtains vals where "compute_row_values sample_env (sample_stored n) = Inr vals" "bound_row vals = Inr (''r'', sample_run_row n)"
  using sample_stored_text [OF assms]
  by (simp add: compute_row_values_def sample_env_def identity_of_def dindex_def sample_stored_def sample_legacy_def py_int_def
      bound_row_def sql_text_def sample_run_row_def)

lemma sample_run_created: "create_run sample_env (sample_stored 1) empty_store = (Inr (sample_stored 1), sample_db 1 [])"
proof -
  obtain vals where v: "compute_row_values sample_env (sample_stored 1) = Inr vals" "bound_row vals = Inr (''r'', sample_run_row 1)"
    by (rule sample_values [of 1]) simp
  have "validated_copy sample_env (sample_stored 1) = Inr (sample_stored 1)"
    unfolding validated_copy_Inr using sample_stored_valid by (simp add: sample_copy sample_env_def)
  moreover have "store_history (sample_stored 1) = Inr []" unfolding store_history_def sample_stored_read by (simp add: sample_legacy_def)
  moreover have "insert_run sample_env (sample_stored 1) vals [] None empty_store = Inr (sample_db 1 [])"
    by (simp add: insert_run_def v(2) write_browser_projection_def sample_db_def empty_store_def review_history_sha256_def sample_env_def
      sample_digest_def)
  moreover have "build_browser_projection sample_env (sample_stored 1) = Inr None" by (simp add: build_browser_projection_def sample_env_def)
  ultimately show ?thesis
    by (simp add: create_run_def v(1) identity_of_def sample_run_identity transact_def sample_copy)
qed

definition sample_lease :: "string \<Rightarrow> job_table" where
  "sample_lease status = [(''w'', \<lparr>jr_run_id = ''r'', jr_status = status, jr_started = 0, jr_heartbeat = 0, jr_updated_at = ''t''\<rparr>)]"

lemma sample_published_status: "publication_status (sample_stored 2) (Some ''w'') = Inr (Some (''w'', ''blocked''))"
  by code_simp

lemma sample_saved:
  assumes p: "publication_status (sample_stored 2) lease = Inr publication" and j: "publish_lease 0 ''r'' ''t'' publication jobs = Inr jobs'"
  shows "save_run sample_env 0 (sample_stored 2) 1 lease (sample_db 1 jobs) = (Inr (sample_stored 2), sample_db 2 jobs')"
proof -
  obtain vals where v: "compute_row_values sample_env (sample_stored 2) = Inr vals" "bound_row vals = Inr (''r'', sample_run_row 2)"
    by (rule sample_values [of 2]) simp
  have "validated_copy sample_env (sample_stored 2) = Inr (sample_stored 2)"
    unfolding validated_copy_Inr using sample_stored_valid by (simp add: sample_copy sample_env_def)
  moreover have "store_history (sample_stored 2) = Inr []" unfolding store_history_def sample_stored_read by (simp add: sample_legacy_def)
  moreover have "build_browser_projection sample_env (sample_stored 2) = Inr None" by (simp add: build_browser_projection_def sample_env_def)
  moreover have "dindex (as_dict (dget sample_legacy ''identity'')) ''run_id'' = Inr (PStr ''r'')" by (simp add: sample_legacy_def dindex_def)
  moreover have "dindex (sample_stored 2) ''revision'' = Inr (PInt 2)" "dindex (sample_stored 2) ''updated_at'' = Inr (PStr ''t'')"
    by (simp_all add: dindex_def sample_stored_def)
  moreover have "py_casefold (py_strip (sample_digest [])) = sample_digest []" using hex_text_stable sample_digest_text by blast
  ultimately show ?thesis
    by (simp add: save_run_def v p j identity_of_def sample_run_identity transact_def sample_copy py_int_def update_run_def
       sql_text_def sample_db_def update_persisted_def commitment_of_def assert_review_history_commitment_def review_history_sha256_def
       write_browser_projection_def empty_store_def sample_run_row_def [of 1])
      (simp add: sample_env_def sample_digest_def)
qed

lemma sample_saved_plain: "save_run sample_env 0 (sample_stored 2) 1 None (sample_db 1 jobs) = (Inr (sample_stored 2), sample_db 2 jobs)"
  using sample_saved [of None None jobs jobs] by (simp add: publication_status_def publish_lease_def)

lemma sample_saved_published:
  "\<exists>jobs'. save_run sample_env 0 (sample_stored 2) 1 (Some ''w'') (sample_db 1 (sample_lease ''rendering'')) =
     (Inr (sample_stored 2), sample_db 2 jobs')"
  using sample_saved [OF sample_published_status, of "sample_lease ''rendering''"]
  by (auto simp: publish_lease_def publish_job_def sample_lease_def)

lemma sample_db_inv: "store_inv sample_env (sample_db 1 [])"
  using empty_store_inv [OF sample_env_ok] sample_stored_wf sample_run_created by (rule create_keeps_inv)

lemma sample_run_id: "run_of (sample_stored n) = PStr ''r''"
  unfolding run_of_def sample_stored_read by (simp add: sample_legacy_def)

section \<open>Guarantees\<close>

text \<open>
  C24. No lost update: after a save that was computed from revision \<open>n\<close> of a run succeeded, no later save
  computed from the same revision succeeds, whatever transactions of any client happened in between.
\<close>

theorem concurrent_save_is_refused:
  assumes "saves_run env db run n db1" and "(store_step env)\<^sup>*\<^sup>* db1 db2"
  shows "\<not> saves_run env db2 run n db3"
  using assms by (rule run_versions.no_lost_update)

theorem concurrent_save_is_refused_witness:
  "\<forall>db3. \<not> saves_run sample_env (sample_db 2 []) ''r'' 1 db3"
proof -
  have "saves_run sample_env (sample_db 1 []) ''r'' 1 (sample_db 2 [])"
    unfolding saves_run_def using sample_saved_plain [of "[]"] sample_run_id [of 2] by blast
  from concurrent_save_is_refused [OF this rtranclp.rtrancl_refl] show ?thesis by blast
qed

text \<open>
  C25. The review history of a run is append-only: from any store that was built by transactions, every later
  store holds the events of the earlier history first and unchanged, up to the order of
  dictionary keys, unless one transaction on the way replaced the stored history by one whose
  beginning is another text with the same digest. The same store keeps its
  invariant: every row holds a valid record, its revision and the commitment to its history.
\<close>

theorem review_history_only_grows:
  assumes "env_ok env" and "(store_step env)\<^sup>*\<^sup>* empty_store db" and "(store_step env)\<^sup>*\<^sup>* db db'"
    and "stored_history env db run = Some es"
  shows "store_inv env db' \<and> ((\<exists>new. stored_history env db' run = Some (es @ new)) \<or>
    (\<exists>a b. (store_step env)\<^sup>*\<^sup>* db a \<and> store_step env a b \<and> (store_step env)\<^sup>*\<^sup>* b db' \<and> history_forged env a b run))"
proof -
  have "store_inv env db" using run_versions.always_good [OF assms(2)] empty_store_inv [OF assms(1)] by blast
  then show ?thesis using run_versions.log_append_only [OF assms(3) _ assms(4)] run_versions.always_good [OF assms(3)] by blast
qed

theorem review_history_only_grows_witness:
  "store_inv sample_env (sample_db 2 []) \<and>
   ((\<exists>new. stored_history sample_env (sample_db 2 []) ''r'' = Some ([] @ new)) \<or>
    (\<exists>a b. (store_step sample_env)\<^sup>*\<^sup>* (sample_db 1 []) a \<and> store_step sample_env a b \<and>
      (store_step sample_env)\<^sup>*\<^sup>* b (sample_db 2 []) \<and> history_forged sample_env a b ''r''))"
proof (rule review_history_only_grows [OF sample_env_ok])
  show "(store_step sample_env)\<^sup>*\<^sup>* empty_store (sample_db 1 [])"
    by (rule r_into_rtranclp) (rule store_step.create [OF sample_stored_wf sample_run_created])
  show "(store_step sample_env)\<^sup>*\<^sup>* (sample_db 1 []) (sample_db 2 [])"
    by (rule r_into_rtranclp) (rule store_step.save [OF sample_stored_wf sample_saved_plain])
  have row: "map_of (db_runs (sample_db 1 [])) ''r'' = Some (sample_run_row 1)" by (simp add: sample_db_def)
  then obtain r where "row_holds sample_env (sample_run_row 1) (map_of (db_commitments (sample_db 1 [])) ''r'') r"
    by (rule store_invD [OF sample_db_inv])
  moreover from this obtain h where "store_history r = Inr h"
    "map_of (db_commitments (sample_db 1 [])) ''r'' = Some (int (length h), review_history_sha256 (se_sha sample_env) h)"
    by (auto simp: row_holds_def)
  ultimately show "stored_history sample_env (sample_db 1 []) ''r'' = Some []"
    using stored_history_held [OF sample_db_inv row] by (auto simp: sample_db_def)
qed

text \<open>
  C26. What is written is what is read: when a run was created or saved, loading it returns the restored form of
  exactly that record (up to key order), whichever encoding the storage chose, and reading
  changes nothing in the store.
\<close>

theorem saved_run_is_loaded:
  assumes inv: "store_inv env db" and wf: "wf_py (PDict rec)"
    and written: "create_run env rec db = (Inr r, db') \<or> save_run env now rec expected lease db = (Inr r, db')"
    and run: "run_of r = PStr run" "py_strip run = run" "run \<noteq> []"
  shows "load_run env run db' =
    (restore_comprehensive_run_record (se_sha env) (se_operator env) (as_dict (canon (PDict (copy_record_for_store rec)))), db')"
proof -
  have inv': "store_inv env db'" using written create_keeps_inv [OF inv wf] save_keeps_inv [OF inv wf] by blast
  from written obtain run' row where w: "run_of r = PStr run'" "r = copy_record_for_store rec"
    "map_of (db_runs db') run' = Some row" "encode_run_storage (se_zlib env) (se_sha env) r = Inr (rw_payload row)"
    by (rule written_row)
  have "wf_py (PDict r)" unfolding w(2) using wf by (rule wf_copy_for_store)
  then show ?thesis using load_written [OF inv' _ _ w(4) run(2,3)] w(1,2,3) run(1) by simp
qed

theorem saved_run_is_loaded_witness:
  "load_run sample_env ''r'' (sample_db 1 []) =
    (restore_comprehensive_run_record (se_sha sample_env) (se_operator sample_env)
      (as_dict (canon (PDict (copy_record_for_store (sample_stored 1))))), sample_db 1 [])"
  by (rule saved_run_is_loaded [OF empty_store_inv [OF sample_env_ok] sample_stored_wf disjI1 [OF sample_run_created] sample_run_id])
    (simp_all add: py_strip_def is_space_def)

text \<open>
  C28. Publication is fenced by its lease: a save that claims a publication lease succeeds only when the job
  of that lease is a queued, rendering or running job of the same run and the record names the
  lease; the job is then complete or blocked in the same transaction, and the same
  lease never publishes again.
\<close>

theorem publication_needs_active_lease:
  assumes "save_run env now rec expected (Some lease) db = (Inr r, db')"
  shows "\<exists>job job' run. run_of r = PStr run \<and> map_of (db_jobs db) lease = Some job \<and> jr_run_id job = run \<and>
      jr_status job \<in> {''queued'', ''rendering'', ''running''} \<and>
      map_of (db_jobs db') lease = Some job' \<and> jr_status job' \<in> {''complete'', ''blocked''} \<and>
      (\<forall>now' rec' expected' jobs. job_step\<^sup>*\<^sup>* (db_jobs db') jobs \<longrightarrow>
        (\<nexists>r' db''. save_run env now' rec' expected' (Some lease) (db'\<lparr>db_jobs := jobs\<rparr>) = (Inr r', db'')))"
proof -
  obtain run job job' where c: "run_of r = PStr run" "map_of (db_jobs db) lease = Some job" "jr_run_id job = run"
      "jr_status job \<in> {''queued'', ''rendering'', ''running''}" "map_of (db_jobs db') lease = Some job'"
      "jr_status job' \<in> {''complete'', ''blocked''}"
    using published_lease [OF assms] by blast
  have final: "jr_status job' \<in> set FINAL_REPORT_JOB_TERMINAL_STATUSES" using c(6) by (auto simp: FINAL_REPORT_JOB_TERMINAL_STATUSES_def)
  have "\<not> save_run env now' rec' expected' (Some lease) (db'\<lparr>db_jobs := jobs\<rparr>) = (Inr r', db'')"
    if "job_step\<^sup>*\<^sup>* (db_jobs db') jobs" for now' rec' expected' jobs r' db''
  proof
    assume "save_run env now' rec' expected' (Some lease) (db'\<lparr>db_jobs := jobs\<rparr>) = (Inr r', db'')"
    from published_lease [OF this] obtain job'' where j: "map_of jobs lease = Some job''" "jr_status job'' \<in> {''queued'', ''rendering'', ''running''}"
      by auto
    moreover have "jr_status job'' = jr_status job'" using jobs.always_keeps [OF that c(5)] final j(1) by auto
    ultimately show False using final active_not_terminal by metis
  qed
  then show ?thesis using c by blast
qed

theorem publication_needs_active_lease_witness:
  "\<exists>jobs job'. save_run sample_env 0 (sample_stored 2) 1 (Some ''w'') (sample_db 1 (sample_lease ''rendering'')) =
     (Inr (sample_stored 2), sample_db 2 jobs) \<and> map_of jobs ''w'' = Some job' \<and> jr_status job' \<in> {''complete'', ''blocked''}"
proof -
  obtain jobs where s: "save_run sample_env 0 (sample_stored 2) 1 (Some ''w'') (sample_db 1 (sample_lease ''rendering'')) =
     (Inr (sample_stored 2), sample_db 2 jobs)" using sample_saved_published by blast
  have "db_jobs (sample_db 2 jobs) = jobs" by (simp add: sample_db_def)
  with publication_needs_active_lease [OF s] s show ?thesis by metis
qed

text \<open>
  C27. Storing a running assessment never makes it unreadable: a reachable record that was not reviewed yet,
  written and read back with its keys in another order, is restored as it is.
\<close>

theorem stored_run_restores:
  assumes "\<forall>x. is_sha256_text (sha x)" and "wf_py (PDict r)" and "run_reachable sha op r" and "unreviewed r"
  shows "restore_comprehensive_run_record sha op (as_dict (canon (PDict r))) = Inr (as_dict (canon (PDict r)))"
  using assms by (rule reachable_restores)

theorem stored_run_restores_witness:
  "\<exists>r. create_comprehensive_run_record sample_digest ''n'' ReviewLifecycle.sample_request = Inr r \<and>
     restore_comprehensive_run_record sample_digest (\<lambda>_. False) (as_dict (canon (PDict r))) = Inr (as_dict (canon (PDict r)))"
proof -
  let ?identity = "map (\<lambda>(field, value). (field, PStr value)) (request_identity ReviewLifecycle.sample_request)"
  obtain p where p: "normalize_strategic_human_evidence sample_digest PNone = Inr p" using normalize_evidence_none by blast
  define r where "r = seal_record sample_digest (new_record_fields ?identity p ''n'')"
  have req: "new_authorized ReviewLifecycle.sample_request" "new_human_evidence ReviewLifecycle.sample_request = PNone"
    by (simp_all add: ReviewLifecycle.sample_request_def)
  have c: "create_comprehensive_run_record sample_digest ''n'' ReviewLifecycle.sample_request = Inr r"
    using p by (simp add: create_comprehensive_run_record_def sample_identity_bound sample_provider req r_def)
  have "wf_py (PDict ?identity)" by (simp add: request_identity_def ReviewLifecycle.sample_request_def)
  then have "wf_py (PDict r)" unfolding r_def seal_record_def using empty_evidence_wf [OF p]
    by (intro wf_dset) (simp_all add: new_record_fields_def)
  moreover have "unreviewed r"
    using created_record_valid [OF _ c] sample_digest_text sha_text_nonempty by blast
  ultimately show ?thesis using stored_run_restores [OF sample_digest_text _ run_reachable.created [OF c]] c by blast
qed

text \<open>
  C29. A served browser projection is current: the projection names the run, carries the revision of the stored
  record, and shows the status, the terminal flag and the integrity digest of that record.
\<close>

theorem served_projection_is_current:
  assumes "store_inv env db" and "load_browser_projection env run db = Inr (Some p)"
  shows "\<exists>n r. stored_versions env db (py_strip run) = Some (n, r) \<and>
    py_int (py_or (dget p ''revision'') (PInt (-1))) = Inr n \<and>
    dget r ''status'' = PStr (text_of (dget p ''canonical_status'')) \<and>
    truthy (dget p ''terminal'') = truthy (dget r ''terminal'') \<and>
    py_casefold (text_of (dget p ''integrity_sha256'')) = py_casefold (py_strip (str_or_empty (dget r ''integrity_sha256''))) \<and>
    projected_field p ''run_id'' = py_strip run"
  using assms by (rule served_projection) blast

definition sample_projection :: dict where
  "sample_projection = [(''canonical_status'', PStr ''ready''), (''commit_sha'', PStr ''c''), (''customer_id'', PStr ''u''),
     (''integrity_sha256'', PStr (sample_digest [])), (''project_id'', PStr ''p''), (''repository'', PStr ''o''),
     (''response_projection'', PDict [(''browser_projection'', PBool True), (''durable_projection'', PBool True)]),
     (''revision'', PInt 1), (''run_id'', PStr ''r''), (''terminal'', PBool False)]"

definition sample_projected :: store_db where
  "sample_projected = (sample_db 1 [])\<lparr>db_projections := [(''r'', \<lparr>pj_revision = 1, pj_run_integrity = sample_digest [],
     pj_sha256 = sample_digest [], pj_updated_at = ''t'', pj_projection = json_dumps (PDict sample_projection)\<rparr>)]\<rparr>"

lemma sample_projection_served: "load_browser_projection sample_env ''r'' sample_projected = Inr (Some sample_projection)"
proof -
  have "canon (PDict sample_projection) = PDict sample_projection"
    by (simp add: sample_projection_def sort_items_def)
  then have d: "decode_json_object_payload (PStr (json_dumps (PDict sample_projection))) = Inr sample_projection"
    by (subst decode_stored_object) (simp_all add: sample_projection_def del: canon.simps)
  have "projection_errors ''r'' (sample_run_row 1) sample_projection = Inr ()"
    by (simp add: sample_run_row_def projection_errors_def) code_simp
  moreover have "py_strip ''r'' = ''r''" by (simp add: py_strip_def is_space_def)
  moreover have "py_casefold (py_strip (sample_digest [])) = sample_digest []" using hex_text_stable sample_digest_text by blast
  ultimately show ?thesis
    by (simp add: load_browser_projection_def sample_projected_def sample_db_def d browser_projection_sha256_def)
      (simp add: sample_env_def sample_digest_def sample_run_row_def)
qed

theorem served_projection_is_current_witness:
  "\<exists>n r. stored_versions sample_env sample_projected (py_strip ''r'') = Some (n, r) \<and>
     py_int (py_or (dget sample_projection ''revision'') (PInt (-1))) = Inr n"
proof -
  have "store_inv sample_env sample_projected"
    by (rule inv_same_runs [OF sample_db_inv]) (simp_all add: sample_projected_def)
  from served_projection_is_current [OF this sample_projection_served] show ?thesis by blast
qed

text \<open>
  C30. The store refines a map of versions: every sequence of transactions from the empty store is, on the
  revisions and records that are read back, a sequence of steps that add a new run under its own id, or replace
  the record of a run by a record that carries the next revision, or change nothing.
\<close>

theorem store_refines_versions:
  assumes "env_ok env" and "(store_step env)\<^sup>*\<^sup>* empty_store db"
  shows "version_step\<^sup>*\<^sup>* (\<lambda>_. None) (stored_versions env db)"
  using assms(2)
proof (induction rule: rtranclp_induct)
  case base
  have "stored_versions env empty_store = (\<lambda>_. None)" by (simp add: fun_eq_iff stored_versions_def empty_store_def)
  then show ?case by simp
next
  case (step db db')
  have "store_inv env db" using run_versions.always_good [OF step(1)] empty_store_inv [OF assms(1)] by blast
  from step_refines [OF this step(2)] step(3) show ?case by (rule rtranclp.rtrancl_into_rtrancl [rotated])
qed

theorem store_refines_versions_witness:
  "version_step\<^sup>*\<^sup>* (\<lambda>_. None) (stored_versions sample_env (sample_db 2 []))"
proof (rule store_refines_versions [OF sample_env_ok])
  have "store_step sample_env empty_store (sample_db 1 [])" by (rule store_step.create [OF sample_stored_wf sample_run_created])
  moreover have "store_step sample_env (sample_db 1 []) (sample_db 2 [])" by (rule store_step.save [OF sample_stored_wf sample_saved_plain])
  ultimately show "(store_step sample_env)\<^sup>*\<^sup>* empty_store (sample_db 2 [])" by simp
qed

end
