(* ===== verification/EngagementMetadata.thy ===== *)
theory EngagementMetadata
  imports RunLifecycle
begin

text \<open>
  The engagement metadata of a run (\<open>nico/comprehensive_engagement_metadata_v1.py\<close>): what a client supplied
  about itself, each field with a state that says whether it was supplied, left out or excluded.
  The snapshot is sealed with its digest; it is built once and only copied after that.
\<close>

section \<open>Literals\<close>

definition METADATA_VERSION :: string where
  "METADATA_VERSION = ''nico.comprehensive_engagement_metadata.v1''"

definition ENGAGEMENT_FIELDS :: "string list" where
  "ENGAGEMENT_FIELDS = [''client_name'', ''project_name'', ''primary_technical_contact'', ''access_method'',
     ''authorized_scope'']"

definition FIELD_LIMITS :: "(string \<times> nat) list" where
  "FIELD_LIMITS = [(''client_name'', 180), (''project_name'', 180), (''primary_technical_contact'', 600),
     (''access_method'', 1200), (''authorized_scope'', 4000)]"

definition field_limit :: "string \<Rightarrow> nat" where
  "field_limit field = the (map_of FIELD_LIMITS field)"

definition SUPPLIED_STATES :: "string list" where
  "SUPPLIED_STATES = [''supplied_verified'', ''supplied_unverified'']"

definition NON_SUPPLIED_STATES :: "string list" where
  "NON_SUPPLIED_STATES = [''not_supplied'', ''excluded_from_scope'', ''not_applicable'']"

definition ENGAGEMENT_STATES :: "string list" where
  "ENGAGEMENT_STATES = SUPPLIED_STATES @ NON_SUPPLIED_STATES"

text \<open>A list stands for its first item with a literal; anything else is its text.\<close>

definition scalar_literal :: "nat \<Rightarrow> py \<Rightarrow> string res" where
  "scalar_literal limit v =
    (let literal = (if v = PNone then [] else py_str v) in
     if py_strip literal = [] then Inr []
     else if limit < length literal
     then Inl (ValueError (''engagement_metadata_value_exceeds_'' @ nat_str limit @ ''_characters''))
     else Inr literal)"

fun engagement_literal :: "nat \<Rightarrow> py \<Rightarrow> string res"
  and first_literal :: "nat \<Rightarrow> py list \<Rightarrow> string res" where
  "engagement_literal limit (PList items) = first_literal limit items"
| "engagement_literal limit v = scalar_literal limit v"
| "first_literal limit [] = Inr []"
| "first_literal limit (item # items) =
     bind_res (engagement_literal limit item) (\<lambda>literal.
       if literal \<noteq> [] then Inr literal else first_literal limit items)"

text \<open>\<open>html.escape\<close>, and line breaks as \<open><br/>\<close>; code points above 255 do not occur.\<close>

definition html_escape_char :: "bool \<Rightarrow> char \<Rightarrow> string" where
  "html_escape_char quote c =
    (if c = CHR ''&'' then ''&amp;'' else if c = CHR ''<'' then ''&lt;'' else if c = CHR ''>'' then ''&gt;''
     else if quote \<and> c = CHR 0x22 then ''&quot;'' else if quote \<and> c = CHR 0x27 then ''&#x27;'' else [c])"

definition html_escape :: "bool \<Rightarrow> string \<Rightarrow> string" where
  "html_escape quote s = concat (map (html_escape_char quote) s)"

definition is_line_break :: "char \<Rightarrow> bool" where
  "is_line_break c = (code_of c \<in> {10, 11, 12, 13, 133})"

text \<open>\<open>_LINE_BREAK_RE.split\<close>: a carriage return and a line feed are one break.\<close>

function break_lines :: "string \<Rightarrow> string \<Rightarrow> string list" where
  "break_lines line [] = [rev line]"
| "break_lines line (c # cs) =
    (if is_line_break c
     then rev line # break_lines [] (if code_of c = 13 \<and> cs \<noteq> [] \<and> code_of (hd cs) = 10 then tl cs else cs)
     else break_lines (c # line) cs)"
  by pat_completeness auto
termination
  by (relation "measure (\<lambda>(line, s). length s)") auto

definition markdown_literal_markup :: "py \<Rightarrow> nat \<Rightarrow> string res" where
  "markdown_literal_markup v limit =
    bind_res (engagement_literal limit v) (\<lambda>literal.
      Inr (''<span data-nico-client-literal=\"true\">'' @
        py_join ''<br/>'' (break_lines [] (html_escape False literal)) @ ''</span>''))"

text \<open>Runs of blanks are kept visible; inside a line one of them may break.\<close>

function render_line :: "bool \<Rightarrow> string \<Rightarrow> string" where
  "render_line at_start [] = []"
| "render_line at_start (c # cs) =
    (if c = CHR '' ''
     then (let blanks = Suc (length (takeWhile (\<lambda>x. x = CHR '' '') cs)); rest = dropWhile (\<lambda>x. x = CHR '' '') cs
           in (if at_start \<or> rest = [] then concat (replicate blanks ''&nbsp;'')
               else concat (replicate (blanks - 1) ''&nbsp;'') @ '' '') @ render_line False rest)
     else html_escape_char True c @ render_line False cs)"
  by pat_completeness auto
termination
  by (relation "measure (\<lambda>(at_start, s). length s)") (auto simp: less_Suc_eq_le length_dropWhile_le)

definition reportlab_literal_markup :: "py \<Rightarrow> nat \<Rightarrow> string res" where
  "reportlab_literal_markup v limit =
    bind_res (engagement_literal limit v) (\<lambda>literal.
      Inr (py_join ''<br/>'' (map (render_line True) (break_lines [] literal))))"

section \<open>Evidence of the stakeholder context\<close>

definition is_stakeholder_module :: "py \<Rightarrow> bool" where
  "is_stakeholder_module item =
    (is_dict item \<and> str_or_empty (dget (as_dict item) ''module_id'') = ''stakeholder_context'')"

definition stakeholder_context_evidence :: "py \<Rightarrow> dict" where
  "stakeholder_context_evidence v =
    (case v of
       PDict source \<Rightarrow>
         (let module = (case dget source ''modules'' of
              PDict modules \<Rightarrow> dget modules ''stakeholder_context''
            | PList items \<Rightarrow> (case find is_stakeholder_module items of None \<Rightarrow> PNone | Some item \<Rightarrow> item)
            | _ \<Rightarrow> if is_stakeholder_module v then v else dget source ''stakeholder_context'')
          in as_dict (dget (as_dict module) ''evidence''))
     | _ \<Rightarrow> [])"

definition engagement_evidence_literal :: "py \<Rightarrow> string \<Rightarrow> nat \<Rightarrow> string res" where
  "engagement_evidence_literal v key limit = engagement_literal limit (dget (stakeholder_context_evidence v) key)"

definition stakeholder_context :: "py \<Rightarrow> dict" where
  "stakeholder_context v =
    (case v of
       PDict source \<Rightarrow>
         (case dget source ''stakeholder_context'' of
            PDict direct \<Rightarrow> direct
          | _ \<Rightarrow>
              (case dget source ''modules'' of
                 PDict modules \<Rightarrow> as_dict (dget modules ''stakeholder_context'')
               | PList items \<Rightarrow> (case find is_stakeholder_module items of None \<Rightarrow> [] | Some item \<Rightarrow> as_dict item)
               | _ \<Rightarrow> []))
     | _ \<Rightarrow> [])"

section \<open>States of the fields\<close>

definition field_state_input :: "py \<Rightarrow> string \<Rightarrow> dict" where
  "field_state_input v field =
    (case v of
       PDict states \<Rightarrow>
         (case dget states field of PDict direct \<Rightarrow> direct | PStr s \<Rightarrow> [(''state'', PStr s)] | _ \<Rightarrow> [])
     | _ \<Rightarrow> [])"

definition EXCLUDABLE_FIELDS :: "string list" where
  "EXCLUDABLE_FIELDS = [''primary_technical_contact'', ''access_method'', ''authorized_scope'']"

definition stakeholder_excluded :: "dict \<Rightarrow> bool" where
  "stakeholder_excluded stakeholder =
    (dget stakeholder ''excluded'' = PBool True \<or>
     py_casefold (text_of (dget stakeholder ''status'')) \<in> {''excluded'', ''excluded_from_scope'', ''out_of_scope''})"

text \<open>The state, its source and the reason that follow from the literal and the evidence.\<close>

definition derived_state :: "string \<Rightarrow> string \<Rightarrow> py \<Rightarrow> (string \<times> string \<times> string) res" where
  "derived_state field literal human_evidence =
    (let stakeholder = stakeholder_context human_evidence in
     bind_res (engagement_literal 1200 (py_or (dget stakeholder ''exclusion_rationale'') (dget stakeholder ''reason''))) (\<lambda>rationale.
     Inr (if field \<in> set EXCLUDABLE_FIELDS \<and> stakeholder_excluded stakeholder
          then (''excluded_from_scope'', ''user_action'', rationale)
          else if literal \<noteq> [] then (''supplied_unverified'', ''client_supplied_intake'', [])
          else (''not_supplied'', ''intake'', []))))"

definition put_literal :: "string \<Rightarrow> string \<Rightarrow> dict \<Rightarrow> dict" where
  "put_literal key literal rec = (if literal \<noteq> [] then dset rec key (PStr literal) else rec)"

definition exclusion_details :: "dict \<Rightarrow> string \<Rightarrow> dict \<Rightarrow> dict res" where
  "exclusion_details raw derived_reason rec =
    bind_res (engagement_literal 300 (dget raw ''excluded_by'')) (\<lambda>by_whom.
    bind_res (engagement_literal 120 (dget raw ''excluded_at'')) (\<lambda>at_time.
    bind_res (engagement_literal 1200 (dget raw ''reason'')) (\<lambda>reason.
      Inr (put_literal ''reason'' (if reason = [] then derived_reason else reason)
        (put_literal ''excluded_at'' at_time (put_literal ''excluded_by'' by_whom rec))))))"

definition default_source :: "string \<Rightarrow> string \<Rightarrow> string" where
  "default_source state derived =
    (if state \<in> set SUPPLIED_STATES then ''client_supplied_intake''
     else if state \<in> {''excluded_from_scope'', ''not_applicable''} then ''user_action'' else derived)"

definition field_record ::
  "string \<Rightarrow> string \<Rightarrow> dict \<Rightarrow> string \<times> string \<times> string \<Rightarrow> dict res" where
  "field_record field literal raw derived =
    (let state = py_casefold (py_strip (py_str (py_or (dget raw ''state'') (PStr (fst derived))))) in
     if state \<notin> set ENGAGEMENT_STATES
     then Inl (ValueError (''unsupported_engagement_field_state:'' @ field @ '':'' @ state))
     else if state \<in> set SUPPLIED_STATES \<and> literal = []
     then Inl (ValueError (''engagement_field_state_requires_value:'' @ field @ '':'' @ state))
     else if state \<in> set NON_SUPPLIED_STATES \<and> literal \<noteq> []
     then Inl (ValueError (''engagement_field_state_forbids_value:'' @ field @ '':'' @ state))
     else
       bind_res (engagement_literal 120 (dget raw ''source'')) (\<lambda>given.
       let rec = [(''state'', PStr state),
             (''value'', if state \<in> set SUPPLIED_STATES then PStr literal else PNone),
             (''source'', PStr (if given \<noteq> [] then given else default_source state (fst (snd derived))))] in
       if state = ''excluded_from_scope'' then exclusion_details raw (snd (snd derived)) rec else Inr rec))"

definition field_entry :: "py \<Rightarrow> dict \<Rightarrow> py \<Rightarrow> string \<Rightarrow> dict res" where
  "field_entry raw_states vals human_evidence field =
    bind_res (engagement_literal (field_limit field) (dget vals field)) (\<lambda>literal.
    bind_res (derived_state field literal human_evidence)
      (field_record field literal (field_state_input raw_states field)))"

definition normalize_field_states :: "py \<Rightarrow> dict \<Rightarrow> py \<Rightarrow> dict res" where
  "normalize_field_states raw_states vals human_evidence =
    map_res (\<lambda>field. bind_res (field_entry raw_states vals human_evidence field) (\<lambda>rec. Inr (field, PDict rec)))
      ENGAGEMENT_FIELDS"

section \<open>The snapshot\<close>

definition literal_values :: "(string \<Rightarrow> string res) \<Rightarrow> dict res" where
  "literal_values read = map_res (\<lambda>field. bind_res (read field) (\<lambda>literal. Inr (field, PStr literal))) ENGAGEMENT_FIELDS"

definition metadata_gates :: dict where
  "metadata_gates = [
     (''source'', PStr ''client_supplied_intake''),
     (''repository_inference_prohibited'', PBool True),
     (''directly_scored'', PBool False),
     (''human_review_required'', PBool True),
     (''client_delivery_allowed'', PBool False)]"

definition seal_metadata :: "(string \<Rightarrow> string) \<Rightarrow> dict \<Rightarrow> dict" where
  "seal_metadata sha payload = dset payload ''engagement_metadata_sha256'' (PStr (json_digest sha (PDict payload)))"

definition build_comprehensive_engagement_metadata ::
  "(string \<Rightarrow> string) \<Rightarrow> py \<Rightarrow> py \<Rightarrow> py \<Rightarrow> py \<Rightarrow> dict res" where
  "build_comprehensive_engagement_metadata sha client_name project_name human_evidence field_states =
    bind_res (literal_values (\<lambda>field.
        if field = ''client_name'' then engagement_literal 180 client_name
        else if field = ''project_name'' then engagement_literal 180 project_name
        else engagement_evidence_literal human_evidence field (field_limit field))) (\<lambda>vals.
    bind_res (normalize_field_states field_states vals human_evidence) (\<lambda>states.
      Inr (seal_metadata sha
        ([(''artifact_schema'', PStr METADATA_VERSION)] @ vals @ [(''field_states'', PDict states)] @ metadata_gates))))"

definition normalize_comprehensive_engagement_metadata :: "(string \<Rightarrow> string) \<Rightarrow> py \<Rightarrow> dict res" where
  "normalize_comprehensive_engagement_metadata sha v =
    (case v of
       PDict source \<Rightarrow>
         if str_or_empty (dget source ''artifact_schema'') \<noteq> METADATA_VERSION then Inr []
         else
           bind_res (literal_values (\<lambda>field. engagement_literal (field_limit field) (dget source field))) (\<lambda>vals.
           let normalized = [(''artifact_schema'', PStr METADATA_VERSION)] @ vals @ metadata_gates in
           if has_key source ''field_states'' then
             bind_res (normalize_field_states (dget source ''field_states'') vals PNone) (\<lambda>states.
               Inr (seal_metadata sha (normalized @ [(''field_states'', PDict states)])))
           else Inr (seal_metadata sha normalized))
     | _ \<Rightarrow> Inr [])"

definition verify_comprehensive_engagement_metadata :: "(string \<Rightarrow> string) \<Rightarrow> py \<Rightarrow> bool res" where
  "verify_comprehensive_engagement_metadata sha v =
    (case v of
       PDict source \<Rightarrow>
         (let claimed = str_or_empty (dget source ''engagement_metadata_sha256'') in
          if claimed = [] \<or> claimed \<noteq> json_digest sha (PDict (dpop source ''engagement_metadata_sha256'')) then Inr False
          else
            bind_res (normalize_comprehensive_engagement_metadata sha v) (\<lambda>normalized.
              Inr (normalized \<noteq> [] \<and> py_eq (PDict normalized) (PDict source))))
     | _ \<Rightarrow> Inr False)"

section \<open>What is displayed\<close>

definition display_identity_projection :: "(string \<Rightarrow> string) \<Rightarrow> py \<Rightarrow> dict res" where
  "display_identity_projection sha v =
    bind_res (normalize_comprehensive_engagement_metadata sha v) (\<lambda>normalized.
      Inr (if normalized = [] then []
        else map (\<lambda>(shown, field). (shown, PStr (str_or_empty (dget normalized field))))
          [(''customer_name'', ''client_name''), (''project_name'', ''project_name''),
           (''primary_technical_contact'', ''primary_technical_contact''), (''access_method'', ''access_method''),
           (''authorized_scope'', ''authorized_scope'')]))"

text \<open>\<open>dict(item)\<close> of a list needs pairs; the states of a normalized snapshot are dictionaries.\<close>

definition engagement_field_states :: "(string \<Rightarrow> string) \<Rightarrow> py \<Rightarrow> dict res" where
  "engagement_field_states sha v =
    bind_res (normalize_comprehensive_engagement_metadata sha v) (\<lambda>normalized.
      if normalized = [] then Inr []
      else case dget normalized ''field_states'' of
          PDict states \<Rightarrow> Inr states
        | _ \<Rightarrow> normalize_field_states (PDict [])
            (map (\<lambda>field. (field, PStr (str_or_empty (dget normalized field)))) ENGAGEMENT_FIELDS) PNone)"

text \<open>The labels of the states that hold no value.\<close>

definition state_label :: "string \<Rightarrow> string \<Rightarrow> string" where
  "state_label state locale =
    (let spanish = (locale = ''es-MX'') in
     if state = ''not_supplied'' then (if spanish then ''No proporcionado'' else ''Not supplied'')
     else if state = ''excluded_from_scope'' then (if spanish then ''Excluido del alcance'' else ''Excluded from scope'')
     else (if spanish then ''No aplica'' else ''Not applicable''))"

definition canonical_locale :: "py \<Rightarrow> string" where
  "canonical_locale v =
    (let normalized = map (\<lambda>c. if c = CHR ''_'' then CHR ''-'' else c) (py_casefold (text_of v))
     in if normalized \<in> {''es'', ''es-mx''} then ''es-MX'' else ''en'')"

definition render_engagement_field :: "(string \<Rightarrow> string) \<Rightarrow> py \<Rightarrow> string \<Rightarrow> py \<Rightarrow> string res" where
  "render_engagement_field sha v field locale =
    (let canonical_field = (if field = ''customer_name'' then ''client_name'' else field) in
     if canonical_field \<notin> set ENGAGEMENT_FIELDS then Inl (ValueError (''unsupported_engagement_field:'' @ field))
     else
       bind_res (normalize_comprehensive_engagement_metadata sha v) (\<lambda>normalized.
       bind_res (engagement_field_states sha (PDict normalized)) (\<lambda>states.
       let rec = (case dget states canonical_field of PDict (entry # entries) \<Rightarrow> entry # entries
             | _ \<Rightarrow> [(''state'', PStr ''not_supplied''), (''value'', PNone)]);
           state = str_or_empty (py_or (dget rec ''state'') (PStr ''not_supplied''))
       in if state \<in> set SUPPLIED_STATES then engagement_literal (field_limit canonical_field) (dget rec ''value'')
          else Inr (state_label state (canonical_locale locale)))))"

section \<open>Literals are kept\<close>

definition is_literal :: "nat \<Rightarrow> string \<Rightarrow> bool" where
  "is_literal limit s \<longleftrightarrow> s = [] \<or> py_strip s \<noteq> [] \<and> length s \<le> limit"

lemma engagement_literal_is:
  "engagement_literal limit v = Inr s \<Longrightarrow> is_literal limit s"
  "first_literal limit vs = Inr s \<Longrightarrow> is_literal limit s"
  by (induction limit v and limit vs arbitrary: s and s rule: engagement_literal_first_literal.induct)
    (auto simp: scalar_literal_def is_literal_def bind_res_eq_Inr Let_def split: if_splits)

lemma literal_again: "is_literal limit s \<Longrightarrow> scalar_literal limit (PStr s) = Inr s"
  by (auto simp: scalar_literal_def is_literal_def)

lemma no_literal [simp]: "scalar_literal limit PNone = Inr []"
  by (simp add: scalar_literal_def)

section \<open>Field states are kept\<close>

lemma engagement_states_are_texts:
  "state \<in> set ENGAGEMENT_STATES \<Longrightarrow> py_casefold (py_strip state) = state \<and> state \<noteq> []"
proof -
  have "list_all (\<lambda>s. py_casefold (py_strip s) = s \<and> s \<noteq> []) ENGAGEMENT_STATES" by code_simp
  then show "state \<in> set ENGAGEMENT_STATES \<Longrightarrow> ?thesis" by (simp add: list_all_iff)
qed

lemma states_disjoint:
  "state \<in> set ENGAGEMENT_STATES \<Longrightarrow> state \<in> set NON_SUPPLIED_STATES \<longleftrightarrow> state \<notin> set SUPPLIED_STATES"
proof -
  have "list_all (\<lambda>s. (s \<in> set NON_SUPPLIED_STATES) = (s \<notin> set SUPPLIED_STATES)) ENGAGEMENT_STATES" by code_simp
  then show "state \<in> set ENGAGEMENT_STATES \<Longrightarrow> ?thesis" by (simp add: list_all_iff)
qed

lemma put_literal_read:
  "dget (put_literal key s rec) k = (if k = key \<and> s \<noteq> [] then PStr s else dget rec k)"
  by (simp add: put_literal_def)

lemma wf_put_literal: "wf_py (PDict rec) \<Longrightarrow> wf_py (PDict (put_literal key s rec))"
  by (simp add: put_literal_def wf_dset del: wf_py.simps(2))

text \<open>What a record of a field says, and that its own text is accepted again.\<close>

definition states_value :: "string \<Rightarrow> dict \<Rightarrow> bool" where
  "states_value literal rec \<longleftrightarrow> (\<exists>state. dget rec ''state'' = PStr state \<and> state \<in> set ENGAGEMENT_STATES \<and>
     (state \<in> set SUPPLIED_STATES \<longleftrightarrow> literal \<noteq> []) \<and>
     dget rec ''value'' = (if literal \<noteq> [] then PStr literal else PNone))"

definition derived_ok :: "string \<times> string \<times> string \<Rightarrow> bool" where
  "derived_ok derived \<longleftrightarrow> fst (snd derived) \<noteq> [] \<and> is_literal 120 (fst (snd derived)) \<and> is_literal 1200 (snd (snd derived))"

lemma field_record_parts:
  assumes "field_record field literal raw derived = Inr rec"
  obtains state given base where "state \<in> set ENGAGEMENT_STATES" "state \<in> set SUPPLIED_STATES \<longleftrightarrow> literal \<noteq> []"
    "engagement_literal 120 (dget raw ''source'') = Inr given"
    "base = [(''state'', PStr state), (''value'', if literal \<noteq> [] then PStr literal else PNone),
       (''source'', PStr (if given \<noteq> [] then given else default_source state (fst (snd derived))))]"
    "(if state = ''excluded_from_scope'' then exclusion_details raw (snd (snd derived)) base else Inr base) = Inr rec"
proof -
  define state where "state = py_casefold (py_strip (py_str (py_or (dget raw ''state'') (PStr (fst derived)))))"
  note r = assms [unfolded field_record_def Let_def, folded state_def]
  have ok: "state \<in> set ENGAGEMENT_STATES" "\<not> (state \<in> set SUPPLIED_STATES \<and> literal = [])"
      "\<not> (state \<in> set NON_SUPPLIED_STATES \<and> literal \<noteq> [])"
    using r by (auto simp only: sum.distinct split: if_split_asm)
  then have supplied: "state \<in> set SUPPLIED_STATES \<longleftrightarrow> literal \<noteq> []"
    using states_disjoint [of state] by blast
  have r': "bind_res (engagement_literal 120 (dget raw ''source'')) (\<lambda>given.
      if state = ''excluded_from_scope'' then exclusion_details raw (snd (snd derived))
        [(''state'', PStr state), (''value'', if state \<in> set SUPPLIED_STATES then PStr literal else PNone),
         (''source'', PStr (if given \<noteq> [] then given else default_source state (fst (snd derived))))]
      else Inr [(''state'', PStr state), (''value'', if state \<in> set SUPPLIED_STATES then PStr literal else PNone),
         (''source'', PStr (if given \<noteq> [] then given else default_source state (fst (snd derived))))]) = Inr rec"
    using r by (simp only: ok not_True_eq_False if_False)
  then obtain given where given: "engagement_literal 120 (dget raw ''source'') = Inr given"
    by (auto simp: bind_res_eq_Inr)
  show thesis
    using r' by (intro that [OF ok(1) supplied given refl]) (simp only: given bind_res_simps supplied)
qed

lemma field_record_kept:
  assumes r: "field_record field literal raw derived = Inr rec" and d: "derived_ok derived"
    and none: "snd (snd derived') = []"
  shows "field_record field literal rec derived' = Inr rec \<and> wf_py (PDict rec) \<and> states_value literal rec"
proof -
  obtain state given base where state: "state \<in> set ENGAGEMENT_STATES" "state \<in> set SUPPLIED_STATES \<longleftrightarrow> literal \<noteq> []"
    and given: "engagement_literal 120 (dget raw ''source'') = Inr given"
    and base: "base = [(''state'', PStr state), (''value'', if literal \<noteq> [] then PStr literal else PNone),
       (''source'', PStr (if given \<noteq> [] then given else default_source state (fst (snd derived))))]"
    and made: "(if state = ''excluded_from_scope'' then exclusion_details raw (snd (snd derived)) base else Inr base) = Inr rec"
    using r by (rule field_record_parts)
  define src where "src = (if given \<noteq> [] then given else default_source state (fst (snd derived)))"
  have src: "is_literal 120 src" "src \<noteq> []"
    using engagement_literal_is(1) [OF given] d by (auto simp: src_def default_source_def derived_ok_def is_literal_def py_strip_def is_space_def)
  have base': "base = [(''state'', PStr state), (''value'', if literal \<noteq> [] then PStr literal else PNone), (''source'', PStr src)]"
    by (simp only: base src_def)
  have again: "field_record field literal rec' derived' =
      (if state = ''excluded_from_scope'' then exclusion_details rec' [] base else Inr base)"
    if "dget rec' ''state'' = PStr state" "dget rec' ''source'' = PStr src" for rec'
    using that state src engagement_states_are_texts [OF state(1)] states_disjoint [OF state(1)] none literal_again [OF src(1)]
    by (simp add: field_record_def Let_def py_or_def base')
  have b: "dget base ''state'' = PStr state" "dget base ''source'' = PStr src"
      "dget base ''value'' = (if literal \<noteq> [] then PStr literal else PNone)" "wf_py (PDict base)"
    by (simp_all add: base')
  show ?thesis
  proof (cases "state = ''excluded_from_scope''")
    case False
    then show ?thesis using made again [of base] b state by (auto simp: states_value_def)
  next
    case True
    obtain by_whom at_time reason where x: "engagement_literal 300 (dget raw ''excluded_by'') = Inr by_whom"
        "engagement_literal 120 (dget raw ''excluded_at'') = Inr at_time" "engagement_literal 1200 (dget raw ''reason'') = Inr reason"
      and rec: "rec = put_literal ''reason'' (if reason = [] then snd (snd derived) else reason)
        (put_literal ''excluded_at'' at_time (put_literal ''excluded_by'' by_whom base))"
      using made True by (auto simp: exclusion_details_def bind_res_eq_Inr)
    define kept where "kept = (if reason = [] then snd (snd derived) else reason)"
    have ok: "is_literal 300 by_whom" "is_literal 120 at_time" "is_literal 1200 kept"
      using x [THEN engagement_literal_is(1)] d by (auto simp: derived_ok_def kept_def)
    have free: "dget base ''excluded_by'' = PNone" "dget base ''excluded_at'' = PNone" "dget base ''reason'' = PNone"
      by (simp_all add: base')
    have "exclusion_details rec [] base = Inr rec"
      using ok free by (simp add: exclusion_details_def rec kept_def [symmetric] put_literal_read literal_again)
    moreover have "wf_py (PDict rec)"
      unfolding rec by (intro wf_put_literal b)
    moreover have "dget rec ''state'' = PStr state" "dget rec ''source'' = PStr src"
        "dget rec ''value'' = (if literal \<noteq> [] then PStr literal else PNone)"
      using b by (simp_all add: rec put_literal_read)
    ultimately show ?thesis
      using again [of rec] True state by (auto simp: states_value_def)
  qed
qed

lemma derived_state_ok: "derived_state field literal human_evidence = Inr derived \<Longrightarrow> derived_ok derived"
  by (auto simp: derived_state_def derived_ok_def bind_res_eq_Inr is_literal_def py_strip_def is_space_def Let_def
      dest: engagement_literal_is(1) split: if_splits)

lemma derived_state_none: "\<exists>derived. derived_state field literal PNone = Inr derived \<and> snd (snd derived) = []"
  by (simp add: derived_state_def stakeholder_context_def stakeholder_excluded_def py_or_def)

text \<open>A dictionary that is built key by key.\<close>

lemma keyed_map_res:
  "map_res (\<lambda>k. bind_res (g k) (\<lambda>r. Inr (k, h r))) ks = Inr d \<longleftrightarrow>
   (\<exists>s. (\<forall>k \<in> set ks. g k = Inr (s k)) \<and> d = map (\<lambda>k. (k, h (s k))) ks)"
proof (induction ks arbitrary: d)
  case (Cons k ks)
  show ?case
  proof
    assume "map_res (\<lambda>k. bind_res (g k) (\<lambda>r. Inr (k, h r))) (k # ks) = Inr d"
    then obtain r s where r: "g k = Inr r" "\<forall>k \<in> set ks. g k = Inr (s k)" "d = (k, h r) # map (\<lambda>k. (k, h (s k))) ks"
      by (auto simp: bind_res_eq_Inr Cons.IH)
    then have again: "k \<in> set ks \<Longrightarrow> s k = r" by (metis sum.inject(2))
    from r have "\<forall>j \<in> set (k # ks). g j = Inr ((s(k := r)) j)" using again by auto
    moreover have "d = map (\<lambda>j. (j, h ((s(k := r)) j))) (k # ks)" using r by auto
    ultimately show "\<exists>s. (\<forall>k \<in> set (k # ks). g k = Inr (s k)) \<and> d = map (\<lambda>k. (k, h (s k))) (k # ks)" by blast
  next
    assume "\<exists>s. (\<forall>k \<in> set (k # ks). g k = Inr (s k)) \<and> d = map (\<lambda>k. (k, h (s k))) (k # ks)"
    then show "map_res (\<lambda>k. bind_res (g k) (\<lambda>r. Inr (k, h r))) (k # ks) = Inr d"
      using Cons.IH [of "tl d"] by auto
  qed
qed auto

lemma map_of_keyed: "k \<in> set ks \<Longrightarrow> map_of (map (\<lambda>k. (k, f k)) ks) k = Some (f k)"
  by (induction ks) auto

lemma distinct_fields: "distinct ENGAGEMENT_FIELDS"
  by (simp add: ENGAGEMENT_FIELDS_def)

definition lit_values :: "(string \<Rightarrow> string) \<Rightarrow> dict" where
  "lit_values lit = map (\<lambda>field. (field, PStr (lit field))) ENGAGEMENT_FIELDS"

definition kept_body :: "(string \<Rightarrow> string) \<Rightarrow> dict option \<Rightarrow> dict" where
  "kept_body lit shown = [(''artifact_schema'', PStr METADATA_VERSION)] @ lit_values lit @ metadata_gates @
     (case shown of None \<Rightarrow> [] | Some states \<Rightarrow> [(''field_states'', PDict states)])"

lemma literal_values_Inr:
  "literal_values read = Inr vals \<longleftrightarrow>
   (\<exists>lit. (\<forall>field \<in> set ENGAGEMENT_FIELDS. read field = Inr (lit field)) \<and>
     vals = lit_values lit)"
  unfolding literal_values_def lit_values_def by (rule keyed_map_res)

definition literals_ok :: "(string \<Rightarrow> string) \<Rightarrow> bool" where
  "literals_ok lit \<longleftrightarrow> (\<forall>field \<in> set ENGAGEMENT_FIELDS. is_literal (field_limit field) (lit field))"

lemma field_states_kept:
  assumes "normalize_field_states raw (lit_values lit) human_evidence = Inr states"
    and ok: "literals_ok lit"
  obtains recs where "states = map (\<lambda>field. (field, PDict (recs field))) ENGAGEMENT_FIELDS"
    "normalize_field_states (PDict states) (lit_values lit) PNone = Inr states"
    "\<And>field. field \<in> set ENGAGEMENT_FIELDS \<Longrightarrow> wf_py (PDict (recs field)) \<and> states_value (lit field) (recs field)"
proof -
  let ?vals = "lit_values lit"
  obtain recs where recs: "\<And>field. field \<in> set ENGAGEMENT_FIELDS \<Longrightarrow> field_entry raw ?vals human_evidence field = Inr (recs field)"
    and states: "states = map (\<lambda>field. (field, PDict (recs field))) ENGAGEMENT_FIELDS"
    using assms(1) unfolding normalize_field_states_def keyed_map_res by blast
  have kept: "field_entry (PDict states) ?vals PNone field = Inr (recs field) \<and> wf_py (PDict (recs field)) \<and>
      states_value (lit field) (recs field)" if f: "field \<in> set ENGAGEMENT_FIELDS" for field
  proof -
    have lit: "engagement_literal (field_limit field) (dget ?vals field) = Inr (lit field)"
      using ok f by (simp add: dget_def lit_values_def map_of_keyed literals_ok_def literal_again)
    obtain derived where d: "derived_state field (lit field) human_evidence = Inr derived"
      and r: "field_record field (lit field) (field_state_input raw field) derived = Inr (recs field)"
      using recs [OF f] by (auto simp: field_entry_def lit bind_res_eq_Inr)
    obtain derived' where d': "derived_state field (lit field) PNone = Inr derived'" "snd (snd derived') = []"
      using derived_state_none by blast
    have "field_state_input (PDict states) field = recs field"
      using f by (simp add: field_state_input_def dget_def states map_of_keyed)
    then show ?thesis
      using field_record_kept [OF r derived_state_ok [OF d] d'(2)] by (simp add: field_entry_def lit d'(1))
  qed
  show thesis
  proof (rule that [OF states])
    show "normalize_field_states (PDict states) ?vals PNone = Inr states"
      unfolding normalize_field_states_def keyed_map_res using kept states by blast
  qed (use kept in blast)
qed

section \<open>A snapshot verifies\<close>

lemma py_eq_perm:
  assumes "mset d = mset e" and "wf_py (PDict d)"
  shows "py_eq (PDict d) (PDict e)"
proof -
  have sets: "set d = set e" using assms(1) by (rule mset_eq_setD)
  have "distinct (map fst e)"
    using mset_eq_imp_distinct_iff [of "map fst d" "map fst e"] assms by simp
  then show ?thesis
    using assms(2) sets mset_eq_length [OF assms(1)] py_eq_refl
    by (auto simp: py_eq.simps [of "PDict d"] list_all_iff)
qed

lemma metadata_kept:
  assumes ok: "literals_ok lit"
    and k: "kept = kept_body lit shown"
    and body: "mset body = mset kept"
    and states: "\<And>states. shown = Some states \<Longrightarrow> wf_py (PDict states) \<and>
      normalize_field_states (PDict states) (lit_values lit) PNone = Inr states"
    and m: "m = seal_metadata sha body" and digest: "\<And>x. sha x \<noteq> []"
  shows "normalize_comprehensive_engagement_metadata sha (PDict m) = Inr (seal_metadata sha kept)"
    and "verify_comprehensive_engagement_metadata sha (PDict m) = Inr True"
    and "field \<in> set ENGAGEMENT_FIELDS \<Longrightarrow> dget m field = PStr (lit field)"
    and "dget m ''client_delivery_allowed'' = PBool False"
    and "dget m ''field_states'' = (case shown of None \<Rightarrow> PNone | Some states \<Rightarrow> PDict states)"
proof -
  note kept = k [unfolded kept_body_def lit_values_def]
  have keys: "distinct (map fst kept)" by (cases shown) (simp_all add: kept ENGAGEMENT_FIELDS_def metadata_gates_def)
  have unsealed: "map_of kept ''engagement_metadata_sha256'' = None"
    by (cases shown) (simp_all add: kept ENGAGEMENT_FIELDS_def metadata_gates_def)
  have same: "map_of body = map_of kept" "distinct (map fst body)"
  proof -
    show d: "distinct (map fst body)" 
      using mset_eq_imp_distinct_iff [of "map fst body" "map fst kept"] body keys by simp
    show "map_of body = map_of kept" using map_of_inject_set [OF d keys] mset_eq_setD [OF body] by simp
  qed
  have sealed: "m = body @ [(''engagement_metadata_sha256'', PStr (json_digest sha (PDict body)))]"
    using unsealed same(1) by (simp add: m seal_metadata_def dset_append)
  have read: "dget m k = dget kept k" "has_key m k = has_key kept k" if "k \<noteq> ''engagement_metadata_sha256''" for k
    using that by (simp_all add: sealed dget_def same(1) map_add_def split: option.split)
  show fields: "dget m field = PStr (lit field)" if "field \<in> set ENGAGEMENT_FIELDS" for field
  proof -
    have "map_of kept field = Some (PStr (lit field))" if "field \<in> set ENGAGEMENT_FIELDS" for field
      using that by (auto simp: kept ENGAGEMENT_FIELDS_def)
    moreover have "field \<noteq> ''engagement_metadata_sha256''" using that by (auto simp: ENGAGEMENT_FIELDS_def)
    ultimately show ?thesis using that read(1) [of field] by (simp add: dget_def)
  qed
  have schema: "dget m ''artifact_schema'' = PStr METADATA_VERSION" by (simp add: read kept)
  have shown: "map_of m ''field_states'' = map_option PDict shown"
    by (cases shown) (simp_all add: sealed same(1) kept ENGAGEMENT_FIELDS_def metadata_gates_def)
  show "dget m ''client_delivery_allowed'' = PBool False"
    by (simp add: read kept ENGAGEMENT_FIELDS_def metadata_gates_def)
  show "dget m ''field_states'' = (case shown of None \<Rightarrow> PNone | Some states \<Rightarrow> PDict states)"
    using shown by (simp add: dget_def split: option.split)
  have "literal_values (\<lambda>field. engagement_literal (field_limit field) (dget m field)) =
      Inr (lit_values lit)"
    unfolding literal_values_Inr using ok fields literal_again by (auto simp: literals_ok_def)
  then show norm: "normalize_comprehensive_engagement_metadata sha (PDict m) = Inr (seal_metadata sha kept)"
    using states shown \<open>dget m ''field_states'' = _\<close>
    by (cases shown) (simp_all add: normalize_comprehensive_engagement_metadata_def schema k kept_body_def)
  have body_digest: "json_digest sha (PDict kept) = json_digest sha (PDict body)"
    unfolding json_digest_def by (simp only: json_dumps_perm [OF body [symmetric] keys])
  have resealed: "seal_metadata sha kept = kept @ [(''engagement_metadata_sha256'', PStr (json_digest sha (PDict body)))]"
    unfolding seal_metadata_def body_digest by (rule dset_append [OF unsealed])
  have wf: "wf_py (PDict (seal_metadata sha kept))"
    unfolding seal_metadata_def
    by (intro wf_dset) (use keys states in \<open>auto simp: kept list_all_iff ENGAGEMENT_FIELDS_def metadata_gates_def split: option.splits\<close>)
  have "dpop m ''engagement_metadata_sha256'' = body" "dget m ''engagement_metadata_sha256'' = PStr (json_digest sha (PDict body))"
    using unsealed same(1) by (simp_all add: m seal_metadata_def dpop_absent)
  moreover have "py_eq (PDict (seal_metadata sha kept)) (PDict m)"
    using body by (intro py_eq_perm wf) (simp add: sealed resealed)
  moreover have "seal_metadata sha kept \<noteq> []" "json_digest sha (PDict body) \<noteq> []"
    using digest by (simp_all add: resealed json_digest_def)
  ultimately show "verify_comprehensive_engagement_metadata sha (PDict m) = Inr True"
    using norm by (simp add: verify_comprehensive_engagement_metadata_def)
qed

text \<open>Every snapshot the module returns has this form.\<close>

lemma metadata_form:
  assumes "build_comprehensive_engagement_metadata sha client project evidence raw = Inr m \<or>
      normalize_comprehensive_engagement_metadata sha v = Inr m \<and> m \<noteq> []"
  obtains lit body shown raw' evidence' where "literals_ok lit" "m = seal_metadata sha body"
    "mset body = mset (kept_body lit shown)"
    "\<forall>states. shown = Some states \<longrightarrow> normalize_field_states raw' (lit_values lit) evidence' = Inr states"
  using assms
proof
  assume "build_comprehensive_engagement_metadata sha client project evidence raw = Inr m"
  then obtain vals states where vals: "literal_values (\<lambda>field.
        if field = ''client_name'' then engagement_literal 180 client
        else if field = ''project_name'' then engagement_literal 180 project
        else engagement_evidence_literal evidence field (field_limit field)) = Inr vals"
    and states: "normalize_field_states raw vals evidence = Inr states"
    and m: "m = seal_metadata sha ([(''artifact_schema'', PStr METADATA_VERSION)] @ vals @ [(''field_states'', PDict states)] @ metadata_gates)"
    by (auto simp: build_comprehensive_engagement_metadata_def bind_res_eq_Inr)
  obtain lit where lit: "\<forall>field \<in> set ENGAGEMENT_FIELDS. (if field = ''client_name'' then engagement_literal 180 client
        else if field = ''project_name'' then engagement_literal 180 project
        else engagement_evidence_literal evidence field (field_limit field)) = Inr (lit field)"
    and v: "vals = lit_values lit"
    using vals unfolding literal_values_Inr by blast
  have "literals_ok lit"
    unfolding literals_ok_def
  proof
    fix field assume "field \<in> set ENGAGEMENT_FIELDS"
    from bspec [OF lit this] have "\<exists>v. engagement_literal (field_limit field) v = Inr (lit field)"
      by (auto simp: field_limit_def FIELD_LIMITS_def engagement_evidence_literal_def split: if_splits)
    then show "is_literal (field_limit field) (lit field)" using engagement_literal_is(1) by blast
  qed
  then show thesis
    by (rule that [OF _ m, of _ "Some states"]) (use states in \<open>auto simp: v kept_body_def\<close>)
next
  assume a: "normalize_comprehensive_engagement_metadata sha v = Inr m \<and> m \<noteq> []"
  then obtain source where v: "v = PDict source" by (cases v) (auto simp: normalize_comprehensive_engagement_metadata_def)
  obtain vals where vals: "literal_values (\<lambda>field. engagement_literal (field_limit field) (dget source field)) = Inr vals"
    using a by (auto simp: normalize_comprehensive_engagement_metadata_def v bind_res_eq_Inr Let_def split: if_splits)
  obtain lit where lit: "\<forall>field \<in> set ENGAGEMENT_FIELDS. engagement_literal (field_limit field) (dget source field) = Inr (lit field)"
    and vs: "vals = lit_values lit"
    using vals unfolding literal_values_Inr by blast
  have ok: "literals_ok lit"
    unfolding literals_ok_def using lit engagement_literal_is(1) by blast
  show thesis
  proof (cases "has_key source ''field_states''")
    case True
    then obtain states where "normalize_field_states (dget source ''field_states'') vals PNone = Inr states"
      "m = seal_metadata sha ([(''artifact_schema'', PStr METADATA_VERSION)] @ vals @ metadata_gates @ [(''field_states'', PDict states)])"
      using a by (auto simp: normalize_comprehensive_engagement_metadata_def v vals bind_res_eq_Inr Let_def split: if_splits)
    then show thesis
      by (intro that [OF ok, of "[(''artifact_schema'', PStr METADATA_VERSION)] @ vals @ metadata_gates @ [(''field_states'', PDict states)]"
            "Some states" "dget source ''field_states''" PNone]) (auto simp: vs kept_body_def)
  next
    case False
    then have "m = seal_metadata sha ([(''artifact_schema'', PStr METADATA_VERSION)] @ vals @ metadata_gates)"
      using a by (auto simp: normalize_comprehensive_engagement_metadata_def v vals Let_def split: if_splits)
    then show thesis
      by (intro that [OF ok, of "[(''artifact_schema'', PStr METADATA_VERSION)] @ vals @ metadata_gates" None]) (auto simp: vs kept_body_def)
  qed
qed

lemma derived_entry:
  assumes "literals_ok lit" and "field \<in> set ENGAGEMENT_FIELDS"
  shows "\<exists>rec. field_entry (PDict []) (lit_values lit) PNone field = Inr rec \<and>
    states_value (lit field) rec"
proof -
  have "engagement_literal (field_limit field) (dget (lit_values lit) field) = Inr (lit field)"
    using assms by (simp add: dget_def lit_values_def map_of_keyed literals_ok_def literal_again)
  moreover define derived :: "string \<times> string \<times> string" where
    "derived = (if lit field \<noteq> [] then (''supplied_unverified'', ''client_supplied_intake'', []) else (''not_supplied'', ''intake'', []))"
  then have "derived_state field (lit field) PNone = Inr derived"
    by (simp add: derived_state_def stakeholder_context_def stakeholder_excluded_def py_or_def py_casefold_def)
  moreover have "fst derived \<in> set ENGAGEMENT_STATES" "fst derived \<in> set SUPPLIED_STATES \<longleftrightarrow> lit field \<noteq> []"
      "fst derived \<noteq> ''excluded_from_scope''"
    by (simp_all add: derived_def ENGAGEMENT_STATES_def SUPPLIED_STATES_def NON_SUPPLIED_STATES_def)
  ultimately show ?thesis
    using engagement_states_are_texts [of "fst derived"] states_disjoint [of "fst derived"]
    by (simp add: field_entry_def field_record_def field_state_input_def py_or_def states_value_def Let_def)
qed

text \<open>
  C37. Every snapshot of engagement metadata that is built or copied verifies; it blocks delivery, and each of its fields has
  a state that says supplied exactly when the field holds a literal.
\<close>

theorem engagement_metadata_verifies:
  assumes "\<And>x. sha x \<noteq> []"
    and "build_comprehensive_engagement_metadata sha client project evidence raw = Inr m \<or>
      normalize_comprehensive_engagement_metadata sha v = Inr m \<and> m \<noteq> []"
  shows "verify_comprehensive_engagement_metadata sha (PDict m) = Inr True \<and>
    dget m ''client_delivery_allowed'' = PBool False \<and>
    (\<exists>states. engagement_field_states sha (PDict m) = Inr states \<and>
      (\<forall>field \<in> set ENGAGEMENT_FIELDS. \<exists>literal. dget m field = PStr literal \<and>
        states_value literal (as_dict (dget states field))))"
proof -
  obtain lit body shown raw' evidence' where ok: "literals_ok lit" and m: "m = seal_metadata sha body"
    and body: "mset body = mset (kept_body lit shown)"
    and given: "\<forall>states. shown = Some states \<longrightarrow> normalize_field_states raw' (lit_values lit) evidence' = Inr states"
    using assms(2) by (rule metadata_form)
  have states: "wf_py (PDict states) \<and>
      normalize_field_states (PDict states) (lit_values lit) PNone = Inr states \<and>
      (\<forall>field \<in> set ENGAGEMENT_FIELDS. states_value (lit field) (as_dict (dget states field)))" if "shown = Some states" for states
    using given [rule_format, OF that] ok by (rule field_states_kept)
      (auto simp: list_all_iff dget_def map_of_keyed distinct_fields comp_def simp del: wf_py.simps(1))
  note kept = metadata_kept [OF ok refl _ _ _ assms(1), where shown = shown]
  have normal: "normalize_comprehensive_engagement_metadata sha (PDict m) = Inr n \<longrightarrow> n \<noteq> [] \<and>
      dget n ''field_states'' = (case shown of None \<Rightarrow> PNone | Some states \<Rightarrow> PDict states) \<and>
      (\<forall>field \<in> set ENGAGEMENT_FIELDS. dget n field = PStr (lit field))" for n
    using kept(1) [OF body _ m] kept(3,5) [OF refl _ refl] states by (auto simp: seal_metadata_def)
  have "\<exists>states. engagement_field_states sha (PDict m) = Inr states \<and>
      (\<forall>field \<in> set ENGAGEMENT_FIELDS. states_value (lit field) (as_dict (dget states field)))"
  proof (cases shown)
    case None
    obtain recs where recs: "\<forall>field \<in> set ENGAGEMENT_FIELDS.
        field_entry (PDict []) (lit_values lit) PNone field = Inr (recs field) \<and>
        states_value (lit field) (recs field)"
      using derived_entry [OF ok] by metis
    have same: "map (\<lambda>field. (field, PStr (str_or_empty (dget n field)))) ENGAGEMENT_FIELDS =
        lit_values lit"
      if "\<forall>field \<in> set ENGAGEMENT_FIELDS. dget n field = PStr (lit field)" for n
      using that by (simp add: lit_values_def)
    have "normalize_field_states (PDict []) (lit_values lit) PNone =
        Inr (map (\<lambda>field. (field, PDict (recs field))) ENGAGEMENT_FIELDS)"
      unfolding normalize_field_states_def keyed_map_res using recs by blast
    then have "engagement_field_states sha (PDict m) = Inr (map (\<lambda>field. (field, PDict (recs field))) ENGAGEMENT_FIELDS)"
      using kept(1) [OF body _ m] states normal None same by (simp add: engagement_field_states_def)
    then show ?thesis using recs by (auto simp: dget_def map_of_keyed)
  next
    case (Some shown_states)
    then have "engagement_field_states sha (PDict m) = Inr shown_states"
      using kept(1) [OF body _ m] states normal by (simp add: engagement_field_states_def)
    then show ?thesis using states [OF Some] by blast
  qed
  then show ?thesis
    using kept(2,4) [OF body _ m] kept(3) [OF body _ m] states by blast
qed

definition sample_intake :: py where
  "sample_intake = PDict [(''modules'', PList [PDict [(''module_id'', PStr ''stakeholder_context''),
     (''excluded'', PBool True), (''reason'', PStr ''NDA'')]])]"

definition sample_literals :: dict where
  "sample_literals = [(''client_name'', PStr ''A''), (''project_name'', PStr []), (''primary_technical_contact'', PStr []),
     (''access_method'', PStr []), (''authorized_scope'', PStr [])]"

definition sample_field_states :: dict where
  "sample_field_states =
    (let excluded = PDict [(''state'', PStr ''excluded_from_scope''), (''value'', PNone), (''source'', PStr ''user_action''),
         (''reason'', PStr ''NDA'')]
     in [(''client_name'', PDict [(''state'', PStr ''supplied_unverified''), (''value'', PStr ''A''),
           (''source'', PStr ''client_supplied_intake'')]),
         (''project_name'', PDict [(''state'', PStr ''not_supplied''), (''value'', PNone), (''source'', PStr ''intake'')]),
         (''primary_technical_contact'', excluded), (''access_method'', excluded), (''authorized_scope'', excluded)])"

lemma sample_metadata:
  "build_comprehensive_engagement_metadata sha (PList [PStr '' '', PStr ''A'']) PNone sample_intake PNone =
   Inr (seal_metadata sha ([(''artifact_schema'', PStr METADATA_VERSION)] @ sample_literals @
     [(''field_states'', PDict sample_field_states)] @ metadata_gates))"
proof -
  have "literal_values (\<lambda>field.
        if field = ''client_name'' then engagement_literal 180 (PList [PStr '' '', PStr ''A''])
        else if field = ''project_name'' then engagement_literal 180 PNone
        else engagement_evidence_literal sample_intake field (field_limit field)) = Inr sample_literals"
    by code_simp
  moreover have "normalize_field_states PNone sample_literals sample_intake = Inr sample_field_states"
    by code_simp
  ultimately show ?thesis by (simp add: build_comprehensive_engagement_metadata_def)
qed

lemma engagement_metadata_verifies_witness:
  "verify_comprehensive_engagement_metadata (\<lambda>x. ''d'') (PDict (seal_metadata (\<lambda>x. ''d'')
     ([(''artifact_schema'', PStr METADATA_VERSION)] @ sample_literals @ [(''field_states'', PDict sample_field_states)] @ metadata_gates))) =
   Inr True"
  using engagement_metadata_verifies [of "\<lambda>x. ''d''" "PList [PStr '' '', PStr ''A'']" PNone sample_intake PNone _ PNone] sample_metadata
  by blast

end
