(* ===== verification/StageWatchdog.thy ===== *)
theory StageWatchdog
  imports RunLifecycle
begin

text \<open>
  The stage watchdog (\<open>nico/comprehensive_stage_watchdog_v1.py\<close>): an active stage result is compared with the
  retained one by a digest of its meaningful content; a stage that does not change for too many
  continuations or for too long becomes blocked, and such a run gets one explicit retry.
\<close>

section \<open>Configuration\<close>

text \<open>
  What is read from outside: environment variables, and the text of an instant (in microseconds) and back.
  \<open>round\<close> of a float is a parameter because floats are decimals here.
\<close>

record watch_env =
  we_getenv :: "string \<Rightarrow> string option"
  we_iso :: "int \<Rightarrow> string"
  we_parse :: "string \<Rightarrow> int option"
  we_round :: "int \<times> nat \<Rightarrow> py"

definition WATCHDOG_VERSION :: string where
  "WATCHDOG_VERSION = ''nico.comprehensive_stage_watchdog.v1''"

definition WATCHED_STATUSES :: "string list" where
  "WATCHED_STATUSES = [''queued'', ''running'', ''pending'', ''planned'', ''in_progress'']"

definition STALL_REASON :: string where
  "STALL_REASON = ''stage_progress_stalled''"

definition DEFAULT_MAX_NO_PROGRESS_ATTEMPTS :: int where
  "DEFAULT_MAX_NO_PROGRESS_ATTEMPTS = 120"

definition DEFAULT_STALL_TIMEOUT_SECONDS :: int where
  "DEFAULT_STALL_TIMEOUT_SECONDS = 600"

definition MAX_RECOVERY_ATTEMPTS :: nat where
  "MAX_RECOVERY_ATTEMPTS = 1"

definition TRANSIENT_SIGNAL_KEYS :: "string list" where
  "TRANSIENT_SIGNAL_KEYS = [''artifact_schema'', ''assessment_depth'', ''checked_at'', ''client_delivery_allowed'',
     ''commit_sha'', ''created_at'', ''customer_id'', ''evidence_ledger_id'', ''heartbeat_at'', ''human_review_required'',
     ''last_checked_at'', ''last_poll_at'', ''polled_at'', ''project_id'', ''report_language'', ''repository'',
     ''request_id'', ''revision'', ''run_id'', ''service_id'', ''stage_id'', ''timestamp'', ''updated_at'', ''watchdog'']"

definition parse_iso :: "watch_env \<Rightarrow> py \<Rightarrow> int option" where
  "parse_iso w v =
    (let t = text_of v in
     if t = [] then None
     else we_parse w (concat (map (\<lambda>c. if c = CHR ''Z'' then ''+00:00'' else [c]) t)))"

definition bounded_int :: "watch_env \<Rightarrow> string \<Rightarrow> int \<Rightarrow> int \<Rightarrow> int \<Rightarrow> int" where
  "bounded_int w name fallback minimum maximum =
    (let v = (case we_getenv w name of
         None \<Rightarrow> fallback
       | Some t \<Rightarrow> (case py_int (PStr t) of Inl e \<Rightarrow> fallback | Inr i \<Rightarrow> i))
     in max minimum (min maximum v))"

definition max_no_progress_attempts :: "watch_env \<Rightarrow> int" where
  "max_no_progress_attempts w = bounded_int w ''NICO_COMPREHENSIVE_STAGE_MAX_NO_PROGRESS_ATTEMPTS''
     DEFAULT_MAX_NO_PROGRESS_ATTEMPTS 1 2000"

definition stall_timeout_seconds :: "watch_env \<Rightarrow> int" where
  "stall_timeout_seconds w = bounded_int w ''NICO_COMPREHENSIVE_STAGE_STALL_TIMEOUT_SECONDS''
     DEFAULT_STALL_TIMEOUT_SECONDS 60 7200"

section \<open>Progress and its signal\<close>

definition percent :: "watch_env \<Rightarrow> py \<Rightarrow> py option" where
  "percent w v =
    (case py_float v of
       Inl e \<Rightarrow> None
     | Inr x \<Rightarrow> Some (we_round w
         (if dec_less (100, 0) x then (100, 0) else if dec_less x (0, 0) then (0, 0) else x)))"

definition progress :: "watch_env \<Rightarrow> dict \<Rightarrow> py" where
  "progress w result =
    (case concat (map (\<lambda>container. concat (map (\<lambda>key. case percent w (dget container key) of None \<Rightarrow> [] | Some p \<Rightarrow> [p])
           [''progress_percent'', ''stage_progress_percent'', ''completion_percent'']))
         [result, as_dict (dget result ''scanner''), as_dict (dget result ''evidence''), as_dict (dget result ''metrics'')]) of
       [] \<Rightarrow> PNone
     | p # _ \<Rightarrow> p)"

text \<open>The first argument is the depth that is left, from four.\<close>

fun stable_value :: "nat \<Rightarrow> py \<Rightarrow> py" where
  "stable_value 0 v = PStr (type_name v)"
| "stable_value (Suc n) (PDict d) = PDict (map (\<lambda>(k, v). (k, stable_value n v))
     (filter (\<lambda>(k, _). k \<notin> set TRANSIENT_SIGNAL_KEYS \<and> k \<notin> {''raw_evidence'', ''raw_output'', ''logs'', ''report_package''})
       (sort_items d)))"
| "stable_value (Suc n) (PList xs) = PList (map (stable_value n) (take 80 xs))"
| "stable_value (Suc n) v = v"

definition progress_signal :: "(string \<Rightarrow> string) \<Rightarrow> dict \<Rightarrow> string" where
  "progress_signal sha result = sha (utf8 (json_dumps (stable_value 4 (PDict result))))"

section \<open>Watching a result\<close>

definition retained_watchdog :: "dict \<Rightarrow> string \<Rightarrow> dict" where
  "retained_watchdog record stage_id =
     as_dict (dget (as_dict (dget (as_dict (dget record ''stage_results'')) stage_id)) ''watchdog'')"

definition stall_update :: "string \<Rightarrow> int \<Rightarrow> int \<Rightarrow> dict \<Rightarrow> dict" where
  "stall_update stage_id attempts stalled_seconds output =
    [(''status'', PStr ''blocked''), (''reason'', PStr STALL_REASON), (''error_code'', PStr STALL_REASON),
     (''error_message'', PStr (''Stage '' @ stage_id @ '' produced no meaningful progress for '' @ int_str attempts @
        '' continuation attempt(s) and '' @ int_str stalled_seconds @ '' second(s).'')),
     (''technical_reason'', PStr (STALL_REASON @ '':stage='' @ stage_id @ '':attempts='' @ int_str attempts @
        '':stalled_seconds='' @ int_str stalled_seconds)),
     (''retryable'', PBool True), (''cancelable'', PBool True),
     (''artifacts_available'', PBool (list_ex (\<lambda>k. truthy (dget output k))
        [''artifacts_available'', ''artifact_hash'', ''evidence'', ''scanner''])),
     (''human_review_required'', PBool True), (''client_delivery_allowed'', PBool False)]"

definition signal_changed :: "(string \<Rightarrow> string) \<Rightarrow> dict \<Rightarrow> dict \<Rightarrow> bool" where
  "signal_changed sha prior result =
    (let prior_signal = str_or_empty (dget prior ''progress_signal_sha256'') in
     prior_signal = [] \<or> progress_signal sha result \<noteq> prior_signal)"

definition no_progress_attempts :: "(string \<Rightarrow> string) \<Rightarrow> dict \<Rightarrow> dict \<Rightarrow> int res" where
  "no_progress_attempts sha prior result =
    (if signal_changed sha prior result then Inr 0
     else bind_res (py_int (py_or (dget prior ''no_progress_attempts'') (PInt 0))) (\<lambda>n. Inr (n + 1)))"

definition first_observed_at :: "watch_env \<Rightarrow> dict \<Rightarrow> int \<Rightarrow> string" where
  "first_observed_at w prior instant = py_str (py_or (dget prior ''first_observed_at'') (PStr (we_iso w instant)))"

definition last_progress_at :: "watch_env \<Rightarrow> (string \<Rightarrow> string) \<Rightarrow> dict \<Rightarrow> dict \<Rightarrow> int \<Rightarrow> string" where
  "last_progress_at w sha prior result instant =
    (if signal_changed sha prior result then we_iso w instant
     else py_str (py_or (dget prior ''last_progress_at'') (PStr (first_observed_at w prior instant))))"

definition stalled_seconds :: "watch_env \<Rightarrow> (string \<Rightarrow> string) \<Rightarrow> dict \<Rightarrow> dict \<Rightarrow> int \<Rightarrow> int" where
  "stalled_seconds w sha prior result instant =
    (let last_progress = (case parse_iso w (PStr (last_progress_at w sha prior result instant)) of
         None \<Rightarrow> instant
       | Some t \<Rightarrow> t)
     in max 0 ((instant - last_progress) div 1000000))"

definition watchdog_fields ::
  "watch_env \<Rightarrow> (string \<Rightarrow> string) \<Rightarrow> dict \<Rightarrow> string \<Rightarrow> dict \<Rightarrow> int \<Rightarrow> int \<Rightarrow> bool \<Rightarrow> dict" where
  "watchdog_fields w sha prior stage_id result instant attempts stalled =
    [(''artifact_schema'', PStr WATCHDOG_VERSION), (''stage_id'', PStr stage_id),
     (''first_observed_at'', PStr (first_observed_at w prior instant)),
     (''last_progress_at'', PStr (last_progress_at w sha prior result instant)),
     (''observed_at'', PStr (we_iso w instant)), (''progress_percent'', progress w result),
     (''progress_signal_sha256'', PStr (progress_signal sha result)),
     (''progress_changed'', PBool (signal_changed sha prior result)),
     (''no_progress_attempts'', PInt attempts), (''stalled_seconds'', PInt (stalled_seconds w sha prior result instant)),
     (''max_no_progress_attempts'', PInt (max_no_progress_attempts w)),
     (''stall_timeout_seconds'', PInt (stall_timeout_seconds w)),
     (''revision_only_changes_count_as_progress'', PBool False), (''scanner_evidence_preserved'', PBool True),
     (''stalled'', PBool stalled)]"

definition watched_status :: "dict \<Rightarrow> bool" where
  "watched_status result \<longleftrightarrow>
     py_casefold (py_strip (py_str (py_or (dget result ''status'') (PStr ''complete'')))) \<in> set WATCHED_STATUSES"

definition apply_stage_watchdog ::
  "watch_env \<Rightarrow> (string \<Rightarrow> string) \<Rightarrow> dict \<Rightarrow> string \<Rightarrow> dict \<Rightarrow> int \<Rightarrow> dict res" where
  "apply_stage_watchdog w sha record stage_id result instant =
    (if \<not> watched_status result then Inr result
     else
      (let prior = retained_watchdog record stage_id in
       bind_res (no_progress_attempts sha prior result) (\<lambda>attempts.
       let seconds = stalled_seconds w sha prior result instant;
           stalled = (max_no_progress_attempts w \<le> attempts \<or> stall_timeout_seconds w \<le> seconds);
           output = dset result ''watchdog'' (PDict (watchdog_fields w sha prior stage_id result instant attempts stalled))
       in Inr (if stalled then dupdate output (stall_update stage_id attempts seconds output) else output))))"

section \<open>The retry of a stalled stage\<close>

definition stall_result :: "dict \<Rightarrow> string \<times> dict" where
  "stall_result record =
    (let stage_id = str_or_empty (dget record ''current_stage'') in
     (stage_id, if stage_id = [] then [] else as_dict (dget (as_dict (dget record ''stage_results'')) stage_id)))"

definition stall_recoveries :: "string \<Rightarrow> py list \<Rightarrow> nat" where
  "stall_recoveries stage_id items =
    length (filter (\<lambda>item. is_dict item \<and> py_eq (dget (as_dict item) ''recovery_type'') (PStr STALL_REASON) \<and>
      py_eq (dget (as_dict item) ''stage_id'') (PStr stage_id)) items)"

definition is_recoverable_stage_stall :: "dict \<Rightarrow> bool res" where
  "is_recoverable_stage_stall record =
    (let stage_id = fst (stall_result record); result = snd (stall_result record) in
     if stage_id = [] then Inr False
     else
       bind_res (list_or_empty (dget record ''recovery_history'')) (\<lambda>items.
         Inr (dget record ''terminal'' = PBool True \<and>
           py_casefold (str_or_empty (dget record ''status'')) = ''blocked'' \<and>
           str_or_empty (py_or (dget result ''reason'') (dget result ''error_code'')) = STALL_REASON \<and>
           stall_recoveries stage_id items < MAX_RECOVERY_ATTEMPTS)))"

text \<open>\<open>dict(value or {})\<close> on what the watchdog wrote; a value that is neither falsy nor a mapping cannot be converted.\<close>

definition mapping_or_empty :: "py \<Rightarrow> dict res" where
  "mapping_or_empty v =
    (case v of
       PDict d \<Rightarrow> Inr d
     | _ \<Rightarrow> if truthy v then Inl (TypeError (quoted (type_name v) @ '' object is not a mapping'')) else Inr [])"

definition stall_recovery_entry :: "watch_env \<Rightarrow> string \<Rightarrow> dict \<Rightarrow> int \<Rightarrow> dict \<Rightarrow> int \<Rightarrow> dict" where
  "stall_recovery_entry w stage_id result source_revision watchdog instant =
    [(''artifact_schema'', PStr WATCHDOG_VERSION), (''recovery_type'', PStr STALL_REASON), (''stage_id'', PStr stage_id),
     (''source_revision'', PInt source_revision), (''source_watchdog'', PDict watchdog),
     (''source_error_code'', PStr (py_str (py_or (dget result ''error_code'') (PStr STALL_REASON)))),
     (''completed_stage_evidence_preserved'', PBool True), (''stalled_stage_evidence_preserved_in_history'', PBool True),
     (''human_review_required'', PBool True), (''client_delivery_allowed'', PBool False),
     (''recovered_at'', PStr (we_iso w instant))]"

text \<open>The fields a rewind to the end of the \<open>completed\<close> stages writes, shared with the recovery of blocked runs.\<close>

definition rewound_fields :: "dict \<Rightarrow> py list \<Rightarrow> string \<Rightarrow> int \<Rightarrow> dict" where
  "rewound_fields record completed stamp revision =
    dupdate record
      [(''current_stage'', if completed = [] then PNone else last completed), (''status'', PStr ''running''),
       (''terminal'', PBool False), (''progress_percent'', percent_value (length completed) (length COMPREHENSIVE_STAGES)),
       (''updated_at'', PStr stamp), (''revision'', PInt (revision + 1)), (''human_review_required'', PBool True),
       (''human_review_completed'', PBool False), (''client_delivery_allowed'', PBool False)]"

definition rewind_stalled_stage_for_retry ::
  "watch_env \<Rightarrow> (string \<Rightarrow> string) \<Rightarrow> (dict \<Rightarrow> bool) \<Rightarrow> dict \<Rightarrow> int \<Rightarrow> dict res" where
  "rewind_stalled_stage_for_retry w sha operator_delivery record instant =
    bind_res (require_valid sha operator_delivery ''invalid_run_record'' record) (\<lambda>_.
    bind_res (is_recoverable_stage_stall record) (\<lambda>recoverable.
    if \<not> recoverable then Inr record
    else
     (let stage_id = fst (stall_result record); result = snd (stall_result record) in
      bind_res (list_or_empty (dget record ''recovery_history'')) (\<lambda>items.
      bind_res (py_int (py_or (dget record ''revision'') (PInt 0))) (\<lambda>revision.
      bind_res (mapping_or_empty (dget result ''watchdog'')) (\<lambda>watchdog.
      bind_res (list_or_empty (dget record ''completed_stages'')) (\<lambda>completed.
      let history = filter is_dict items @
            [PDict (stall_recovery_entry w stage_id result revision watchdog instant)];
          updated = dset (dset record ''recovery_history'' (PList history)) ''stage_results''
            (PDict (dpop (as_dict (dget record ''stage_results'')) stage_id));
          rewound = seal_record sha (rewound_fields updated completed (we_iso w instant) revision)
      in bind_res (require_valid sha operator_delivery ''invalid_recovered_run_record'' rewound) (\<lambda>_. Inr rewound))))))))"

section \<open>When the watchdog blocks\<close>

lemma bounded_int_range:
  "minimum \<le> maximum \<Longrightarrow> minimum \<le> bounded_int w name fallback minimum maximum \<and> bounded_int w name fallback minimum maximum \<le> maximum"
  by (simp add: bounded_int_def Let_def)

lemma watch_limits:
  "1 \<le> max_no_progress_attempts w \<and> max_no_progress_attempts w \<le> 2000"
  "60 \<le> stall_timeout_seconds w \<and> stall_timeout_seconds w \<le> 7200"
  unfolding max_no_progress_attempts_def stall_timeout_seconds_def by (rule bounded_int_range; simp)+

lemma stall_update_read:
  "dget (dupdate d (stall_update stage n s e)) ''status'' = PStr ''blocked''"
  "dget (dupdate d (stall_update stage n s e)) ''watchdog'' = dget d ''watchdog''"
  "dget (dupdate d (stall_update stage n s e)) ''reason'' = PStr STALL_REASON"
  by (simp_all add: stall_update_def)

lemma watchdog_fields_read:
  "dget (watchdog_fields w sha prior stage result t n stalled) ''progress_signal_sha256'' = PStr (progress_signal sha result)"
  "dget (watchdog_fields w sha prior stage result t n stalled) ''no_progress_attempts'' = PInt n"
  by (simp_all add: watchdog_fields_def)

lemma py_or_count [simp]: "py_int (py_or (PInt n) (PInt 0)) = Inr n"
  by (simp add: py_or_def py_int_def)

text \<open>Successive polls of one stage: each output is retained as the result of the stage, as the run record does.\<close>

definition retain_result :: "dict \<Rightarrow> string \<Rightarrow> dict \<Rightarrow> dict" where
  "retain_result record stage_id out =
     dset record ''stage_results'' (PDict (dset (as_dict (dget record ''stage_results'')) stage_id (PDict out)))"

fun watch_polls :: "watch_env \<Rightarrow> (string \<Rightarrow> string) \<Rightarrow> string \<Rightarrow> (int \<times> dict) list \<Rightarrow> dict \<Rightarrow> dict res" where
  "watch_polls w sha stage_id [] record = Inr record"
| "watch_polls w sha stage_id ((instant, result) # polls) record =
     bind_res (apply_stage_watchdog w sha record stage_id result instant) (\<lambda>out.
       watch_polls w sha stage_id polls (retain_result record stage_id out))"

definition retained_result :: "dict \<Rightarrow> string \<Rightarrow> dict" where
  "retained_result record stage_id = as_dict (dget (as_dict (dget record ''stage_results'')) stage_id)"

lemma retained_retain [simp]: "retained_result (retain_result record stage out) stage = out"
  by (simp add: retained_result_def retain_result_def)

lemma retained_watchdog_result: "retained_watchdog record stage = as_dict (dget (retained_result record stage) ''watchdog'')"
  by (simp add: retained_watchdog_def retained_result_def)

text \<open>The retained result notes the signal and the number of attempts without progress.\<close>

definition attempts_noted :: "dict \<Rightarrow> string \<Rightarrow> int \<Rightarrow> bool" where
  "attempts_noted out s n \<longleftrightarrow> dget (as_dict (dget out ''watchdog'')) ''progress_signal_sha256'' = PStr s \<and>
     dget (as_dict (dget out ''watchdog'')) ''no_progress_attempts'' = PInt n"

definition stall_blocked :: "dict \<Rightarrow> bool" where
  "stall_blocked out \<longleftrightarrow> dget out ''status'' = PStr ''blocked'' \<and> dget out ''reason'' = PStr STALL_REASON"

lemma watch_counts:
  assumes "watched_status result" and "no_progress_attempts sha (retained_watchdog record stage) result = Inr n"
  obtains out where "apply_stage_watchdog w sha record stage result t = Inr out" "attempts_noted out (progress_signal sha result) n"
    "max_no_progress_attempts w \<le> n \<Longrightarrow> stall_blocked out"
  using assms
  by (auto simp: apply_stage_watchdog_def Let_def attempts_noted_def stall_blocked_def stall_update_read watchdog_fields_read)

lemma attempts_grow:
  assumes "attempts_noted (retained_result record stage) (progress_signal sha result) n" and "\<forall>x. sha x \<noteq> []"
  shows "no_progress_attempts sha (retained_watchdog record stage) result = Inr (n + 1)"
  using assms
  by (auto simp: attempts_noted_def retained_watchdog_result no_progress_attempts_def signal_changed_def progress_signal_def)

lemma unchanged_polls:
  assumes "\<forall>x. sha x \<noteq> []" and "\<forall>(t, result) \<in> set polls. watched_status result \<and> progress_signal sha result = s"
    and "attempts_noted (retained_result r0 stage) s n"
  shows "\<exists>r. watch_polls w sha stage polls r0 = Inr r \<and> attempts_noted (retained_result r stage) s (n + int (length polls)) \<and>
    (polls \<noteq> [] \<longrightarrow> max_no_progress_attempts w \<le> n + int (length polls) \<longrightarrow> stall_blocked (retained_result r stage))"
  using assms(2,3)
proof (induction polls arbitrary: r0 n)
  case (Cons p polls)
  obtain t result where p: "p = (t, result)" by (cases p)
  then have act: "watched_status result" "progress_signal sha result = s" using Cons.prems(1) by auto
  have "no_progress_attempts sha (retained_watchdog r0 stage) result = Inr (n + 1)"
    using attempts_grow Cons.prems(2) act(2) assms(1) by blast
  from watch_counts [OF act(1) this, of w t] obtain out where out: "apply_stage_watchdog w sha r0 stage result t = Inr out"
    "attempts_noted out s (n + 1)" "max_no_progress_attempts w \<le> n + 1 \<Longrightarrow> stall_blocked out" unfolding act(2) by blast
  have "\<exists>r. watch_polls w sha stage polls (retain_result r0 stage out) = Inr r \<and>
      attempts_noted (retained_result r stage) s (n + 1 + int (length polls)) \<and>
      (polls \<noteq> [] \<longrightarrow> max_no_progress_attempts w \<le> n + 1 + int (length polls) \<longrightarrow> stall_blocked (retained_result r stage))"
    using Cons.IH [of "retain_result r0 stage out" "n + 1"] Cons.prems(1) out(2) by simp
  then show ?case using out by (cases "polls = []") (auto simp: p algebra_simps)
qed simp

lemma fresh_attempts: "retained_watchdog record stage = [] \<Longrightarrow> no_progress_attempts sha (retained_watchdog record stage) result = Inr 0"
  by (simp add: no_progress_attempts_def signal_changed_def)

text \<open>Poll fields do not change the signal.\<close>

definition poll_of :: "dict \<Rightarrow> dict \<Rightarrow> bool" where
  "poll_of base result \<longleftrightarrow> (\<exists>noise. fst ` set noise \<subseteq> set TRANSIENT_SIGNAL_KEYS \<and> result = dupdate base noise)"

lemma filter_dset: "\<not> P k \<Longrightarrow> filter (\<lambda>(k, v). P k) (dset d k v) = filter (\<lambda>(k, v). P k) d"
  by (induction d) auto

lemma signal_dset:
  assumes "k \<in> set TRANSIENT_SIGNAL_KEYS"
  shows "progress_signal sha (dset d k v) = progress_signal sha d"
proof -
  let ?P = "\<lambda>k. k \<notin> set TRANSIENT_SIGNAL_KEYS \<and> k \<notin> {''raw_evidence'', ''raw_output'', ''logs'', ''report_package''}"
  have "filter (\<lambda>(k, _). ?P k) (sort_items (dset d k v)) = filter (\<lambda>(k, _). ?P k) (sort_items d)"
    using filter_dset [of ?P k v d] assms by (simp only: sort_items_def filter_sort simp_thms)
  then show ?thesis by (simp only: progress_signal_def stable_value.simps numeral_eq_Suc)
qed

lemma poll_same:
  assumes "poll_of base result"
  shows "progress_signal sha result = progress_signal sha base" "watched_status result = watched_status base"
proof -
  obtain noise where n: "fst ` set noise \<subseteq> set TRANSIENT_SIGNAL_KEYS" "result = dupdate base noise"
    using assms by (auto simp: poll_of_def)
  have status: "''status'' \<notin> set TRANSIENT_SIGNAL_KEYS" by (simp add: TRANSIENT_SIGNAL_KEYS_def)
  have "progress_signal sha (dupdate d noise) = progress_signal sha d \<and> dget (dupdate d noise) ''status'' = dget d ''status''" for d
    using n(1)
  proof (induction noise arbitrary: d)
    case (Cons p noise)
    obtain k v where "p = (k, v)" by (cases p)
    then show ?case using Cons signal_dset [of k sha v d] status by auto
  qed simp
  then show "progress_signal sha result = progress_signal sha base" "watched_status result = watched_status base"
    by (simp_all add: n(2) watched_status_def)
qed

text \<open>
  C32. A stage that makes no progress is always stopped: when a stage is polled with an active result that changes only in
  timestamps, heartbeats, revisions and other poll fields, the run blocks it with the stall reason after at
  most the configured number of attempts, and that number is at most 2000 whatever the environment says.
\<close>

theorem unchanged_stage_is_blocked:
  assumes sha: "\<forall>x. sha x \<noteq> []" and fresh: "retained_watchdog record stage = []" and base: "watched_status base"
    and unchanged: "\<forall>(t, result) \<in> set polls. poll_of base result"
    and long: "max_no_progress_attempts w < int (length polls)"
  shows "max_no_progress_attempts w \<le> 2000 \<and>
    (\<exists>r. watch_polls w sha stage polls record = Inr r \<and> stall_blocked (retained_result r stage))"
proof -
  let ?s = "progress_signal sha base"
  have active: "\<forall>(t, result) \<in> set polls. watched_status result \<and> progress_signal sha result = ?s"
    using unchanged poll_same base by fastforce
  note range = watch_limits [of w]
  then obtain t result rest where polls: "polls = (t, result) # rest" "rest \<noteq> []" using long
    by (cases polls rule: list.exhaust [case_product list.exhaust [of "tl polls"]]) auto
  then have act: "watched_status result" "progress_signal sha result = ?s" using active by auto
  have "no_progress_attempts sha (retained_watchdog record stage) result = Inr 0" using fresh by (rule fresh_attempts)
  from watch_counts [OF act(1) this, of w t] obtain out where
    out: "apply_stage_watchdog w sha record stage result t = Inr out" "attempts_noted out ?s 0" unfolding act(2) by blast
  have "\<exists>r. watch_polls w sha stage rest (retain_result record stage out) = Inr r \<and> stall_blocked (retained_result r stage)"
    using unchanged_polls [OF sha, of rest ?s "retain_result record stage out" stage 0 w] active polls long out(2) by auto
  then show ?thesis using range out(1) by (simp add: polls(1))
qed

definition sample_watch :: watch_env where
  "sample_watch = \<lparr>we_getenv = (\<lambda>_. Some ''1''), we_iso = (\<lambda>t. ''t''), we_parse = (\<lambda>_. Some 0), we_round = (\<lambda>x. PNone)\<rparr>"

theorem unchanged_stage_is_blocked_witness:
  "\<exists>r. watch_polls sample_watch (\<lambda>_. ''d'') ''functional_qa''
     [(0, [(''status'', PStr ''running''), (''heartbeat_at'', PStr ''t0'')]),
      (0, [(''status'', PStr ''running''), (''heartbeat_at'', PStr ''t1'')])] [] = Inr r \<and>
     stall_blocked (retained_result r ''functional_qa'')"
proof -
  have "poll_of [(''status'', PStr ''running'')] [(''status'', PStr ''running''), (''heartbeat_at'', PStr x)]" for x
    unfolding poll_of_def by (rule exI [of _ "[(''heartbeat_at'', PStr x)]"]) (simp add: TRANSIENT_SIGNAL_KEYS_def)
  moreover have "max_no_progress_attempts sample_watch = 1" by code_simp
  moreover have "watched_status [(''status'', PStr ''running'')]" by code_simp
  moreover have "retained_watchdog [] ''functional_qa'' = []" by (simp add: retained_watchdog_def as_dict_def)
  ultimately show ?thesis
    using unchanged_stage_is_blocked [of "\<lambda>_. ''d''" "[]" "''functional_qa''" "[(''status'', PStr ''running'')]"
      "[(0, [(''status'', PStr ''running''), (''heartbeat_at'', PStr ''t0'')]),
        (0, [(''status'', PStr ''running''), (''heartbeat_at'', PStr ''t1'')])]" sample_watch] by simp
qed

text \<open>
  A stage that makes progress is never blocked by the watchdog: when the meaningful content of an active result changed,
  or nothing was retained before, or the result is not active, the result passes with every field as it was, at most with the
  diagnostic of the watchdog beside it.
\<close>

theorem progressing_stage_is_kept:
  assumes clock: "parse_iso w (PStr (we_iso w t)) = Some t"
    and moving: "signal_changed sha (retained_watchdog record stage) result \<or> \<not> watched_status result"
  shows "\<exists>out. apply_stage_watchdog w sha record stage result t = Inr out \<and> (\<forall>k. k \<noteq> ''watchdog'' \<longrightarrow> dget out k = dget result k)"
proof (cases "watched_status result")
  case False
  then show ?thesis by (simp add: apply_stage_watchdog_def)
next
  case True
  then have ch: "signal_changed sha (retained_watchdog record stage) result" using moving by simp
  then have "stalled_seconds w sha (retained_watchdog record stage) result t = 0"
    using clock by (simp add: stalled_seconds_def last_progress_at_def Let_def)
  moreover have "0 < max_no_progress_attempts w" "0 < stall_timeout_seconds w" using watch_limits [of w] by simp_all
  ultimately show ?thesis using True ch by (auto simp: apply_stage_watchdog_def Let_def no_progress_attempts_def)
qed

theorem progressing_stage_is_kept_witness:
  "\<exists>out. apply_stage_watchdog sample_watch (\<lambda>_. ''d'') [] ''functional_qa'' [(''status'', PStr ''running'')] 0 = Inr out \<and>
     dget out ''status'' = PStr ''running''"
proof -
  have "parse_iso sample_watch (PStr (we_iso sample_watch 0)) = Some 0" by code_simp
  moreover have "signal_changed (\<lambda>_. ''d'') (retained_watchdog [] ''functional_qa'') [(''status'', PStr ''running'')]" by code_simp
  ultimately show ?thesis
    using progressing_stage_is_kept [of sample_watch 0 "\<lambda>_. ''d''" "[]" "''functional_qa''" "[(''status'', PStr ''running'')]"] by force
qed

end
