(* ===== verification/BlockedRecovery.thy ===== *)
theory BlockedRecovery
  imports StageWatchdog
begin

text \<open>
  Recovery of a blocked run (\<open>nico/comprehensive_blocked_run_recovery_v1.py\<close>): a run that failed in report generation for
  a recognized reason is rewound to the stage that has to run again, once for each failed stage
  and recovery generation.
\<close>

section \<open>What is recoverable\<close>

definition RECOVERY_VERSION :: string where
  "RECOVERY_VERSION = ''nico.comprehensive_blocked_run_recovery.v14''"

definition DECISION_REPORT_STAGE :: string where
  "DECISION_REPORT_STAGE = ''decision_report_generation''"

definition FINAL_REPORT_STAGE :: string where
  "FINAL_REPORT_STAGE = ''final_comprehensive_report_generation''"

definition CROSS_FORMAT_STAGE :: string where
  "CROSS_FORMAT_STAGE = ''cross_format_truth_verification''"

definition EXECUTIVE_BRIEFING_RECOVERY_STAGE :: string where
  "EXECUTIVE_BRIEFING_RECOVERY_STAGE = ''risk_reduction_and_executive_briefing''"

definition SCANNER_REGISTER_RECOVERY_STAGE :: string where
  "SCANNER_REGISTER_RECOVERY_STAGE = ''evidence_reconciliation_and_scoring''"

definition MAX_RECOVERIES_PER_SOURCE_STAGE :: nat where
  "MAX_RECOVERIES_PER_SOURCE_STAGE = 1"

definition RECOVERY_BUDGET_SCOPE :: string where
  "RECOVERY_BUDGET_SCOPE = ''source_failed_stage_recovery_generation''"

definition RECOVERABLE_REASONS_BY_STAGE :: "string \<Rightarrow> string list" where
  "RECOVERABLE_REASONS_BY_STAGE stage =
    (if stage = DECISION_REPORT_STAGE then [''detached_stage_execution_failed'', ''v2_production_publication_failed'']
     else if stage = FINAL_REPORT_STAGE then [''detached_stage_execution_failed'', ''run_storage_compressed_size_limit'',
       ''final_report_execution_timeout'', ''final_report_publication_deadline_exceeded'', ''v2_production_publication_failed'']
     else if stage = CROSS_FORMAT_STAGE then [''final_artifact_truth_verification_failed'',
       ''cross_format_final_report_verification_failed'', ''cross_format_truth_verification_failed'']
     else [])"

definition SCANNER_REGISTER_SOURCE_CHECKS :: "string list" where
  "SCANNER_REGISTER_SOURCE_CHECKS = [''canonical_scanner_payload_retention_truthful'', ''canonical_scanner_totals_recompute'']"

definition EXECUTIVE_BRIEFING_SOURCE_CHECKS :: "string list" where
  "EXECUTIVE_BRIEFING_SOURCE_CHECKS = [''stage_score_evidence_matches_canonical'']"

definition STAGE_ALIASES :: "(string \<times> string) list" where
  "STAGE_ALIASES = [(''decision report generation'', DECISION_REPORT_STAGE),
     (''final comprehensive report generation'', FINAL_REPORT_STAGE),
     (''cross format truth verification'', CROSS_FORMAT_STAGE),
     (''cross-format truth verification'', CROSS_FORMAT_STAGE)]"

definition recovery_text :: "py \<Rightarrow> string" where
  "recovery_text v = py_strip (py_join '' '' (py_split (str_or_empty v)))"

definition recovery_stage_id :: "py \<Rightarrow> string" where
  "recovery_stage_id v =
    (let raw = recovery_text v in
     if raw \<in> set COMPREHENSIVE_STAGES then raw
     else (case map_of STAGE_ALIASES (map (\<lambda>c. if c = CHR ''_'' then CHR '' '' else c) (py_casefold raw)) of
         None \<Rightarrow> raw
       | Some stage \<Rightarrow> stage))"

text \<open>A set of texts is a list; it is only joined, intersected and sorted.\<close>

definition string_values :: "py \<Rightarrow> string list" where
  "string_values v =
    (case v of
       PStr _ \<Rightarrow> (let t = recovery_text v in if t = [] then [] else [t])
     | PList items \<Rightarrow> filter (\<lambda>t. t \<noteq> []) (map recovery_text items)
     | _ \<Rightarrow> [])"

definition current_failed_stage :: "dict \<Rightarrow> string" where
  "current_failed_stage record = recovery_stage_id (dget record ''current_stage'')"

definition failed_stage_result :: "dict \<Rightarrow> dict" where
  "failed_stage_result record = as_dict (dget (as_dict (dget record ''stage_results'')) (current_failed_stage record))"

definition counts_as_attempt :: "string \<Rightarrow> py \<Rightarrow> bool" where
  "counts_as_attempt source_failed_stage item \<longleftrightarrow> is_dict item \<and>
     recovery_stage_id (dget (as_dict item) ''source_failed_stage'') = source_failed_stage \<and>
     recovery_text (dget (as_dict item) ''recovery_budget_scope'') = RECOVERY_BUDGET_SCOPE \<and>
     recovery_text (dget (as_dict item) ''recovery_generation'') = RECOVERY_VERSION"

definition automatic_recovery_attempt_count :: "dict \<Rightarrow> string \<Rightarrow> nat" where
  "automatic_recovery_attempt_count record source_failed_stage =
    (case dget record ''recovery_history'' of
       PList items \<Rightarrow> length (filter (counts_as_attempt source_failed_stage) items)
     | _ \<Rightarrow> 0)"

definition recovery_reason_candidates :: "dict \<Rightarrow> string list" where
  "recovery_reason_candidates record =
    (let result = failed_stage_result record in
     rev (remdups (rev (filter (\<lambda>t. t \<noteq> [])
       (map (\<lambda>key. before_colon (recovery_text (dget result key))) [''reason'', ''technical_reason''])))))"

definition blocked_run_recovery_reason :: "dict \<Rightarrow> string" where
  "blocked_run_recovery_reason record =
    (let candidates = recovery_reason_candidates record in
     case find (\<lambda>c. c \<in> set (RECOVERABLE_REASONS_BY_STAGE (current_failed_stage record))) candidates of
       Some candidate \<Rightarrow> candidate
     | None \<Rightarrow> (case candidates of [] \<Rightarrow> [] | c # _ \<Rightarrow> c))"

definition final_artifact_failed_checks :: "dict \<Rightarrow> string list" where
  "final_artifact_failed_checks record =
    (let result = failed_stage_result record in
     string_values (dget result ''failed_checks'') @
     string_values (dget (as_dict (dget result ''final_artifact_truth'')) ''failed_checks'') @
     string_values (dget (as_dict (dget result ''evidence'')) ''failed_checks''))"

definition final_artifact_recovery_stage :: "dict \<Rightarrow> string" where
  "final_artifact_recovery_stage record =
    (let failed_stage = current_failed_stage record; failed_checks = set (final_artifact_failed_checks record) in
     if failed_stage \<in> {DECISION_REPORT_STAGE, FINAL_REPORT_STAGE} then failed_stage
     else if list_ex (\<lambda>c. c \<in> failed_checks) SCANNER_REGISTER_SOURCE_CHECKS then SCANNER_REGISTER_RECOVERY_STAGE
     else if list_ex (\<lambda>c. c \<in> failed_checks) EXECUTIVE_BRIEFING_SOURCE_CHECKS then EXECUTIVE_BRIEFING_RECOVERY_STAGE
     else FINAL_REPORT_STAGE)"

definition is_recoverable_final_artifact_failure :: "dict \<Rightarrow> bool" where
  "is_recoverable_final_artifact_failure record \<longleftrightarrow>
     py_casefold (recovery_text (dget record ''status'')) = ''blocked'' \<and> dget record ''terminal'' = PBool True \<and>
     list_ex (\<lambda>reason. reason \<in> set (RECOVERABLE_REASONS_BY_STAGE (current_failed_stage record)))
       (recovery_reason_candidates record)"

section \<open>The rewind\<close>

definition recovery_scope :: "string \<Rightarrow> string" where
  "recovery_scope recovery_stage =
    (if recovery_stage = SCANNER_REGISTER_RECOVERY_STAGE then ''evidence_reconciliation_and_downstream''
     else if recovery_stage = EXECUTIVE_BRIEFING_RECOVERY_STAGE then ''executive_briefing_and_downstream''
     else if recovery_stage = DECISION_REPORT_STAGE then ''decision_report_and_downstream''
     else ''final_report_only'')"

definition recovery_entry :: "dict \<Rightarrow> nat \<Rightarrow> string \<Rightarrow> dict" where
  "recovery_entry record preserved recovered_at =
    (let recovery_stage = final_artifact_recovery_stage record;
         rebuild = (recovery_stage = SCANNER_REGISTER_RECOVERY_STAGE) in
     [(''artifact_schema'', PStr RECOVERY_VERSION), (''source_failed_stage'', PStr (current_failed_stage record)),
      (''source_reason'', PStr (blocked_run_recovery_reason record)),
      (''source_failed_checks'', PList (map PStr (sort (remdups (final_artifact_failed_checks record))))),
      (''rerun_from_stage'', PStr recovery_stage), (''recovery_scope'', PStr (recovery_scope recovery_stage)),
      (''recovery_budget_scope'', PStr RECOVERY_BUDGET_SCOPE), (''recovery_generation'', PStr RECOVERY_VERSION),
      (''preserved_stage_count'', PInt (int preserved)), (''exact_run_identity_preserved'', PBool True),
      (''immutable_repository_snapshot_preserved'', PBool True), (''raw_scanner_evidence_preserved'', PBool True),
      (''canonical_scanner_register_rebuilt'', PBool rebuild), (''score_recalculation_from_preserved_evidence'', PBool rebuild),
      (''human_review_required'', PBool True), (''client_delivery_allowed'', PBool False),
      (''recovered_at'', PStr recovered_at)])"

definition retained_stages :: "dict \<Rightarrow> string list" where
  "retained_stages record = takeWhile (\<lambda>s. s \<noteq> final_artifact_recovery_stage record) COMPREHENSIVE_STAGES"

definition rewound_record :: "dict \<Rightarrow> py list \<Rightarrow> int \<Rightarrow> string \<Rightarrow> dict" where
  "rewound_record record items revision recovered_at =
    (let retained = retained_stages record;
         results = as_dict (dget record ''stage_results'');
         kept = map (\<lambda>s. (s, dget results s)) (filter (has_key results) retained);
         history = filter is_dict items @ [PDict (recovery_entry record (length retained) recovered_at)];
         updated = dupdate record [(''stage_results'', PDict kept), (''completed_stages'', PList (map PStr retained)),
           (''recovery_history'', PList history)];
         rewound = rewound_fields updated (map PStr retained) recovered_at revision
     in fold (\<lambda>k d. dpop d k) [''accepted_edition'', ''approved_delivery_package'', ''review_context'', ''review_decision''] rewound)"

definition rewind_blocked_run_for_final_artifact_recovery ::
  "(string \<Rightarrow> string) \<Rightarrow> (dict \<Rightarrow> bool) \<Rightarrow> dict \<Rightarrow> string \<Rightarrow> dict res" where
  "rewind_blocked_run_for_final_artifact_recovery sha operator_delivery record recovered_at =
    bind_res (require_valid sha operator_delivery ''invalid_run_record'' record) (\<lambda>_.
    if \<not> is_recoverable_final_artifact_failure record then Inr record
    else if MAX_RECOVERIES_PER_SOURCE_STAGE \<le> automatic_recovery_attempt_count record (current_failed_stage record)
    then Inr record
    else
      bind_res (py_int (py_or (dget record ''revision'') (PInt 0))) (\<lambda>revision.
      bind_res (list_or_empty (dget record ''recovery_history'')) (\<lambda>items.
      let rewound = seal_record sha (rewound_record record items revision recovered_at) in
      bind_res (require_valid sha operator_delivery ''invalid_recovered_run_record'' rewound) (\<lambda>_. Inr rewound))))"

end
