(* ===== verification/RecoveryLife.thy ===== *)
theory RecoveryLife
  imports BlockedRecovery ReviewLifecycle StoreTables
begin

text \<open>
  The lifecycle of a run with its recoveries: stage results, review decisions, the recovery of a blocked run and the
  retry of a stalled stage. The gates of the lifecycle hold with recoveries too, a recoverable
  run is recovered, and every failed stage is recovered at most once.
\<close>

section \<open>A rewound record\<close>

lemma rewound_read:
  fixes r completed stamp revision
  defines "u \<equiv> rewound_fields r completed stamp revision"
  shows "dget u ''status'' = PStr ''running''" "dget u ''terminal'' = PBool False"
    "dget u ''progress_percent'' = percent_value (length completed) (length COMPREHENSIVE_STAGES)"
    "dget u ''revision'' = PInt (revision + 1)" "dget u ''human_review_required'' = PBool True"
    "dget u ''client_delivery_allowed'' = PBool False"
    "k \<notin> {''current_stage'', ''status'', ''terminal'', ''progress_percent'', ''updated_at'', ''revision'', ''human_review_required'',
       ''human_review_completed'', ''client_delivery_allowed''} \<Longrightarrow> dget u k = dget r k"
  unfolding u_def rewound_fields_def by simp_all

text \<open>A record that keeps what a stage result leaves alone and was rewound to the end of the first \<open>m\<close> stages.\<close>

definition rewound_to :: "nat \<Rightarrow> dict \<Rightarrow> dict \<Rightarrow> bool" where
  "rewound_to m r x \<longleftrightarrow> m \<le> length COMPREHENSIVE_STAGES \<and> dget x ''status'' = PStr ''running'' \<and> dget x ''terminal'' = PBool False \<and>
     dget x ''progress_percent'' = percent_value m (length COMPREHENSIVE_STAGES) \<and>
     dget x ''human_review_required'' = PBool True \<and> dget x ''client_delivery_allowed'' = PBool False \<and>
     dget x ''completed_stages'' = PList (map PStr (take m COMPREHENSIVE_STAGES)) \<and>
     (\<exists>results. dget x ''stage_results'' = PDict results) \<and> (\<exists>n. dget x ''revision'' = PInt n) \<and>
     (\<forall>k \<in> {''artifact_schema'', ''service_id'', ''identity'', ''human_evidence'', ''review_decision'', ''review_history''}.
        dget x k = dget r k)"

lemma rewound_run_inv:
  assumes inv: "run_inv sha op r" and unrev: "unreviewed r" and x: "rewound_to m r x" and m: "m < length COMPREHENSIVE_STAGES"
  shows "run_inv sha op (seal_record sha x)" "unreviewed (seal_record sha x)" "run_at m (seal_record sha x)"
    "record_status (seal_record sha x) = ''running''"
proof -
  let ?x = "seal_record sha x"
  note read = x [unfolded rewound_to_def] and sr = seal_record_read [of _ sha x]
  show status: "record_status ?x = ''running''" using read by (simp add: record_status_def sr py_lower_run_statuses)
  show unrev': "unreviewed ?x" using read unrev status by (simp add: unreviewed_def sr)
  have at: "at_stage m ?x" using read by (simp add: at_stage_def sr)
  then show run_at: "run_at m ?x" using read unrev' status m by (simp add: run_at_def sr)
  have three: "\<forall>k \<in> {''service_id'', ''identity'', ''human_evidence''}. dget r k = dget ?x k" using read by (simp add: sr)
  have "dget ?x ''human_review_required'' = PBool True" using read by (simp add: sr)
  note stable = stable_parts [OF three this]
  have schema: "dget ?x ''artifact_schema'' = dget r ''artifact_schema''" using read by (simp add: sr)
  have valid: "valid_record sha op r" and shape: "run_shape r" using inv by (auto simp: run_inv_def)
  have "seal_violations sha ?x = []"
    using read status by (simp add: seal_violations_def seal_record_sealed sr TERMINAL_STATUSES_def)
  moreover have "identity_violations ?x (str_or_empty (dget ?x ''artifact_schema'') \<noteq> LEGACY_VERSION) = []"
    "evidence_violations sha ?x (str_or_empty (dget ?x ''artifact_schema'') \<noteq> LEGACY_VERSION) = []"
    using stable valid unfolding schema by (simp_all add: valid_record_parts)
  ultimately have "valid_record sha op ?x"
    using unreviewed_parts [OF unrev'] at_stage_progress [OF at] by (simp add: valid_record_parts)
  moreover have "run_shape ?x" using shape read by (simp add: run_shape_def sr)
  ultimately show "run_inv sha op ?x" using read run_at by (intro run_invI) (simp_all add: sr)
qed

section \<open>The lifecycle with recoveries\<close>

inductive life_step :: "watch_env \<Rightarrow> (string \<Rightarrow> string) \<Rightarrow> (dict \<Rightarrow> bool) \<Rightarrow> dict \<Rightarrow> dict \<Rightarrow> bool" for w sha op where
  staged: "apply_comprehensive_stage_result sha op now r stage_id result = Inr r' \<Longrightarrow> life_step w sha op r r'"
| reviewed: "apply_comprehensive_review_decision sha op now r manifest = Inr r' \<Longrightarrow> life_step w sha op r r'"
| recovered: "rewind_blocked_run_for_final_artifact_recovery sha op r now = Inr r' \<Longrightarrow> life_step w sha op r r'"
| retried: "rewind_stalled_stage_for_retry w sha op r instant = Inr r' \<Longrightarrow> life_step w sha op r r'"

definition run_lives :: "watch_env \<Rightarrow> (string \<Rightarrow> string) \<Rightarrow> (dict \<Rightarrow> bool) \<Rightarrow> dict \<Rightarrow> bool" where
  "run_lives w sha op r \<longleftrightarrow> (\<exists>now req r0. create_comprehensive_run_record sha now req = Inr r0 \<and> (life_step w sha op)\<^sup>*\<^sup>* r0 r)"

text \<open>A blocked run stopped at the stage after its completed ones and was not reviewed; the recovery history is a list.\<close>

definition RUN_STATUSES :: "string list" where
  "RUN_STATUSES = [''ready'', ''running'', ''review_required'', ''blocked'', ''approved'', ''rejected'']"

definition blocked_at :: "nat \<Rightarrow> dict \<Rightarrow> bool" where
  "blocked_at m r \<longleftrightarrow> unreviewed r \<and> run_at m r \<and> m < length COMPREHENSIVE_STAGES \<and>
     dget r ''current_stage'' = PStr (COMPREHENSIVE_STAGES ! m)"

definition recovery_log :: "dict \<Rightarrow> py list" where
  "recovery_log r = (case dget r ''recovery_history'' of PList items \<Rightarrow> items | _ \<Rightarrow> [])"

definition life_inv :: "(string \<Rightarrow> string) \<Rightarrow> (dict \<Rightarrow> bool) \<Rightarrow> dict \<Rightarrow> bool" where
  "life_inv sha op r \<longleftrightarrow> run_inv sha op r \<and> (\<exists>s \<in> set RUN_STATUSES. dget r ''status'' = PStr s) \<and>
     (dget r ''status'' = PStr ''blocked'' \<longrightarrow> (\<exists>m. blocked_at m r)) \<and>
     dget r ''recovery_history'' \<in> {PNone, PList (recovery_log r)} \<and> list_all is_dict (recovery_log r)"

lemma life_invI:
  assumes "run_inv sha op r" and "dget r ''status'' = PStr s" and "s \<in> set RUN_STATUSES" and "s = ''blocked'' \<Longrightarrow> blocked_at m r"
    and "dget r ''recovery_history'' \<in> {PNone, PList (recovery_log r)}" and "list_all is_dict (recovery_log r)"
  shows "life_inv sha op r"
  using assms by (auto simp: life_inv_def)

lemma recovery_log_cong: "dget r' ''recovery_history'' = dget r ''recovery_history'' \<Longrightarrow> recovery_log r' = recovery_log r"
  by (simp add: recovery_log_def)

lemma life_inv_keep:
  assumes "run_inv sha op r'" and "dget r' ''status'' = PStr s" and "s \<in> set RUN_STATUSES" and "s = ''blocked'' \<Longrightarrow> blocked_at m r'"
    and "life_inv sha op r" and "dget r' ''recovery_history'' = dget r ''recovery_history''"
  shows "life_inv sha op r'"
proof -
  have "dget r' ''recovery_history'' \<in> {PNone, PList (recovery_log r')}" "list_all is_dict (recovery_log r')"
    using assms(5) recovery_log_cong [OF assms(6)] unfolding life_inv_def assms(6) by simp_all
  then show ?thesis using assms(1-4) by (intro life_invI)
qed

lemma decided_frame: "dget (decided_record sha u c d s h now n) ''recovery_history'' = dget u ''recovery_history''"
  unfolding decided_record_def Let_def by (simp add: seal_record_read decision_retained_def Let_def)

lemma blocked_not_success: "status_after_stage status n = ''blocked'' \<Longrightarrow> status \<notin> set SUCCESS_STAGE_STATUSES"
  by (simp add: status_after_stage_def split: if_split_asm)

lemma staged_life_inv:
  assumes inv: "life_inv sha op r" and app: "apply_comprehensive_stage_result sha op now r stage_id result = Inr r'"
  shows "life_inv sha op r' \<and> dget r' ''recovery_history'' = dget r ''recovery_history''"
  using app
proof (rule apply_stageE)
  fix n identity normalized results revision
  let ?status = "stage_result_status result" and ?u = "copy_record_for_update r"
  let ?done = "map PStr (take n COMPREHENSIVE_STAGES)" and ?res = "PDict (dset results stage_id (PDict normalized))"
  assume n: "n < length COMPREHENSIVE_STAGES" "stage_id = COMPREHENSIVE_STAGES ! n"
    and comp: "list_or_empty (dget r ''completed_stages'') = Inr ?done"
    and out: "r' = advance_record sha ?u stage_id ?status ?done ?res now revision"
  note read = advance_read [of sha ?u stage_id ?status ?done ?res now revision, folded out]
  have ri: "run_inv sha op r" using inv by (simp add: life_inv_def)
  then obtain k where k: "run_at k r" by (auto simp: run_inv_def)
  have "n = k" using at_stage_unique [OF run_atD(1) [OF k] comp] n(1) by simp
  then have "unreviewed r" using run_atD(2) [OF k] n(1) by blast
  then have fresh: "unreviewed r'" "valid_record sha op r'" using stage_result_keeps_valid [OF app] unreviewed_fresh by blast+
  have ri': "run_inv sha op r'" by (rule staged_run_inv [OF ri app])
  have log: "dget r' ''recovery_history'' = dget r ''recovery_history''"
    unfolding out using advance_frame [of "''recovery_history''" sha ?u stage_id ?status ?done ?res now revision]
    by (simp add: ADVANCED_FIELDS_def dget_def copy_record_frame)
  obtain s where s: "dget r' ''status'' = PStr s" "s \<in> {''review_required'', ''running'', ''blocked''}"
    "s = ''blocked'' \<Longrightarrow> ?status \<notin> set SUCCESS_STAGE_STATUSES"
    using read(1) status_after_stage_cases blocked_not_success by metis
  have "blocked_at n r'" if "s = ''blocked''"
  proof -
    obtain j where j: "run_at j r'" using ri' by (auto simp: run_inv_def)
    have "dget r' ''completed_stages'' = dget r ''completed_stages''" using read(3) s(3) [OF that] by (simp add: copy_record_read)
    then have "n = j" using at_stage_unique [OF run_atD(1) [OF j], of n] comp n(1) by simp
    then show ?thesis using j fresh(1) n read(10) by (simp add: blocked_at_def)
  qed
  then have "life_inv sha op r'"
    using s(1,2) by (intro life_inv_keep [OF ri' s(1) _ _ inv log]) (auto simp: RUN_STATUSES_def)
  with log show ?thesis by simp
qed

lemma created_life_inv:
  assumes sha: "\<forall>x. sha x \<noteq> []" and app: "create_comprehensive_run_record sha now req = Inr r"
  shows "life_inv sha op r"
  using app
proof (rule createE)
  fix identity evidence
  assume look: "\<And>k. k \<notin> set (''integrity_sha256'' # PROVIDER_FIELDS) \<Longrightarrow>
      dget r k = dget (new_record_fields identity evidence now) k"
  have status: "dget r ''status'' = PStr ''ready''" by (simp add: look new_record_read PROVIDER_FIELDS_def)
  have log: "dget r ''recovery_history'' = PNone" by (simp add: look PROVIDER_FIELDS_def new_record_fields_def)
  have "run_inv sha op r" using created_run_inv [OF sha app] by blast
  then show ?thesis using status log by (intro life_invI [of _ _ _ "''ready''"]) (simp_all add: RUN_STATUSES_def recovery_log_def)
qed

lemma decided_statuses:
  assumes "expected_review_status d = Some s"
  shows "s \<in> set RUN_STATUSES" "s \<noteq> ''blocked''"
proof -
  have "list_all (\<lambda>(d, s). s \<in> set RUN_STATUSES \<and> s \<noteq> ''blocked'')
      [(''approved'', ''approved''), (''rejected'', ''rejected''), (''request_more_evidence'', ''review_required'')]" by code_simp
  then have "case (d, s) of (d, s) \<Rightarrow> s \<in> set RUN_STATUSES \<and> s \<noteq> ''blocked''"
    using assms unfolding list_all_iff expected_review_status_def by (rule bspec [OF _ map_of_SomeD])
  then show "s \<in> set RUN_STATUSES" "s \<noteq> ''blocked''" by (simp_all only: prod.case simp_thms)
qed

lemma reviewed_life_inv:
  assumes inv: "life_inv sha op r" and app: "apply_comprehensive_review_decision sha op now r manifest = Inr r'"
  shows "life_inv sha op r' \<and> dget r' ''recovery_history'' = dget r ''recovery_history''"
  using app
proof (rule apply_reviewE)
  fix status items revision
  assume e: "expected_review_status (manifest_decision manifest) = Some status"
    and out: "r' = decided_record sha (copy_record_for_update r) manifest (manifest_decision manifest) status
       (filter is_dict items) now revision"
  have "run_inv sha op r" using inv unfolding life_inv_def by (rule conjunct1)
  then have ri: "run_inv sha op r'" using app by (rule reviewed_run_inv)
  have log: "dget r' ''recovery_history'' = dget r ''recovery_history''" unfolding out decided_frame by (simp add: copy_record_read)
  have status: "dget r' ''status'' = PStr status" unfolding out by (rule decided_read)
  have "life_inv sha op r'"
    by (rule life_inv_keep [OF ri status decided_statuses(1) [OF e] _ inv log]) (rule notE [OF decided_statuses(2) [OF e]])
  with log show ?thesis by simp
qed

section \<open>Recovery of a blocked run\<close>

lemma solid_text:
  assumes "\<forall>c \<in> set s. \<not> is_space c"
  shows "recovery_text (PStr s) = s"
proof (cases "s = []")
  case False
  have parts: "dropWhile is_space s = s" "takeWhile (\<lambda>c. \<not> is_space c) s = s" "dropWhile (\<lambda>c. \<not> is_space c) s = []"
    using assms by (auto simp: dropWhile_eq_self_iff takeWhile_eq_all_conv dest: hd_in_set)
  have "py_split [] = []" by (simp add: py_split.simps [of "[]"])
  then have "py_split s = [s]" using False by (subst py_split.simps) (simp only: Let_def parts if_False)
  moreover have "py_strip s = s" using assms by (rule strip_solid)
  ultimately show ?thesis by (simp add: recovery_text_def)
qed (simp add: recovery_text_def py_split.simps [of "[]"] py_strip_def)

lemma stage_ids_are_texts:
  assumes "s \<in> set COMPREHENSIVE_STAGES"
  shows "recovery_stage_id (PStr s) = s"
proof -
  have "list_all (list_all (\<lambda>c. \<not> is_space c)) COMPREHENSIVE_STAGES"
    by (simp add: COMPREHENSIVE_STAGES_def EXPRESS_STAGES_def COMPREHENSIVE_ONLY_STAGES_def TERMINAL_STAGES_def is_space_def)
  then have "recovery_text (PStr s) = s" using assms unfolding list_all_iff by (intro solid_text) (rule bspec)
  then show ?thesis using assms by (simp only: recovery_stage_id_def Let_def if_True)
qed

lemma blocked_text: "s \<in> set RUN_STATUSES \<Longrightarrow> py_casefold (recovery_text (PStr s)) = ''blocked'' \<longleftrightarrow> s = ''blocked''"
proof -
  have "list_all (\<lambda>s. (py_casefold (recovery_text (PStr s)) = ''blocked'') = (s = ''blocked'')) RUN_STATUSES" by code_simp
  then show "s \<in> set RUN_STATUSES \<Longrightarrow> py_casefold (recovery_text (PStr s)) = ''blocked'' \<longleftrightarrow> s = ''blocked''"
    unfolding list_all_iff by blast
qed

text \<open>The stage a run is rewound to is never after the stage that failed.\<close>

definition recovery_targets :: "string \<Rightarrow> string list" where
  "recovery_targets failed =
    (if failed \<in> {DECISION_REPORT_STAGE, FINAL_REPORT_STAGE} then [failed]
     else [SCANNER_REGISTER_RECOVERY_STAGE, EXECUTIVE_BRIEFING_RECOVERY_STAGE, FINAL_REPORT_STAGE])"

lemma recovery_target: "final_artifact_recovery_stage r \<in> set (recovery_targets (current_failed_stage r))"
  by (simp add: final_artifact_recovery_stage_def recovery_targets_def Let_def)

lemma targets_precede:
  assumes "RECOVERABLE_REASONS_BY_STAGE failed \<noteq> []" and "target \<in> set (recovery_targets failed)"
  shows "target \<in> set COMPREHENSIVE_STAGES \<and> length (takeWhile (\<lambda>s. s \<noteq> target) COMPREHENSIVE_STAGES)
    \<le> length (takeWhile (\<lambda>s. s \<noteq> failed) COMPREHENSIVE_STAGES)"
proof -
  have "list_all (\<lambda>failed. list_all (\<lambda>target. target \<in> set COMPREHENSIVE_STAGES \<and>
      length (takeWhile (\<lambda>s. s \<noteq> target) COMPREHENSIVE_STAGES) \<le> length (takeWhile (\<lambda>s. s \<noteq> failed) COMPREHENSIVE_STAGES))
      (recovery_targets failed)) [DECISION_REPORT_STAGE, FINAL_REPORT_STAGE, CROSS_FORMAT_STAGE]" by code_simp
  moreover have "failed \<in> set [DECISION_REPORT_STAGE, FINAL_REPORT_STAGE, CROSS_FORMAT_STAGE]"
    using assms(1) by (simp add: RECOVERABLE_REASONS_BY_STAGE_def split: if_split_asm)
  ultimately show ?thesis using assms(2) unfolding list_all_iff by blast
qed

lemma stage_position:
  assumes "m < length COMPREHENSIVE_STAGES"
  shows "length (takeWhile (\<lambda>s. s \<noteq> COMPREHENSIVE_STAGES ! m) COMPREHENSIVE_STAGES) = m"
proof -
  have "takeWhile (\<lambda>s. s \<noteq> COMPREHENSIVE_STAGES ! m) COMPREHENSIVE_STAGES = take m COMPREHENSIVE_STAGES"
    by (rule takeWhile_eq_take_P_nth) (use assms nth_eq_iff_index_eq [OF distinct_stages] in auto)
  then show ?thesis using assms by simp
qed

lemma takeWhile_as_take: "takeWhile P xs = take (length (takeWhile P xs)) xs"
  by (metis append_eq_conv_conj takeWhile_dropWhile_id)

lemma takeWhile_shorter: "x \<in> set xs \<Longrightarrow> \<not> P x \<Longrightarrow> length (takeWhile P xs) < length xs"
  by (induction xs) auto

lemma life_history:
  assumes "life_inv sha op r"
  shows "list_or_empty (dget r ''recovery_history'') = Inr (recovery_log r)" "filter is_dict (recovery_log r) = recovery_log r"
proof -
  have h: "dget r ''recovery_history'' \<in> {PNone, PList (recovery_log r)}" "list_all is_dict (recovery_log r)"
    using assms unfolding life_inv_def by blast+
  show "filter is_dict (recovery_log r) = recovery_log r" using h(2) by (simp add: list_all_iff)
  have "recovery_log r = []" if "dget r ''recovery_history'' = PNone" using that by (simp add: recovery_log_def)
  then show "list_or_empty (dget r ''recovery_history'') = Inr (recovery_log r)" using h(1) by fastforce
qed

lemma life_revision:
  assumes "life_inv sha op r"
  obtains n where "dget r ''revision'' = PInt n" "py_int (py_or (dget r ''revision'') (PInt 0)) = Inr n"
  using assms by (auto simp: life_inv_def run_inv_def run_shape_def)

lemma life_blocked:
  assumes "life_inv sha op r" and "dget r ''status'' = PStr ''blocked''"
  obtains m where "blocked_at m r"
  using assms unfolding life_inv_def by blast

lemma recoverable_blocked:
  assumes "life_inv sha op r" and "is_recoverable_final_artifact_failure r"
  shows "dget r ''status'' = PStr ''blocked''" "RECOVERABLE_REASONS_BY_STAGE (current_failed_stage r) \<noteq> []"
proof -
  obtain s where s: "s \<in> set RUN_STATUSES" "dget r ''status'' = PStr s" using assms(1) unfolding life_inv_def by blast
  have "py_casefold (recovery_text (dget r ''status'')) = ''blocked''"
    using assms(2) unfolding is_recoverable_final_artifact_failure_def by (rule conjunct1)
  then show "dget r ''status'' = PStr ''blocked''" using blocked_text [OF s(1)] s(2) by simp
  show "RECOVERABLE_REASONS_BY_STAGE (current_failed_stage r) \<noteq> []"
    using assms(2) unfolding is_recoverable_final_artifact_failure_def by (auto simp: list_ex_iff)
qed

lemma rewound_layers_read:
  fixes r results completed_list history completed stamp revision
  defines "x \<equiv> fold (\<lambda>k d. dpop d k) [''accepted_edition'', ''approved_delivery_package'', ''review_context'', ''review_decision'']
    (rewound_fields (dupdate r [(''stage_results'', results), (''completed_stages'', completed_list),
      (''recovery_history'', history)]) completed stamp revision)"
  shows "dget x ''status'' = PStr ''running''" "dget x ''terminal'' = PBool False"
    "dget x ''progress_percent'' = percent_value (length completed) (length COMPREHENSIVE_STAGES)"
    "dget x ''revision'' = PInt (revision + 1)" "dget x ''human_review_required'' = PBool True"
    "dget x ''client_delivery_allowed'' = PBool False" "dget x ''completed_stages'' = completed_list"
    "dget x ''stage_results'' = results" "dget x ''recovery_history'' = history" "dget x ''review_decision'' = PNone"
    "dget x ''artifact_schema'' = dget r ''artifact_schema''" "dget x ''service_id'' = dget r ''service_id''"
    "dget x ''identity'' = dget r ''identity''" "dget x ''human_evidence'' = dget r ''human_evidence''"
    "dget x ''review_history'' = dget r ''review_history''"
  unfolding x_def by (simp_all add: rewound_read)

lemma rewound_record_read:
  fixes r items revision stamp
  defines "x \<equiv> rewound_record r items revision stamp"
  shows "dget x ''status'' = PStr ''running''" "dget x ''terminal'' = PBool False"
    "dget x ''progress_percent'' = percent_value (length (retained_stages r)) (length COMPREHENSIVE_STAGES)"
    "dget x ''revision'' = PInt (revision + 1)" "dget x ''human_review_required'' = PBool True"
    "dget x ''client_delivery_allowed'' = PBool False"
    "dget x ''completed_stages'' = PList (map PStr (retained_stages r))"
    "dget x ''stage_results'' = PDict (map (\<lambda>s. (s, dget (as_dict (dget r ''stage_results'')) s))
       (filter (has_key (as_dict (dget r ''stage_results''))) (retained_stages r)))"
    "dget x ''recovery_history'' = PList (filter is_dict items @ [PDict (recovery_entry r (length (retained_stages r)) stamp)])"
    "dget x ''review_decision'' = PNone"
    "dget x ''artifact_schema'' = dget r ''artifact_schema''" "dget x ''service_id'' = dget r ''service_id''"
    "dget x ''identity'' = dget r ''identity''" "dget x ''human_evidence'' = dget r ''human_evidence''"
    "dget x ''review_history'' = dget r ''review_history''"
  unfolding x_def rewound_record_def Let_def rewound_layers_read length_map by (rule refl)+

lemma rewound_record_to:
  assumes "blocked_at m r" and "RECOVERABLE_REASONS_BY_STAGE (current_failed_stage r) \<noteq> []"
  shows "rewound_to (length (retained_stages r)) r (rewound_record r items revision stamp)"
    "length (retained_stages r) \<le> m" "length (retained_stages r) < length COMPREHENSIVE_STAGES"
    "retained_stages r = take (length (retained_stages r)) COMPREHENSIVE_STAGES"
proof -
  have m: "m < length COMPREHENSIVE_STAGES" "dget r ''current_stage'' = PStr (COMPREHENSIVE_STAGES ! m)"
    using assms(1) by (simp_all add: blocked_at_def)
  then have failed: "current_failed_stage r = COMPREHENSIVE_STAGES ! m"
    using stage_ids_are_texts by (simp add: current_failed_stage_def)
  note t = targets_precede [OF assms(2) recovery_target]
  show take: "retained_stages r = take (length (retained_stages r)) COMPREHENSIVE_STAGES"
    unfolding retained_stages_def by (rule takeWhile_as_take)
  show "length (retained_stages r) \<le> m"
    using t stage_position [OF m(1)] unfolding retained_stages_def failed by simp
  show lt: "length (retained_stages r) < length COMPREHENSIVE_STAGES"
    unfolding retained_stages_def using t by (intro takeWhile_shorter [of "final_artifact_recovery_stage r"]) simp_all
  have "dget r ''review_decision'' = PNone" using assms(1) by (simp add: blocked_at_def unreviewed_def)
  then show "rewound_to (length (retained_stages r)) r (rewound_record r items revision stamp)"
    unfolding rewound_to_def using take lt by (simp add: rewound_record_read)
qed

lemma rewound_life_inv:
  assumes inv: "life_inv sha op r" and at: "blocked_at m r" and x: "rewound_to n r x" "n < length COMPREHENSIVE_STAGES"
    and log: "dget x ''recovery_history'' = PList (recovery_log r @ [PDict e])"
  shows "life_inv sha op (seal_record sha x)" "recovery_log (seal_record sha x) = recovery_log r @ [PDict e]"
proof -
  let ?x = "seal_record sha x"
  have ri: "run_inv sha op r" using inv unfolding life_inv_def by (rule conjunct1)
  have unrev: "unreviewed r" using at unfolding blocked_at_def by (rule conjunct1)
  have h: "dget ?x ''recovery_history'' = PList (recovery_log r @ [PDict e])" using log by (simp add: seal_record_read)
  then show log': "recovery_log ?x = recovery_log r @ [PDict e]" by (simp add: recovery_log_def)
  have status: "dget ?x ''status'' = PStr ''running''" using x(1) by (simp add: rewound_to_def seal_record_read)
  have dicts: "list_all is_dict (recovery_log r)" using inv unfolding life_inv_def by blast
  show "life_inv sha op ?x"
    by (rule life_invI [OF rewound_run_inv(1) [OF ri unrev x] status])
      (use dicts in \<open>simp_all add: RUN_STATUSES_def h log'\<close>)
qed

lemma recovered_cases:
  assumes "life_inv sha op r" and "rewind_blocked_run_for_final_artifact_recovery sha op r now = Inr r'"
  obtains (same) "r' = r"
  | (rewound) n where "is_recoverable_final_artifact_failure r" "automatic_recovery_attempt_count r (current_failed_stage r) = 0"
      "dget r ''revision'' = PInt n" "r' = seal_record sha (rewound_record r (recovery_log r) n now)"
proof -
  obtain n where n: "dget r ''revision'' = PInt n" "py_int (py_or (dget r ''revision'') (PInt 0)) = Inr n"
    using assms(1) by (rule life_revision)
  show thesis
    using assms(2) n life_history(1) [OF assms(1)] same rewound [of n]
    unfolding rewind_blocked_run_for_final_artifact_recovery_def bind_res_eq_Inr
    by (auto simp: bind_res_eq_Inr Let_def MAX_RECOVERIES_PER_SOURCE_STAGE_def split: if_split_asm)
qed

lemma recovered_life_inv:
  assumes inv: "life_inv sha op r" and app: "rewind_blocked_run_for_final_artifact_recovery sha op r now = Inr r'"
  shows "life_inv sha op r' \<and> (\<exists>new. recovery_log r' = recovery_log r @ new)"
  using inv app
proof (cases rule: recovered_cases)
  case same
  then show ?thesis using inv by simp
next
  case (rewound n)
  note blocked = recoverable_blocked [OF inv rewound(1)]
  obtain m where m: "blocked_at m r" using inv blocked(1) by (rule life_blocked)
  note to = rewound_record_to [OF m blocked(2)]
  have "dget (rewound_record r (recovery_log r) n now) ''recovery_history'' =
      PList (recovery_log r @ [PDict (recovery_entry r (length (retained_stages r)) now)])"
    unfolding rewound_record_read life_history(2) [OF inv] ..
  from rewound_life_inv [OF inv m to(1) to(3) this] rewound(4) show ?thesis by blast
qed

lemma stalled_text: "s \<in> set RUN_STATUSES \<Longrightarrow> py_casefold s = ''blocked'' \<longleftrightarrow> s = ''blocked''"
proof -
  have "list_all (\<lambda>s. (py_casefold s = ''blocked'') = (s = ''blocked'')) RUN_STATUSES" by code_simp
  then show "s \<in> set RUN_STATUSES \<Longrightarrow> py_casefold s = ''blocked'' \<longleftrightarrow> s = ''blocked''" unfolding list_all_iff by (rule bspec)
qed

lemma retried_cases:
  assumes "life_inv sha op r" and "rewind_stalled_stage_for_retry w sha op r instant = Inr r'"
  obtains (same) "r' = r"
  | (rewound) n stage completed watchdog where "is_recoverable_stage_stall r = Inr True" "stage = fst (stall_result r)"
      "list_or_empty (dget r ''completed_stages'') = Inr completed" "dget r ''revision'' = PInt n"
      "r' = seal_record sha (rewound_fields (dset (dset r ''recovery_history''
          (PList (recovery_log r @ [PDict (stall_recovery_entry w stage (snd (stall_result r)) n watchdog instant)])))
        ''stage_results'' (PDict (dpop (as_dict (dget r ''stage_results'')) stage))) completed (we_iso w instant) n)"
proof -
  obtain n where n: "dget r ''revision'' = PInt n" "py_int (py_or (dget r ''revision'') (PInt 0)) = Inr n"
    using assms(1) by (rule life_revision)
  show thesis
    using assms(2) n life_history [OF assms(1)] same rewound [of "fst (stall_result r)" _ n]
    unfolding rewind_stalled_stage_for_retry_def bind_res_eq_Inr
    by (auto simp: bind_res_eq_Inr Let_def split: if_split_asm)
qed

lemma stall_blocked_status:
  assumes "life_inv sha op r" and "is_recoverable_stage_stall r = Inr True"
  shows "dget r ''status'' = PStr ''blocked''"
proof -
  obtain s where s: "s \<in> set RUN_STATUSES" "dget r ''status'' = PStr s" using assms(1) unfolding life_inv_def by blast
  have "py_casefold (str_or_empty (dget r ''status'')) = ''blocked''"
    using assms(2) unfolding is_recoverable_stage_stall_def Let_def by (auto simp: bind_res_eq_Inr split: if_split_asm)
  then show ?thesis using stalled_text [OF s(1)] s(2) by simp
qed

lemma retried_life_inv:
  assumes inv: "life_inv sha op r" and app: "rewind_stalled_stage_for_retry w sha op r instant = Inr r'"
  shows "life_inv sha op r' \<and> (\<exists>new. recovery_log r' = recovery_log r @ new)"
  using inv app
proof (cases rule: retried_cases)
  case same
  then show ?thesis using inv by simp
next
  case (rewound n stage completed watchdog)
  let ?e = "stall_recovery_entry w stage (snd (stall_result r)) n watchdog instant"
  let ?y = "dset (dset r ''recovery_history'' (PList (recovery_log r @ [PDict ?e])))
        ''stage_results'' (PDict (dpop (as_dict (dget r ''stage_results'')) stage))"
  let ?x = "rewound_fields ?y completed (we_iso w instant) n"
  obtain m where m: "blocked_at m r" using inv stall_blocked_status [OF inv rewound(1)] by (rule life_blocked)
  then have at: "at_stage m r" "m < length COMPREHENSIVE_STAGES" "dget r ''completed_stages'' = PList (map PStr (take m COMPREHENSIVE_STAGES))"
    by (simp_all add: blocked_at_def run_at_def)
  have completed: "completed = map PStr (take m COMPREHENSIVE_STAGES)" using rewound(3) at(3) by simp
  have "rewound_to m r ?x" unfolding rewound_to_def completed using at(2,3) by (simp add: rewound_read)
  moreover have "dget ?x ''recovery_history'' = PList (recovery_log r @ [PDict ?e])" by (simp add: rewound_read)
  ultimately show ?thesis using rewound_life_inv [OF inv m _ at(2)] unfolding rewound(5) by blast
qed

lemma kept_log:
  assumes "P \<and> dget r' ''recovery_history'' = dget r ''recovery_history''"
  shows "P \<and> (\<exists>new. recovery_log r' = recovery_log r @ new)"
proof -
  have "recovery_log r' = recovery_log r @ []" using recovery_log_cong [OF conjunct2 [OF assms]] by simp
  then show ?thesis using conjunct1 [OF assms] by blast
qed

lemma life_step_inv:
  assumes "life_step w sha op r r'" and inv: "life_inv sha op r"
  shows "life_inv sha op r' \<and> (\<exists>new. recovery_log r' = recovery_log r @ new)"
  using assms(1)
proof cases
  case (staged now stage_id result)
  from staged_life_inv [OF inv this] show ?thesis by (rule kept_log)
next
  case (reviewed now manifest)
  from reviewed_life_inv [OF inv this] show ?thesis by (rule kept_log)
next
  case (recovered now)
  with inv show ?thesis by (rule recovered_life_inv)
next
  case (retried instant)
  with inv show ?thesis by (rule retried_life_inv)
qed

lemma life_steps_inv:
  assumes "(life_step w sha op)\<^sup>*\<^sup>* r r'" and "life_inv sha op r"
  shows "life_inv sha op r' \<and> (\<exists>new. recovery_log r' = recovery_log r @ new)"
  using assms(1)
proof (induction rule: rtranclp_induct)
  case base
  then show ?case using assms(2) by simp
next
  case (step r' r'')
  then show ?case using life_step_inv by (metis append.assoc)
qed

lemma lives_inv: "\<forall>x. sha x \<noteq> [] \<Longrightarrow> run_lives w sha op r \<Longrightarrow> life_inv sha op r"
  using created_life_inv life_steps_inv unfolding run_lives_def by blast

text \<open>
  C38. Recovery keeps every gate: whatever sequence of stage results, review decisions, recoveries of blocked runs and retries of
  stalled stages follows the creation of a run, its record is valid, delivery stays blocked, the completed stages are
  a prefix of the contract, only a run with every stage completed was ever reviewed, and a blocked run stopped at the stage after
  its completed ones without a review.
\<close>

theorem recovered_run_is_gated:
  assumes "\<forall>x. sha x \<noteq> []" and "run_lives w sha op r"
  shows "record_violations sha op r = Inr [] \<and> dget r ''client_delivery_allowed'' = PBool False \<and>
    (\<exists>m \<le> length COMPREHENSIVE_STAGES. dget r ''completed_stages'' = PList (map PStr (take m COMPREHENSIVE_STAGES)) \<and>
      (unreviewed r \<or> m = length COMPREHENSIVE_STAGES) \<and>
      (dget r ''status'' = PStr ''blocked'' \<longrightarrow> unreviewed r \<and> m < length COMPREHENSIVE_STAGES \<and>
         dget r ''current_stage'' = PStr (COMPREHENSIVE_STAGES ! m)))"
proof -
  have inv: "life_inv sha op r" using assms by (rule lives_inv)
  then obtain k where k: "run_at k r" "run_inv sha op r" by (auto simp: life_inv_def run_inv_def)
  have "\<exists>m. run_at m r \<and> (dget r ''status'' = PStr ''blocked'' \<longrightarrow> blocked_at m r)"
  proof (cases "dget r ''status'' = PStr ''blocked''")
    case True
    with inv obtain m where "blocked_at m r" by (rule life_blocked)
    then show ?thesis by (auto simp: blocked_at_def)
  qed (use k in blast)
  then obtain m where m: "run_at m r" "dget r ''status'' = PStr ''blocked'' \<longrightarrow> blocked_at m r" by blast
  have "m \<le> length COMPREHENSIVE_STAGES" using m(1) by (simp add: run_at_def at_stage_def)
  moreover have "dget r ''completed_stages'' = PList (map PStr (take m COMPREHENSIVE_STAGES))"
      "unreviewed r \<or> m = length COMPREHENSIVE_STAGES" using m(1) run_atD by blast+
  moreover have "dget r ''status'' = PStr ''blocked'' \<longrightarrow> unreviewed r \<and> m < length COMPREHENSIVE_STAGES \<and>
         dget r ''current_stage'' = PStr (COMPREHENSIVE_STAGES ! m)"
    using m(2) by (simp add: blocked_at_def)
  moreover have "record_violations sha op r = Inr []" "dget r ''client_delivery_allowed'' = PBool False"
    using k(2) unfolding run_inv_def by blast+
  ultimately show ?thesis by blast
qed

section \<open>Recovery happens, and happens once\<close>

lemma map_of_retained: "map_of (map (\<lambda>s. (s, f s)) (filter P xs)) s = (if s \<in> set xs \<and> P s then Some (f s) else None)"
  by (induction xs) auto

lemma dget_retained: "s \<in> set xs \<Longrightarrow> dget (map (\<lambda>s. (s, dget d s)) (filter (has_key d) xs)) s = dget d s"
  by (cases "map_of d s") (simp_all add: dget_def map_of_retained)

lemma entry_counts:
  assumes "current_failed_stage r \<in> set COMPREHENSIVE_STAGES"
  shows "counts_as_attempt (current_failed_stage r) (PDict (recovery_entry r k now))"
proof -
  have read: "dget (recovery_entry r k now) ''source_failed_stage'' = PStr (current_failed_stage r)"
      "dget (recovery_entry r k now) ''recovery_budget_scope'' = PStr RECOVERY_BUDGET_SCOPE"
      "dget (recovery_entry r k now) ''recovery_generation'' = PStr RECOVERY_VERSION"
    unfolding recovery_entry_def Let_def by simp_all
  have "recovery_text (PStr RECOVERY_BUDGET_SCOPE) = RECOVERY_BUDGET_SCOPE" "recovery_text (PStr RECOVERY_VERSION) = RECOVERY_VERSION"
    by (rule solid_text, simp add: RECOVERY_BUDGET_SCOPE_def RECOVERY_VERSION_def is_space_def)+
  then show ?thesis
    unfolding counts_as_attempt_def as_dict_PDict read using stage_ids_are_texts [OF assms] by simp
qed

lemma attempt_count_log: "automatic_recovery_attempt_count r stage = length (filter (counts_as_attempt stage) (recovery_log r))"
  by (simp add: automatic_recovery_attempt_count_def recovery_log_def split: py.split)

lemma recovery_goes_through:
  assumes inv: "life_inv sha op r" and rec: "is_recoverable_final_artifact_failure r"
    and budget: "automatic_recovery_attempt_count r (current_failed_stage r) = 0"
  obtains m k n where "blocked_at m r" "k \<le> m" "retained_stages r = take k COMPREHENSIVE_STAGES" "dget r ''revision'' = PInt n"
    "rewind_blocked_run_for_final_artifact_recovery sha op r now = Inr (seal_record sha (rewound_record r (recovery_log r) n now))"
    "counts_as_attempt (current_failed_stage r) (PDict (recovery_entry r (length (retained_stages r)) now))"
proof -
  note blocked = recoverable_blocked [OF inv rec]
  obtain m where m: "blocked_at m r" using inv blocked(1) by (rule life_blocked)
  note to = rewound_record_to [OF m blocked(2)]
  obtain n where n: "dget r ''revision'' = PInt n" "py_int (py_or (dget r ''revision'') (PInt 0)) = Inr n"
    using inv by (rule life_revision)
  have ri: "run_inv sha op r" using inv unfolding life_inv_def by (rule conjunct1)
  have unrev: "unreviewed r" using m unfolding blocked_at_def by (rule conjunct1)
  have "valid_record sha op r" using ri unfolding run_inv_def by (rule conjunct1)
  moreover have "valid_record sha op (seal_record sha (rewound_record r (recovery_log r) n now))"
    using rewound_run_inv(1) [OF ri unrev to(1) to(3)] unfolding run_inv_def by (rule conjunct1)
  ultimately have "rewind_blocked_run_for_final_artifact_recovery sha op r now = Inr (seal_record sha (rewound_record r (recovery_log r) n now))"
    unfolding rewind_blocked_run_for_final_artifact_recovery_def require_valid_def
    using rec budget n(2) life_history(1) [OF inv] by (simp add: MAX_RECOVERIES_PER_SOURCE_STAGE_def Let_def)
  moreover have "current_failed_stage r \<in> set COMPREHENSIVE_STAGES"
    using m stage_ids_are_texts by (simp add: blocked_at_def current_failed_stage_def)
  ultimately show thesis using that [OF m to(2) to(4) n(1)] entry_counts by blast
qed

text \<open>
  C39. A recoverable run is recovered: when a run of the lifecycle blocked in report generation for a recognized reason and this
  failed stage was not recovered before, the recovery succeeds. The run is running again at the next revision with its identity and
  evidence unchanged, its completed stages are an initial part of those it had before, the results of these stages are
  kept, and the attempt is appended to the recovery history.
\<close>

theorem blocked_run_is_recovered:
  assumes sha: "\<forall>x. sha x \<noteq> []" and lives: "run_lives w sha op r" and rec: "is_recoverable_final_artifact_failure r"
    and budget: "automatic_recovery_attempt_count r (current_failed_stage r) = 0"
  shows "\<exists>r' m k n e. rewind_blocked_run_for_final_artifact_recovery sha op r now = Inr r' \<and> run_lives w sha op r' \<and>
    dget r' ''status'' = PStr ''running'' \<and> dget r ''revision'' = PInt n \<and> dget r' ''revision'' = PInt (n + 1) \<and>
    dget r' ''identity'' = dget r ''identity'' \<and> dget r' ''human_evidence'' = dget r ''human_evidence'' \<and>
    dget r ''completed_stages'' = PList (map PStr (take m COMPREHENSIVE_STAGES)) \<and>
    dget r' ''completed_stages'' = PList (map PStr (take k COMPREHENSIVE_STAGES)) \<and> k \<le> m \<and>
    (\<forall>s \<in> set (take k COMPREHENSIVE_STAGES).
       dget (as_dict (dget r' ''stage_results'')) s = dget (as_dict (dget r ''stage_results'')) s) \<and>
    recovery_log r' = recovery_log r @ [PDict e]"
proof -
  have inv: "life_inv sha op r" using sha lives by (rule lives_inv)
  obtain m k n where o: "blocked_at m r" "k \<le> m" "retained_stages r = take k COMPREHENSIVE_STAGES" "dget r ''revision'' = PInt n"
    "rewind_blocked_run_for_final_artifact_recovery sha op r now = Inr (seal_record sha (rewound_record r (recovery_log r) n now))"
    by (rule recovery_goes_through [OF inv rec budget])
  let ?x = "rewound_record r (recovery_log r) n now"
  let ?results = "as_dict (dget r ''stage_results'')"
  have "life_step w sha op r (seal_record sha ?x)" using o(5) by (rule life_step.recovered)
  then have "run_lives w sha op (seal_record sha ?x)" using lives unfolding run_lives_def by (meson rtranclp.rtrancl_into_rtrancl)
  moreover have "dget (as_dict (dget (seal_record sha ?x) ''stage_results'')) s = dget ?results s"
    if "s \<in> set (take k COMPREHENSIVE_STAGES)" for s
  proof -
    have "dget (map (\<lambda>s. (s, dget ?results s)) (filter (has_key ?results) (take k COMPREHENSIVE_STAGES))) s = dget ?results s"
      using that by (rule dget_retained)
    then show ?thesis by (simp add: seal_record_read rewound_record_read o(3))
  qed
  moreover have "dget r ''completed_stages'' = PList (map PStr (take m COMPREHENSIVE_STAGES))"
    using o(1) by (simp add: blocked_at_def run_at_def)
  moreover have "recovery_log (seal_record sha ?x) = recovery_log r @ [PDict (recovery_entry r (length (retained_stages r)) now)]"
    by (simp add: recovery_log_def [of "seal_record sha ?x"] seal_record_read rewound_record_read life_history(2) [OF inv])
  ultimately show ?thesis
    using o by (intro exI [of _ "seal_record sha ?x"] exI [of _ m] exI [of _ k] exI [of _ n]
        exI [of _ "recovery_entry r (length (retained_stages r)) now"]) (simp add: seal_record_read rewound_record_read)
qed

text \<open>
  C40. Automatic recovery cannot loop: after a failed stage of a run was recovered, the same stage is never recovered again in
  this recovery generation, whatever the run does in between; a repeated failure stays terminal and visible.
\<close>

theorem recovery_happens_once:
  assumes sha: "\<forall>x. sha x \<noteq> []" and lives: "run_lives w sha op r"
    and recovered: "rewind_blocked_run_for_final_artifact_recovery sha op r now = Inr r'" "r' \<noteq> r"
    and later: "(life_step w sha op)\<^sup>*\<^sup>* r' r''" "current_failed_stage r'' = current_failed_stage r"
  shows "rewind_blocked_run_for_final_artifact_recovery sha op r'' later_now = Inr r''"
proof -
  have inv: "life_inv sha op r" using sha lives by (rule lives_inv)
  from inv recovered(1) obtain n where rec: "is_recoverable_final_artifact_failure r"
      "automatic_recovery_attempt_count r (current_failed_stage r) = 0"
    using recovered(2) by (cases rule: recovered_cases) auto
  obtain n where o: "r' = seal_record sha (rewound_record r (recovery_log r) n now)"
    "counts_as_attempt (current_failed_stage r) (PDict (recovery_entry r (length (retained_stages r)) now))"
    using recovery_goes_through [OF inv rec, of now] recovered(1) by (metis sum.inject(2))
  have inv': "life_inv sha op r'" using life_step_inv [OF life_step.recovered [OF recovered(1)] inv] by blast
  obtain new where "life_inv sha op r''" and log: "recovery_log r'' = recovery_log r' @ new" using life_steps_inv [OF later(1) inv'] by blast
  have "PDict (recovery_entry r (length (retained_stages r)) now) \<in> set (recovery_log r')"
    unfolding o(1) by (simp add: recovery_log_def [of "seal_record sha _"] seal_record_read rewound_record_read)
  then have "filter (counts_as_attempt (current_failed_stage r)) (recovery_log r'') \<noteq> []"
    using o(2) log by (auto simp: filter_empty_conv)
  then have "MAX_RECOVERIES_PER_SOURCE_STAGE \<le> automatic_recovery_attempt_count r'' (current_failed_stage r'')"
    unfolding attempt_count_log later(2) MAX_RECOVERIES_PER_SOURCE_STAGE_def by (simp add: Suc_le_eq)
  moreover have "valid_record sha op r''" using \<open>life_inv sha op r''\<close> unfolding life_inv_def run_inv_def by blast
  ultimately show ?thesis by (simp add: rewind_blocked_run_for_final_artifact_recovery_def require_valid_def)
qed

section \<open>A sample recovery\<close>

definition failed_report :: dict where
  "failed_report = [(''status'', PStr ''failed''), (''reason'', PStr ''detached_stage_execution_failed:worker'')]"

lemma failed_report_blocks:
  "stage_result_status failed_report \<notin> set SUCCESS_STAGE_STATUSES" "stage_result_status failed_report \<notin> set ACTIVE_STAGE_STATUSES"
  "\<forall>f \<in> set RUN_BINDING_FIELDS. dget failed_report f = PNone"
proof -
  have "list_all (\<lambda>f. dget failed_report f = PNone) RUN_BINDING_FIELDS" by code_simp
  then show "\<forall>f \<in> set RUN_BINDING_FIELDS. dget failed_report f = PNone" unfolding list_all_iff .
  show "stage_result_status failed_report \<notin> set SUCCESS_STAGE_STATUSES" "stage_result_status failed_report \<notin> set ACTIVE_STAGE_STATUSES"
    by code_simp+
qed

lemma decision_stage: "COMPREHENSIVE_STAGES ! 6 = DECISION_REPORT_STAGE" "6 < length COMPREHENSIVE_STAGES"
  by code_simp+

lemma staged_lives:
  "create_comprehensive_run_record sha now req = Inr r0 \<Longrightarrow> (life_step w sha op)\<^sup>*\<^sup>* r0 r \<Longrightarrow>
   apply_stages sha op now' results ss r = Inr r' \<Longrightarrow> (life_step w sha op)\<^sup>*\<^sup>* r0 r'"
proof (induction ss arbitrary: r)
  case (Cons s ss)
  then obtain r1 where "apply_comprehensive_stage_result sha op now' r s (results s) = Inr r1" "apply_stages sha op now' results ss r1 = Inr r'"
    by (auto simp: bind_res_eq_Inr)
  then show ?case using Cons life_step.staged by (meson rtranclp.rtrancl_into_rtrancl)
qed simp

lemma recovery_log_free: "''recovery_history'' \<notin> set ADVANCED_FIELDS"
  by (simp add: ADVANCED_FIELDS_def)

text \<open>A run before its decision report, whose report generation fails.\<close>

lemma report_fails:
  assumes inv: "run_inv sha op r1" and at: "run_at 6 r1"
  obtains r where "life_step w sha op r1 r" "current_failed_stage r = COMPREHENSIVE_STAGES ! 6" "is_recoverable_final_artifact_failure r"
    "dget r ''recovery_history'' = dget r1 ''recovery_history''"
proof -
  let ?s = "COMPREHENSIVE_STAGES ! 6"
  obtain normalized results k where a: "apply_comprehensive_stage_result sha op ''n'' r1 ?s failed_report =
       Inr (advance_record sha (copy_record_for_update r1) ?s (stage_result_status failed_report)
         (map PStr (take 6 COMPREHENSIVE_STAGES)) (PDict (dset results ?s (PDict normalized))) ''n'' k)"
    "\<forall>k. k \<notin> set STAGE_BOUND_FIELDS \<longrightarrow> map_of normalized k = map_of failed_report k"
    by (rule stage_applied [OF inv at decision_stage(2) unbound_names_no_run [OF failed_report_blocks(3)], of "''n''"])
  let ?r = "advance_record sha (copy_record_for_update r1) ?s (stage_result_status failed_report)
         (map PStr (take 6 COMPREHENSIVE_STAGES)) (PDict (dset results ?s (PDict normalized))) ''n'' k"
  have status: "dget ?r ''status'' = PStr ''blocked''" "dget ?r ''terminal'' = PBool True"
    using failed_report_blocks(1,2) by (simp_all add: advance_read status_after_stage_def TERMINAL_STATUSES_def)
  have failed: "current_failed_stage ?r = ?s"
    unfolding current_failed_stage_def advance_read(10) using stage_ids_are_texts [OF nth_mem [OF decision_stage(2)]] .
  have "failed_stage_result ?r = normalized" unfolding failed_stage_result_def failed advance_read(9) by simp
  moreover have "dget normalized ''reason'' = PStr ''detached_stage_execution_failed:worker''"
    using a(2) by (simp add: dget_def STAGE_BOUND_FIELDS_def RUN_BINDING_FIELDS_def failed_report_def)
  moreover have "before_colon (recovery_text (PStr ''detached_stage_execution_failed:worker'')) = ''detached_stage_execution_failed''"
    by code_simp
  ultimately have "''detached_stage_execution_failed'' \<in> set (recovery_reason_candidates ?r)"
    unfolding recovery_reason_candidates_def Let_def by simp
  moreover have "''detached_stage_execution_failed'' \<in> set (RECOVERABLE_REASONS_BY_STAGE ?s)"
    unfolding decision_stage by (simp add: RECOVERABLE_REASONS_BY_STAGE_def)
  moreover have "py_casefold (recovery_text (PStr ''blocked'')) = ''blocked''" by code_simp
  ultimately have "is_recoverable_final_artifact_failure ?r"
    unfolding is_recoverable_final_artifact_failure_def status failed list_ex_iff by blast
  moreover have "dget ?r ''recovery_history'' = dget r1 ''recovery_history''"
    unfolding dget_def advance_frame [OF recovery_log_free] by (simp add: copy_record_frame)
  ultimately show thesis using that [OF life_step.staged [OF a(1)] failed] by blast
qed

lemma sample_blocked:
  obtains r where "run_lives w (\<lambda>_. ''d'') op r" "is_recoverable_final_artifact_failure r"
    "automatic_recovery_attempt_count r (current_failed_stage r) = 0" "current_failed_stage r = COMPREHENSIVE_STAGES ! 6"
proof -
  let ?sha = "\<lambda>_ :: string. ''d''"
  have sha: "\<forall>x. ?sha x \<noteq> []" by simp
  obtain p where c: "create_comprehensive_run_record ?sha ''n'' ReviewLifecycle.sample_request = Inr (seal_record ?sha (new_record_fields
     (map (\<lambda>(field, value). (field, PStr value)) (request_identity ReviewLifecycle.sample_request)) p ''n''))" (is "_ = Inr ?r0")
    using sample_created by blast
  obtain r1 where r1: "apply_stages ?sha op ''n'' sample_results (take 6 COMPREHENSIVE_STAGES) ?r0 = Inr r1" "run_inv ?sha op r1" "run_at 6 r1"
    using run_to_stage [OF sha c sample_results_ok, of 6 op "''n''"] decision_stage(2) by auto
  obtain r where r: "life_step w ?sha op r1 r" "current_failed_stage r = COMPREHENSIVE_STAGES ! 6" "is_recoverable_final_artifact_failure r"
    "dget r ''recovery_history'' = dget r1 ''recovery_history''" by (rule report_fails [OF r1(2,3)])
  have lives: "run_lives w ?sha op r"
    unfolding run_lives_def using c rtranclp.rtrancl_into_rtrancl [OF staged_lives [OF c rtranclp.rtrancl_refl r1(1)] r(1)] by blast
  have "dget r ''recovery_history'' = dget ?r0 ''recovery_history''"
    unfolding r(4) unfolding dget_def apply_stages_frame [OF r1(1) recovery_log_free] ..
  also have "\<dots> = PNone" by (simp add: seal_record_read new_record_fields_def)
  finally have "automatic_recovery_attempt_count r (current_failed_stage r) = 0" by (simp add: automatic_recovery_attempt_count_def)
  then show thesis using that lives r by blast
qed

theorem recovered_run_is_gated_witness:
  "\<exists>r. run_lives sample_watch (\<lambda>_. ''d'') (\<lambda>_. False) r \<and> record_violations (\<lambda>_. ''d'') (\<lambda>_. False) r = Inr [] \<and>
     dget r ''client_delivery_allowed'' = PBool False"
proof -
  have "\<forall>x :: string. ''d'' \<noteq> []" by simp
  moreover obtain r where "run_lives sample_watch (\<lambda>_. ''d'') (\<lambda>_. False) r" by (rule sample_blocked)
  ultimately show ?thesis using recovered_run_is_gated [of "\<lambda>_. ''d''" sample_watch "\<lambda>_. False" r] by blast
qed

theorem blocked_run_is_recovered_witness:
  "\<exists>r r'. rewind_blocked_run_for_final_artifact_recovery (\<lambda>_. ''d'') (\<lambda>_. False) r ''n'' = Inr r' \<and>
     dget r ''status'' = PStr ''blocked'' \<and> dget r' ''status'' = PStr ''running''"
proof -
  obtain r where r: "run_lives sample_watch (\<lambda>_. ''d'') (\<lambda>_. False) r" "is_recoverable_final_artifact_failure r"
    "automatic_recovery_attempt_count r (current_failed_stage r) = 0" by (rule sample_blocked)
  have "dget r ''status'' = PStr ''blocked''" using recoverable_blocked(1) [OF lives_inv [OF _ r(1)] r(2)] by simp
  with blocked_run_is_recovered [OF _ r, of "''n''"] show ?thesis by auto
qed

theorem recovery_happens_once_witness:
  "\<exists>r r' r''. rewind_blocked_run_for_final_artifact_recovery (\<lambda>_. ''d'') (\<lambda>_. False) r ''n'' = Inr r' \<and> r' \<noteq> r \<and>
     is_recoverable_final_artifact_failure r'' \<and> life_step sample_watch (\<lambda>_. ''d'') (\<lambda>_. False) r' r'' \<and>
     rewind_blocked_run_for_final_artifact_recovery (\<lambda>_. ''d'') (\<lambda>_. False) r'' ''n'' = Inr r''"
proof -
  let ?sha = "\<lambda>_ :: string. ''d''" and ?op = "\<lambda>_ :: dict. False"
  obtain r where r: "run_lives sample_watch ?sha ?op r" "is_recoverable_final_artifact_failure r"
    "automatic_recovery_attempt_count r (current_failed_stage r) = 0" and failed: "current_failed_stage r = COMPREHENSIVE_STAGES ! 6"
    by (rule sample_blocked)
  have inv: "life_inv ?sha ?op r" using lives_inv [OF _ r(1)] by simp
  obtain m n where n: "blocked_at m r"
      "rewind_blocked_run_for_final_artifact_recovery ?sha ?op r ''n'' = Inr (seal_record ?sha (rewound_record r (recovery_log r) n ''n''))"
      (is "_ = Inr ?r'")
    by (rule recovery_goes_through [OF inv r(2,3), of "''n''"])
  have blocked: "dget r ''status'' = PStr ''blocked''" "RECOVERABLE_REASONS_BY_STAGE (current_failed_stage r) \<noteq> []"
    by (rule recoverable_blocked [OF inv r(2)])+
  then have "dget ?r' ''status'' \<noteq> dget r ''status''" by (simp add: seal_record_read rewound_record_read)
  then have new: "?r' \<noteq> r" by auto
  note to = rewound_record_to [OF n(1) blocked(2)]
  have "final_artifact_recovery_stage r = COMPREHENSIVE_STAGES ! 6"
    using recovery_target [of r] unfolding failed decision_stage(1) by (simp add: recovery_targets_def)
  then have six: "length (retained_stages r) = 6"
    unfolding retained_stages_def using stage_position [OF decision_stage(2)] by simp
  have "run_inv ?sha ?op r" "unreviewed r" using inv n(1) unfolding life_inv_def blocked_at_def by blast+
  note again = rewound_run_inv [OF this to(1) to(3), unfolded six]
  obtain r'' where r'': "life_step sample_watch ?sha ?op ?r' r''" "current_failed_stage r'' = COMPREHENSIVE_STAGES ! 6"
      "is_recoverable_final_artifact_failure r''"
    by (rule report_fails [OF again(1) again(3)])
  have "rewind_blocked_run_for_final_artifact_recovery ?sha ?op r'' ''n'' = Inr r''"
    using recovery_happens_once [OF _ r(1) n(2) new, of r'' "''n''"] r_into_rtranclp [of "life_step sample_watch ?sha ?op", OF r''(1)] r''(2) failed by simp
  then show ?thesis using n(2) new r''(1,3) by blast
qed

end
