(* ===== verification/ExactArtifacts.thy ===== *)
theory ExactArtifacts
  imports StorageCodec RecoveryLife
begin

text \<open>
  The binding of a report package to its exact artifact bytes
  (\<open>nico/comprehensive_exact_artifact_hash_binding_v1.py\<close>): every retained artifact is hashed and measured again and
  compared with the detached manifest, the digests of the package, the manifest inside the
  canonical report and the identity of the draft, and all of them claim a draft that waits for a human.
\<close>

section \<open>Tables\<close>

text \<open>\<open>_REQUIRED_DETACHED_ARTIFACT_TYPES\<close>, and where the package keeps content and digest of each type.\<close>

definition ARTIFACT_SLOTS :: "(string \<times> string \<times> string) list" where
  "ARTIFACT_SLOTS = [
     (''findings_csv'', ''findings_csv'', ''findings_csv_sha256''),
     (''evidence_csv'', ''evidence_csv'', ''evidence_csv_sha256''),
     (''candidate_register_json'', ''candidate_register_json'', ''candidate_register_sha256''),
     (''remediation_backlog_json'', ''remediation_backlog_json'', ''remediation_backlog_sha256''),
     (''markdown_report'', ''markdown'', ''markdown_sha256''),
     (''html_report'', ''html'', ''html_sha256''),
     (''comprehensive_pdf'', ''pdf_base64'', ''pdf_sha256''),
     (''canonical_json'', ''canonical_json'', ''canonical_json_sha256'')]"

definition REQUIRED_DETACHED_ARTIFACT_TYPES :: "string list" where
  "REQUIRED_DETACHED_ARTIFACT_TYPES = map fst ARTIFACT_SLOTS"

definition EXPECTED_CANONICAL_MANIFEST_TYPES :: "string list" where
  "EXPECTED_CANONICAL_MANIFEST_TYPES = REQUIRED_DETACHED_ARTIFACT_TYPES @ [''evidence_manifest_json'']"

definition AUTOMATED_DRAFT_LIFECYCLE :: dict where
  "AUTOMATED_DRAFT_LIFECYCLE = [
     (''report_finality'', PStr ''automated_draft''), (''automated_status'', PStr ''complete''),
     (''client_review_package_status'', PStr ''ready''), (''human_review_status'', PStr ''pending''),
     (''client_delivery_status'', PStr ''blocked''), (''review_package_ready'', PBool True),
     (''human_approval_required'', PBool True), (''client_delivery_allowed'', PBool False)]"

definition PENDING_HUMAN_APPROVAL :: dict where
  "PENDING_HUMAN_APPROVAL = [
     (''artifact_schema'', PStr ''nico.comprehensive-exact-artifact-approval.v1''), (''reviewer_identity'', PNone),
     (''reviewer_role'', PNone), (''reviewer_authorized'', PBool False), (''review_timestamp'', PNone),
     (''decision'', PStr ''pending''), (''residual_risk_acceptance'', PNone), (''approved_pdf_sha256'', PNone),
     (''approved_json_sha256'', PNone), (''evidence_manifest_sha256'', PNone), (''approval_record_id'', PNone),
     (''reviewer_notes'', PNone), (''exact_artifact_approval_required'', PBool True),
     (''client_delivery_allowed'', PBool False)]"

definition CANONICAL_DRAFT_AUTHORITY_FIELDS :: dict where
  "CANONICAL_DRAFT_AUTHORITY_FIELDS = [
     (''human_review_required'', PBool True), (''human_review_completed'', PBool False),
     (''client_delivery_allowed'', PBool False), (''report_finality'', PStr ''automated_draft''),
     (''approval_status'', PStr ''pending_human_approval''),
     (''delivery_status'', PStr ''blocked_pending_human_approval''), (''review_package_ready'', PBool True)]"

definition CANONICAL_ASSESSMENT_DRAFT_AUTHORITY_FIELDS :: dict where
  "CANONICAL_ASSESSMENT_DRAFT_AUTHORITY_FIELDS = [
     (''human_review_required'', PBool True), (''client_delivery_allowed'', PBool False),
     (''report_finality'', PStr ''automated_draft''), (''human_review_status'', PStr ''pending_human_approval''),
     (''client_delivery_status'', PStr ''blocked''), (''automated_status'', PStr ''complete'')]"

definition CANONICAL_ASSESSMENT_OPTIONAL_AUTHORITY_FIELDS :: dict where
  "CANONICAL_ASSESSMENT_OPTIONAL_AUTHORITY_FIELDS = [
     (''human_review_completed'', PBool False), (''approval_status'', PStr ''pending_human_approval''),
     (''delivery_status'', PStr ''blocked_pending_human_approval''), (''review_package_ready'', PBool True)]"

section \<open>Reading the package\<close>

definition limited_text :: "nat \<Rightarrow> py \<Rightarrow> string" where
  "limited_text limit v =
    (let normalized = recovery_text v in
     if length normalized \<le> limit then normalized
     else rev (dropWhile is_space (rev (take (limit - 3) normalized))) @ ''...'')"

text \<open>\<open>item.get(key) or []\<close> keeps the mappings of a list.\<close>

definition mapping_items :: "dict \<Rightarrow> string \<Rightarrow> dict list res" where
  "mapping_items source key =
    bind_res (list_or_empty (dget source key)) (\<lambda>items. Inr (map as_dict (filter is_dict items)))"

definition artifact_type_of :: "dict \<Rightarrow> string" where
  "artifact_type_of item = limited_text 100 (dget item ''artifact_type'')"

text \<open>The retained bytes of an artifact; \<open>None\<close> when the PDF cannot be decoded or the type has no slot.\<close>

definition retained_bytes :: "dict \<Rightarrow> string \<Rightarrow> string option" where
  "retained_bytes result artifact_type =
    (case map_of ARTIFACT_SLOTS artifact_type of
       None \<Rightarrow> None
     | Some (field, digest_field) \<Rightarrow>
         if artifact_type = ''comprehensive_pdf'' then b64decode (str_or_empty (dget result field))
         else Some (utf8 (str_or_empty (dget result field))))"

definition is_plain_int :: "py \<Rightarrow> bool" where
  "is_plain_int v = (case v of PInt _ \<Rightarrow> True | _ \<Rightarrow> False)"

section \<open>The checks\<close>

text \<open>A sequence of checks raises at the first that fails.\<close>

fun require_all :: "(bool \<times> string) list \<Rightarrow> unit res" where
  "require_all [] = Inr ()"
| "require_all ((ok, code) # checks) = (if ok then require_all checks else Inl (ValueError code))"

definition fields_are :: "dict \<Rightarrow> dict \<Rightarrow> string \<Rightarrow> (bool \<times> string) list" where
  "fields_are source expected owner =
    map (\<lambda>(field, v). (py_eq (dget source field) v, owner @ '' authority field '' @ field @ '' is invalid'')) expected"

definition artifact_set_is :: "string list \<Rightarrow> string list \<Rightarrow> bool" where
  "artifact_set_is types expected \<longleftrightarrow> length types = length expected \<and> distinct types \<and> set types = set expected"

definition entry_of :: "dict list \<Rightarrow> string \<Rightarrow> dict" where
  "entry_of items artifact_type = (case find (\<lambda>item. artifact_type_of item = artifact_type) items of Some item \<Rightarrow> item | None \<Rightarrow> [])"

definition entry_checks :: "(string \<Rightarrow> string) \<Rightarrow> dict \<Rightarrow> dict \<Rightarrow> (bool \<times> string) list" where
  "entry_checks sha result item =
    (let artifact_type = artifact_type_of item;
         content = retained_bytes result artifact_type;
         claimed = py_lower (limited_text 100 (dget item ''sha256''))
     in [(content \<noteq> None, ''Comprehensive PDF could not be decoded for hash verification''),
         (claimed \<noteq> [] \<and> sha (the content) = claimed, ''artifact '' @ artifact_type @ '' SHA-256 mismatch: '' @ sha (the content) @ '' != '' @
            (if claimed = [] then ''missing'' else claimed)),
         (is_plain_int (dget item ''size_bytes''), ''artifact '' @ artifact_type @ '' omitted an integer byte size''),
         (dget item ''size_bytes'' = PInt (int (length (the content))), ''artifact '' @ artifact_type @ '' byte-size mismatch: '' @
            nat_str (length (the content)) @ '' != '' @ py_str (dget item ''size_bytes''))])"

definition digest_checks :: "(string \<Rightarrow> string) \<Rightarrow> dict \<Rightarrow> (bool \<times> string) list" where
  "digest_checks sha result = map (\<lambda>(artifact_type, field, digest_field).
     (py_lower (limited_text 100 (dget result digest_field)) = sha (the (retained_bytes result artifact_type)),
      ''package '' @ digest_field @ '' does not match retained artifact bytes'')) ARTIFACT_SLOTS"

definition manifest_text_of :: "dict \<Rightarrow> string" where
  "manifest_text_of result = str_or_empty (dget result ''evidence_manifest_json'')"

definition manifest_checks :: "(string \<Rightarrow> string) \<Rightarrow> dict \<Rightarrow> dict \<Rightarrow> (bool \<times> string) list" where
  "manifest_checks sha result manifest =
    (let manifest_text = manifest_text_of result in
     [(manifest_text \<noteq> [] \<and> sha (utf8 manifest_text) = py_lower (limited_text 100 (dget result ''evidence_manifest_sha256'')),
       ''detached evidence manifest SHA-256 does not match retained bytes''),
      (json_loads manifest_text \<noteq> None, ''detached evidence manifest JSON is invalid''),
      (py_eq (the (json_loads manifest_text)) (PDict manifest),
       ''detached evidence manifest bytes do not match retained manifest object'')])"

definition authority_checks :: "dict \<Rightarrow> dict \<Rightarrow> dict \<Rightarrow> (bool \<times> string) list" where
  "authority_checks result manifest canonical =
    (let identity = dget result ''draft_artifact_identity'';
         manifest_id = limited_text 200 (dget manifest ''manifest_id'');
         assessment = dget canonical ''assessment'' in
     [(is_dict identity, ''Exact draft artifact identity is missing''),
      (manifest_id \<noteq> [] \<and> limited_text 200 (dget (as_dict identity) ''manifest_id'') = manifest_id,
       ''draft artifact identity manifest ID does not match detached manifest''),
      (is_dict (dget manifest ''identity'') \<and> is_dict (dget canonical ''identity''),
       ''exact artifact identity binding is missing''),
      (is_dict (dget canonical ''artifact_manifest''), ''canonical artifact manifest is missing'')] @
     fields_are canonical CANONICAL_DRAFT_AUTHORITY_FIELDS ''canonical report'' @
     [(is_dict assessment, ''canonical assessment is missing'')] @
     fields_are (as_dict assessment) CANONICAL_ASSESSMENT_DRAFT_AUTHORITY_FIELDS ''canonical assessment'' @
     fields_are (as_dict assessment)
       (filter (\<lambda>(field, v). has_key (as_dict assessment) field) CANONICAL_ASSESSMENT_OPTIONAL_AUTHORITY_FIELDS)
       ''canonical assessment'' @
     concat (map (\<lambda>(owner, source).
       [(py_eq (dget source ''lifecycle'') (PDict AUTOMATED_DRAFT_LIFECYCLE), owner @ '' lifecycle authority claims are invalid''),
        (py_eq (dget source ''approval'') (PDict PENDING_HUMAN_APPROVAL), owner @ '' approval authority claims are invalid'')])
       [(''detached manifest'', manifest), (''canonical report'', canonical)]) @
     [(py_eq (dget manifest ''lifecycle'') (dget canonical ''lifecycle'') \<and>
         py_eq (dget manifest ''approval'') (dget canonical ''approval''),
       ''detached and canonical authority claims do not match'')])"

text \<open>The identity that every manifest, entry and draft identity repeats.\<close>

definition shared_identity :: "dict \<Rightarrow> (string \<times> string) list" where
  "shared_identity canonical =
    (let identity = as_dict (dget canonical ''identity'') in
     map (\<lambda>field. (field, limited_text 1000 (dget identity field)))
       [''repository'', ''commit_sha'', ''run_id'', ''evidence_ledger_id'', ''customer_id'', ''project_id''] @
     [(''report_language'', limited_text 1000 (py_or (dget identity ''report_language'') (dget canonical ''report_language''))),
      (''generation_timestamp'', limited_text 1000 (py_or (py_or (py_or (dget identity ''generated_at'')
         (dget identity ''generation_timestamp'')) (dget canonical ''generated_at'')) (dget canonical ''generation_timestamp'')))])"

definition shared_value :: "dict \<Rightarrow> string \<Rightarrow> string" where
  "shared_value canonical field = the (map_of (shared_identity canonical) field)"

definition when_present :: "dict \<Rightarrow> string \<Rightarrow> string \<Rightarrow> bool" where
  "when_present item field expected \<longleftrightarrow> (has_key item field \<longrightarrow> limited_text 1000 (dget item field) = expected)"

definition count_is :: "py \<Rightarrow> nat \<Rightarrow> bool" where
  "count_is v n \<longleftrightarrow> v = PInt (int n)"

definition canonical_manifest_checks :: "dict \<Rightarrow> dict \<Rightarrow> dict \<Rightarrow> dict list \<Rightarrow> dict list \<Rightarrow> (bool \<times> string) list" where
  "canonical_manifest_checks result manifest canonical items canonical_items =
    (let canonical_manifest = as_dict (dget canonical ''artifact_manifest'');
         identity = as_dict (dget result ''draft_artifact_identity'');
         manifest_identity = as_dict (dget manifest ''identity'') in
     [(artifact_set_is (map artifact_type_of canonical_items) EXPECTED_CANONICAL_MANIFEST_TYPES,
       ''canonical artifact manifest artifact set is incomplete or invalid''),
      (count_is (dget canonical_manifest ''artifact_count'') (length canonical_items),
       ''canonical artifact manifest artifact count is invalid''),
      (dget manifest ''artifact_count'' = PNone \<or> count_is (dget manifest ''artifact_count'') (length items),
       ''detached artifact manifest artifact count is invalid''),
      (limited_text 200 (dget canonical_manifest ''manifest_id'') = limited_text 200 (dget manifest ''manifest_id''),
       ''detached and canonical artifact manifest identity mismatch'')] @
     concat (map (\<lambda>(field, expected).
       [(expected \<noteq> [] \<and> limited_text 1000 (dget manifest_identity field) = expected,
         ''detached evidence manifest identity '' @ field @ '' mismatch''),
        (when_present identity field expected, ''draft artifact identity '' @ field @ '' mismatch'')])
       (shared_identity canonical)) @
     map (\<lambda>artifact_type.
       (py_eq (PDict (entry_of items artifact_type)) (PDict (entry_of canonical_items artifact_type)),
        ''detached artifact '' @ artifact_type @ '' does not match canonical manifest''))
       (filter (\<lambda>t. t \<noteq> ''canonical_json'') REQUIRED_DETACHED_ARTIFACT_TYPES))"

text \<open>An entry repeats the identity: some fields always, the others when it has them.\<close>

definition entry_identity_checks :: "dict \<Rightarrow> string \<Rightarrow> string list \<Rightarrow> string list \<Rightarrow> dict \<Rightarrow> string \<Rightarrow> (bool \<times> string) list" where
  "entry_identity_checks canonical owner required optional item artifact_type =
    (let code = (\<lambda>field. owner @ artifact_type @ '' identity '' @ field @ '' mismatch'') in
     map (\<lambda>field. (shared_value canonical field \<noteq> [] \<and> limited_text 1000 (dget item field) = shared_value canonical field, code field)) required @
     map (\<lambda>field. (when_present item field (shared_value canonical field), code field)) optional @
     [(when_present item ''generated_at'' (shared_value canonical ''generation_timestamp''), code ''generated_at'')])"

definition identity_checks :: "dict \<Rightarrow> dict \<Rightarrow> dict \<Rightarrow> dict list \<Rightarrow> dict list \<Rightarrow> (bool \<times> string) list" where
  "identity_checks result manifest canonical items canonical_items =
    (let identity = as_dict (dget result ''draft_artifact_identity'');
         manifest_identity = as_dict (dget manifest ''identity'') in
     concat (map (\<lambda>artifact_type. entry_identity_checks canonical ''canonical artifact '' [''run_id'', ''commit_sha'']
         [''repository'', ''evidence_ledger_id'', ''customer_id'', ''project_id''] (entry_of canonical_items artifact_type) artifact_type)
       [''canonical_json'', ''evidence_manifest_json'']) @
     concat (map (\<lambda>field.
       [(shared_value canonical field \<noteq> [] \<and> limited_text 1000 (dget manifest_identity field) = shared_value canonical field,
         ''detached evidence manifest identity '' @ field @ '' mismatch''),
        (limited_text 1000 (dget identity field) = shared_value canonical field,
         ''draft artifact identity '' @ field @ '' mismatch'')]) [''repository'', ''commit_sha'', ''run_id'']) @
     [(shared_value canonical ''evidence_ledger_id'' \<noteq> [] \<and>
         limited_text 1000 (dget manifest_identity ''evidence_ledger_id'') = shared_value canonical ''evidence_ledger_id'',
       ''detached evidence manifest identity evidence_ledger_id mismatch''),
      (when_present identity ''evidence_ledger_id'' (shared_value canonical ''evidence_ledger_id''),
       ''draft artifact identity evidence_ledger_id mismatch'')] @
     concat (map (\<lambda>item. entry_identity_checks canonical ''detached artifact ''
         [''repository'', ''commit_sha'', ''run_id'', ''evidence_ledger_id''] [''customer_id'', ''project_id''] item (artifact_type_of item))
       items) @
     [(py_eq (dget (as_dict (dget canonical ''artifact_manifest'')) ''identity'') (dget manifest ''identity''),
       ''detached and canonical artifact manifest identity mismatch'')])"

definition final_digest_checks :: "(string \<Rightarrow> string) \<Rightarrow> dict \<Rightarrow> (bool \<times> string) list" where
  "final_digest_checks sha result =
    (let identity = as_dict (dget result ''draft_artifact_identity'') in
     concat (map (\<lambda>(field, content).
       [(py_lower (limited_text 100 (dget identity field)) = sha content,
         ''draft artifact identity '' @ field @ '' does not match retained bytes''),
        (py_lower (limited_text 100 (dget result field)) = sha content,
         ''package '' @ field @ '' does not match retained bytes'')])
       [(''pdf_sha256'', the (retained_bytes result ''comprehensive_pdf'')),
        (''canonical_json_sha256'', the (retained_bytes result ''canonical_json'')),
        (''evidence_manifest_sha256'', utf8 (manifest_text_of result))]))"

definition validate_exact_artifact_hashes :: "(string \<Rightarrow> string) \<Rightarrow> dict \<Rightarrow> unit res" where
  "validate_exact_artifact_hashes sha result =
    bind_res (require_legacy_single_pdf [PDict result]) (\<lambda>_.
    case dget result ''artifact_manifest'' of
      PDict manifest \<Rightarrow>
        bind_res (mapping_items manifest ''artifacts'') (\<lambda>items.
        bind_res (require_all
          [(items \<noteq> [], ''Detached artifact manifest contains no artifacts''),
           (artifact_set_is (map artifact_type_of items) REQUIRED_DETACHED_ARTIFACT_TYPES,
            ''Detached artifact manifest artifact set is incomplete or invalid'')]) (\<lambda>_.
        bind_res (require_all (concat (map (entry_checks sha result) items))) (\<lambda>_.
        let canonical = as_dict (dget result ''json'') in
        bind_res (require_all (digest_checks sha result @ manifest_checks sha result manifest @
            authority_checks result manifest canonical)) (\<lambda>_.
        bind_res (mapping_items (as_dict (dget canonical ''artifact_manifest'')) ''artifacts'') (\<lambda>canonical_items.
          require_all (canonical_manifest_checks result manifest canonical items canonical_items @
            identity_checks result manifest canonical items canonical_items @ final_digest_checks sha result))))))
    | _ \<Rightarrow> Inl (ValueError ''Detached artifact manifest is missing''))"

section \<open>What a validated package guarantees\<close>

lemma require_all_Inr: "require_all checks = Inr u \<longleftrightarrow> (\<forall>check \<in> set checks. fst check)"
  by (induction checks rule: require_all.induct) auto

lemma require_all_append: "require_all (cs @ ds) = bind_res (require_all cs) (\<lambda>_. require_all ds)"
  by (induction cs rule: require_all.induct) auto

lemma entry_of_found:
  assumes "artifact_set_is (map artifact_type_of items) types" and "t \<in> set types"
  shows "entry_of items t \<in> set items \<and> artifact_type_of (entry_of items t) = t"
proof -
  have "t \<in> artifact_type_of ` set items" using assms by (simp add: artifact_set_is_def)
  then have "\<exists>item \<in> set items. artifact_type_of item = t" by blast
  then obtain item where found: "find (\<lambda>item. artifact_type_of item = t) items = Some item"
    by (cases "find (\<lambda>item. artifact_type_of item = t) items") (auto simp: find_None_iff)
  then have "item \<in> set items \<and> artifact_type_of item = t" by (auto simp: find_Some_iff)
  then show ?thesis by (simp add: entry_of_def found)
qed

lemma exact_artifacts_parts:
  assumes "validate_exact_artifact_hashes sha r = Inr ()"
  obtains manifest items canonical canonical_items where "dget r ''artifact_manifest'' = PDict manifest"
    "require_legacy_single_pdf [PDict r] = Inr ()"
    "mapping_items manifest ''artifacts'' = Inr items" "canonical = as_dict (dget r ''json'')"
    "artifact_set_is (map artifact_type_of items) REQUIRED_DETACHED_ARTIFACT_TYPES"
    "\<forall>check \<in> set (concat (map (entry_checks sha r) items)). fst check"
    "\<forall>check \<in> set (digest_checks sha r @ manifest_checks sha r manifest @ authority_checks r manifest canonical). fst check"
    "\<forall>check \<in> set (canonical_manifest_checks r manifest canonical items canonical_items @
       identity_checks r manifest canonical items canonical_items @ final_digest_checks sha r). fst check"
proof -
  obtain manifest where m: "dget r ''artifact_manifest'' = PDict manifest"
    using assms by (cases "dget r ''artifact_manifest''") (auto simp: validate_exact_artifact_hashes_def bind_res_eq_Inr)
  obtain items canonical_items and u :: unit where f: "require_legacy_single_pdf [PDict r] = Inr u"
    "mapping_items manifest ''artifacts'' = Inr items"
    "\<forall>check \<in> set [(items \<noteq> [], ''Detached artifact manifest contains no artifacts''),
           (artifact_set_is (map artifact_type_of items) REQUIRED_DETACHED_ARTIFACT_TYPES,
            ''Detached artifact manifest artifact set is incomplete or invalid'')]. fst check"
    "\<forall>check \<in> set (concat (map (entry_checks sha r) items)). fst check"
    "\<forall>check \<in> set (digest_checks sha r @ manifest_checks sha r manifest @ authority_checks r manifest (as_dict (dget r ''json''))). fst check"
    "\<forall>check \<in> set (canonical_manifest_checks r manifest (as_dict (dget r ''json'')) items canonical_items @
       identity_checks r manifest (as_dict (dget r ''json'')) items canonical_items @ final_digest_checks sha r). fst check"
    using assms unfolding validate_exact_artifact_hashes_def m py.case Let_def bind_res_eq_Inr require_all_Inr
    by (elim exE conjE) (rule that)
  from f(3) have "artifact_set_is (map artifact_type_of items) REQUIRED_DETACHED_ARTIFACT_TYPES"
    by (simp only: list.set ball_simps fst_conv)
  moreover have "require_legacy_single_pdf [PDict r] = Inr ()" using f(1) by (cases u) (simp only:)
  ultimately show thesis by (intro that [OF m _ f(2) refl _ f(4-6)])
qed

lemma retained_entry:
  assumes "\<forall>check \<in> set (concat (map (entry_checks sha r) items)). fst check"
    and "artifact_set_is (map artifact_type_of items) types" and "t \<in> set types"
  shows "\<exists>b. retained_bytes r t = Some b \<and> sha b = py_lower (limited_text 100 (dget (entry_of items t) ''sha256'')) \<and>
    dget (entry_of items t) ''size_bytes'' = PInt (int (length b))"
proof -
  note e = entry_of_found [OF assms(2,3)]
  then have "\<forall>check \<in> set (entry_checks sha r (entry_of items t)). fst check" using assms(1) by auto
  then show ?thesis using e by (auto simp: entry_checks_def Let_def)
qed

text \<open>
  C36. The detached manifest pins the artifacts: two packages with the same manifest that both pass the validation retain, for every
  required artifact, contents of the same length and digest, so the same bytes or a collision; each digest field of a
  validated package is the digest of those bytes, and the canonical report claims a draft that no human approved and that
  may not be delivered.
\<close>

theorem exact_artifacts_are_pinned:
  assumes "validate_exact_artifact_hashes sha r = Inr ()" and "validate_exact_artifact_hashes sha s = Inr ()"
    and "dget r ''artifact_manifest'' = dget s ''artifact_manifest''"
  shows "(\<forall>(t, field, digest_field) \<in> set ARTIFACT_SLOTS. \<exists>b c. retained_bytes r t = Some b \<and> retained_bytes s t = Some c \<and>
      length b = length c \<and> sha b = sha c \<and> py_lower (limited_text 100 (dget r digest_field)) = sha b) \<and>
    py_eq (dget (as_dict (dget r ''json'')) ''human_review_completed'') (PBool False) \<and>
    py_eq (dget (as_dict (dget r ''json'')) ''client_delivery_allowed'') (PBool False) \<and>
    py_eq (dget (as_dict (dget r ''json'')) ''approval'') (PDict PENDING_HUMAN_APPROVAL)"
proof -
  obtain manifest items canonical canonical_items where r: "dget r ''artifact_manifest'' = PDict manifest"
    "mapping_items manifest ''artifacts'' = Inr items" "canonical = as_dict (dget r ''json'')"
    "artifact_set_is (map artifact_type_of items) REQUIRED_DETACHED_ARTIFACT_TYPES"
    "\<forall>check \<in> set (concat (map (entry_checks sha r) items)). fst check"
    "\<forall>check \<in> set (digest_checks sha r @ manifest_checks sha r manifest @ authority_checks r manifest canonical). fst check"
    using assms(1) by (rule exact_artifacts_parts)
  obtain items' where s: "mapping_items manifest ''artifacts'' = Inr items'"
    "\<forall>check \<in> set (concat (map (entry_checks sha s) items')). fst check"
    using assms(2) by (rule exact_artifacts_parts) (use assms(3) r(1) in auto)
  have items: "items' = items" using r(2) s(1) by simp
  have digests: "\<forall>(t, field, digest_field) \<in> set ARTIFACT_SLOTS.
      py_lower (limited_text 100 (dget r digest_field)) = sha (the (retained_bytes r t))"
    using r(6) by (simp add: ball_Un digest_checks_def split_def)
  have slot: "\<exists>b c. retained_bytes r t = Some b \<and> retained_bytes s t = Some c \<and> length b = length c \<and> sha b = sha c \<and>
      py_lower (limited_text 100 (dget r digest_field)) = sha b" if t: "(t, field, digest_field) \<in> set ARTIFACT_SLOTS" for t field digest_field
  proof -
    have req: "t \<in> set REQUIRED_DETACHED_ARTIFACT_TYPES" using t by (force simp: REQUIRED_DETACHED_ARTIFACT_TYPES_def)
    have "py_lower (limited_text 100 (dget r digest_field)) = sha (the (retained_bytes r t))"
      using digests bspec [OF digests t] by simp
    then show ?thesis
      using retained_entry [OF r(5,4) req] retained_entry [OF s(2) [unfolded items] r(4) req] by auto
  qed
  have draft: "\<forall>(field, v) \<in> set CANONICAL_DRAFT_AUTHORITY_FIELDS. py_eq (dget canonical field) v"
    using r(6) by (simp add: ball_Un authority_checks_def fields_are_def split_def Let_def)
  have "py_eq (dget canonical ''approval'') (PDict PENDING_HUMAN_APPROVAL)"
    using r(6) by (simp add: ball_Un authority_checks_def Let_def)
  then show ?thesis
    using slot draft by (auto simp: r(3) CANONICAL_DRAFT_AUTHORITY_FIELDS_def)
qed

end
