(* ===== verification/ExactArtifactSamples.thy ===== *)
theory ExactArtifactSamples
  imports ExactArtifacts
begin

text \<open>
  A report package that passes the validation of \<open>ExactArtifacts\<close>, put together so that the checks can be discharged one
  group after the other: the text of its manifest is the canonical text of the manifest object.
\<close>

lemma py_eq_canon: "wf_py v \<Longrightarrow> py_eq (canon v) v"
proof (induction v rule: wf_py.induct)
  case (1 xs)
  then show ?case
    by (auto simp: py_eq.simps [of "PList (map canon xs)"] list_all_iff in_set_zip)
next
  case (2 d)
  have len: "length (sort_items d) = length d" by (simp add: sort_items_def)
  have mem: "\<exists>y. map_of d k = Some y \<and> py_eq x y" if kx: "(k, x) \<in> set (map (\<lambda>p. (fst p, canon (snd p))) (sort_items d))" for k x
  proof -
    obtain v where kv: "(k, v) \<in> set d" "x = canon v" using kx by (auto simp: sort_items_def)
    then have "map_of d k = Some v" using 2 by simp
    moreover have "py_eq (canon v) v" using 2 kv by (auto simp: list_all_iff)
    ultimately show ?thesis using kv by simp
  qed
  show ?case
    unfolding canon_dict py_eq.simps [of "PDict (map (\<lambda>p. (fst p, canon (snd p))) (sort_items d))"] py.case list_all_iff
    using mem len by fastforce
qed (simp_all add: py_eq.simps num_of_def)

section \<open>A package that is bound\<close>

definition sample_bound_identity :: dict where
  "sample_bound_identity = map (\<lambda>(k, v). (k, PStr v))
    [(''repository'', ''o''), (''commit_sha'', ''c''), (''run_id'', ''r''), (''evidence_ledger_id'', ''l''), (''customer_id'', ''u''),
     (''project_id'', ''p''), (''report_language'', ''e''), (''generation_timestamp'', ''n'')]"

definition sample_entry :: "string \<Rightarrow> dict" where
  "sample_entry t = [(''artifact_type'', PStr t), (''sha256'', PStr ''d''), (''size_bytes'', PInt (if t = ''comprehensive_pdf'' then 3 else 1)),
     (''repository'', PStr ''o''), (''commit_sha'', PStr ''c''), (''run_id'', PStr ''r''), (''evidence_ledger_id'', PStr ''l'')]"

definition sample_manifest :: "string list \<Rightarrow> dict" where
  "sample_manifest types = [(''manifest_id'', PStr ''m''), (''artifact_count'', PInt (int (length types))),
     (''identity'', PDict sample_bound_identity), (''lifecycle'', PDict AUTOMATED_DRAFT_LIFECYCLE),
     (''approval'', PDict PENDING_HUMAN_APPROVAL), (''artifacts'', PList (map (\<lambda>t. PDict (sample_entry t)) types))]"

definition sample_canonical :: "dict \<Rightarrow> dict" where
  "sample_canonical manifest = [(''identity'', PDict sample_bound_identity)] @ CANONICAL_DRAFT_AUTHORITY_FIELDS @
     [(''assessment'', PDict CANONICAL_ASSESSMENT_DRAFT_AUTHORITY_FIELDS), (''lifecycle'', PDict AUTOMATED_DRAFT_LIFECYCLE),
      (''approval'', PDict PENDING_HUMAN_APPROVAL), (''artifact_manifest'', PDict manifest)]"

definition sample_draft :: dict where
  "sample_draft = map (\<lambda>(k, v). (k, PStr v))
    [(''manifest_id'', ''m''), (''repository'', ''o''), (''commit_sha'', ''c''), (''run_id'', ''r''), (''pdf_sha256'', ''d''),
     (''canonical_json_sha256'', ''d''), (''evidence_manifest_sha256'', ''d'')]"

definition sample_bound_package :: "string \<Rightarrow> dict \<Rightarrow> dict \<Rightarrow> dict" where
  "sample_bound_package manifest_text manifest canonical =
     map (\<lambda>(t, field, digest_field). (field, PStr (if field = ''pdf_base64'' then ''QUJD'' else ''x''))) ARTIFACT_SLOTS @
     map (\<lambda>(t, field, digest_field). (digest_field, PStr ''d'')) ARTIFACT_SLOTS @
     [(''evidence_manifest_json'', PStr manifest_text), (''evidence_manifest_sha256'', PStr ''d''),
      (''artifact_manifest'', PDict manifest), (''json'', PDict canonical), (''draft_artifact_identity'', PDict sample_draft)]"

lemma limited_solid: "list_all (\<lambda>c. \<not> is_space c) s \<Longrightarrow> length s \<le> limit \<Longrightarrow> limited_text limit (PStr s) = s"
  by (simp add: limited_text_def solid_text list_all_iff)

lemma short_text [simp]: "\<not> is_space c \<Longrightarrow> 0 < limit \<Longrightarrow> limited_text limit (PStr [c]) = [c]"
  by (simp add: limited_solid)

lemma no_text [simp]: "limited_text limit PNone = []"
  using limited_solid [of "[]" limit] by (simp add: limited_text_def recovery_text_def str_or_empty_def py_or_def)

lemma letters [simp]: "\<not> is_space (CHR ''c'')" "\<not> is_space (CHR ''d'')" "\<not> is_space (CHR ''e'')" "\<not> is_space (CHR ''l'')"
  "\<not> is_space (CHR ''m'')" "\<not> is_space (CHR ''n'')" "\<not> is_space (CHR ''o'')" "\<not> is_space (CHR ''p'')" "\<not> is_space (CHR ''r'')"
  "\<not> is_space (CHR ''u'')" "\<not> is_space (CHR ''x'')" "py_lower ''d'' = ''d''"
  by code_simp+

lemma required_types: "t \<in> set REQUIRED_DETACHED_ARTIFACT_TYPES \<Longrightarrow> t \<in> set EXPECTED_CANONICAL_MANIFEST_TYPES"
  "distinct REQUIRED_DETACHED_ARTIFACT_TYPES" "distinct EXPECTED_CANONICAL_MANIFEST_TYPES"
  "length REQUIRED_DETACHED_ARTIFACT_TYPES = 8" "length EXPECTED_CANONICAL_MANIFEST_TYPES = 9"
proof -
  show "distinct EXPECTED_CANONICAL_MANIFEST_TYPES" "length REQUIRED_DETACHED_ARTIFACT_TYPES = 8" "length EXPECTED_CANONICAL_MANIFEST_TYPES = 9"
    by code_simp+
  then show "distinct REQUIRED_DETACHED_ARTIFACT_TYPES" by (simp add: EXPECTED_CANONICAL_MANIFEST_TYPES_def)
qed (simp add: EXPECTED_CANONICAL_MANIFEST_TYPES_def)

lemma sample_entry_type: "t \<in> set EXPECTED_CANONICAL_MANIFEST_TYPES \<Longrightarrow> artifact_type_of (sample_entry t) = t"
proof -
  have "list_all (\<lambda>t. list_all (\<lambda>c. \<not> is_space c) t \<and> length t \<le> 100) EXPECTED_CANONICAL_MANIFEST_TYPES" by code_simp
  then show "t \<in> set EXPECTED_CANONICAL_MANIFEST_TYPES \<Longrightarrow> artifact_type_of (sample_entry t) = t"
    by (simp add: list_all_iff artifact_type_of_def sample_entry_def limited_solid)
qed

lemma sample_types: "set ts \<subseteq> set EXPECTED_CANONICAL_MANIFEST_TYPES \<Longrightarrow> map artifact_type_of (map sample_entry ts) = ts"
  by (simp add: comp_def map_idI subset_iff sample_entry_type)

lemma sample_entry_found:
  assumes "distinct ts" and ts: "set ts \<subseteq> set EXPECTED_CANONICAL_MANIFEST_TYPES" and "t \<in> set ts"
  shows "entry_of (map sample_entry ts) t = sample_entry t"
proof -
  have "artifact_set_is (map artifact_type_of (map sample_entry ts)) ts"
    unfolding sample_types [OF ts] using assms(1) by (simp add: artifact_set_is_def)
  then have "entry_of (map sample_entry ts) t \<in> set (map sample_entry ts) \<and> artifact_type_of (entry_of (map sample_entry ts) t) = t"
    using assms(3) by (rule entry_of_found)
  then show ?thesis using ts sample_entry_type by force
qed

lemma sample_package_reads:
  "\<forall>t \<in> set REQUIRED_DETACHED_ARTIFACT_TYPES. retained_bytes (sample_bound_package mt m c) t =
     Some (if t = ''comprehensive_pdf'' then ''ABC'' else ''x'')"
  "\<forall>(t, field, digest_field) \<in> set ARTIFACT_SLOTS. dget (sample_bound_package mt m c) digest_field = PStr ''d''"
  "dget (sample_bound_package mt m c) ''evidence_manifest_sha256'' = PStr ''d''"
  "dget (sample_bound_package mt m c) ''artifact_manifest'' = PDict m" "dget (sample_bound_package mt m c) ''json'' = PDict c"
  "dget (sample_bound_package mt m c) ''draft_artifact_identity'' = PDict sample_draft"
  "dget (sample_bound_package mt m c) ''evidence_manifest_json'' = PStr mt"
proof -
  have "list_all (\<lambda>t. retained_bytes (sample_bound_package mt m c) t =
     Some (if t = ''comprehensive_pdf'' then ''ABC'' else ''x'')) REQUIRED_DETACHED_ARTIFACT_TYPES" by code_simp
  then show "\<forall>t \<in> set REQUIRED_DETACHED_ARTIFACT_TYPES. retained_bytes (sample_bound_package mt m c) t =
     Some (if t = ''comprehensive_pdf'' then ''ABC'' else ''x'')" by (simp only: list_all_iff)
  have "list_all (\<lambda>(t, field, digest_field). dget (sample_bound_package mt m c) digest_field = PStr ''d'') ARTIFACT_SLOTS" by code_simp
  then show "\<forall>(t, field, digest_field) \<in> set ARTIFACT_SLOTS. dget (sample_bound_package mt m c) digest_field = PStr ''d''"
    by (simp only: list_all_iff)
qed (simp_all add: sample_bound_package_def ARTIFACT_SLOTS_def)

lemma sample_entries_checked:
  "\<forall>check \<in> set (concat (map (entry_checks (\<lambda>_. ''d'') (sample_bound_package mt m c)) (map sample_entry REQUIRED_DETACHED_ARTIFACT_TYPES))). fst check"
proof -
  have "\<forall>check \<in> set (entry_checks (\<lambda>_. ''d'') (sample_bound_package mt m c) (sample_entry t)). fst check"
    if t: "t \<in> set REQUIRED_DETACHED_ARTIFACT_TYPES" for t
  proof -
    have reads: "dget (sample_entry t) ''sha256'' = PStr ''d''"
      "dget (sample_entry t) ''size_bytes'' = PInt (if t = ''comprehensive_pdf'' then 3 else 1)" by (simp_all add: sample_entry_def)
    show ?thesis
      by (simp add: entry_checks_def Let_def sample_entry_type [OF required_types(1) [OF t]] bspec [OF sample_package_reads(1) t] reads
          is_plain_int_def)
  qed
  then show ?thesis by simp
qed

lemma sample_digests_checked: "\<forall>check \<in> set (digest_checks (\<lambda>_. ''d'') (sample_bound_package mt m c)). fst check"
  using sample_package_reads(2) [of mt m c] by (auto simp: digest_checks_def)

lemma sample_manifest_reads:
  "dget (sample_manifest ts) ''manifest_id'' = PStr ''m''" "dget (sample_manifest ts) ''artifact_count'' = PInt (int (length ts))"
  "dget (sample_manifest ts) ''identity'' = PDict sample_bound_identity"
  "dget (sample_manifest ts) ''lifecycle'' = PDict AUTOMATED_DRAFT_LIFECYCLE"
  "dget (sample_manifest ts) ''approval'' = PDict PENDING_HUMAN_APPROVAL"
  "mapping_items (sample_manifest ts) ''artifacts'' = Inr (map sample_entry ts)"
  by (simp_all add: sample_manifest_def mapping_items_def comp_def filter_map)

lemma sample_canonical_reads:
  "dget (sample_canonical m) ''identity'' = PDict sample_bound_identity"
  "dget (sample_canonical m) ''assessment'' = PDict CANONICAL_ASSESSMENT_DRAFT_AUTHORITY_FIELDS"
  "dget (sample_canonical m) ''lifecycle'' = PDict AUTOMATED_DRAFT_LIFECYCLE"
  "dget (sample_canonical m) ''approval'' = PDict PENDING_HUMAN_APPROVAL"
  "dget (sample_canonical m) ''artifact_manifest'' = PDict m"
  "dget (sample_canonical m) ''report_language'' = PNone"
  "list_all (\<lambda>(field, v). py_eq (dget (sample_canonical m) field) v) CANONICAL_DRAFT_AUTHORITY_FIELDS"
  by (simp_all add: sample_canonical_def CANONICAL_DRAFT_AUTHORITY_FIELDS_def py_eq_refl)

lemma sample_claims_wf:
  "wf_py (PDict AUTOMATED_DRAFT_LIFECYCLE)" "wf_py (PDict PENDING_HUMAN_APPROVAL)" "wf_py (PDict sample_bound_identity)"
  by code_simp+

lemma sample_assessment:
  "list_all (\<lambda>(field, v). py_eq (dget CANONICAL_ASSESSMENT_DRAFT_AUTHORITY_FIELDS field) v) CANONICAL_ASSESSMENT_DRAFT_AUTHORITY_FIELDS"
  "filter (\<lambda>(field, v). has_key CANONICAL_ASSESSMENT_DRAFT_AUTHORITY_FIELDS field) CANONICAL_ASSESSMENT_OPTIONAL_AUTHORITY_FIELDS = []"
  by code_simp+

lemma fields_checked:
  "list_all (\<lambda>(field, v). py_eq (dget d field) v) claims \<Longrightarrow> \<forall>check \<in> set (fields_are d claims owner). fst check"
  by (auto simp: fields_are_def list_all_iff)

lemma sample_authority_checked:
  "\<forall>check \<in> set (authority_checks (sample_bound_package mt m (sample_canonical cm)) (sample_manifest ts) (sample_canonical cm)). fst check"
  using fields_checked [OF sample_canonical_reads(7)] fields_checked [OF sample_assessment(1)]
  by (simp add: authority_checks_def Let_def ball_Un sample_package_reads sample_manifest_reads sample_canonical_reads sample_claims_wf(1,2)
      py_eq_refl sample_assessment(2) fields_are_def [of _ "[]"] sample_draft_def del: wf_py.simps not_None_eq)

lemma sample_shared_identity:
  "shared_identity (sample_canonical m) = [(''repository'', ''o''), (''commit_sha'', ''c''), (''run_id'', ''r''),
     (''evidence_ledger_id'', ''l''), (''customer_id'', ''u''), (''project_id'', ''p''), (''report_language'', ''e''),
     (''generation_timestamp'', ''n'')]"
  by (simp add: shared_identity_def Let_def sample_canonical_reads sample_bound_identity_def py_or_def)

lemma sample_entry_wf: "wf_py (PDict (sample_entry t))"
  by (simp add: sample_entry_def)

lemma sample_canonical_manifest_checked:
  "\<forall>check \<in> set (canonical_manifest_checks (sample_bound_package mt m c) (sample_manifest REQUIRED_DETACHED_ARTIFACT_TYPES)
     (sample_canonical (sample_manifest EXPECTED_CANONICAL_MANIFEST_TYPES)) (map sample_entry REQUIRED_DETACHED_ARTIFACT_TYPES)
     (map sample_entry EXPECTED_CANONICAL_MANIFEST_TYPES)). fst check"
proof -
  have found: "py_eq (PDict (entry_of (map sample_entry REQUIRED_DETACHED_ARTIFACT_TYPES) t))
      (PDict (entry_of (map sample_entry EXPECTED_CANONICAL_MANIFEST_TYPES) t))" if "t \<in> set REQUIRED_DETACHED_ARTIFACT_TYPES" for t
    using that required_types sample_entry_wf by (simp add: sample_entry_found subset_iff py_eq_refl del: wf_py.simps)
  have "artifact_set_is EXPECTED_CANONICAL_MANIFEST_TYPES EXPECTED_CANONICAL_MANIFEST_TYPES"
    by (simp add: artifact_set_is_def required_types)
  then show ?thesis
    using found unfolding canonical_manifest_checks_def Let_def sample_types [OF subset_refl]
    by (simp add: ball_Un sample_shared_identity sample_manifest_reads sample_canonical_reads sample_package_reads count_is_def required_types
       sample_bound_identity_def sample_draft_def when_present_def)
qed

lemma sample_shared_values:
  "shared_value (sample_canonical m) ''repository'' = ''o''" "shared_value (sample_canonical m) ''commit_sha'' = ''c''"
  "shared_value (sample_canonical m) ''run_id'' = ''r''" "shared_value (sample_canonical m) ''evidence_ledger_id'' = ''l''"
  by (simp_all add: shared_value_def sample_shared_identity)

lemma sample_entry_identity:
  assumes "set required \<subseteq> {''repository'', ''commit_sha'', ''run_id'', ''evidence_ledger_id''}"
    and "set optional \<subseteq> {''repository'', ''evidence_ledger_id'', ''customer_id'', ''project_id''}"
  shows "\<forall>check \<in> set (entry_identity_checks (sample_canonical m) owner required optional (sample_entry t) u). fst check"
proof -
  have "\<forall>field \<in> {''repository'', ''commit_sha'', ''run_id'', ''evidence_ledger_id''}. shared_value (sample_canonical m) field \<noteq> [] \<and>
      limited_text 1000 (dget (sample_entry t) field) = shared_value (sample_canonical m) field"
    by (simp add: sample_shared_values sample_entry_def)
  moreover have "\<forall>field \<in> {''repository'', ''evidence_ledger_id'', ''customer_id'', ''project_id''}.
      when_present (sample_entry t) field (shared_value (sample_canonical m) field)"
    by (simp add: sample_shared_values sample_entry_def when_present_def)
  moreover have "when_present (sample_entry t) ''generated_at'' x" for x
    by (simp add: sample_entry_def when_present_def)
  ultimately show ?thesis
    using assms unfolding entry_identity_checks_def Let_def set_append ball_Un by (auto simp only: list.set_map fst_conv subset_iff list.set)
qed

lemma sample_identity_checked:
  "\<forall>check \<in> set (identity_checks (sample_bound_package mt m c) (sample_manifest REQUIRED_DETACHED_ARTIFACT_TYPES)
     (sample_canonical (sample_manifest EXPECTED_CANONICAL_MANIFEST_TYPES)) (map sample_entry REQUIRED_DETACHED_ARTIFACT_TYPES)
     (map sample_entry EXPECTED_CANONICAL_MANIFEST_TYPES)). fst check"
proof -
  have types: "''canonical_json'' \<in> set EXPECTED_CANONICAL_MANIFEST_TYPES" "''evidence_manifest_json'' \<in> set EXPECTED_CANONICAL_MANIFEST_TYPES"
    by code_simp+
  show ?thesis
    unfolding identity_checks_def Let_def
    by (simp add: ball_Un sample_entry_found required_types types sample_shared_values sample_manifest_reads
      sample_canonical_reads sample_package_reads sample_bound_identity_def sample_draft_def when_present_def
      py_eq_refl)
      (intro conjI; (rule sample_entry_identity | rule ballI, rule sample_entry_identity); simp)
qed

lemma sample_final_digests:
  "\<forall>check \<in> set (final_digest_checks (\<lambda>_. ''d'') (sample_bound_package mt m c)). fst check"
proof -
  have "dget (sample_bound_package mt m c) ''pdf_sha256'' = PStr ''d''" "dget (sample_bound_package mt m c) ''canonical_json_sha256'' = PStr ''d''"
    by (simp_all add: sample_bound_package_def ARTIFACT_SLOTS_def)
  then show ?thesis
    by (simp add: final_digest_checks_def Let_def sample_package_reads(3,6) sample_draft_def)
qed

lemma sample_manifest_checked:
  defines "m \<equiv> sample_manifest REQUIRED_DETACHED_ARTIFACT_TYPES"
  shows "\<forall>check \<in> set (manifest_checks (\<lambda>_. ''d'') (sample_bound_package (json_dumps (PDict m)) m c) m). fst check"
proof -
  have wf: "wf_py (PDict m)"
    using sample_claims_wf by (simp add: m_def sample_manifest_def list_all_iff sample_entry_def)
  have "json_dumps (PDict m) \<noteq> []" by (simp only: json_dumps_dict) simp
  then show ?thesis
    using py_eq_canon [OF wf]
    by (simp add: manifest_checks_def manifest_text_of_def str_or_empty_def py_or_def sample_package_reads loads_dumps [OF wf])
qed

lemma sample_package_single:
  "require_legacy_single_pdf [PDict (sample_bound_package mt (sample_manifest REQUIRED_DETACHED_ARTIFACT_TYPES)
     (sample_canonical (sample_manifest EXPECTED_CANONICAL_MANIFEST_TYPES)))] = Inr ()"
  by code_simp

lemma sample_package_bound:
  defines "m \<equiv> sample_manifest REQUIRED_DETACHED_ARTIFACT_TYPES"
    and "c \<equiv> sample_canonical (sample_manifest EXPECTED_CANONICAL_MANIFEST_TYPES)"
  shows "validate_exact_artifact_hashes (\<lambda>_. ''d'') (sample_bound_package (json_dumps (PDict m)) m c) = Inr ()"
proof -
  let ?sha = "\<lambda>_. ''d''" and ?p = "sample_bound_package (json_dumps (PDict m)) m c"
  let ?items = "map sample_entry REQUIRED_DETACHED_ARTIFACT_TYPES" and ?all = "map sample_entry EXPECTED_CANONICAL_MANIFEST_TYPES"
  note checked = require_all_Inr [THEN iffD2]
  have types: "map artifact_type_of ?items = REQUIRED_DETACHED_ARTIFACT_TYPES"
    using required_types(1) by (intro sample_types) blast
  have "?items \<noteq> [] \<and> artifact_set_is REQUIRED_DETACHED_ARTIFACT_TYPES REQUIRED_DETACHED_ARTIFACT_TYPES"
    by (simp add: artifact_set_is_def required_types REQUIRED_DETACHED_ARTIFACT_TYPES_def ARTIFACT_SLOTS_def)
  moreover have "require_all (concat (map (entry_checks ?sha ?p) ?items)) = Inr ()"
    by (rule checked) (rule sample_entries_checked)
  moreover have "require_all (digest_checks ?sha ?p @ manifest_checks ?sha ?p m @ authority_checks ?p m c) = Inr ()"
    unfolding m_def c_def
    by (rule checked, unfold set_append ball_Un) (intro conjI sample_digests_checked sample_manifest_checked sample_authority_checked)
  moreover have "require_all (canonical_manifest_checks ?p m c ?items ?all @ identity_checks ?p m c ?items ?all @
      final_digest_checks ?sha ?p) = Inr ()"
    unfolding m_def c_def
    by (rule checked, unfold set_append ball_Un) (intro conjI sample_canonical_manifest_checked sample_identity_checked sample_final_digests)
  moreover have "require_legacy_single_pdf [PDict ?p] = Inr ()" unfolding m_def c_def by (rule sample_package_single)
  moreover have "mapping_items m ''artifacts'' = Inr ?items" "dget ?p ''artifact_manifest'' = PDict m" "dget ?p ''json'' = PDict c"
      "mapping_items (as_dict (dget c ''artifact_manifest'')) ''artifacts'' = Inr ?all"
    by (simp_all only: m_def c_def sample_manifest_reads sample_package_reads sample_canonical_reads as_dict_PDict)
  ultimately show ?thesis
    unfolding validate_exact_artifact_hashes_def by (simp only: types bind_res_simps py.case Let_def as_dict_PDict require_all.simps if_True simp_thms)
qed

theorem exact_artifacts_are_pinned_witness:
  "\<exists>p. validate_exact_artifact_hashes (\<lambda>_. ''d'') p = Inr () \<and> retained_bytes p ''markdown_report'' = Some ''x'' \<and>
    py_lower (limited_text 100 (dget p ''markdown_sha256'')) = ''d'' \<and>
    py_eq (dget (as_dict (dget p ''json'')) ''client_delivery_allowed'') (PBool False)"
proof -
  let ?m = "sample_manifest REQUIRED_DETACHED_ARTIFACT_TYPES" and ?c = "sample_canonical (sample_manifest EXPECTED_CANONICAL_MANIFEST_TYPES)"
  let ?p = "sample_bound_package (json_dumps (PDict ?m)) ?m ?c"
  note pinned = exact_artifacts_are_pinned [OF sample_package_bound sample_package_bound refl]
  have slot: "(''markdown_report'', ''markdown'', ''markdown_sha256'') \<in> set ARTIFACT_SLOTS" by code_simp
  have "''markdown_report'' \<in> set REQUIRED_DETACHED_ARTIFACT_TYPES \<and> ''markdown_report'' \<noteq> ''comprehensive_pdf''" by code_simp
  then have "retained_bytes ?p ''markdown_report'' = Some ''x''" using sample_package_reads(1) by simp
  moreover have "py_lower (limited_text 100 (dget ?p ''markdown_sha256'')) = ''d''"
    using bspec [OF conjunct1 [OF pinned] slot] by (simp only: prod.case) (elim exE conjE)
  ultimately show ?thesis using sample_package_bound pinned by (intro exI [of _ ?p] conjI) (simp_all only: simp_thms)
qed

end
