(* ===== verification/ReportAuthority.thy ===== *)
theory ReportAuthority
  imports ExactArtifacts RunStore
begin

text \<open>
  Which report of a run counts (\<open>nico/comprehensive_api_controller.py\<close>, from \<open>_normalized_report_language\<close> to
  \<open>_canonical_final_report_outputs\<close>): only the package of the completed final stage of a run that stopped, bound to
  the identity and language of the run, with every digest recomputed, and, once approved, with an accepted edition
  that was decided on exactly these artifacts. Review, delivery and downloads read the report through it.
  The operator delivery check is the parameter \<open>operator_delivery\<close>, and the check of the delivery
  package (\<open>comprehensive_approved_delivery_v4.validate_approved_delivery_package\<close>) a parameter of its one caller.
\<close>

section \<open>Identity and language\<close>

definition FINAL_REPORT_STAGE_SUCCESS_STATUSES :: "string list" where
  "FINAL_REPORT_STAGE_SUCCESS_STATUSES = [''complete'', ''completed'', ''passed'', ''review_required'', ''success'', ''succeeded'']"

definition FINAL_REPORT_RUN_STATUSES :: "string list" where
  "FINAL_REPORT_RUN_STATUSES = [''complete'', ''completed'', ''review_required'', ''approved'', ''rejected'', ''declined'']"

definition MANIFEST_FAMILY_FIELDS :: "string list" where
  "MANIFEST_FAMILY_FIELDS = [''artifact_manifest'', ''evidence_manifest_json'', ''evidence_manifest_sha256'', ''canonical_json'',
     ''canonical_json_sha256'', ''draft_artifact_identity'']"

definition normalized_report_language :: "py \<Rightarrow> string" where
  "normalized_report_language v =
    (let normalized = map (\<lambda>c. if c = CHR ''_'' then CHR ''-'' else c) (py_casefold (text_of v))
     in if normalized = ''en'' then ''en'' else if normalized = ''es-mx'' then ''es-MX'' else [])"

definition given_values :: "py list \<Rightarrow> py list" where
  "given_values vs = filter (\<lambda>v. text_of v \<noteq> []) vs"

definition final_report_identity_and_language_bound :: "dict \<Rightarrow> dict \<Rightarrow> bool" where
  "final_report_identity_and_language_bound record report \<longleftrightarrow>
    (let run_identity = as_dict (dget record ''identity'');
         canonical = as_dict (dget report ''json'');
         canonical_identity = as_dict (dget canonical ''identity'');
         assessment = as_dict (dget canonical ''assessment'');
         run_language = normalized_report_language (dget run_identity ''report_language'');
         canonical_languages = given_values [dget canonical ''report_language'', dget canonical ''locale'',
           dget canonical_identity ''report_language'', dget canonical_identity ''locale'',
           dget assessment ''report_language'', dget assessment ''locale''];
         languages = map normalized_report_language
           (canonical_languages @ given_values [dget report ''report_language'', dget report ''locale'']);
         canonical_report_id = text_of (dget canonical ''report_id'')
     in list_all (\<lambda>field. text_of (dget run_identity field) \<noteq> [] \<and>
            text_of (dget canonical_identity field) = text_of (dget run_identity field)) RUN_BINDING_FIELDS \<and>
        run_language \<noteq> [] \<and> canonical_languages \<noteq> [] \<and> set languages = {run_language} \<and>
        (canonical_report_id = [] \<or> text_of (dget report ''report_id'') = canonical_report_id))"

section \<open>Digests of the package\<close>

definition sha_claim :: "dict \<Rightarrow> string \<Rightarrow> string" where
  "sha_claim source field = py_casefold (text_of (dget source field))"

definition given :: "py \<Rightarrow> bool" where
  "given v \<longleftrightarrow> v \<notin> {PNone, PStr []}"

definition manifest_family_claimed :: "dict \<Rightarrow> bool" where
  "manifest_family_claimed report \<longleftrightarrow> list_ex (\<lambda>field. given (dget report field)) MANIFEST_FAMILY_FIELDS \<or>
     is_dict (dget (as_dict (dget report ''json'')) ''artifact_manifest'')"

text \<open>\<open>try\<close> with \<open>except (TypeError, ValueError)\<close>: a check that raises one of them has failed.\<close>

definition caught :: "'a res \<Rightarrow> 'a option res" where
  "caught m = (case m of Inl (TypeError _) \<Rightarrow> Inr None | Inl (ValueError _) \<Rightarrow> Inr None | Inl e \<Rightarrow> Inl e | Inr x \<Rightarrow> Inr (Some x))"

definition fails_closed :: "bool res \<Rightarrow> bool res" where
  "fails_closed m = bind_res (caught m) (\<lambda>checked. Inr (checked = Some True))"

text \<open>A text is retained with its digest, and reads back as the mapping beside it.\<close>

definition retained_text_bound :: "(string \<Rightarrow> string) \<Rightarrow> dict \<Rightarrow> string \<Rightarrow> string \<Rightarrow> py \<Rightarrow> bool" where
  "retained_text_bound sha report field digest_field mapping =
    (case dget report field of
       PStr s \<Rightarrow> s \<noteq> [] \<and> is_sha256_text (sha_claim report digest_field) \<and> sha (utf8 s) = sha_claim report digest_field \<and>
         (case json_loads s of
            Some (PDict parsed) \<Rightarrow> is_dict mapping \<and> py_eq mapping (PDict parsed)
          | _ \<Rightarrow> False)
     | _ \<Rightarrow> False)"

definition draft_identity_bound :: "dict \<Rightarrow> bool" where
  "draft_identity_bound report \<longleftrightarrow>
    (let detached = as_dict (dget report ''artifact_manifest'');
         draft = as_dict (dget report ''draft_artifact_identity'');
         canonical_identity = as_dict (dget (as_dict (dget report ''json'')) ''identity'');
         manifest_identity = as_dict (dget detached ''identity'');
         manifest_id = text_of (dget detached ''manifest_id'')
     in is_dict (dget report ''draft_artifact_identity'') \<and> manifest_id \<noteq> [] \<and> text_of (dget draft ''manifest_id'') = manifest_id \<and>
        list_all (\<lambda>field. is_sha256_text (sha_claim report field) \<and> sha_claim draft field = sha_claim report field)
          [''pdf_sha256'', ''canonical_json_sha256'', ''evidence_manifest_sha256''] \<and>
        list_all (\<lambda>field. let expected = text_of (dget canonical_identity field) in
          expected \<noteq> [] \<and> text_of (dget manifest_identity field) = expected \<and>
          (field = ''evidence_ledger_id'' \<and> \<not> given (dget draft field) \<or> text_of (dget draft field) = expected)) RUN_BINDING_FIELDS)"

text \<open>
  With every field of the family present, the conditions of the source on a claimed text or a parsed value always hold.
\<close>

definition retained_manifest_integrity_bound :: "(string \<Rightarrow> string) \<Rightarrow> dict \<Rightarrow> bool res" where
  "retained_manifest_integrity_bound sha report =
    (if \<not> manifest_family_claimed report then Inr True
     else if \<not> list_all (\<lambda>field. given (dget report field)) MANIFEST_FAMILY_FIELDS then Inr False
     else if \<not> retained_text_bound sha report ''evidence_manifest_json'' ''evidence_manifest_sha256'' (dget report ''artifact_manifest'')
     then Inr False
     else if \<not> retained_text_bound sha report ''canonical_json'' ''canonical_json_sha256'' (dget report ''json'') then Inr False
     else if \<not> draft_identity_bound report then Inr False
     else fails_closed (bind_res (validate_exact_artifact_hashes sha report) (\<lambda>_. Inr True)))"

text \<open>The digest of reports from before the raw digest: rendered presentation fields are left out at every depth.\<close>

fun without_rendered :: "py \<Rightarrow> py" where
  "without_rendered (PDict d) = PDict (map (\<lambda>(k, v). (k, without_rendered v))
     (filter (\<lambda>(k, v). k \<notin> {''pdf_base64'', ''html'', ''markdown''}) d))"
| "without_rendered (PList xs) = PList (map without_rendered xs)"
| "without_rendered v = v"

definition legacy_canonical_hash :: "(string \<Rightarrow> string) \<Rightarrow> py \<Rightarrow> string" where
  "legacy_canonical_hash sha v = json_digest sha (without_rendered v)"

definition canonical_truth_hash_integrity_bound :: "(string \<Rightarrow> string) \<Rightarrow> dict \<Rightarrow> bool res" where
  "canonical_truth_hash_integrity_bound sha report =
    (let canonical = dget report ''json''; stored = sha_claim report ''canonical_truth_sha256'' in
     if as_dict canonical = [] then Inr False
     else if \<not> is_sha256_text stored then Inr False
     else if stored = json_digest sha canonical then Inr True
     else if stored \<noteq> legacy_canonical_hash sha canonical then Inr False
     else if \<not> manifest_family_claimed report then Inr False
     else retained_manifest_integrity_bound sha report)"

definition given_text :: "py \<Rightarrow> bool" where
  "given_text v = (case v of PStr s \<Rightarrow> s \<noteq> [] | _ \<Rightarrow> False)"

definition pdf_bound :: "(string \<Rightarrow> string) \<Rightarrow> dict \<Rightarrow> bool" where
  "pdf_bound sha report =
    (case dget report ''pdf_base64'' of
       PStr encoded \<Rightarrow> py_strip encoded \<noteq> [] \<and> text_of (dget report ''pdf_error'') = [] \<and>
         (case b64decode (py_strip encoded) of
            Some pdf \<Rightarrow> starts_with ''%PDF'' pdf \<and> is_sha256_text (sha_claim report ''pdf_sha256'') \<and>
              sha_claim report ''pdf_sha256'' = sha pdf
          | None \<Rightarrow> False)
     | _ \<Rightarrow> False)"

definition optional_digest_bound :: "(string \<Rightarrow> string) \<Rightarrow> dict \<Rightarrow> string \<Rightarrow> string \<Rightarrow> bool" where
  "optional_digest_bound sha report field digest_field \<longleftrightarrow>
    (let claimed = sha_claim report digest_field in
     claimed = [] \<or> is_sha256_text claimed \<and> claimed = sha (utf8 (py_str (dget report field))))"

definition final_report_package_integrity_bound :: "(string \<Rightarrow> string) \<Rightarrow> dict \<Rightarrow> bool res" where
  "final_report_package_integrity_bound sha report =
    bind_res (canonical_truth_hash_integrity_bound sha report) (\<lambda>truth.
    if \<not> truth then Inr False
    else if \<not> given_text (dget report ''markdown'') \<or> \<not> given_text (dget report ''html'') then Inr False
    else if \<not> pdf_bound sha report then Inr False
    else if \<not> optional_digest_bound sha report ''markdown'' ''markdown_sha256'' \<or>
       \<not> optional_digest_bound sha report ''html'' ''html_sha256'' then Inr False
    else retained_manifest_integrity_bound sha report)"

section \<open>Decisions\<close>

definition run_status_text :: "dict \<Rightarrow> string" where
  "run_status_text record = py_casefold (text_of (dget record ''status''))"

definition review_decision_integrity_bound :: "(string \<Rightarrow> string) \<Rightarrow> dict \<Rightarrow> bool res" where
  "review_decision_integrity_bound sha record =
    (let accepted = dget record ''accepted_edition''; history = dget record ''review_history'' in
     case dget record ''review_decision'' of
       PNone \<Rightarrow> Inr (\<not> truthy history \<and> \<not> is_dict accepted \<and> run_status_text record \<notin> {''approved'', ''rejected''})
     | PDict decision \<Rightarrow>
         bind_res (fails_closed (bind_res (review_manifest_errors sha record (PDict decision)) (\<lambda>errors. Inr (errors = [])))) (\<lambda>clean.
         if \<not> clean then Inr False
         else
           (case history of
              PList items \<Rightarrow>
                if items = [] \<or> \<not> same_dict (last items) (PDict decision) \<or> \<not> is_dict (dget decision ''review'') then Inr False
                else
                  (let outcome = py_casefold (text_of (dget (as_dict (dget decision ''review'')) ''decision'')) in
                   case expected_review_status outcome of
                     None \<Rightarrow> Inr False
                   | Some expected \<Rightarrow>
                       Inr (run_status_text record = expected \<and>
                         (if outcome = ''approved'' then same_dict accepted (PDict decision) else \<not> is_dict accepted)))
            | _ \<Rightarrow> Inr False))
     | _ \<Rightarrow> Inr False)"

definition rejected_review_integrity_bound :: "(string \<Rightarrow> string) \<Rightarrow> dict \<Rightarrow> bool res" where
  "rejected_review_integrity_bound sha record =
    (if run_status_text record \<notin> {''rejected'', ''declined''} then Inr True
     else if dget record ''human_review_completed'' \<noteq> PBool True \<or> dget record ''client_delivery_allowed'' = PBool True \<or>
       is_dict (dget record ''accepted_edition'') then Inr False
     else if py_casefold (text_of (dget (as_dict (dget (as_dict (dget record ''review_decision'')) ''review'')) ''decision'')) \<noteq> ''rejected''
     then Inr False
     else review_decision_integrity_bound sha record)"

text \<open>A dictionary whose digest of the other fields is kept in one of them.\<close>

definition sealed_claim :: "(string \<Rightarrow> string) \<Rightarrow> dict \<Rightarrow> string \<Rightarrow> bool" where
  "sealed_claim sha d field \<longleftrightarrow> is_sha256_text (sha_claim d field) \<and> sha_claim d field = json_digest sha (PDict (dpop d field))"

definition human_binding_valid :: "(string \<Rightarrow> string) \<Rightarrow> dict \<Rightarrow> bool res" where
  "human_binding_valid sha review =
    (case reviewer_binding sha (str_or_empty (dget review ''reviewer'')) (str_or_empty (dget review ''reviewer_role''))
        (str_or_empty (dget review ''decision'')) (str_or_empty (dget review ''decided_at''))
        (str_or_empty (dget review ''reason'')) REVIEW_BASIS of
       Inl (ValueError _) \<Rightarrow> Inr False | Inl e \<Rightarrow> Inl e | Inr _ \<Rightarrow> Inr True)"

definition accepted_edition_bound :: "(string \<Rightarrow> string) \<Rightarrow> dict \<Rightarrow> dict \<Rightarrow> dict \<Rightarrow> bool res" where
  "accepted_edition_bound sha record report accepted =
    (let review = dget accepted ''review'' in
     if dget accepted ''accepted_edition'' \<noteq> PBool True \<or> dget accepted ''client_delivery_allowed'' \<noteq> PBool False \<or>
        text_of (dget accepted ''delivery_status'') \<noteq> ''pending_authorization'' then Inr False
     else if \<not> sealed_claim sha accepted ''accepted_edition_manifest_sha256'' then Inr False
     else if \<not> is_dict review \<or> \<not> sealed_claim sha (as_dict review) ''approval_certificate_sha256'' then Inr False
     else
       bind_res (human_binding_valid sha (as_dict review)) (\<lambda>human.
       if \<not> human then Inr False
       else
         bind_res (validate_accepted_edition sha report accepted (Some (as_dict (dget record ''identity'')))) (\<lambda>validation.
         bind_res (list_or_empty (dget validation ''validation_errors'')) (\<lambda>errors.
           Inr (dget validation ''status'' = PStr ''valid'' \<and> errors = [])))))"

definition accepted_final_report_integrity_bound ::
  "(string \<Rightarrow> string) \<Rightarrow> (dict \<Rightarrow> bool) \<Rightarrow> dict \<Rightarrow> dict \<Rightarrow> bool res" where
  "accepted_final_report_integrity_bound sha operator_delivery record report =
    (if run_status_text record \<noteq> ''approved'' then
       Inr (if dget record ''client_delivery_allowed'' = PBool True \<and> truthy (dget record ''operator_delivery_edition'')
         then operator_delivery record else dget record ''client_delivery_allowed'' \<noteq> PBool True)
     else if dget record ''human_review_completed'' \<noteq> PBool True then Inr False
     else
       bind_res (review_decision_integrity_bound sha record) (\<lambda>decided.
       if \<not> decided then Inr False
       else (case dget record ''accepted_edition'' of
           PDict accepted \<Rightarrow> accepted_edition_bound sha record report accepted
         | _ \<Rightarrow> Inr False)))"

text \<open>The chain of the delivery: the receipt and the delivered package.\<close>

definition client_delivery_integrity_bound ::
  "(string \<Rightarrow> string) \<Rightarrow> (dict \<Rightarrow> bool) \<Rightarrow> (dict \<Rightarrow> py \<Rightarrow> dict res) \<Rightarrow> dict \<Rightarrow> bool res" where
  "client_delivery_integrity_bound sha operator_delivery validate_package record =
    (let clean = (\<lambda>validation. bind_res (list_or_empty (dget validation ''validation_errors''))
           (\<lambda>errors. Inr (dget validation ''status'' = PStr ''valid'' \<and> errors = []))) in
     if dget record ''client_delivery_allowed'' \<noteq> PBool True then Inr True
     else if truthy (dget record ''operator_delivery_edition'') then Inr (operator_delivery record)
     else if run_status_text record \<noteq> ''approved'' \<or> dget record ''human_review_completed'' \<noteq> PBool True then Inr False
     else
       bind_res (review_decision_integrity_bound sha record) (\<lambda>decided.
       if \<not> decided then Inr False
       else (case dget record ''accepted_edition'' of
           PDict accepted \<Rightarrow>
             bind_res (caught (bind_res (validate_delivery_authorization sha record accepted (dget record ''delivery_authorization'')) (\<lambda>receipt.
               bind_res (validate_package record (dget record ''approved_delivery_package'')) (\<lambda>package. Inr (receipt, package))))) (\<lambda>checked.
             case checked of
               None \<Rightarrow> Inr False
             | Some (receipt, package) \<Rightarrow>
                 bind_res (clean receipt) (\<lambda>a. if \<not> a then Inr False else clean package))
         | _ \<Rightarrow> Inr False)))"

section \<open>The final report\<close>

definition final_stage_package :: "dict \<Rightarrow> py" where
  "final_stage_package final_stage = (case dget final_stage ''report_package'' of PDict d \<Rightarrow> PDict d | _ \<Rightarrow> dget final_stage ''reports'')"

definition canonical_final_report_outputs ::
  "(string \<Rightarrow> string) \<Rightarrow> (dict \<Rightarrow> bool) \<Rightarrow> dict \<Rightarrow> (dict \<times> dict) res" where
  "canonical_final_report_outputs sha operator_delivery record =
    (if dget record ''terminal'' \<noteq> PBool True \<or> run_status_text record \<notin> set FINAL_REPORT_RUN_STATUSES then Inr ([], [])
     else
       bind_res (list_or_empty (dget record ''completed_stages'')) (\<lambda>completed.
       if FINAL_REPORT_STAGE \<notin> set (map py_str completed) then Inr ([], [])
       else (case dget (as_dict (dget record ''stage_results'')) FINAL_REPORT_STAGE of
           PDict final_stage \<Rightarrow>
             if py_casefold (text_of (dget final_stage ''status'')) \<notin> set FINAL_REPORT_STAGE_SUCCESS_STATUSES then Inr ([], [])
             else (case final_stage_package final_stage of
                 PDict candidate \<Rightarrow>
                   if \<not> final_report_identity_and_language_bound record candidate then Inr ([], [])
                   else
                     bind_res (final_report_package_integrity_bound sha candidate) (\<lambda>intact.
                     if \<not> intact then Inr ([], [])
                     else
                       bind_res (accepted_final_report_integrity_bound sha operator_delivery record candidate) (\<lambda>accepted.
                         Inr (if accepted then (candidate, as_dict (dget final_stage ''assessment'')) else ([], []))))
               | _ \<Rightarrow> Inr ([], []))
         | _ \<Rightarrow> Inr ([], []))))"

section \<open>An approval is bound to the bytes of one report\<close>

lemma map_of_kept:
  "distinct (map fst xs) \<Longrightarrow> map_of (concat (map (\<lambda>(n, a). if out a then [] else [(n, f a)]) xs)) k =
    (case map_of xs k of None \<Rightarrow> None | Some a \<Rightarrow> if out a then None else Some (f a))"
proof (induction xs)
  case (Cons x xs)
  obtain n a where x: "x = (n, a)" by (cases x)
  have "map_of xs k = None" if "n = k" using Cons.prems that by (simp add: x map_of_eq_None_iff)
  then show ?case using Cons by (cases "n = k"; cases "out a") (simp_all add: x)
qed simp

lemma package_digests_lookup:
  "map_of (package_digests sha p) name =
    (case map_of (package_artifacts p) name of
       None \<Rightarrow> None | Some a \<Rightarrow> if artifact_missing a then None else Some (artifact_entry sha a))"
  unfolding package_digests_def by (rule map_of_kept) (simp add: package_artifacts_def)

text \<open>
  The manifest of an edition holds a table of lengths and digests; a report it accepts has
  that table, so two reports it accepts agree in every entry.
\<close>

lemma entry_pins:
  assumes "py_eq x (artifact_entry sha a)" and "wf_py x"
  obtains t where "x = PDict t" "dget t ''sha256'' = PStr (sha (artifact_bytes a))"
    "py_eq (dget t ''size_bytes'') (PInt (int (length (artifact_bytes a))))"
proof -
  obtain t where t: "x = PDict t"
    using assms(1) by (cases x) (auto simp: artifact_entry_def py_eq.simps num_of_def split: py.splits)
  have eq: "py_eq (PDict t) (PDict [(''sha256'', PStr (sha (artifact_bytes a))),
     (''size_bytes'', PInt (int (length (artifact_bytes a))))])" and keys: "distinct (map fst t)"
    using assms unfolding t artifact_entry_def by simp_all
  obtain u where u: "map_of t ''sha256'' = Some u" "py_eq u (PStr (sha (artifact_bytes a)))"
    using py_eq_dict_lookup [OF eq keys, of "''sha256''"] by auto
  obtain w where w: "map_of t ''size_bytes'' = Some w" "py_eq w (PInt (int (length (artifact_bytes a))))"
    using py_eq_dict_lookup [OF eq keys, of "''size_bytes''"] by auto
  show thesis using that [OF t] py_eq_str [OF u(2)] u(1) w by (simp add: dget_def)
qed

lemma same_entry:
  assumes "py_eq x (artifact_entry sha a)" and "py_eq x (artifact_entry sha b)" and "wf_py x"
  shows "sha (artifact_bytes a) = sha (artifact_bytes b) \<and> length (artifact_bytes a) = length (artifact_bytes b)"
proof -
  obtain t where t: "x = PDict t" "dget t ''sha256'' = PStr (sha (artifact_bytes a))"
    "py_eq (dget t ''size_bytes'') (PInt (int (length (artifact_bytes a))))" using assms(1,3) by (rule entry_pins)
  obtain t' where t': "x = PDict t'" "dget t' ''sha256'' = PStr (sha (artifact_bytes b))"
    "py_eq (dget t' ''size_bytes'') (PInt (int (length (artifact_bytes b))))" using assms(2,3) by (rule entry_pins)
  have "t' = t" using t(1) t'(1) by simp
  with t t' show ?thesis using py_eq_int_unique [OF t(3), of "int (length (artifact_bytes b))"] by simp
qed

lemma accepted_table:
  assumes "accepted_edition_errors sha package m trusted = Inr []"
  shows "py_eq (dget m ''artifact_digests'') (PDict (package_digests sha package))"
proof -
  from assms obtain digests digest where
    ds: "current_report_artifact_digests sha package = Inr digests" and
    nil: "digest_errors package m digests digest = []" and
    req: "require_legacy_single_pdf [PDict package, PDict m] = Inr ()"
    by (auto simp: accepted_edition_errors_def bind_res_eq_Inr simp del: require_legacy_single_pdf.simps)
  from req have "has_report_bundle (PDict package) = Inr False" by (auto simp: bind_res_eq_Inr split: if_splits)
  with ds have "digests = package_digests sha package" by (simp add: digests_of_clean)
  then show ?thesis using nil by (simp add: digest_errors_def split: if_splits)
qed

lemma table_entry:
  assumes "py_eq (PDict table) (PDict (package_digests sha p))" and "distinct (map fst table)"
    and "name \<in> fst ` set (package_digests sha p)"
  obtains x a where "map_of table name = Some x" "map_of (package_artifacts p) name = Some a" "py_eq x (artifact_entry sha a)"
proof -
  obtain x y where x: "map_of table name = Some x" "map_of (package_digests sha p) name = Some y" "py_eq x y"
    using py_eq_dict_lookup [OF assms] wf_package_digests [of sha p] by auto
  from x(2) obtain a where "map_of (package_artifacts p) name = Some a" "y = artifact_entry sha a"
    by (auto simp: package_digests_lookup split: option.splits if_splits)
  with x show thesis using that by blast
qed

lemma same_manifest_same_artifact:
  assumes m: "wf_py (PDict m)" and "accepted_edition_errors sha p m i = Inr []" and "accepted_edition_errors sha q m j = Inr []"
    and name: "name \<in> fst ` set (package_digests sha p)" "name \<in> fst ` set (package_digests sha q)"
  shows "\<exists>a b. map_of (package_artifacts p) name = Some a \<and> map_of (package_artifacts q) name = Some b \<and>
    sha (artifact_bytes a) = sha (artifact_bytes b) \<and> length (artifact_bytes a) = length (artifact_bytes b)"
proof -
  note tables = accepted_table [OF assms(2)] accepted_table [OF assms(3)]
  have wft: "wf_py (dget m ''artifact_digests'')" using m by (rule wf_dget)
  obtain table where table: "dget m ''artifact_digests'' = PDict table"
    using tables(1) by (cases "dget m ''artifact_digests''") (auto simp: py_eq.simps num_of_def split: py.splits)
  have keys: "distinct (map fst table)" using wft by (simp add: table)
  obtain x a where x: "map_of table name = Some x" "map_of (package_artifacts p) name = Some a" "py_eq x (artifact_entry sha a)"
    using tables(1) [unfolded table] keys name(1) by (rule table_entry)
  obtain x' b where x': "map_of table name = Some x'" "map_of (package_artifacts q) name = Some b" "py_eq x' (artifact_entry sha b)"
    using tables(2) [unfolded table] keys name(2) by (rule table_entry)
  have "wf_py x" using wft x(1) by (auto simp: table list_all_iff dest: map_of_SomeD)
  with x x' same_entry [of x sha a b] show ?thesis by auto
qed

lemma accepted_digest_keys:
  assumes "accepted_edition_errors sha package m trusted = Inr []"
  shows "fst ` set (package_digests sha package) = set (required_digests package)"
proof -
  from assms obtain recorded digests digest where
    ds: "current_report_artifact_digests sha package = Inr digests" and
    nil: "digest_errors package m digests digest = []" and
    req: "require_legacy_single_pdf [PDict package, PDict m] = Inr ()"
    by (auto simp: accepted_edition_errors_def bind_res_eq_Inr simp del: require_legacy_single_pdf.simps)
  from req have "has_report_bundle (PDict package) = Inr False" by (auto simp: bind_res_eq_Inr split: if_splits)
  with ds have "digests = package_digests sha package" by (simp add: digests_of_clean)
  then show ?thesis using nil by (simp add: digest_errors_def split: if_splits)
qed

lemma authority_parts:
  assumes "canonical_final_report_outputs sha op record = Inr (report, assessment)" and "report \<noteq> []"
  obtains final_stage where "dget record ''terminal'' = PBool True"
    "dget (as_dict (dget record ''stage_results'')) FINAL_REPORT_STAGE = PDict final_stage"
    "final_stage_package final_stage = PDict report" "final_report_identity_and_language_bound record report"
    "final_report_package_integrity_bound sha report = Inr True"
    "accepted_final_report_integrity_bound sha op record report = Inr True"
  using assms unfolding canonical_final_report_outputs_def
  by (simp add: bind_res_eq_Inr split: if_split_asm py.split_asm)

lemma approved_parts:
  assumes "accepted_final_report_integrity_bound sha op record report = Inr True" and "run_status_text record = ''approved''"
  obtains accepted where "dget record ''accepted_edition'' = PDict accepted" "dget record ''human_review_completed'' = PBool True"
    "dget accepted ''client_delivery_allowed'' = PBool False" "sealed_claim sha accepted ''accepted_edition_manifest_sha256''"
    "human_binding_valid sha (as_dict (dget accepted ''review'')) = Inr True"
    "accepted_edition_errors sha report accepted (Some (as_dict (dget record ''identity''))) = Inr []"
proof -
  obtain accepted where a: "dget record ''accepted_edition'' = PDict accepted" "dget record ''human_review_completed'' = PBool True"
    and b: "accepted_edition_bound sha record report accepted = Inr True"
    using assms unfolding accepted_final_report_integrity_bound_def
    by (auto simp: bind_res_eq_Inr split: if_split_asm py.split_asm)
  have "dget accepted ''client_delivery_allowed'' = PBool False" "sealed_claim sha accepted ''accepted_edition_manifest_sha256''"
      "human_binding_valid sha (as_dict (dget accepted ''review'')) = Inr True"
      "accepted_edition_errors sha report accepted (Some (as_dict (dget record ''identity''))) = Inr []"
    using b unfolding accepted_edition_bound_def Let_def
    by (auto simp: bind_res_eq_Inr validate_accepted_edition_def split: if_split_asm)
  then show thesis using that a by blast
qed

lemma binding_human:
  assumes "human_binding_valid sha review = Inr True"
  shows "py_strip (str_or_empty (dget review ''reviewer'')) \<noteq> []"
    "py_casefold (py_strip (str_or_empty (dget review ''reviewer''))) \<notin> set AUTOMATION"
    "py_casefold (py_strip (str_or_empty (dget review ''reviewer_role''))) \<in> set AUTHORIZED_REVIEWER_ROLES"
proof -
  obtain human where "reviewer_binding sha (str_or_empty (dget review ''reviewer'')) (str_or_empty (dget review ''reviewer_role''))
        (str_or_empty (dget review ''decision'')) (str_or_empty (dget review ''decided_at''))
        (str_or_empty (dget review ''reason'')) REVIEW_BASIS = Inr human"
    using assms unfolding human_binding_valid_def by (auto split: sum.split_asm pyexc.split_asm)
  then show "py_strip (str_or_empty (dget review ''reviewer'')) \<noteq> []"
    "py_casefold (py_strip (str_or_empty (dget review ''reviewer''))) \<notin> set AUTOMATION"
    "py_casefold (py_strip (str_or_empty (dget review ''reviewer_role''))) \<in> set AUTHORIZED_REVIEWER_ROLES"
    by (auto elim!: reviewer_bindingE)
qed

text \<open>
  C33. An approval is bound to one report and to a human: when two records with the same accepted
  edition both expose a final report as approved, the two reports agree in length and digest in every
  artifact (Markdown, HTML, PDF, JSON), whatever else the records hold (so the two contents are
  the same bytes, or two texts of one length with one digest); and the
  review is complete and names a person, not an automation, in an authorized role.
\<close>

theorem approval_binds_report_bytes:
  assumes "canonical_final_report_outputs sha op r = Inr (p, assessment)" and "p \<noteq> []"
    and "canonical_final_report_outputs sha op r' = Inr (p', assessment')" and "p' \<noteq> []"
    and "run_status_text r = ''approved''" and "run_status_text r' = ''approved''"
    and "dget r ''accepted_edition'' = dget r' ''accepted_edition''" and "wf_py (dget r ''accepted_edition'')"
  shows "(\<forall>name \<in> {''markdown'', ''html'', ''pdf'', ''json''}. \<exists>a b.
      map_of (package_artifacts p) name = Some a \<and> map_of (package_artifacts p') name = Some b \<and>
      sha (artifact_bytes a) = sha (artifact_bytes b) \<and> length (artifact_bytes a) = length (artifact_bytes b)) \<and>
    dget r ''human_review_completed'' = PBool True \<and>
    (let review = as_dict (dget (as_dict (dget r ''accepted_edition'')) ''review'') in
      py_strip (str_or_empty (dget review ''reviewer'')) \<noteq> [] \<and>
      py_casefold (py_strip (str_or_empty (dget review ''reviewer''))) \<notin> set AUTOMATION \<and>
      py_casefold (py_strip (str_or_empty (dget review ''reviewer_role''))) \<in> set AUTHORIZED_REVIEWER_ROLES)"
proof -
  have accepts: "accepted_final_report_integrity_bound sha op r p = Inr True"
    "accepted_final_report_integrity_bound sha op r' p' = Inr True"
    using authority_parts [OF assms(1,2)] authority_parts [OF assms(3,4)] by metis+
  obtain m where m: "dget r ''accepted_edition'' = PDict m" "dget r ''human_review_completed'' = PBool True"
    "human_binding_valid sha (as_dict (dget m ''review'')) = Inr True"
    "accepted_edition_errors sha p m (Some (as_dict (dget r ''identity''))) = Inr []"
    by (rule approved_parts [OF accepts(1) assms(5)]) (rule that)
  obtain m' where m': "dget r' ''accepted_edition'' = PDict m'"
    "accepted_edition_errors sha p' m' (Some (as_dict (dget r' ''identity''))) = Inr []"
    by (rule approved_parts [OF accepts(2) assms(6)]) (rule that)
  have "m' = m" using m(1) m'(1) assms(7) by simp
  then have accepted': "accepted_edition_errors sha p' m (Some (as_dict (dget r' ''identity''))) = Inr []" using m'(2) by simp
  have required: "name \<in> set (required_digests q)" if "name \<in> {''markdown'', ''html'', ''pdf'', ''json''}" for name q
    using that unfolding required_digests_def by (simp only: set_append list.set) blast
  have "\<forall>name \<in> {''markdown'', ''html'', ''pdf'', ''json''}. \<exists>a b.
      map_of (package_artifacts p) name = Some a \<and> map_of (package_artifacts p') name = Some b \<and>
      sha (artifact_bytes a) = sha (artifact_bytes b) \<and> length (artifact_bytes a) = length (artifact_bytes b)"
    using accepted_digest_keys [OF m(4)] accepted_digest_keys [OF accepted'] required assms(8)
    by (intro ballI same_manifest_same_artifact [OF _ m(4) accepted']) (simp_all only: m(1))
  then show ?thesis unfolding m(1) as_dict_PDict Let_def
    by (intro conjI m(2) binding_human [OF m(3)])
qed

section \<open>A run that was approved\<close>

definition zeros :: string where
  "zeros = replicate 64 (CHR ''0'')"

definition sample_report_identity :: dict where
  "sample_report_identity = [(''repository'', PStr ''o''), (''commit_sha'', PStr ''c''), (''run_id'', PStr ''r''),
     (''evidence_ledger_id'', PStr ''l''), (''report_language'', PStr ''en''), (''assessment_depth'', PStr ''s'')]"

definition sample_report :: dict where
  "sample_report = [(''markdown'', PStr ''m''), (''html'', PStr ''h''), (''pdf_base64'', PStr ''JVBERg==''),
     (''pdf_sha256'', PStr zeros), (''canonical_truth_sha256'', PStr zeros),
     (''json'', PDict [(''identity'', PDict sample_report_identity), (''locale'', PStr ''en'')])]"

text \<open>The manifest \<open>build_reviewed_edition\<close> returns for it with a hash function that is constantly \<open>zeros\<close>.\<close>

definition sample_edition :: dict where
  "sample_edition = [
     (''artifact_schema'', PStr ACCEPTED_EDITION_VERSION), (''repository'', PStr ''o''), (''commit_sha'', PStr ''c''),
     (''tree_sha'', PStr ''t''), (''run_id'', PStr ''r''), (''scanner_run_id'', PStr ''x''), (''evidence_bundle_hash'', PStr zeros),
     (''report_language'', PStr ''en''), (''assessment_depth'', PStr ''s''), (''report_artifact_digest'', PStr zeros),
     (''artifact_digests'', PDict (map (\<lambda>(name, n). (name, PDict [(''sha256'', PStr zeros), (''size_bytes'', PInt n)]))
        [(''markdown'', 1), (''html'', 1), (''pdf'', 4), (''json'', 146)])),
     (''review'', PDict [(''reviewer'', PStr ''ann''), (''reviewer_role'', PStr ''security reviewer''), (''decision'', PStr ''approved''),
        (''reason'', PStr ''ok''), (''decided_at'', PStr ''n''), (''report_artifact_digest'', PStr zeros),
        (''evidence_bundle_hash'', PStr zeros), (''approval_certificate_sha256'', PStr zeros)]),
     (''validation_errors'', PList []), (''accepted_edition'', PBool True), (''delivery_status'', PStr ''pending_authorization''),
     (''human_review_required'', PBool True), (''client_delivery_allowed'', PBool False),
     (''accepted_edition_manifest_sha256'', PStr zeros)]"

definition sample_closed :: dict where
  "sample_closed = [
     (''identity'', PDict sample_report_identity), (''terminal'', PBool True), (''status'', PStr ''approved''),
     (''human_review_completed'', PBool True), (''completed_stages'', PList [PStr FINAL_REPORT_STAGE]),
     (''stage_results'', PDict [
        (FINAL_REPORT_STAGE, PDict [(''status'', PStr ''complete''), (''report_package'', PDict sample_report)])]),
     (''accepted_edition'', PDict sample_edition), (''review_decision'', PDict sample_edition),
     (''review_history'', PList [PDict sample_edition])]"

lemma zeros_digest: "json_digest (\<lambda>_. zeros) v = zeros"
  by (simp add: json_digest_def)

lemma sample_parts:
  "zeros \<noteq> []" "is_sha256_text zeros"
  "has_report_bundle (PDict sample_report) = Inr False" "has_report_bundle (PDict sample_edition) = Inr False"
  "package_digests (\<lambda>_. zeros) sample_report = as_dict (dget sample_edition ''artifact_digests'')"
  "report_package_from_record sample_closed = sample_report" "sample_report \<noteq> []"
  "dget sample_closed ''identity'' = PDict sample_report_identity"
  by code_simp+

lemma sample_edition_reads:
  "dget sample_edition ''validation_errors'' = PList []" "dget sample_edition ''accepted_edition'' = PBool True"
  "dget sample_edition ''client_delivery_allowed'' = PBool False" "is_dict (dget sample_edition ''review'')"
  "text_of (dget sample_edition ''delivery_status'') = ''pending_authorization''"
  "str_or_empty (dget sample_edition ''accepted_edition_manifest_sha256'') = zeros"
  "str_or_empty (dget (edition_review sample_edition) ''approval_certificate_sha256'') = zeros"
  "sha_claim sample_edition ''accepted_edition_manifest_sha256'' = zeros"
  "sha_claim (as_dict (dget sample_edition ''review'')) ''approval_certificate_sha256'' = zeros"
  "manifest_decision sample_edition = ''approved''" "''approved'' \<in> set REVIEW_DECISIONS"
  "human_binding_valid (\<lambda>_. zeros) (as_dict (dget sample_edition ''review'')) = Inr True"
  by code_simp+

lemma sample_edition_checks:
  "status_errors sample_edition [] = []"
  "identity_errors sample_report sample_edition (Some sample_report_identity) = []"
  "manifest_identity_errors sample_report_identity sample_edition = []"
  "digest_errors sample_report sample_edition (as_dict (dget sample_edition ''artifact_digests'')) zeros = []"
  "manifest_digest_errors sample_report sample_edition (as_dict (dget sample_edition ''artifact_digests'')) zeros = []"
  by code_simp+

lemmas sample_facts = sample_parts sample_edition_reads sample_edition_checks zeros_digest digests_of_clean

lemma sample_accepted_clean:
  "accepted_edition_errors (\<lambda>_. zeros) sample_report sample_edition (Some sample_report_identity) = Inr []"
  by (simp add: accepted_edition_errors_def sample_facts)

lemma sample_manifest_clean: "review_manifest_errors (\<lambda>_. zeros) sample_closed (PDict sample_edition) = Inr []"
  by (simp add: review_manifest_errors_def manifest_outcome_errors_def validate_accepted_edition_def sample_accepted_clean
      manifest_seal_errors_def manifest_hash_valid_def certificate_hash_valid_def canonical_hash_eq_json_digest sample_facts)

lemma sample_edition_bound: "accepted_edition_bound (\<lambda>_. zeros) sample_closed sample_report sample_edition = Inr True"
  by (simp add: accepted_edition_bound_def Let_def sealed_claim_def validate_accepted_edition_def sample_accepted_clean sample_facts)

lemma sample_report_bound:
  "final_report_identity_and_language_bound sample_closed sample_report"
  "final_report_package_integrity_bound (\<lambda>_. zeros) sample_report = Inr True"
  "same_dict (PDict sample_edition) (PDict sample_edition)"
  by code_simp+

lemma sample_closed_reads:
  "dget sample_closed ''terminal'' = PBool True" "dget sample_closed ''human_review_completed'' = PBool True"
  "run_status_text sample_closed = ''approved''" "dget sample_closed ''accepted_edition'' = PDict sample_edition"
  "dget sample_closed ''review_decision'' = PDict sample_edition" "dget sample_closed ''review_history'' = PList [PDict sample_edition]"
  "list_or_empty (dget sample_closed ''completed_stages'') = Inr [PStr FINAL_REPORT_STAGE]" "py_str (PStr FINAL_REPORT_STAGE) = FINAL_REPORT_STAGE"
  "dget (as_dict (dget sample_closed ''stage_results'')) FINAL_REPORT_STAGE =
     PDict [(''status'', PStr ''complete''), (''report_package'', PDict sample_report)]"
  "expected_review_status ''approved'' = Some ''approved''" "py_casefold (py_strip ''complete'') \<in> set FINAL_REPORT_STAGE_SUCCESS_STATUSES" "''approved'' \<in> set FINAL_REPORT_RUN_STATUSES"
  "py_casefold (text_of (dget (as_dict (dget sample_edition ''review'')) ''decision'')) = ''approved''"
  by code_simp+

lemma sample_decided: "review_decision_integrity_bound (\<lambda>_. zeros) sample_closed = Inr True"
  by (simp add: review_decision_integrity_bound_def Let_def fails_closed_def caught_def sample_manifest_clean sample_closed_reads
      sample_report_bound sample_edition_reads)

lemma sample_outputs: "canonical_final_report_outputs (\<lambda>_. zeros) op sample_closed = Inr (sample_report, [])"
  by (simp add: canonical_final_report_outputs_def final_stage_package_def accepted_final_report_integrity_bound_def
      sample_decided sample_edition_bound sample_report_bound sample_closed_reads as_dict_def [of PNone])

theorem approval_binds_report_bytes_witness:
  "canonical_final_report_outputs (\<lambda>_. zeros) (\<lambda>_. False) sample_closed = Inr (sample_report, []) \<and>
   (\<exists>a b. map_of (package_artifacts sample_report) ''pdf'' = Some a \<and> map_of (package_artifacts sample_report) ''pdf'' = Some b \<and>
     length (artifact_bytes a) = length (artifact_bytes b)) \<and>
   dget sample_closed ''human_review_completed'' = PBool True \<and>
   py_casefold (py_strip (str_or_empty (dget (as_dict (dget sample_edition ''review'')) ''reviewer''))) \<notin> set AUTOMATION"
proof -
  have "wf_py (dget sample_closed ''accepted_edition'')"
    unfolding sample_closed_reads by code_simp
  note bound = approval_binds_report_bytes [OF sample_outputs sample_parts(7) sample_outputs sample_parts(7) sample_closed_reads(3)
      sample_closed_reads(3) refl this]
  have "''pdf'' \<in> {''markdown'', ''html'', ''pdf'', ''json''}" by simp
  from bspec [OF conjunct1 [OF bound] this] have pdf: "\<exists>a b. map_of (package_artifacts sample_report) ''pdf'' = Some a \<and>
      map_of (package_artifacts sample_report) ''pdf'' = Some b \<and> length (artifact_bytes a) = length (artifact_bytes b)" by blast
  from conjunct2 [OF bound] sample_outputs pdf
  show ?thesis by (simp only: Let_def sample_closed_reads as_dict_PDict simp_thms)
qed

end
