(* ===== verification/FinalReportBoundary.thy ===== *)
theory FinalReportBoundary
  imports ReportAuthority RunLifecycle
begin

text \<open>
  The execution boundary of the final report (\<open>nico/comprehensive_final_report_execution_boundary_v4.py\<close>): the
  provider that renders the report is run, its package is validated against the identity of the run
  and against every digest it claims, and only then is the stage complete; anything else is a
  blocked result that never allows delivery. The provider, the elapsed time, the rebinding of the
  renderer and whether a bounded worker finished in time are parameters.
\<close>

section \<open>Tables\<close>

definition BOUNDARY_VERSION :: string where
  "BOUNDARY_VERSION = ''nico.comprehensive_final_report_execution_boundary.v8''"

definition BOUNDARY_IDENTITY_FIELDS :: "string list" where
  "BOUNDARY_IDENTITY_FIELDS = [''run_id'', ''repository'', ''commit_sha'', ''evidence_ledger_id'']"

definition MANIFEST_PACKAGE_FIELDS :: "string list" where
  "MANIFEST_PACKAGE_FIELDS = [''artifact_manifest'', ''evidence_manifest_json'', ''evidence_manifest_sha256'', ''draft_artifact_identity'']"

definition DEFAULT_FINAL_REPORT_TIMEOUT_SECONDS :: int where
  "DEFAULT_FINAL_REPORT_TIMEOUT_SECONDS = 600"

definition MIN_CONFIGURED_FINAL_REPORT_TIMEOUT_SECONDS :: int where
  "MIN_CONFIGURED_FINAL_REPORT_TIMEOUT_SECONDS = 30"

definition MAX_FINAL_REPORT_TIMEOUT_SECONDS :: int where
  "MAX_FINAL_REPORT_TIMEOUT_SECONDS = 900"

text \<open>The timeout: an argument is only bounded, a configured number has a larger minimum.\<close>

definition timeout_seconds :: "(string \<Rightarrow> string option) \<Rightarrow> int option \<Rightarrow> int" where
  "timeout_seconds getenv requested =
    (case requested of
       Some t \<Rightarrow> max 1 (min MAX_FINAL_REPORT_TIMEOUT_SECONDS t)
     | None \<Rightarrow>
         let configured = (case getenv ''NICO_COMPREHENSIVE_FINAL_REPORT_TIMEOUT_SECONDS'' of
             None \<Rightarrow> DEFAULT_FINAL_REPORT_TIMEOUT_SECONDS
           | Some t \<Rightarrow> (case py_int (PStr t) of Inl e \<Rightarrow> DEFAULT_FINAL_REPORT_TIMEOUT_SECONDS | Inr n \<Rightarrow> n))
         in max MIN_CONFIGURED_FINAL_REPORT_TIMEOUT_SECONDS (min MAX_FINAL_REPORT_TIMEOUT_SECONDS configured))"

text \<open>\<open>_install_final_report_runtime_guards\<close>: what the two installers report; their work is not modelled.\<close>

definition runtime_guards :: "dict \<Rightarrow> dict \<Rightarrow> dict res" where
  "runtime_guards report_runtime compact_runtime =
    (if \<not> list_all (\<lambda>k. dget report_runtime k = PBool True)
         [''native_report_base_stable'', ''ci_pdf_base_stable'', ''detached_report_alias_recursion_blocked'']
     then Inl (RuntimeError ''final report worker v90 runtime guard not authoritative'')
     else if \<not> list_all (\<lambda>k. dget compact_runtime k = PBool True)
         [''final_intermediate_pdf_is_decision_oriented'', ''current_finality_gate_preserved'']
     then Inl (RuntimeError ''final report compact runtime guard not authoritative'')
     else Inr [(''report_runtime_v90_rebound'', PBool True), (''compact_final_report_runtime_rebound'', PBool True),
       (''runtime_guard_order'', PStr ''v90_then_compact''), (''process_history_independent'', PBool True),
       (''recovery_entry_point_independent'', PBool True)])"

section \<open>Blocked results\<close>

definition context_text :: "dict \<Rightarrow> string \<Rightarrow> py" where
  "context_text context field = PStr (recovery_text (dget context field))"

definition blocked_stage :: "dict \<Rightarrow> string \<Rightarrow> string \<Rightarrow> dict \<Rightarrow> bool \<Rightarrow> string option \<Rightarrow> dict" where
  "blocked_stage context reason message execution recovery_supported named_scope =
    (let scope = PStr (case named_scope of Some s \<Rightarrow> if s = [] then ''final_report_only'' else s | None \<Rightarrow> ''final_report_only'');
         recovery = (if recovery_supported then [(''recovery_supported'', PBool True), (''recovery_scope'', scope)] else []) in
     [(''status'', PStr ''blocked''), (''reason'', PStr reason), (''error_code'', PStr reason), (''error_message'', PStr message),
      (''technical_reason'', PStr (reason @ '':stage='' @ FINAL_REPORT_STAGE)), (''retryable'', PBool True),
      (''cancelable'', PBool True), (''artifacts_available'', PBool False), (''run_id'', context_text context ''run_id''),
      (''repository'', context_text context ''repository''), (''commit_sha'', context_text context ''commit_sha''),
      (''evidence_ledger_id'', context_text context ''evidence_ledger_id''), (''human_review_required'', PBool True),
      (''client_delivery_allowed'', PBool False),
      (''stage_execution'', PDict (dupdate execution ([(''artifact_schema'', PStr BOUNDARY_VERSION),
         (''mode'', PStr ''atomic_final_report_publication''), (''canonical_run_write_required'', PBool True),
         (''detached_background_execution'', PBool (truthy (dget execution ''detached_background_execution'')))] @ recovery)))] @
     recovery)"

section \<open>Validation of a package\<close>

definition exact_identity_matches :: "dict \<Rightarrow> dict \<Rightarrow> bool \<Rightarrow> bool" where
  "exact_identity_matches v context require_present \<longleftrightarrow> list_all (\<lambda>field.
     let expected = recovery_text (dget context field); observed = recovery_text (dget v field) in
     expected \<noteq> [] \<and> (require_present \<longrightarrow> observed \<noteq> []) \<and> (observed \<noteq> [] \<longrightarrow> observed = expected)) BOUNDARY_IDENTITY_FIELDS"

definition manifest_bearing_package :: "dict \<Rightarrow> dict \<Rightarrow> bool" where
  "manifest_bearing_package package canonical_json \<longleftrightarrow> is_dict (dget canonical_json ''artifact_manifest'') \<or>
     list_ex (\<lambda>field. case dget package field of
         PDict _ \<Rightarrow> True
       | PStr s \<Rightarrow> py_strip s \<noteq> [] \<or> s \<noteq> []
       | v \<Rightarrow> v \<noteq> PNone) MANIFEST_PACKAGE_FIELDS"

definition is_hex_digest :: "string \<Rightarrow> bool" where
  "is_hex_digest s \<longleftrightarrow> length s = 64 \<and> list_all (\<lambda>c. c \<in> set ''0123456789abcdefABCDEF'') s"

definition package_identity :: "dict \<Rightarrow> dict" where
  "package_identity canonical_json = (case dget canonical_json ''identity'' of PDict d \<Rightarrow> d | _ \<Rightarrow> canonical_json)"

definition claimed_digest :: "dict \<Rightarrow> string \<Rightarrow> string" where
  "claimed_digest package field = py_casefold (recovery_text (dget package field))"

text \<open>The checks of a rendered text: with a manifest its digest has to be there; a digest has to be right.\<close>

definition text_digest_checks :: "(string \<Rightarrow> string) \<Rightarrow> dict \<Rightarrow> bool \<Rightarrow> string \<Rightarrow> string \<Rightarrow> (bool \<times> string) list" where
  "text_digest_checks sha package manifest_bearing field digest_field =
    (let claimed = claimed_digest package digest_field in
     [(manifest_bearing \<longrightarrow> claimed \<noteq> [], ''final_report_'' @ field @ ''_hash_missing''),
      (claimed \<noteq> [] \<longrightarrow> is_sha256_text claimed, ''final_report_'' @ field @ ''_hash_invalid''),
      (claimed \<noteq> [] \<longrightarrow> claimed = sha (utf8 (str_or_empty (dget package field))), ''final_report_'' @ field @ ''_hash_mismatch'')])"

definition package_checks :: "(string \<Rightarrow> string) \<Rightarrow> dict \<Rightarrow> dict \<Rightarrow> (bool \<times> string) list" where
  "package_checks sha package context =
    (let canonical = dget package ''json''; canonical_json = as_dict canonical;
         manifest_bearing = manifest_bearing_package package canonical_json;
         truth = recovery_text (dget package ''canonical_truth_sha256'');
         encoded = recovery_text (dget package ''pdf_base64''); pdf = b64decode encoded;
         pdf_sha256 = claimed_digest package ''pdf_sha256'' in
     [(recovery_text (dget package ''report_id'') \<noteq> [], ''final_report_id_missing''),
      (py_strip (str_or_empty (dget package ''markdown'')) \<noteq> [], ''final_report_markdown_missing''),
      (py_strip (str_or_empty (dget package ''html'')) \<noteq> [], ''final_report_html_missing''),
      (is_dict canonical, ''final_report_json_missing'')] @
     text_digest_checks sha package manifest_bearing ''markdown'' ''markdown_sha256'' @
     text_digest_checks sha package manifest_bearing ''html'' ''html_sha256'' @
     [(truth \<noteq> [], ''final_report_canonical_hash_missing''), (is_hex_digest truth, ''final_report_canonical_hash_invalid''),
      (encoded \<noteq> [], ''final_report_pdf_missing''), (pdf \<noteq> None, ''final_report_pdf_invalid_base64''),
      (starts_with ''%PDF'' (the pdf), ''final_report_pdf_invalid''), (pdf_sha256 \<noteq> [], ''final_report_pdf_hash_missing''),
      (is_sha256_text pdf_sha256, ''final_report_pdf_hash_invalid''), (pdf_sha256 = sha (the pdf), ''final_report_pdf_hash_mismatch''),
      (exact_identity_matches (package_identity canonical_json) context True, ''final_report_identity_mismatch''),
      (py_casefold truth = json_digest sha canonical, ''final_report_canonical_hash_mismatch'')])"

definition or_actual :: "(string \<Rightarrow> string) \<Rightarrow> dict \<Rightarrow> string \<Rightarrow> string \<Rightarrow> py" where
  "or_actual sha package field digest_field =
    (let claimed = claimed_digest package digest_field in
     PStr (if claimed \<noteq> [] then claimed else sha (utf8 (str_or_empty (dget package field)))))"

definition package_evidence :: "(string \<Rightarrow> string) \<Rightarrow> dict \<Rightarrow> dict" where
  "package_evidence sha package =
     [(''report_id'', PStr (recovery_text (dget package ''report_id''))), (''pdf_page_count'', dget package ''pdf_page_count''),
      (''pdf_sha256'', PStr (claimed_digest package ''pdf_sha256'')),
      (''markdown_sha256'', or_actual sha package ''markdown'' ''markdown_sha256''),
      (''html_sha256'', or_actual sha package ''html'' ''html_sha256''),
      (''canonical_truth_sha256'', PStr (recovery_text (dget package ''canonical_truth_sha256'')))] @
     map (\<lambda>k. (k, PBool True)) [''exact_run_identity_verified'', ''exact_repository_identity_verified'',
       ''exact_commit_identity_verified'', ''exact_evidence_ledger_identity_verified'', ''pdf_valid'', ''markdown_available'',
       ''html_available'', ''json_available'']"

text \<open>The reason of the first check that fails, or the evidence.\<close>

definition validate_package :: "(string \<Rightarrow> string) \<Rightarrow> dict \<Rightarrow> dict \<Rightarrow> string + dict" where
  "validate_package sha package context =
    (case find (\<lambda>(ok, reason). \<not> ok) (package_checks sha package context) of
       Some (ok, reason) \<Rightarrow> Inl reason
     | None \<Rightarrow> Inr (package_evidence sha package))"

section \<open>Running the provider\<close>

datatype provider_run = Finished "py res" | TimedOut

text \<open>In the durable worker the provider runs to its end; a bounded worker may be too late.\<close>

definition run_provider :: "(dict \<Rightarrow> py res) \<Rightarrow> bool \<Rightarrow> bool \<Rightarrow> dict \<Rightarrow> provider_run" where
  "run_provider provider managed in_time context = (if managed \<or> in_time then Finished (provider context) else TimedOut)"

definition execution_fields :: "int option \<Rightarrow> bool \<Rightarrow> py \<Rightarrow> dict \<Rightarrow> dict" where
  "execution_fields limit managed elapsed guards = dupdate
     [(''artifact_schema'', PStr BOUNDARY_VERSION), (''mode'', PStr ''atomic_final_report_publication''),
      (''execution_timeout_seconds'', case limit of None \<Rightarrow> PNone | Some t \<Rightarrow> PInt t), (''elapsed_seconds'', elapsed),
      (''detached_background_execution'', PBool managed),
      (''provider_lifetime_owner'', PStr (if managed then ''durable_final_report_coordinator'' else ''bounded_execution_boundary'')),
      (''provider_lifetime_bounded_by_http_request'', PBool False), (''nested_timeout_thread'', PBool (\<not> managed)),
      (''durable_coordinator_owns_lifetime'', PBool managed), (''full_context_deepcopy_skipped'', PBool True),
      (''compact_intermediate_pdf_projection_installed'', PBool True)] guards"

definition gated_fields :: dict where
  "gated_fields = [(''human_review_required'', PBool True), (''client_delivery_allowed'', PBool False)]"

definition unfinished_output :: "dict \<Rightarrow> dict \<Rightarrow> dict \<Rightarrow> dict" where
  "unfinished_output context output execution = dset (dupdate
     (fold (\<lambda>field acc. dsetdefault acc field (context_text context field)) [''run_id'', ''repository'', ''commit_sha'', ''evidence_ledger_id''] output)
     gated_fields) ''stage_execution'' (PDict execution)"

definition completed_output :: "dict \<Rightarrow> dict \<Rightarrow> dict \<Rightarrow> dict \<Rightarrow> dict \<Rightarrow> bool \<Rightarrow> dict" where
  "completed_output context output package evidence execution managed = dupdate output
     ([(''run_id'', context_text context ''run_id''), (''repository'', context_text context ''repository''),
       (''commit_sha'', context_text context ''commit_sha''), (''evidence_ledger_id'', context_text context ''evidence_ledger_id''),
       (''report_package'', PDict package), (''artifacts_available'', PBool True)] @ gated_fields @
      [(''stage_execution'', PDict (dupdate execution [(''canonical_run_write_required'', PBool True),
          (''canonical_run_written_only_by_request_thread'', PBool (\<not> managed)), (''artifact_validation_complete'', PBool True),
          (''exact_identity_verified'', PBool True)])),
       (''evidence'', PDict (dupdate (as_dict (dget output ''evidence'')) evidence))])"

definition boundary_execution :: "dict \<Rightarrow> dict \<Rightarrow> dict" where
  "boundary_execution output execution =
    dset (dupdate (as_dict (dget output ''stage_execution'')) execution) ''completed_within_boundary'' (PBool True)"

definition finished_stage :: "(string \<Rightarrow> string) \<Rightarrow> dict \<Rightarrow> dict \<Rightarrow> dict \<Rightarrow> bool \<Rightarrow> dict" where
  "finished_stage sha context output execution managed =
    (if py_casefold (recovery_text (dget output ''status'')) \<noteq> ''complete''
     then unfinished_output context output (boundary_execution output execution)
     else if \<not> exact_identity_matches output context False
     then blocked_stage context ''final_report_result_identity_mismatch''
       ''The final report provider result did not match the exact run identity.'' (boundary_execution output execution) False None
     else case dget output ''report_package'' of
         PDict package \<Rightarrow>
           (case validate_package sha package context of
              Inl reason \<Rightarrow> blocked_stage context reason (''The final report package failed validation: '' @ reason @ ''.'')
                (boundary_execution output execution) False None
            | Inr evidence \<Rightarrow> completed_output context output package evidence (boundary_execution output execution) managed)
       | _ \<Rightarrow> blocked_stage context ''final_report_package_missing''
           ''The final report provider completed without a retained report package.'' (boundary_execution output execution) False None)"

definition timeout_message :: "int \<Rightarrow> string" where
  "timeout_message limit = ''Final report generation exceeded the '' @ int_str limit @ ''-second bounded publication window. '' @
     ''The exact run may resume from final report generation without rerunning completed scanners.''"

definition execute_final_report_stage ::
  "(string \<Rightarrow> string) \<Rightarrow> dict res \<Rightarrow> int \<Rightarrow> (dict \<Rightarrow> py res) \<Rightarrow> bool \<Rightarrow> bool \<Rightarrow> py \<Rightarrow> dict \<Rightarrow> dict res" where
  "execute_final_report_stage sha guards timeout provider managed in_time elapsed context =
    bind_res guards (\<lambda>runtime.
      let limit = (if managed then None else Some timeout); execution = execution_fields limit managed elapsed runtime in
      case run_provider provider managed in_time context of
        TimedOut \<Rightarrow> Inr (blocked_stage context ''final_report_execution_timeout'' (timeout_message timeout) execution True (Some ''final_report_only''))
      | Finished (Inl e) \<Rightarrow> Inl e
      | Finished (Inr (PDict output)) \<Rightarrow> Inr (finished_stage sha context output execution managed)
      | Finished (Inr v) \<Rightarrow> Inr (blocked_stage context ''final_report_provider_invalid_result''
          ''The final report provider did not return a structured result.'' execution False None))"

section \<open>What a complete result guarantees\<close>

lemma strip_keeps_inner:
  assumes "\<not> is_space (hd a)" and "a \<noteq> []" and "\<exists>x \<in> set c. \<not> is_space x"
  shows "set b \<subseteq> set (py_strip (a @ b @ c))"
proof -
  obtain x a' where a: "a = x # a'" "\<not> is_space x" using assms(1,2) by (cases a) auto
  have "dropWhile is_space (rev c @ rev b @ rev a) = dropWhile is_space (rev c) @ rev b @ rev a"
    using assms(3) by (auto simp: dropWhile_append1)
  then show ?thesis by (auto simp: py_strip_def a)
qed

lemma split_step:
  "py_split s = (if dropWhile is_space s = [] then []
     else takeWhile (\<lambda>c. \<not> is_space c) (dropWhile is_space s) # py_split (dropWhile (\<lambda>c. \<not> is_space c) (dropWhile is_space s)))"
  by (subst py_split.simps) (simp only: Let_def)

lemmas split_none = trans [OF split_step if_P] and split_some = trans [OF split_step if_not_P]

lemma split_words: "w \<in> set (py_split s) \<Longrightarrow> w \<noteq> [] \<and> (\<forall>c \<in> set w. \<not> is_space c)"
proof (induction s rule: py_split.induct)
  case (1 s)
  let ?t = "dropWhile is_space s"
  have t: "?t \<noteq> []"
  proof
    assume "?t = []"
    then have "py_split s = []" by (rule split_none)
    then show False using 1(2) by simp
  qed
  then have head: "\<not> is_space (hd ?t)" by (rule hd_dropWhile)
  from 1(2) have "w = takeWhile (\<lambda>c. \<not> is_space c) ?t \<or> w \<in> set (py_split (dropWhile (\<lambda>c. \<not> is_space c) ?t))"
    unfolding split_some [OF t] by (simp only: list.set insert_iff)
  then show ?case
  proof
    assume w: "w = takeWhile (\<lambda>c. \<not> is_space c) ?t"
    have "w \<noteq> []" using t head by (cases ?t) (auto simp: w)
    then show ?thesis by (auto simp: w dest: set_takeWhileD)
  qed (rule 1(1) [OF refl t])
qed

lemma strip_one_word:
  assumes "\<forall>c \<in> set w. \<not> is_space c" and "\<forall>c \<in> set r. is_space c" and "dropWhile is_space s = w @ r"
  shows "py_strip s = w"
proof -
  have "dropWhile is_space (rev r @ rev w) = dropWhile is_space (rev w)" using assms(2) by (intro dropWhile_append2) simp
  also have "\<dots> = rev w" using assms(1) by (intro dropWhile_none) simp
  finally show ?thesis by (simp add: py_strip_def assms(3))
qed

lemma split_first:
  assumes "dropWhile is_space s \<noteq> []"
  obtains w r where "dropWhile is_space s = w @ r" "py_split s = w # py_split r" "w \<noteq> []" "\<forall>c \<in> set w. \<not> is_space c"
    "py_split r = [] \<longrightarrow> (\<forall>c \<in> set r. is_space c)"
proof -
  let ?t = "dropWhile is_space s"
  let ?w = "takeWhile (\<lambda>c. \<not> is_space c) ?t" and ?r = "dropWhile (\<lambda>c. \<not> is_space c) ?t"
  have split: "py_split s = ?w # py_split ?r" using assms by (rule split_some)
  have "?w \<in> set (py_split s)" unfolding split by (rule list.set_intros)
  then have w: "?w \<noteq> [] \<and> (\<forall>c \<in> set ?w. \<not> is_space c)" by (rule split_words)
  have "\<forall>c \<in> set ?r. is_space c" if "py_split ?r = []"
  proof -
    have "dropWhile is_space ?r = []"
    proof (rule ccontr)
      assume "dropWhile is_space ?r \<noteq> []"
      from split_some [OF this] that show False by (simp only: list.distinct)
    qed
    then show ?thesis unfolding dropWhile_eq_Nil_conv .
  qed
  then show thesis by (intro that [OF takeWhile_dropWhile_id [symmetric] split conjunct1 [OF w] conjunct2 [OF w]] impI)
qed

text \<open>A text without inner white space is only stripped.\<close>

lemma solid_recovery_text:
  assumes "\<forall>c \<in> set (recovery_text v). \<not> is_space c"
  shows "recovery_text v = text_of v"
proof -
  define s where "s = str_or_empty v"
  show ?thesis
  proof (cases "dropWhile is_space s = []")
    case True
    then have "py_split s = []" by (rule split_none)
    moreover have "py_strip s = []" by (simp only: py_strip_def True rev.simps dropWhile.simps)
    ultimately show ?thesis by (simp add: recovery_text_def text_of_def s_def [symmetric] py_strip_def)
  next
    case False
    then obtain w r where t: "dropWhile is_space s = w @ r" and split: "py_split s = w # py_split r" and w: "w \<noteq> []" "\<forall>c \<in> set w. \<not> is_space c"
      and r: "py_split r = [] \<longrightarrow> (\<forall>c \<in> set r. is_space c)" by (rule split_first)
    show ?thesis
    proof (cases "py_split r")
      case Nil
      then have "py_strip s = w" using r by (intro strip_one_word [OF w(2) _ t]) simp
      then show ?thesis using split Nil strip_solid [OF w(2)] by (simp add: recovery_text_def text_of_def s_def [symmetric])
    next
      case (Cons y ys)
      have y: "y \<noteq> [] \<and> (\<forall>c \<in> set y. \<not> is_space c)" by (rule split_words [of y r]) (simp add: Cons)
      have "set y \<subseteq> set (py_join '' '' (y # ys))" by (cases ys) auto
      moreover have "hd y \<in> set y" "\<not> is_space (hd y)" using y by (cases y; simp)+
      ultimately have inner: "\<exists>x \<in> set (py_join '' '' (y # ys)). \<not> is_space x" by blast
      have "\<not> is_space (hd w)" using w by (cases w) simp_all
      then have "set '' '' \<subseteq> set (py_strip (w @ '' '' @ py_join '' '' (y # ys)))"
        using w(1) inner by (rule strip_keeps_inner)
      then have "CHR '' '' \<in> set (recovery_text v)"
        using split Cons by (simp add: recovery_text_def s_def [symmetric])
      then show ?thesis using assms by (auto simp: is_space_def)
    qed
  qed
qed

lemma casefold_keeps_space: "c \<in> set s \<Longrightarrow> is_space c \<Longrightarrow> c \<in> set (py_casefold s)"
proof -
  assume c: "c \<in> set s" "is_space c"
  have "code_of c \<noteq> 223 \<and> lower_char c = c" using c(2) by (auto simp: is_space_def lower_char_def Let_def)
  then show ?thesis using c(1) by (auto simp: py_casefold_def intro!: bexI [of _ c])
qed

lemma hex_not_space: "c \<in> set ''0123456789abcdefABCDEF'' \<Longrightarrow> \<not> is_space c"
  by (auto simp: is_space_def)

lemma claimed_digest_text:
  assumes "claimed_digest p field = [] \<or> is_sha256_text (claimed_digest p field)"
  shows "sha_claim p field = claimed_digest p field"
proof -
  have "\<forall>c \<in> set (recovery_text (dget p field)). \<not> is_space c"
  proof
    fix c assume "c \<in> set (recovery_text (dget p field))"
    then have "is_space c \<longrightarrow> c \<in> set (claimed_digest p field)" unfolding claimed_digest_def by (intro impI casefold_keeps_space)
    moreover have "\<not> is_space c" if "c \<in> set (claimed_digest p field)"
    proof -
      have "is_sha256_text (claimed_digest p field)" using assms that by (cases "claimed_digest p field = []") simp_all
      then have "\<forall>x \<in> set (claimed_digest p field). x \<in> set ''0123456789abcdef''" unfolding is_sha256_text_def by (rule conjunct2)
      then have "c \<in> set ''0123456789abcdef''" using that by (rule bspec)
      then show ?thesis by (rule conjunct2 [OF conjunct2 [OF hex_char]])
    qed
    ultimately show "\<not> is_space c" by blast
  qed
  then have "recovery_text (dget p field) = text_of (dget p field)" by (rule solid_recovery_text)
  then show ?thesis by (simp only: sha_claim_def claimed_digest_def)
qed

lemma blocked_stage_reads:
  "dget (blocked_stage context reason message execution supported scope) ''status'' = PStr ''blocked''"
  "dget (blocked_stage context reason message execution supported scope) ''human_review_required'' = PBool True"
  "dget (blocked_stage context reason message execution supported scope) ''client_delivery_allowed'' = PBool False"
  by (simp_all add: blocked_stage_def Let_def)

lemma blocked_is_not_complete: "py_casefold (recovery_text (PStr ''blocked'')) \<noteq> ''complete''"
  by code_simp

lemma unfinished_reads:
  "dget (unfinished_output context output execution) ''human_review_required'' = PBool True"
  "dget (unfinished_output context output execution) ''client_delivery_allowed'' = PBool False"
  by (simp_all add: unfinished_output_def gated_fields_def)

lemma default_frame: "j \<noteq> k \<Longrightarrow> dget (dsetdefault d k v) j = dget d j"
  by (simp add: dsetdefault_def)

lemma unfinished_status:
  assumes "py_casefold (recovery_text (dget output ''status'')) \<noteq> ''complete''"
  shows "dget (unfinished_output context output execution) ''status'' = dget output ''status''"
  by (simp add: unfinished_output_def gated_fields_def default_frame)

lemma completed_reads:
  "dget (completed_output context output package evidence execution managed) ''human_review_required'' = PBool True"
  "dget (completed_output context output package evidence execution managed) ''client_delivery_allowed'' = PBool False"
  "dget (completed_output context output package evidence execution managed) ''report_package'' = PDict package"
  "field \<in> set BOUNDARY_IDENTITY_FIELDS \<Longrightarrow>
     dget (completed_output context output package evidence execution managed) field = context_text context field"
  by (auto simp: completed_output_def gated_fields_def BOUNDARY_IDENTITY_FIELDS_def)

lemma validate_package_Inr:
  assumes "validate_package sha package context = Inr evidence"
  shows "\<forall>check \<in> set (package_checks sha package context). fst check"
proof -
  have "find (\<lambda>(ok, reason). \<not> ok) (package_checks sha package context) = None"
    using assms by (auto simp: validate_package_def split: option.splits)
  then show ?thesis by (auto simp: find_None_iff)
qed

lemma finished_stage_cases:
  obtains (blocked) reason message execution where
      "finished_stage sha context output execution0 managed = blocked_stage context reason message execution False None"
  | (unfinished) execution where "py_casefold (recovery_text (dget output ''status'')) \<noteq> ''complete''"
      "finished_stage sha context output execution0 managed = unfinished_output context output execution"
  | (complete) package evidence execution where "dget output ''report_package'' = PDict package"
      "validate_package sha package context = Inr evidence"
      "finished_stage sha context output execution0 managed = completed_output context output package evidence execution managed"
proof -
  note cases = blocked unfinished complete
  show thesis
  proof (cases "py_casefold (recovery_text (dget output ''status'')) \<noteq> ''complete''")
    case True
    then show thesis by (rule cases(2)) (rule trans [OF finished_stage_def if_P [OF True]])
  next
    case status: False
    note fin = trans [OF finished_stage_def if_not_P [OF status]]
    show thesis
    proof (cases "exact_identity_matches output context False")
      case False
      show thesis by (rule cases(1)) (rule trans [OF fin if_P [OF False]])
    next
      case True
      then have match: "\<not> \<not> exact_identity_matches output context False" by simp
      note fin = trans [OF trans [OF fin if_not_P [OF match]]]
      show thesis
      proof (cases "dget output ''report_package''")
        case (PDict package)
        show thesis
        proof (cases "validate_package sha package context")
          case (Inl reason)
          show thesis by (rule cases(1), rule fin) (simp only: PDict Inl py.case sum.case)
        next
          case (Inr evidence)
          show thesis by (rule cases(3) [OF PDict Inr], rule fin) (simp only: PDict Inr py.case sum.case)
        qed
      qed (rule cases(1), rule fin, simp only: py.case)+
    qed
  qed
qed

text \<open>What the checks of a package say.\<close>

lemma package_checked:
  assumes "\<forall>check \<in> set (package_checks sha p context). fst check"
  obtains pdf where "is_dict (dget p ''json'')" "py_strip (str_or_empty (dget p ''markdown'')) \<noteq> []"
    "py_strip (str_or_empty (dget p ''html'')) \<noteq> []" "is_hex_digest (recovery_text (dget p ''canonical_truth_sha256''))"
    "py_casefold (recovery_text (dget p ''canonical_truth_sha256'')) = json_digest sha (dget p ''json'')"
    "b64decode (recovery_text (dget p ''pdf_base64'')) = Some pdf" "starts_with ''%PDF'' pdf"
    "is_sha256_text (claimed_digest p ''pdf_sha256'')" "claimed_digest p ''pdf_sha256'' = sha pdf"
    "exact_identity_matches (package_identity (as_dict (dget p ''json''))) context True"
    "\<forall>(field, digest_field) \<in> {(''markdown'', ''markdown_sha256''), (''html'', ''html_sha256'')}.
       claimed_digest p digest_field \<noteq> [] \<longrightarrow> is_sha256_text (claimed_digest p digest_field) \<and>
         claimed_digest p digest_field = sha (utf8 (str_or_empty (dget p field)))"
  using assms unfolding package_checks_def text_digest_checks_def Let_def set_append ball_Un list.set ball_simps fst_conv
  by (elim conjE) auto

lemma dict_or_other: "(case v of PDict d \<Rightarrow> f d | _ \<Rightarrow> b) = x \<Longrightarrow> (\<exists>d. v = PDict d \<and> f d = x) \<or> b = x"
  by (cases v) auto

lemma execution_cases:
  assumes "execute_final_report_stage sha guards timeout provider managed in_time elapsed context = Inr out"
  obtains (blocked) reason message execution supported scope where "out = blocked_stage context reason message execution supported scope"
    | (finished) rendered execution where "out = finished_stage sha context rendered execution managed"
proof -
  obtain runtime where "guards = Inr runtime" using assms by (auto simp: execute_final_report_stage_def bind_res_eq_Inr)
  then have eq: "(case run_provider provider managed in_time context of
        TimedOut \<Rightarrow> Inr (blocked_stage context ''final_report_execution_timeout'' (timeout_message timeout)
          (execution_fields (if managed then None else Some timeout) managed elapsed runtime) True (Some ''final_report_only''))
      | Finished (Inl e) \<Rightarrow> Inl e
      | Finished (Inr (PDict rendered)) \<Rightarrow> Inr (finished_stage sha context rendered
          (execution_fields (if managed then None else Some timeout) managed elapsed runtime) managed)
      | Finished (Inr v) \<Rightarrow> Inr (blocked_stage context ''final_report_provider_invalid_result''
          ''The final report provider did not return a structured result.''
          (execution_fields (if managed then None else Some timeout) managed elapsed runtime) False None)) = Inr out"
    using assms by (simp only: execute_final_report_stage_def Let_def bind_res_simps)
  show thesis
  proof (cases "run_provider provider managed in_time context")
    case TimedOut
    with eq show ?thesis by (simp only: provider_run.case sum.inject) (rule blocked, rule sym)
  next
    case (Finished m)
    show ?thesis
    proof (cases m)
      case (Inl e)
      with eq Finished show ?thesis by (simp only: provider_run.case sum.case sum.distinct)
    next
      case (Inr v)
      show ?thesis
        using dict_or_other [OF eq [unfolded Finished Inr provider_run.case sum.case]] unfolding sum.inject
        by (elim disjE exE conjE) (rule finished, erule sym, rule blocked, erule sym)
    qed
  qed
qed

text \<open>
  C34. Whatever the provider returns, the result of the final stage keeps human review required and delivery
  blocked; and when it says complete, its package carries a PDF whose bytes have the claimed digest, a
  canonical report whose recomputed digest is the claimed one, and exactly the identity of the run.
\<close>

theorem complete_result_is_exact:
  assumes "execute_final_report_stage sha guards timeout provider managed in_time elapsed context = Inr out"
  shows "dget out ''human_review_required'' = PBool True \<and> dget out ''client_delivery_allowed'' = PBool False \<and>
    (py_casefold (recovery_text (dget out ''status'')) = ''complete'' \<longrightarrow>
      (\<forall>field \<in> set BOUNDARY_IDENTITY_FIELDS. dget out field = context_text context field) \<and>
      (\<exists>package pdf. dget out ''report_package'' = PDict package \<and>
        b64decode (recovery_text (dget package ''pdf_base64'')) = Some pdf \<and> starts_with ''%PDF'' pdf \<and>
        claimed_digest package ''pdf_sha256'' = sha pdf \<and>
        py_casefold (recovery_text (dget package ''canonical_truth_sha256'')) = json_digest sha (dget package ''json'') \<and>
        (\<forall>field \<in> set BOUNDARY_IDENTITY_FIELDS. recovery_text (dget context field) \<noteq> [] \<and>
          recovery_text (dget (package_identity (as_dict (dget package ''json''))) field) = recovery_text (dget context field))))"
proof -
  consider (blocked) reason message execution supported scope where "out = blocked_stage context reason message execution supported scope"
    | (finished) rendered execution where "out = finished_stage sha context rendered execution managed"
    using assms by (rule execution_cases)
  then show ?thesis
  proof cases
    case blocked
    then show ?thesis using blocked_is_not_complete by (simp add: blocked_stage_reads)
  next
    case (finished rendered execution0)
    show ?thesis
    proof (rule finished_stage_cases [of sha "context" rendered execution0 managed])
      fix reason message execution
      assume "finished_stage sha context rendered execution0 managed = blocked_stage context reason message execution False None"
      then show ?thesis using blocked_is_not_complete finished by (simp add: blocked_stage_reads)
    next
      fix execution
      assume "py_casefold (recovery_text (dget rendered ''status'')) \<noteq> ''complete''"
        "finished_stage sha context rendered execution0 managed = unfinished_output context rendered execution"
      then show ?thesis using finished by (simp add: unfinished_reads unfinished_status)
    next
      fix package evidence execution
      assume p: "dget rendered ''report_package'' = PDict package" and v: "validate_package sha package context = Inr evidence"
        and out: "finished_stage sha context rendered execution0 managed = completed_output context rendered package evidence execution managed"
      obtain pdf where pdf: "b64decode (recovery_text (dget package ''pdf_base64'')) = Some pdf" "starts_with ''%PDF'' pdf"
          "claimed_digest package ''pdf_sha256'' = sha pdf"
          "py_casefold (recovery_text (dget package ''canonical_truth_sha256'')) = json_digest sha (dget package ''json'')"
          "exact_identity_matches (package_identity (as_dict (dget package ''json''))) context True"
        by (rule package_checked [OF validate_package_Inr [OF v]]) (rule that)
      have ids: "\<forall>field \<in> set BOUNDARY_IDENTITY_FIELDS. recovery_text (dget context field) \<noteq> [] \<and>
          recovery_text (dget (package_identity (as_dict (dget package ''json''))) field) = recovery_text (dget context field)"
        using pdf(5) unfolding exact_identity_matches_def Let_def list_all_iff by blast
      have reads: "dget out ''human_review_required'' = PBool True" "dget out ''client_delivery_allowed'' = PBool False"
          "dget out ''report_package'' = PDict package" "\<forall>field \<in> set BOUNDARY_IDENTITY_FIELDS. dget out field = context_text context field"
        unfolding finished out by (rule completed_reads | intro ballI completed_reads)+
      show ?thesis using reads pdf(1-4) ids by blast
    qed
  qed
qed

section \<open>What the boundary completes is what the request layer serves\<close>

lemma b64_val_not_space: "b64_val c = Some n \<Longrightarrow> \<not> is_space c"
  by (auto simp: b64_val_def is_space_def Let_def split: if_splits)

lemma b64_not_space: "b64decode s = Some b \<Longrightarrow> \<forall>c \<in> set s. \<not> is_space c"
proof (induction s arbitrary: b rule: b64decode.induct)
  case (2 x y z u rest)
  have pad: "\<not> is_space (CHR ''='')" by code_simp
  show ?case using 2 pad by (auto simp: Let_def dest: b64_val_not_space split: option.splits if_splits)
qed simp_all

lemma recovery_text_PNone: "recovery_text PNone = []"
  using solid_text [of "[]"] by (simp add: recovery_text_def str_or_empty_def py_or_def)

lemma hex_digest_casefold:
  assumes "is_hex_digest s"
  shows "is_sha256_text (py_casefold s)"
proof -
  have "list_all (\<lambda>c. code_of c \<noteq> 223 \<and> lower_char c \<in> set ''0123456789abcdef'') ''0123456789abcdefABCDEF''" by code_simp
  then have low: "\<forall>c \<in> set s. code_of c \<noteq> 223 \<and> lower_char c \<in> set ''0123456789abcdef''"
    using assms unfolding is_hex_digest_def list_all_iff by blast
  have "(\<forall>c \<in> set s. code_of c \<noteq> 223) \<Longrightarrow> py_casefold s = map lower_char s" by (induction s) (auto simp: py_casefold_def)
  then have "py_casefold s = map lower_char s" using low by blast
  then show ?thesis using low assms unfolding is_sha256_text_def is_hex_digest_def by (simp only: length_map set_map) blast
qed

text \<open>The digest of the canonical report, as the boundary reads it and as the request layer reads it.\<close>

lemma completed_truth_bound:
  assumes "is_hex_digest (recovery_text (dget package ''canonical_truth_sha256''))"
    and "py_casefold (recovery_text (dget package ''canonical_truth_sha256'')) = json_digest sha (dget package ''json'')"
    and "exact_identity_matches (package_identity (as_dict (dget package ''json''))) context True"
  shows "canonical_truth_hash_integrity_bound sha package = Inr True"
proof -
  have hex: "\<forall>ch \<in> set (recovery_text (dget package ''canonical_truth_sha256'')). \<not> is_space ch"
    using assms(1) hex_not_space unfolding is_hex_digest_def list_all_iff by blast
  have truth: "sha_claim package ''canonical_truth_sha256'' = json_digest sha (dget package ''json'')"
    unfolding sha_claim_def solid_recovery_text [OF hex, symmetric] by (rule assms(2))
  have truth_hex: "is_sha256_text (sha_claim package ''canonical_truth_sha256'')"
    unfolding sha_claim_def solid_recovery_text [OF hex, symmetric] using assms(1) by (rule hex_digest_casefold)
  have "as_dict (dget package ''json'') \<noteq> []"
  proof
    assume "as_dict (dget package ''json'') = []"
    then have "dget (package_identity (as_dict (dget package ''json''))) ''run_id'' = PNone" by (simp add: package_identity_def)
    moreover have "''run_id'' \<in> set BOUNDARY_IDENTITY_FIELDS" by (simp add: BOUNDARY_IDENTITY_FIELDS_def)
    ultimately show False using assms(3) unfolding exact_identity_matches_def Let_def list_all_iff
      by (fastforce simp: recovery_text_PNone)
  qed
  then show ?thesis
    by (simp add: canonical_truth_hash_integrity_bound_def Let_def truth_hex [unfolded truth] truth)
qed

text \<open>
  C35. What the boundary completes, the request layer serves unless it carries an error of the PDF
  renderer: for a package that passed the validation of the boundary, with its texts as strings and
  without the manifest family of later reports, the integrity check that
  \<open>_final_report_package_integrity_bound\<close> makes before review, delivery or download succeeds exactly when
  \<open>pdf_error\<close> is blank (a field the boundary never looks at).
\<close>

theorem completed_report_is_served:
  assumes valid: "validate_package sha package context = Inr evidence"
    and texts: "dget package ''markdown'' = PStr markdown" "dget package ''html'' = PStr html" "dget package ''pdf_base64'' = PStr encoded"
    and plain: "\<not> manifest_family_claimed package"
  shows "final_report_package_integrity_bound sha package = Inr (text_of (dget package ''pdf_error'') = [])"
proof -
  obtain pdf where c: "is_dict (dget package ''json'')" "py_strip (str_or_empty (dget package ''markdown'')) \<noteq> []"
    "py_strip (str_or_empty (dget package ''html'')) \<noteq> []" "is_hex_digest (recovery_text (dget package ''canonical_truth_sha256''))"
    "py_casefold (recovery_text (dget package ''canonical_truth_sha256'')) = json_digest sha (dget package ''json'')"
    "b64decode (recovery_text (dget package ''pdf_base64'')) = Some pdf" "starts_with ''%PDF'' pdf"
    "is_sha256_text (claimed_digest package ''pdf_sha256'')" "claimed_digest package ''pdf_sha256'' = sha pdf"
    "exact_identity_matches (package_identity (as_dict (dget package ''json''))) context True"
    "\<forall>(field, digest_field) \<in> {(''markdown'', ''markdown_sha256''), (''html'', ''html_sha256'')}.
       claimed_digest package digest_field \<noteq> [] \<longrightarrow> is_sha256_text (claimed_digest package digest_field) \<and>
         claimed_digest package digest_field = sha (utf8 (str_or_empty (dget package field)))"
    by (rule package_checked [OF validate_package_Inr [OF valid]]) (rule that)
  have pdf: "pdf_bound sha package \<longleftrightarrow> text_of (dget package ''pdf_error'') = []"
  proof -
    have "recovery_text (dget package ''pdf_base64'') = py_strip encoded"
      using solid_recovery_text [OF b64_not_space [OF c(6)]] by (simp add: texts)
    moreover have "py_strip encoded \<noteq> []" using c(6,7) calculation by (auto simp: starts_with_def)
    moreover have "sha_claim package ''pdf_sha256'' = sha pdf" using claimed_digest_text [OF disjI2 [OF c(8)]] c(9) by simp
    ultimately show ?thesis using c(6-9) by (simp add: pdf_bound_def texts(3))
  qed
  have optional: "optional_digest_bound sha package field digest_field"
    if "(field, digest_field) \<in> {(''markdown'', ''markdown_sha256''), (''html'', ''html_sha256'')}" for field digest_field
  proof -
    have d: "claimed_digest package digest_field \<noteq> [] \<longrightarrow> is_sha256_text (claimed_digest package digest_field) \<and>
         claimed_digest package digest_field = sha (utf8 (str_or_empty (dget package field)))"
      using bspec [OF c(11) that] by (simp only: prod.case)
    then have "sha_claim package digest_field = claimed_digest package digest_field" by (intro claimed_digest_text) blast
    moreover have "str_or_empty (dget package field) = py_str (dget package field)" using that texts by auto
    ultimately show ?thesis using d unfolding optional_digest_bound_def Let_def by (simp only:) blast
  qed
  have "markdown \<noteq> []" "html \<noteq> []" using c(2,3) texts by (auto simp: py_strip_def)
  then show ?thesis
    using optional pdf completed_truth_bound [OF c(4,5,10)]
    by (simp add: final_report_package_integrity_bound_def given_text_def texts retained_manifest_integrity_bound_def plain)
qed

section \<open>A report that completes\<close>

definition sample_rendered :: dict where
  "sample_rendered = (''report_id'', PStr ''i'') # sample_report"

definition sample_context :: dict where
  "sample_context = [(''run_id'', PStr ''r''), (''repository'', PStr ''o''), (''commit_sha'', PStr ''c''), (''evidence_ledger_id'', PStr ''l'')]"

lemma sample_rendered_reads:
  "recovery_text (dget sample_rendered ''report_id'') = ''i''" "py_strip (str_or_empty (dget sample_rendered ''markdown'')) = ''m''"
  "py_strip (str_or_empty (dget sample_rendered ''html'')) = ''h''" "is_dict (dget sample_rendered ''json'')"
  "dget sample_rendered ''canonical_truth_sha256'' = PStr zeros" "dget sample_rendered ''pdf_sha256'' = PStr zeros"
  "dget sample_rendered ''markdown_sha256'' = PNone" "dget sample_rendered ''html_sha256'' = PNone"
  "recovery_text (dget sample_rendered ''pdf_base64'') = ''JVBERg==''" "b64decode ''JVBERg=='' = Some ''%PDF''" "starts_with ''%PDF'' ''%PDF''"
  "exact_identity_matches (package_identity (as_dict (dget sample_rendered ''json''))) sample_context True"
  "\<not> manifest_bearing_package sample_rendered (as_dict (dget sample_rendered ''json''))" "is_hex_digest zeros" "py_casefold zeros = zeros"
  by code_simp+

lemma sample_rendered_valid: "\<exists>evidence. validate_package (\<lambda>_. zeros) sample_rendered sample_context = Inr evidence"
proof -
  have "list_all (\<lambda>c. \<not> is_space c) zeros" by code_simp
  then have zt: "recovery_text (PStr zeros) = zeros" by (intro solid_text) (simp only: list_all_iff)
  have "list_all fst (package_checks (\<lambda>_. zeros) sample_rendered sample_context)"
    by (simp add: package_checks_def text_digest_checks_def Let_def claimed_digest_def sample_rendered_reads zt recovery_text_PNone
        sample_parts(1,2) zeros_digest py_casefold_def [of "[]"] del: b64decode.simps)
  then have "find (\<lambda>(ok, reason). \<not> ok) (package_checks (\<lambda>_. zeros) sample_rendered sample_context) = None"
    by (auto simp: find_None_iff list_all_iff)
  then show ?thesis by (simp add: validate_package_def)
qed

theorem completed_report_is_served_witness:
  "final_report_package_integrity_bound (\<lambda>_. zeros) sample_rendered = Inr True"
proof -
  obtain evidence where v: "validate_package (\<lambda>_. zeros) sample_rendered sample_context = Inr evidence"
    using sample_rendered_valid by blast
  have "dget sample_rendered ''markdown'' = PStr ''m''" "dget sample_rendered ''html'' = PStr ''h''"
    "dget sample_rendered ''pdf_base64'' = PStr ''JVBERg==''" "\<not> manifest_family_claimed sample_rendered" by code_simp+
  note served = completed_report_is_served [OF v this]
  have "text_of (dget sample_rendered ''pdf_error'') = []" by code_simp
  with served show ?thesis by simp
qed

theorem complete_result_is_exact_witness:
  "\<exists>out. execute_final_report_stage (\<lambda>_. zeros) (Inr []) 600
      (\<lambda>_. Inr (PDict [(''status'', PStr ''complete''), (''report_package'', PDict sample_rendered)])) True False PNone sample_context = Inr out \<and>
    dget out ''status'' = PStr ''complete'' \<and> dget out ''client_delivery_allowed'' = PBool False \<and>
    dget out ''run_id'' = context_text sample_context ''run_id''"
proof -
  let ?done = "[(''status'', PStr ''complete''), (''report_package'', PDict sample_rendered)]"
  let ?e = "execution_fields None True PNone []"
  obtain evidence where v: "validate_package (\<lambda>_. zeros) sample_rendered sample_context = Inr evidence"
    using sample_rendered_valid by blast
  have facts: "py_casefold (recovery_text (PStr ''complete'')) = ''complete''" "exact_identity_matches ?done sample_context False" by code_simp+
  let ?out = "completed_output sample_context ?done sample_rendered evidence (boundary_execution ?done ?e) True"
  have run: "execute_final_report_stage (\<lambda>_. zeros) (Inr []) 600 (\<lambda>_. Inr (PDict ?done)) True False PNone sample_context = Inr ?out"
    using facts v by (simp add: execute_final_report_stage_def run_provider_def finished_stage_def)
  have status: "dget ?out ''status'' = PStr ''complete''" by (simp add: completed_output_def gated_fields_def)
  note exact = complete_result_is_exact [OF run]
  have "py_casefold (recovery_text (dget ?out ''status'')) = ''complete''" by (simp only: status facts)
  from mp [OF conjunct2 [OF conjunct2 [OF exact]] this]
  have "\<forall>field \<in> set BOUNDARY_IDENTITY_FIELDS. dget ?out field = context_text sample_context field" by (rule conjunct1)
  moreover have "dget ?out ''client_delivery_allowed'' = PBool False" by (rule conjunct1 [OF conjunct2 [OF exact]])
  moreover have "''run_id'' \<in> set BOUNDARY_IDENTITY_FIELDS" by (simp add: BOUNDARY_IDENTITY_FIELDS_def)
  ultimately show ?thesis using run status by blast
qed

end
