(* ===== verification/SharedWorld.thy ===== *)
theory SharedWorld
  imports StoreGuarantees FinalReportBoundary
begin

text \<open>
  Operations that run beside others. What several threads and processes share is the store and, inside one
  process, the table of publication tasks with its objects and the slot of the renderer. An operation is a
  sequence of accesses; before each access anything that others do (\<open>pe_others\<close>, by the number of the access)
  has happened. An operation ends with a value or an exception. Clocks, identifiers and the
  start of threads are read by the number of the access too. The locale \<open>guarded_actions\<close> is the contract of
  such operations: an assertion about the world that every access keeps, and the moves it may make.
\<close>

section \<open>The world\<close>

text \<open>The recovery plan of a publication: the rewound record, and the claim of the next lease.\<close>

record lease_claim =
  cl_lease :: string
  cl_started :: rat
  cl_started_at :: string
  cl_record :: dict

record recovery_plan =
  pl_rewound :: "dict option"
  pl_claim :: "lease_claim option"

text \<open>The state object of a local task, with the variables its threads have captured.\<close>

record local_task =
  tk_lease :: string
  tk_context :: dict
  tk_stop :: bool
  tk_watchdog_stop :: bool
  tk_phase :: string
  tk_recovery_record :: "dict option"
  tk_plan :: recovery_plan
  tk_slot_acquired :: bool
  tk_slot_released :: bool
  tk_alive :: bool

text \<open>\<open>sh_tasks\<close> is the table by lease, an object is its position in \<open>sh_objects\<close>.\<close>

record shared =
  sh_db :: store_db
  sh_tasks :: "(string \<times> nat) list"
  sh_objects :: "local_task list"
  sh_slot_free :: bool

record world =
  w_shared :: shared
  w_tick :: nat
  w_plan :: recovery_plan

record ('c, 'd) pub_env =
  pe_store :: "('c, 'd) store_env"
  pe_others :: "nat \<Rightarrow> shared \<Rightarrow> shared"
  pe_clock :: "nat \<Rightarrow> rat"
  pe_now :: "nat \<Rightarrow> string"
  pe_uuid :: "nat \<Rightarrow> string"
  pe_getenv :: "string \<Rightarrow> string option"
  pe_float :: "rat \<Rightarrow> py"
  pe_starts :: "nat \<Rightarrow> bool"

definition empty_plan :: recovery_plan where
  "empty_plan = \<lparr>pl_rewound = None, pl_claim = None\<rparr>"

section \<open>Operations\<close>

type_synonym 'a act = "world \<Rightarrow> 'a res \<times> world"

definition give :: "'a \<Rightarrow> 'a act" where
  "give x w = (Inr x, w)"

definition raising :: "pyexc \<Rightarrow> 'a act" where
  "raising e w = (Inl e, w)"

definition lift_res :: "'a res \<Rightarrow> 'a act" where
  "lift_res r w = (r, w)"

definition andthen :: "'a act \<Rightarrow> ('a \<Rightarrow> 'b act) \<Rightarrow> 'b act" where
  "andthen m f w = (case m w of (Inl e, w') \<Rightarrow> (Inl e, w') | (Inr x, w') \<Rightarrow> f x w')"

definition catching :: "'a act \<Rightarrow> (pyexc \<Rightarrow> 'a act) \<Rightarrow> 'a act" where
  "catching m h w = (case m w of (Inl e, w') \<Rightarrow> h e w' | (Inr x, w') \<Rightarrow> (Inr x, w'))"

text \<open>\<open>except Exception\<close>, and \<open>except ComprehensiveRunConflict\<close> around a save: then there is no saved record.\<close>

definition except_any :: "'a act \<Rightarrow> 'a act \<Rightarrow> 'a act" where
  "except_any m h = catching m (\<lambda>e. case e of NoReturn \<Rightarrow> raising e | _ \<Rightarrow> h)"

definition unless_conflict :: "'a act \<Rightarrow> 'a option act" where
  "unless_conflict m = catching (andthen m (\<lambda>x. give (Some x)))
     (\<lambda>e. case e of RunConflict t \<Rightarrow> give None | _ \<Rightarrow> raising e)"

definition access :: "('c, 'd) pub_env \<Rightarrow> (shared \<Rightarrow> 'a res \<times> shared) \<Rightarrow> 'a act" where
  "access env f w = (let (r, s) = f (pe_others env (w_tick w) (w_shared w)) in
     (r, w\<lparr>w_shared := s, w_tick := Suc (w_tick w)\<rparr>))"

definition reading :: "(nat \<Rightarrow> 'a) \<Rightarrow> 'a act" where
  "reading f w = (Inr (f (w_tick w)), w\<lparr>w_tick := Suc (w_tick w)\<rparr>)"

definition the_plan :: "recovery_plan act" where
  "the_plan w = (Inr (w_plan w), w)"

definition set_plan :: "recovery_plan \<Rightarrow> unit act" where
  "set_plan p w = (Inr (), w\<lparr>w_plan := p\<rparr>)"

text \<open>A transaction on the store, and one on its job table.\<close>

definition store_tx :: "('c, 'd) pub_env \<Rightarrow> (store_db \<Rightarrow> ('a, store_db) tx) \<Rightarrow> 'a act" where
  "store_tx env f = access env (\<lambda>s. let (r, db) = f (sh_db s) in (r, s\<lparr>sh_db := db\<rparr>))"

definition job_tx :: "('c, 'd) pub_env \<Rightarrow> (job_table \<Rightarrow> ('a, job_table) tx) \<Rightarrow> 'a act" where
  "job_tx env f = store_tx env (\<lambda>db. let (r, jobs) = f (db_jobs db) in (r, db\<lparr>db_jobs := jobs\<rparr>))"

definition load_record :: "('c, 'd) pub_env \<Rightarrow> string \<Rightarrow> dict act" where
  "load_record env run_id = store_tx env (load_run (pe_store env) run_id)"

definition save_record :: "('c, 'd) pub_env \<Rightarrow> dict \<Rightarrow> int \<Rightarrow> string option \<Rightarrow> dict act" where
  "save_record env rec expected lease = andthen (reading (pe_clock env)) (\<lambda>now.
     store_tx env (save_run (pe_store env) now rec expected lease))"

definition load_job :: "('c, 'd) pub_env \<Rightarrow> string \<Rightarrow> job_row option act" where
  "load_job env lease = access env (\<lambda>s. (Inr (map_option snd (load_final_report_job lease (db_jobs (sh_db s)))), s))"

text \<open>Objects of tasks.\<close>

definition find_task :: "shared \<Rightarrow> string \<Rightarrow> nat option" where
  "find_task s lease = (case map_of (sh_tasks s) lease of
     Some i \<Rightarrow> if i < length (sh_objects s) then Some i else None
   | None \<Rightarrow> None)"

definition change_task :: "nat \<Rightarrow> (local_task \<Rightarrow> local_task) \<Rightarrow> shared \<Rightarrow> shared" where
  "change_task i f s = s\<lparr>sh_objects := (sh_objects s)[i := f (sh_objects s ! i)]\<rparr>"

definition task_field :: "('c, 'd) pub_env \<Rightarrow> nat \<Rightarrow> (local_task \<Rightarrow> 'a) \<Rightarrow> 'a act" where
  "task_field env i f = access env (\<lambda>s.
     if i < length (sh_objects s) then (Inr (f (sh_objects s ! i)), s) else (Inl (KeyError ''task''), s))"

definition set_task :: "('c, 'd) pub_env \<Rightarrow> nat \<Rightarrow> (local_task \<Rightarrow> local_task) \<Rightarrow> unit act" where
  "set_task env i f = access env (\<lambda>s. (Inr (), change_task i f s))"

section \<open>Reasoning about operations\<close>

text \<open>
  An assertion about the world that holds before and after every access, and a
  preorder of moves. \<open>ensures good moves m Q\<close>: from an asserted world \<open>m\<close> moves to an asserted world, and a value it
  returns satisfies \<open>Q\<close>.
\<close>

definition ensures :: "(world \<Rightarrow> bool) \<Rightarrow> (world \<Rightarrow> world \<Rightarrow> bool) \<Rightarrow> 'a act \<Rightarrow> ('a \<Rightarrow> bool) \<Rightarrow> bool" where
  "ensures good moves m Q \<longleftrightarrow>
    (\<forall>w r w'. good w \<longrightarrow> m w = (r, w') \<longrightarrow> good w' \<and> moves w w' \<and> (\<forall>x. r = Inr x \<longrightarrow> Q x))"

locale guarded_actions =
  fixes good :: "world \<Rightarrow> bool" and moves :: "world \<Rightarrow> world \<Rightarrow> bool"
  assumes moves_refl: "moves w w"
    and moves_trans: "moves w w' \<Longrightarrow> moves w' w'' \<Longrightarrow> moves w w''"
    and tick_free: "good (w\<lparr>w_tick := n\<rparr>) = good w" "moves w (w\<lparr>w_tick := n\<rparr>)"
begin

lemma ensuresI:
  "(\<And>w r w'. good w \<Longrightarrow> m w = (r, w') \<Longrightarrow> good w' \<and> moves w w' \<and> (\<forall>x. r = Inr x \<longrightarrow> Q x)) \<Longrightarrow> ensures good moves m Q"
  by (simp add: ensures_def)

lemma ensuresD:
  "ensures good moves m Q \<Longrightarrow> good w \<Longrightarrow> m w = (r, w') \<Longrightarrow> good w' \<and> moves w w' \<and> (\<forall>x. r = Inr x \<longrightarrow> Q x)"
  unfolding ensures_def by blast

lemma ensures_weaken: "ensures good moves m P \<Longrightarrow> (\<And>x. P x \<Longrightarrow> Q x) \<Longrightarrow> ensures good moves m Q"
  unfolding ensures_def by blast

lemma ensures_give [intro]: "Q x \<Longrightarrow> ensures good moves (give x) Q"
  by (simp add: ensures_def give_def moves_refl)

lemma ensures_raising [intro]: "ensures good moves (raising e) Q"
  by (simp add: ensures_def raising_def moves_refl)

lemma ensures_lift [intro]: "(\<And>x. r = Inr x \<Longrightarrow> Q x) \<Longrightarrow> ensures good moves (lift_res r) Q"
  by (simp add: ensures_def lift_res_def moves_refl)

lemma ensures_reading: "(\<And>n. Q (f n)) \<Longrightarrow> ensures good moves (reading f) Q"
  by (simp add: ensures_def reading_def tick_free)

lemma ensures_andthen:
  assumes "ensures good moves m P" and "\<And>x. P x \<Longrightarrow> ensures good moves (f x) Q"
  shows "ensures good moves (andthen m f) Q"
proof (rule ensuresI)
  fix w r w'
  assume w: "good w" "andthen m f w = (r, w')"
  obtain r1 w1 where m: "m w = (r1, w1)" by (cases "m w")
  note first = ensuresD [OF assms(1) w(1) m]
  show "good w' \<and> moves w w' \<and> (\<forall>x. r = Inr x \<longrightarrow> Q x)"
  proof (cases r1)
    case (Inl e)
    then show ?thesis using w(2) m first by (auto simp: andthen_def)
  next
    case (Inr x)
    then have "f x w1 = (r, w')" using w(2) m by (simp add: andthen_def)
    from ensuresD [OF assms(2) _ this] first Inr show ?thesis using moves_trans by blast
  qed
qed

lemma ensures_catching:
  assumes "ensures good moves m Q" and "\<And>e. ensures good moves (h e) Q"
  shows "ensures good moves (catching m h) Q"
proof (rule ensuresI)
  fix w r w'
  assume w: "good w" "catching m h w = (r, w')"
  obtain r1 w1 where m: "m w = (r1, w1)" by (cases "m w")
  note first = ensuresD [OF assms(1) w(1) m]
  show "good w' \<and> moves w w' \<and> (\<forall>x. r = Inr x \<longrightarrow> Q x)"
  proof (cases r1)
    case (Inl e)
    then have "h e w1 = (r, w')" using w(2) m by (simp add: catching_def)
    from ensuresD [OF assms(2) _ this] first show ?thesis using moves_trans by blast
  next
    case (Inr x)
    then show ?thesis using w(2) m first by (simp add: catching_def)
  qed
qed

lemma ensures_any:
  assumes "ensures good moves m Q" and "ensures good moves h Q"
  shows "ensures good moves (except_any m h) Q"
  unfolding except_any_def by (rule ensures_catching [OF assms(1)]) (auto intro: assms(2) split: pyexc.split)

lemma ensures_conflict:
  assumes "ensures good moves m Q"
  shows "ensures good moves (unless_conflict m) (\<lambda>r. \<forall>x. r = Some x \<longrightarrow> Q x)"
  unfolding unless_conflict_def
  by (rule ensures_catching, rule ensures_andthen [OF assms]) (auto split: pyexc.split)

text \<open>An access keeps the assertion when both the others and the access itself do.\<close>

lemma ensures_access:
  assumes others: "\<And>w. good w \<Longrightarrow> good (w\<lparr>w_shared := pe_others env (w_tick w) (w_shared w)\<rparr>) \<and>
      moves w (w\<lparr>w_shared := pe_others env (w_tick w) (w_shared w)\<rparr>)"
    and own: "\<And>w r s. good w \<Longrightarrow> f (w_shared w) = (r, s) \<Longrightarrow>
      good (w\<lparr>w_shared := s\<rparr>) \<and> moves w (w\<lparr>w_shared := s\<rparr>) \<and> (\<forall>x. r = Inr x \<longrightarrow> Q x)"
  shows "ensures good moves (access env f) Q"
proof (rule ensuresI)
  fix w r w'
  assume w: "good w" "access env f w = (r, w')"
  let ?o = "w\<lparr>w_shared := pe_others env (w_tick w) (w_shared w)\<rparr>"
  obtain s where s: "f (w_shared ?o) = (r, s)" and w': "w' = (?o\<lparr>w_shared := s\<rparr>)\<lparr>w_tick := Suc (w_tick w)\<rparr>"
    using w(2) by (auto simp: access_def split: prod.splits)
  have o: "good ?o" "moves w ?o" using others [OF w(1)] by blast+
  note f = own [OF o(1) s]
  then show "good w' \<and> moves w w' \<and> (\<forall>x. r = Inr x \<longrightarrow> Q x)"
    unfolding w' tick_free(1) using o(2) moves_trans tick_free(2) by blast
qed

end

end
