(* ===== verification/ReportPublication.thy ===== *)
theory ReportPublication
  imports SharedWorld
begin

text \<open>
  The durable publication of the final report (\<open>nico/comprehensive_final_report_background_v1.py\<close>). The run
  receives a small running marker with a lease, a row of the job table holds the heartbeat of the lease, and
  a local task with three threads (heartbeat, watchdog, renderer) works on it: an expired lease is replaced by a
  blocked result and one recovery, and a result is saved only under its own lease. Each function is an
  operation of \<open>SharedWorld\<close>; the loops of the threads are given by one turn each. The locks only make
  interleavings impossible that the model allows. The hook \<open>recover_deadline\<close> of the process-isolated
  renderer, which no function of this module sets, is not modelled.
\<close>

section \<open>Tables and configuration\<close>

definition COORDINATOR_VERSION :: string where
  "COORDINATOR_VERSION = ''nico.comprehensive_final_report_background.v6''"

definition RUNNING_REASON :: string where
  "RUNNING_REASON = ''final_report_background_publication_in_progress''"

definition ACTIVE_JOB_STATUSES :: "string list" where
  "ACTIVE_JOB_STATUSES = [''queued'', ''rendering'', ''running'']"

definition TERMINAL_JOB_STATUSES :: "string list" where
  "TERMINAL_JOB_STATUSES = [''complete'', ''blocked'', ''failed'', ''cancelled'', ''superseded'', ''expired'']"

definition bounded_seconds :: "(string \<Rightarrow> string option) \<Rightarrow> string \<Rightarrow> rat \<Rightarrow> rat \<Rightarrow> rat \<Rightarrow> rat" where
  "bounded_seconds getenv name fallback minimum maximum =
    (let seconds = (case getenv name of
         None \<Rightarrow> fallback
       | Some t \<Rightarrow> (case py_float (PStr t) of Inl e \<Rightarrow> fallback | Inr (m, k) \<Rightarrow> of_int m / 10 ^ k))
     in max minimum (min maximum seconds))"

definition heartbeat_seconds :: "(string \<Rightarrow> string option) \<Rightarrow> rat" where
  "heartbeat_seconds getenv = bounded_seconds getenv ''NICO_COMPREHENSIVE_FINAL_REPORT_HEARTBEAT_SECONDS'' 5 1 30"

definition orphan_seconds :: "(string \<Rightarrow> string option) \<Rightarrow> rat" where
  "orphan_seconds getenv = bounded_seconds getenv ''NICO_COMPREHENSIVE_FINAL_REPORT_ORPHAN_SECONDS'' 30 10 300"

definition max_publication_seconds :: "(string \<Rightarrow> string option) \<Rightarrow> rat" where
  "max_publication_seconds getenv =
     bounded_seconds getenv ''NICO_COMPREHENSIVE_FINAL_REPORT_MAX_PUBLICATION_SECONDS'' 900 120 7200"

definition max_queue_seconds :: "(string \<Rightarrow> string option) \<Rightarrow> rat" where
  "max_queue_seconds getenv = bounded_seconds getenv ''NICO_COMPREHENSIVE_FINAL_REPORT_MAX_QUEUE_SECONDS'' 7200 120 14400"

section \<open>The marker of a publication\<close>

definition publication_marker :: "dict \<Rightarrow> dict" where
  "publication_marker record =
    (let marker = as_dict (dget (as_dict (dget record ''stage_results'')) FINAL_REPORT_STAGE) in
     if py_casefold (recovery_text (dget marker ''status'')) \<noteq> ''running'' then []
     else if recovery_text (dget marker ''reason'') \<noteq> RUNNING_REASON then []
     else marker)"

definition marker_lease :: "dict \<Rightarrow> string" where
  "marker_lease record =
    (case dget (publication_marker record) ''stage_execution'' of
       PDict execution \<Rightarrow> recovery_text (dget execution ''lease_id'')
     | _ \<Rightarrow> [])"

section \<open>Freshness and deadline of a job\<close>

definition job_status_text :: "job_row \<Rightarrow> string" where
  "job_status_text job = py_casefold (recovery_text (PStr (jr_status job)))"

definition job_fresh :: "(string \<Rightarrow> string option) \<Rightarrow> job_row option \<Rightarrow> rat \<Rightarrow> bool" where
  "job_fresh getenv job now =
    (case job of
       None \<Rightarrow> False
     | Some row \<Rightarrow> job_status_text row \<in> set ACTIVE_JOB_STATUSES \<and> jr_heartbeat row > 0 \<and>
         max 0 (now - jr_heartbeat row) < orphan_seconds getenv)"

record deadline_state =
  dl_active :: bool
  dl_overdue :: bool
  dl_phase :: string
  dl_started :: rat
  dl_elapsed :: rat
  dl_seconds :: rat

definition idle_deadline :: "string \<Rightarrow> deadline_state" where
  "idle_deadline phase = \<lparr>dl_active = False, dl_overdue = False, dl_phase = phase, dl_started = 0, dl_elapsed = 0, dl_seconds = 0\<rparr>"

definition job_deadline_state :: "(string \<Rightarrow> string option) \<Rightarrow> job_row option \<Rightarrow> rat \<Rightarrow> deadline_state" where
  "job_deadline_state getenv job now =
    (case job of
       None \<Rightarrow> idle_deadline ''missing''
     | Some row \<Rightarrow>
        (let status = job_status_text row in
         if status \<notin> set ACTIVE_JOB_STATUSES then idle_deadline (if status = [] then ''unknown'' else status)
         else
          (let started = jr_started row; phase = (if status = ''queued'' then ''queued'' else ''rendering'');
               seconds = (if phase = ''queued'' then max_queue_seconds getenv else max_publication_seconds getenv);
               elapsed = (if started > 0 then max 0 (now - started) else 0) in
           \<lparr>dl_active = True, dl_overdue = started > 0 \<and> elapsed \<ge> seconds, dl_phase = phase, dl_started = started,
            dl_elapsed = elapsed, dl_seconds = seconds\<rparr>)))"

section \<open>Results\<close>

definition context_identity :: "dict \<Rightarrow> dict" where
  "context_identity context = map (\<lambda>k. (k, context_text context k)) [''run_id'', ''repository'', ''commit_sha'', ''evidence_ledger_id'']"

definition running_result :: "('c, 'd) pub_env \<Rightarrow> dict \<Rightarrow> string \<Rightarrow> rat \<Rightarrow> dict" where
  "running_result env context lease_id started =
    [(''status'', PStr ''running''), (''reason'', PStr RUNNING_REASON),
     (''summary'', PStr (''Final report generation is continuing behind the durable exact-run '' @
        ''boundary without holding the browser continuation request open.'')),
     (''retryable'', PBool False), (''cancelable'', PBool True), (''artifacts_available'', PBool False)] @
    context_identity context @ gated_fields @
    [(''stage_execution'', PDict ([(''artifact_schema'', PStr COORDINATOR_VERSION), (''mode'', PStr ''durable_final_report_publication''),
      (''lease_id'', PStr lease_id), (''started_epoch'', pe_float env started), (''publication_phase_at_claim'', PStr ''queued''),
      (''heartbeat_interval_seconds'', pe_float env (heartbeat_seconds (pe_getenv env))),
      (''orphan_after_seconds'', pe_float env (orphan_seconds (pe_getenv env))),
      (''max_queue_seconds'', pe_float env (max_queue_seconds (pe_getenv env))),
      (''max_publication_seconds'', pe_float env (max_publication_seconds (pe_getenv env))),
      (''publication_deadline_scope'', PStr ''renderer_execution_only''),
      (''deadline_enforcement_mode'', PStr ''autonomous_watchdog_and_advance''), (''automatic_bounded_recovery'', PBool True),
      (''expired_worker_capacity_reclaim'', PBool True), (''late_result_fencing'', PStr ''canonical_publication_lease''),
      (''detached_background_execution'', PBool True), (''canonical_run_write_pending'', PBool True),
      (''canonical_run_written_by_final_report_coordinator'', PBool True),
      (''canonical_run_written_only_by_request_thread'', PBool False), (''full_result_job_serialization'', PBool False),
      (''exact_run_recovery_supported'', PBool True), (''provider_lifetime_owner'', PStr ''durable_final_report_coordinator''),
      (''nested_timeout_thread'', PBool False), (''process_local_render_capacity'', PInt 1)] @ gated_fields))]"

definition overdue_message :: "string \<Rightarrow> string" where
  "overdue_message phase =
    (if phase = ''queued''
     then ''Final report publication could not acquire bounded renderer capacity before '' @
       ''the durable queue deadline. The exact run can retry final-report publication '' @
       ''without rerunning completed scanners.''
     else ''Final report rendering exceeded the durable renderer-execution deadline. '' @
       ''The exact run can retry final-report publication without rerunning completed scanners.'')"

definition OVERDUE_REASON :: string where
  "OVERDUE_REASON = ''final_report_publication_deadline_exceeded''"

definition recovery_offer :: dict where
  "recovery_offer = [(''recovery_supported'', PBool True), (''recovery_scope'', PStr ''final_report_only'')]"

definition overdue_result :: "('c, 'd) pub_env \<Rightarrow> dict \<Rightarrow> string \<Rightarrow> deadline_state \<Rightarrow> dict" where
  "overdue_result env context lease_id deadline =
    (let phase = (let t = recovery_text (PStr (dl_phase deadline)) in if t = [] then ''rendering'' else t) in
     [(''status'', PStr ''blocked''), (''reason'', PStr OVERDUE_REASON), (''error_code'', PStr OVERDUE_REASON),
      (''error_message'', PStr (overdue_message phase)),
      (''technical_reason'', PStr (OVERDUE_REASON @ '':stage='' @ FINAL_REPORT_STAGE @ '':phase='' @ phase)),
      (''retryable'', PBool True), (''cancelable'', PBool True), (''artifacts_available'', PBool False)] @
     recovery_offer @ context_identity context @ gated_fields @
     [(''stage_execution'', PDict ([(''artifact_schema'', PStr COORDINATOR_VERSION), (''mode'', PStr ''durable_final_report_publication''),
       (''publication_lease_id'', PStr lease_id), (''deadline_phase'', PStr phase),
       (''started_epoch'', pe_float env (dl_started deadline)), (''elapsed_seconds'', pe_float env (dl_elapsed deadline)),
       (''deadline_seconds'', pe_float env (dl_seconds deadline)),
       (''max_queue_seconds'', pe_float env (max_queue_seconds (pe_getenv env))),
       (''max_publication_seconds'', pe_float env (max_publication_seconds (pe_getenv env))),
       (''publication_deadline_scope'', PStr ''renderer_execution_only''),
       (''deadline_enforced_by'', PStr ''durable_final_report_coordinator_watchdog_or_advance''),
       (''deadline_enforcement_mode'', PStr ''autonomous_watchdog_and_advance''), (''automatic_bounded_recovery'', PBool True),
       (''expired_worker_capacity_reclaim'', PBool True), (''late_result_fencing'', PStr ''canonical_publication_lease''),
       (''provider_lifetime_owner'', PStr ''durable_final_report_coordinator''), (''nested_timeout_thread'', PBool False),
       (''detached_background_execution'', PBool True), (''canonical_run_write_required'', PBool True)] @
       recovery_offer @ gated_fields))])"

definition with_publication_metadata :: "('c, 'd) pub_env \<Rightarrow> dict \<Rightarrow> string \<Rightarrow> rat \<Rightarrow> dict" where
  "with_publication_metadata env result lease_id started =
    dupdate (dset result ''stage_execution'' (PDict (dupdate (as_dict (dget result ''stage_execution''))
      [(''publication_coordinator_schema'', PStr COORDINATOR_VERSION), (''publication_lease_id'', PStr lease_id),
       (''publication_phase'', PStr ''published''), (''render_started_epoch'', pe_float env started),
       (''detached_background_execution'', PBool True), (''canonical_run_write_required'', PBool True),
       (''canonical_run_written_by_final_report_coordinator'', PBool True),
       (''canonical_run_written_only_by_request_thread'', PBool False), (''full_result_job_serialization'', PBool False),
       (''provider_lifetime_owner'', PStr ''durable_final_report_coordinator''), (''nested_timeout_thread'', PBool False),
       (''process_local_render_capacity'', PInt 1),
       (''max_queue_seconds'', pe_float env (max_queue_seconds (pe_getenv env))),
       (''max_publication_seconds'', pe_float env (max_publication_seconds (pe_getenv env))),
       (''publication_deadline_scope'', PStr ''renderer_execution_only''),
       (''deadline_enforcement_mode'', PStr ''autonomous_watchdog_and_advance''), (''automatic_bounded_recovery'', PBool True),
       (''expired_worker_capacity_reclaim'', PBool True), (''late_result_fencing'', PStr ''canonical_publication_lease'')])))
     gated_fields"

section \<open>Local tasks\<close>

definition live_task :: "shared \<Rightarrow> string \<Rightarrow> bool" where
  "live_task s lease_id =
    (let lease = recovery_text (PStr lease_id) in
     case (if lease = [] then None else find_task s lease) of
       None \<Rightarrow> False
     | Some i \<Rightarrow> \<not> tk_stop (sh_objects s ! i) \<and> tk_alive (sh_objects s ! i))"

definition local_task_active :: "('c, 'd) pub_env \<Rightarrow> string \<Rightarrow> bool act" where
  "local_task_active env lease_id = access env (\<lambda>s. (Inr (live_task s lease_id), s))"

definition release_local_task_capacity :: "('c, 'd) pub_env \<Rightarrow> nat \<Rightarrow> unit act" where
  "release_local_task_capacity env i =
    andthen (access env (\<lambda>s.
      if i < length (sh_objects s) \<and> tk_slot_acquired (sh_objects s ! i) \<and> \<not> tk_slot_released (sh_objects s ! i)
      then (Inr True, change_task i (\<lambda>t. t\<lparr>tk_slot_released := True\<rparr>) s) else (Inr False, s)))
    (\<lambda>should_release. if should_release then access env (\<lambda>s. (Inr (), s\<lparr>sh_slot_free := True\<rparr>)) else give ())"

text \<open>\<open>_LOCAL_TASKS.pop\<close> when the entry of the lease is this object.\<close>

definition forget_task :: "string \<Rightarrow> nat \<Rightarrow> shared \<Rightarrow> shared" where
  "forget_task lease_id i s = (if map_of (sh_tasks s) lease_id = Some i then s\<lparr>sh_tasks := AList.delete lease_id (sh_tasks s)\<rparr> else s)"

definition stop_local_task :: "('c, 'd) pub_env \<Rightarrow> string \<Rightarrow> unit act" where
  "stop_local_task env lease_id =
    andthen (access env (\<lambda>s. case find_task s lease_id of
        None \<Rightarrow> (Inr None, s)
      | Some i \<Rightarrow> (Inr (Some i), if tk_recovery_record (sh_objects s ! i) = None then forget_task lease_id i s else s)))
    (\<lambda>found. case found of
        None \<Rightarrow> give ()
      | Some i \<Rightarrow> andthen (set_task env i (\<lambda>t. t\<lparr>tk_stop := True\<rparr>)) (\<lambda>_. release_local_task_capacity env i))"

section \<open>Jobs\<close>

definition safe_job_update :: "('c, 'd) pub_env \<Rightarrow> string \<Rightarrow> string \<Rightarrow> unit act" where
  "safe_job_update env lease_id status = except_any
    (let target = py_casefold (recovery_text (PStr status)) in
     andthen (load_job env lease_id) (\<lambda>current.
     let current_status = (case current of None \<Rightarrow> [] | Some job \<Rightarrow> job_status_text job) in
     if current_status \<in> set TERMINAL_JOB_STATUSES \<and> current_status \<noteq> target then give ()
     else
       andthen (reading (pe_clock env)) (\<lambda>heartbeat.
       andthen (reading (pe_now env)) (\<lambda>now.
       andthen (job_tx env (update_final_report_job lease_id target heartbeat now None)) (\<lambda>_. give ())))))
    (give ())"

definition transition_job_to_rendering :: "('c, 'd) pub_env \<Rightarrow> string \<Rightarrow> rat \<Rightarrow> bool act" where
  "transition_job_to_rendering env lease_id started = except_any
    (andthen (reading (pe_now env)) (\<lambda>now.
       job_tx env (transition_final_report_job_to_rendering lease_id started started now)))
    (give False)"

section \<open>Claiming a publication\<close>

definition run_revision :: "dict \<Rightarrow> int res" where
  "run_revision record = py_int (py_or (dget record ''revision'') (PInt 0))"

definition expected_revision :: "dict \<Rightarrow> int res" where
  "expected_revision record = bind_res (dindex record ''revision'') py_int"

definition same_record :: "dict \<Rightarrow> dict \<Rightarrow> bool" where
  "same_record r r' \<longleftrightarrow> py_eq (PDict r) (PDict r')"

definition apply_final_stage :: "('c, 'd) pub_env \<Rightarrow> dict \<Rightarrow> dict \<Rightarrow> dict act" where
  "apply_final_stage env record result = andthen (reading (pe_now env)) (\<lambda>now.
     lift_res (apply_comprehensive_stage_result (se_sha (pe_store env)) (se_operator (pe_store env)) now record FINAL_REPORT_STAGE result))"

text \<open>
  \<open>_start_worker\<close>: the object is registered under the lease, then the three threads start; when one cannot be
  started the task is undone.
\<close>

definition new_task :: "string \<Rightarrow> dict \<Rightarrow> local_task" where
  "new_task lease_id context = \<lparr>tk_lease = lease_id, tk_context = context, tk_stop = False, tk_watchdog_stop = False,
     tk_phase = ''queued'', tk_recovery_record = None, tk_plan = empty_plan, tk_slot_acquired = False,
     tk_slot_released = False, tk_alive = True\<rparr>"

definition register_task :: "string \<Rightarrow> dict \<Rightarrow> shared \<Rightarrow> nat res \<times> shared" where
  "register_task lease_id context s =
    (let i = length (sh_objects s) in
     (Inr i, s\<lparr>sh_objects := sh_objects s @ [new_task lease_id context], sh_tasks := AList.update lease_id i (sh_tasks s)\<rparr>))"

definition start_worker :: "('c, 'd) pub_env \<Rightarrow> string \<Rightarrow> dict \<Rightarrow> unit act" where
  "start_worker env lease_id context =
    andthen (access env (register_task lease_id context)) (\<lambda>i.
    andthen (reading (pe_starts env)) (\<lambda>started.
      if started then give ()
      else
        andthen (set_task env i (\<lambda>t. t\<lparr>tk_stop := True, tk_watchdog_stop := True\<rparr>)) (\<lambda>_.
        andthen (release_local_task_capacity env i) (\<lambda>_.
        andthen (safe_job_update env lease_id ''failed'') (\<lambda>_.
        andthen (access env (\<lambda>s. (Inr (), forget_task lease_id i s))) (\<lambda>_.
          raising (RuntimeError ''can't start new thread'')))))))"

text \<open>The claim of \<open>_claim_and_launch\<close>: made once, and kept in the recovery plan when there is one.\<close>

definition make_claim :: "('c, 'd) pub_env \<Rightarrow> dict \<Rightarrow> dict \<Rightarrow> bool \<Rightarrow> lease_claim act" where
  "make_claim env record context supervised =
    andthen (reading (pe_uuid env)) (\<lambda>uuid.
    andthen (reading (pe_clock env)) (\<lambda>started.
    andthen (reading (pe_now env)) (\<lambda>started_at.
    let lease_id = ''frpub_'' @ uuid in
    andthen (apply_final_stage env record (running_result env context lease_id started)) (\<lambda>updated.
    let claim = \<lparr>cl_lease = lease_id, cl_started = started, cl_started_at = started_at, cl_record = updated\<rparr> in
    andthen the_plan (\<lambda>plan.
    andthen (if supervised then set_plan (plan\<lparr>pl_claim := Some claim\<rparr>) else give ()) (\<lambda>_. give claim))))))"

definition the_claim :: "('c, 'd) pub_env \<Rightarrow> dict \<Rightarrow> dict \<Rightarrow> bool \<Rightarrow> lease_claim act" where
  "the_claim env record context supervised = andthen the_plan (\<lambda>plan.
     case (if supervised then pl_claim plan else None) of
       Some claim \<Rightarrow> give claim
     | None \<Rightarrow> make_claim env record context supervised)"

definition create_job :: "('c, 'd) pub_env \<Rightarrow> lease_claim \<Rightarrow> string \<Rightarrow> unit act" where
  "create_job env claim run_id = andthen
     (job_tx env (create_final_report_job (cl_lease claim) run_id (cl_started claim) (cl_started claim) (cl_started_at claim) ''queued''))
     (\<lambda>_. give ())"

text \<open>The job row, the save of the marker and the start of the worker.\<close>

definition launch_claim :: "('c, 'd) pub_env \<Rightarrow> dict \<Rightarrow> dict \<Rightarrow> bool \<Rightarrow> lease_claim \<Rightarrow> dict act" where
  "launch_claim env record context supervised claim =
    (let run_id = recovery_text (dget context ''run_id''); lease_id = cl_lease claim in
     andthen (if supervised then load_job env lease_id else give None) (\<lambda>job.
     andthen (if \<not> supervised \<or> job = None then create_job env claim run_id else give ()) (\<lambda>_.
     andthen (lift_res (expected_revision record)) (\<lambda>expected.
     andthen (unless_conflict (save_record env (cl_record claim) expected None)) (\<lambda>saved.
       case saved of
         None \<Rightarrow> andthen (safe_job_update env lease_id ''superseded'') (\<lambda>_. load_record env run_id)
       | Some claimed \<Rightarrow> andthen (start_worker env lease_id context) (\<lambda>_. give claimed))))))"

definition claim_and_launch :: "('c, 'd) pub_env \<Rightarrow> dict \<Rightarrow> dict \<Rightarrow> bool \<Rightarrow> dict act" where
  "claim_and_launch env record context supervised =
    andthen (the_claim env record context supervised) (\<lambda>claim.
    if \<not> supervised then launch_claim env record context False claim
    else
      andthen (load_record env (recovery_text (dget context ''run_id''))) (\<lambda>latest.
      if same_record latest (cl_record claim) then
        andthen (local_task_active env (cl_lease claim)) (\<lambda>active.
        andthen (if active then give () else start_worker env (cl_lease claim) context) (\<lambda>_. give latest))
      else if \<not> same_record latest record then
        andthen (if marker_lease latest \<noteq> cl_lease claim then safe_job_update env (cl_lease claim) ''superseded'' else give ())
          (\<lambda>_. give latest)
      else launch_claim env record context True claim))"

section \<open>Expiry and recovery\<close>

definition expire_publication :: "('c, 'd) pub_env \<Rightarrow> dict \<Rightarrow> string \<Rightarrow> dict \<Rightarrow> dict act" where
  "expire_publication env record lease_id context =
    (let run_id = recovery_text (dget context ''run_id'') in
     andthen (load_record env run_id) (\<lambda>latest.
     andthen (lift_res (run_revision latest)) (\<lambda>latest_revision.
     andthen (lift_res (run_revision record)) (\<lambda>revision.
     if latest_revision \<noteq> revision then give latest
     else if marker_lease latest \<noteq> lease_id then give latest
     else
       andthen (load_job env lease_id) (\<lambda>job.
       andthen (reading (pe_clock env)) (\<lambda>now.
       let deadline = job_deadline_state (pe_getenv env) job now in
       if \<not> dl_overdue deadline then give latest
       else
         andthen (lift_res (expected_revision latest)) (\<lambda>expected.
         andthen (apply_final_stage env latest (overdue_result env context lease_id deadline)) (\<lambda>updated.
         andthen (unless_conflict (save_record env updated expected None)) (\<lambda>saved.
           case saved of
             None \<Rightarrow> load_record env run_id
           | Some persisted \<Rightarrow>
               andthen (access env (\<lambda>s. (Inr (find_task s lease_id), s))) (\<lambda>found.
               andthen (case found of
                   Some i \<Rightarrow> set_task env i (\<lambda>t. t\<lparr>tk_recovery_record := Some persisted\<rparr>)
                 | None \<Rightarrow> give ()) (\<lambda>_.
               andthen (stop_local_task env lease_id) (\<lambda>_.
               andthen (safe_job_update env lease_id ''expired'') (\<lambda>_. give persisted))))))))))))) "

text \<open>The rewound record of the plan; when recovery raises there is none.\<close>

definition rewind_attempt :: "('c, 'd) pub_env \<Rightarrow> dict \<Rightarrow> string \<Rightarrow> dict option" where
  "rewind_attempt env record now =
    (case rewind_blocked_run_for_final_artifact_recovery (se_sha (pe_store env)) (se_operator (pe_store env)) record now of
       Inl e \<Rightarrow> None
     | Inr rewound \<Rightarrow> Some rewound)"

definition planned_rewind :: "('c, 'd) pub_env \<Rightarrow> dict \<Rightarrow> dict option act" where
  "planned_rewind env record = andthen the_plan (\<lambda>plan.
     case pl_rewound plan of
       Some rewound \<Rightarrow> give (Some rewound)
     | None \<Rightarrow>
         andthen (reading (pe_now env)) (\<lambda>now.
         case rewind_attempt env record now of
           None \<Rightarrow> give None
         | Some rewound \<Rightarrow> andthen (set_plan (plan\<lparr>pl_rewound := Some rewound\<rparr>)) (\<lambda>_. give (Some rewound))))"

definition relaunch :: "('c, 'd) pub_env \<Rightarrow> dict \<Rightarrow> dict \<Rightarrow> dict act" where
  "relaunch env persisted context = andthen (lift_res (list_or_empty (dget persisted ''recovery_history''))) (\<lambda>history.
     claim_and_launch env persisted (dset context ''recovery_history'' (PList history)) True)"

definition recover_after_deadline :: "('c, 'd) pub_env \<Rightarrow> dict \<Rightarrow> dict \<Rightarrow> dict act" where
  "recover_after_deadline env record context =
    (let run_id = recovery_text (dget context ''run_id'') in
     if dget record ''terminal'' \<noteq> PBool True then give record
     else
       andthen (planned_rewind env record) (\<lambda>plan.
       case plan of
         None \<Rightarrow> give record
       | Some recovered \<Rightarrow>
           if same_record recovered record then give record
           else
             andthen (load_record env run_id) (\<lambda>latest.
             if same_record latest recovered then relaunch env latest context
             else if same_record latest record then
               andthen (lift_res (expected_revision record)) (\<lambda>expected.
               andthen (unless_conflict (save_record env recovered expected None)) (\<lambda>saved.
                 case saved of
                   None \<Rightarrow> load_record env run_id
                 | Some persisted \<Rightarrow> relaunch env persisted context))
             else
               andthen the_plan (\<lambda>p.
                 case pl_claim p of
                   None \<Rightarrow> give latest
                 | Some claim \<Rightarrow>
                     if same_record latest (cl_record claim) then relaunch env recovered context
                     else andthen (if marker_lease latest \<noteq> cl_lease claim
                         then safe_job_update env (cl_lease claim) ''superseded'' else give ()) (\<lambda>_. give latest)))))"

text \<open>A call with the plan of a task: the plan is the object of the task, also when the call raises.\<close>

definition with_task_plan :: "('c, 'd) pub_env \<Rightarrow> nat \<Rightarrow> 'a act \<Rightarrow> 'a act" where
  "with_task_plan env i m =
    andthen (task_field env i tk_plan) (\<lambda>plan.
    andthen (set_plan plan) (\<lambda>_.
      catching (andthen m (\<lambda>x. andthen the_plan (\<lambda>p. andthen (set_task env i (\<lambda>t. t\<lparr>tk_plan := p\<rparr>)) (\<lambda>_. give x))))
        (\<lambda>e. andthen the_plan (\<lambda>p. andthen (set_task env i (\<lambda>t. t\<lparr>tk_plan := p\<rparr>)) (\<lambda>_. raising e)))))"

section \<open>Advancing a publication\<close>

definition expire_and_recover :: "('c, 'd) pub_env \<Rightarrow> dict \<Rightarrow> string \<Rightarrow> dict \<Rightarrow> dict act" where
  "expire_and_recover env record lease_id context =
     andthen (expire_publication env record lease_id context) (\<lambda>expired. recover_after_deadline env expired context)"

text \<open>A marker whose worker is gone and whose heartbeat is old is replaced by a new claim.\<close>

definition replace_orphan :: "('c, 'd) pub_env \<Rightarrow> dict \<Rightarrow> string \<Rightarrow> dict \<Rightarrow> dict act" where
  "replace_orphan env record lease_id context =
     andthen (load_record env (recovery_text (dget context ''run_id''))) (\<lambda>latest.
     andthen (lift_res (run_revision latest)) (\<lambda>latest_revision.
     andthen (lift_res (run_revision record)) (\<lambda>revision.
       if latest_revision \<noteq> revision then give latest
       else andthen (safe_job_update env lease_id ''superseded'') (\<lambda>_. claim_and_launch env latest context False))))"

definition advance_lease :: "('c, 'd) pub_env \<Rightarrow> dict \<Rightarrow> string \<Rightarrow> dict \<Rightarrow> dict act" where
  "advance_lease env record lease_id context =
    andthen (load_record env (recovery_text (dget context ''run_id''))) (\<lambda>latest.
    andthen (lift_res (run_revision latest)) (\<lambda>latest_revision.
    andthen (lift_res (run_revision record)) (\<lambda>revision.
    if latest_revision \<noteq> revision then give latest
    else if marker_lease latest \<noteq> lease_id then give latest
    else
      andthen (load_job env lease_id) (\<lambda>job.
      andthen (reading (pe_clock env)) (\<lambda>now.
      if dl_overdue (job_deadline_state (pe_getenv env) job now) then
        andthen (access env (\<lambda>s. (Inr (find_task s lease_id), s))) (\<lambda>found.
          case found of
            Some i \<Rightarrow> with_task_plan env i (expire_and_recover env latest lease_id context)
          | None \<Rightarrow> andthen (set_plan empty_plan) (\<lambda>_. expire_and_recover env latest lease_id context))
      else
        andthen (local_task_active env lease_id) (\<lambda>active.
          if active \<or> job_fresh (pe_getenv env) job now then give latest
          else replace_orphan env latest lease_id context))))))"

definition advance_publication :: "('c, 'd) pub_env \<Rightarrow> dict \<Rightarrow> dict \<Rightarrow> dict act" where
  "advance_publication env record context =
    (if recovery_text (dget context ''run_id'') = [] then raising (ValueError ''final_report_run_id_required'')
     else
      (let lease_id = marker_lease record in
       if lease_id = [] then claim_and_launch env record context False
       else advance_lease env record lease_id context))"

section \<open>Publishing a result\<close>

definition FINAL_STAGE_DONE :: "string list" where
  "FINAL_STAGE_DONE = [''complete'', ''completed'', ''success'', ''succeeded'', ''passed'']"

text \<open>Four attempts; a conflicting save is tried again from what is stored then.\<close>

primrec publish_attempts :: "('c, 'd) pub_env \<Rightarrow> string \<Rightarrow> string \<Rightarrow> dict \<Rightarrow> nat \<Rightarrow> string act" where
  "publish_attempts env lease_id run_id result 0 = give ''failed''"
| "publish_attempts env lease_id run_id result (Suc n) =
     andthen (load_record env run_id) (\<lambda>current.
     andthen (lift_res (list_or_empty (dget current ''completed_stages''))) (\<lambda>completed.
     if list_ex (py_eq (PStr FINAL_REPORT_STAGE)) completed then give ''complete''
     else if marker_lease current \<noteq> lease_id then give ''superseded''
     else
       andthen (lift_res (expected_revision current)) (\<lambda>expected.
       andthen (apply_final_stage env current result) (\<lambda>updated.
       andthen (unless_conflict (save_record env updated expected (Some lease_id))) (\<lambda>saved.
         case saved of
           None \<Rightarrow> publish_attempts env lease_id run_id result n
         | Some _ \<Rightarrow> give (if py_casefold (recovery_text (dget result ''status'')) \<in> set FINAL_STAGE_DONE
             then ''complete'' else ''blocked''))))))"

definition publish_result :: "('c, 'd) pub_env \<Rightarrow> string \<Rightarrow> string \<Rightarrow> dict \<Rightarrow> string act" where
  "publish_result env lease_id run_id result = publish_attempts env lease_id run_id result 4"

section \<open>The threads of a task\<close>

text \<open>A turn of the heartbeat; the answer says whether the loop goes on.\<close>

definition heartbeat_turn :: "('c, 'd) pub_env \<Rightarrow> nat \<Rightarrow> bool act" where
  "heartbeat_turn env i =
    andthen (task_field env i (\<lambda>t. (tk_stop t, tk_phase t, tk_lease t))) (\<lambda>(stop, phase, lease_id).
      if stop then give False
      else andthen (safe_job_update env lease_id (let p = recovery_text (PStr phase) in if p = [] then ''queued'' else p))
        (\<lambda>_. give True))"

text \<open>A turn of the watchdog inside its \<open>try\<close>: the expired record to recover, when there is one.\<close>

definition watchdog_expiry :: "('c, 'd) pub_env \<Rightarrow> nat \<Rightarrow> string \<Rightarrow> dict \<Rightarrow> dict option act" where
  "watchdog_expiry env i lease_id context =
    andthen (task_field env i tk_recovery_record) (\<lambda>expired.
    case expired of
      Some record \<Rightarrow> give (Some record)
    | None \<Rightarrow>
        andthen (load_job env lease_id) (\<lambda>job.
        andthen (reading (pe_clock env)) (\<lambda>now.
        if \<not> dl_overdue (job_deadline_state (pe_getenv env) job now) then give None
        else
          andthen (load_record env (recovery_text (dget context ''run_id''))) (\<lambda>current.
          andthen (task_field env i tk_recovery_record) (\<lambda>again.
          case again of
            Some record \<Rightarrow> give (Some record)
          | None \<Rightarrow>
              andthen (expire_publication env current lease_id context) (\<lambda>record.
              if marker_lease record = lease_id then give None
              else
                andthen (set_task env i (\<lambda>t. t\<lparr>tk_recovery_record := Some record\<rparr>)) (\<lambda>_.
                andthen (release_local_task_capacity env i) (\<lambda>_. give (Some record)))))))))"

definition watchdog_done :: "('c, 'd) pub_env \<Rightarrow> nat \<Rightarrow> string \<Rightarrow> bool \<Rightarrow> bool act" where
  "watchdog_done env i lease_id stopping =
    andthen (set_task env i (\<lambda>t. t\<lparr>tk_stop := tk_stop t \<or> stopping, tk_watchdog_stop := True\<rparr>)) (\<lambda>_.
    andthen (access env (\<lambda>s. (Inr (), forget_task lease_id i s))) (\<lambda>_. give False))"

definition watchdog_turn :: "('c, 'd) pub_env \<Rightarrow> nat \<Rightarrow> bool act" where
  "watchdog_turn env i =
    andthen (task_field env i (\<lambda>t. (tk_watchdog_stop t, tk_lease t, tk_context t))) (\<lambda>(stop, lease_id, context).
    if stop then watchdog_done env i lease_id False
    else
      andthen (except_any
        (andthen (watchdog_expiry env i lease_id context) (\<lambda>expired.
          case expired of
            None \<Rightarrow> give True
          | Some record \<Rightarrow> andthen (with_task_plan env i (recover_after_deadline env record context)) (\<lambda>_. give False)))
        (give True))
      (\<lambda>waiting. if waiting then give True else watchdog_done env i lease_id True))"

text \<open>Waiting for the slot of the renderer: how often it was found taken is bounded by the last argument.\<close>

primrec acquire_publication_slot :: "('c, 'd) pub_env \<Rightarrow> nat \<Rightarrow> nat \<Rightarrow> bool act" where
  "acquire_publication_slot env i 0 = raising NoReturn"
| "acquire_publication_slot env i (Suc n) =
     andthen (task_field env i tk_stop) (\<lambda>stop.
     if stop then give False
     else
       andthen (access env (\<lambda>s. (Inr (sh_slot_free s), s\<lparr>sh_slot_free := False\<rparr>))) (\<lambda>free.
         if free then give True else acquire_publication_slot env i n))"

text \<open>The renderer: rendering under the lease, the publication, and what is always done at the end.\<close>

definition render_and_publish ::
  "('c, 'd) pub_env \<Rightarrow> dict res \<Rightarrow> (dict \<Rightarrow> py res) \<Rightarrow> py \<Rightarrow> nat \<Rightarrow> string \<Rightarrow> dict \<Rightarrow> string act" where
  "render_and_publish env guards provider elapsed i lease_id context =
    andthen (set_task env i (\<lambda>t. t\<lparr>tk_slot_acquired := True\<rparr>)) (\<lambda>_.
    andthen (reading (pe_clock env)) (\<lambda>started.
    andthen (transition_job_to_rendering env lease_id started) (\<lambda>transitioned.
    if \<not> transitioned then give ''superseded''
    else
      andthen (set_task env i (\<lambda>t. t\<lparr>tk_phase := ''rendering''\<rparr>)) (\<lambda>_.
      andthen (lift_res (execute_final_report_stage (se_sha (pe_store env)) guards 0 provider True True elapsed context)) (\<lambda>result.
        publish_result env lease_id (recovery_text (dget context ''run_id''))
          (with_publication_metadata env result lease_id started))))))"

definition finish_renderer :: "('c, 'd) pub_env \<Rightarrow> nat \<Rightarrow> string \<Rightarrow> bool \<Rightarrow> string \<Rightarrow> string act" where
  "finish_renderer env i lease_id slot_acquired outcome =
    andthen (if slot_acquired then release_local_task_capacity env i else give ()) (\<lambda>_.
    andthen (set_task env i (\<lambda>t. t\<lparr>tk_stop := True\<rparr>)) (\<lambda>_.
    andthen (safe_job_update env lease_id outcome) (\<lambda>_.
    andthen (set_task env i (\<lambda>t. t\<lparr>tk_watchdog_stop := tk_watchdog_stop t \<or> tk_recovery_record t = None, tk_alive := False\<rparr>))
      (\<lambda>_. give outcome))))"

definition invoke_renderer ::
  "('c, 'd) pub_env \<Rightarrow> dict res \<Rightarrow> (dict \<Rightarrow> py res) \<Rightarrow> py \<Rightarrow> nat \<Rightarrow> nat \<Rightarrow> string act" where
  "invoke_renderer env guards provider elapsed waits i =
    andthen (task_field env i (\<lambda>t. (tk_lease t, tk_context t))) (\<lambda>(lease_id, context).
    andthen (acquire_publication_slot env i waits) (\<lambda>acquired.
      if \<not> acquired then finish_renderer env i lease_id False ''cancelled''
      else andthen (except_any (render_and_publish env guards provider elapsed i lease_id context) (give ''failed''))
        (finish_renderer env i lease_id True)))"

end
