(* ===== verification/RecordForm.thy ===== *)
theory RecordForm
  imports StoreGuarantees BlockedRecovery
begin

text \<open>
  The operations of a run record keep the form of a value: no dictionary holds a key twice. The store needs it
  of what it writes, and returns it for what it reads.
\<close>

lemma wf_dupdate: "wf_py (PDict d) \<Longrightarrow> \<forall>(k, v) \<in> set e. wf_py v \<Longrightarrow> wf_py (PDict (dupdate d e))"
proof (induction e arbitrary: d)
  case (Cons p e)
  obtain k v where p: "p = (k, v)" by (cases p)
  have "wf_py (PDict (dset d k v))" using Cons.prems p by (intro wf_dset) simp_all
  moreover have "\<forall>(k, v) \<in> set e. wf_py v" using Cons.prems(2) by simp
  ultimately show ?case using Cons.IH p by (simp del: wf_py.simps)
qed simp

lemma wf_dsetdefault: "wf_py (PDict d) \<Longrightarrow> wf_py v \<Longrightarrow> wf_py (PDict (dsetdefault d k v))"
  by (simp add: dsetdefault_def wf_dset del: wf_py.simps)

lemma wf_dindex: "wf_py (PDict d) \<Longrightarrow> dindex d k = Inr v \<Longrightarrow> wf_py v"
  using dindex_dget wf_dget by metis

lemma wf_seal_record: "wf_py (PDict r) \<Longrightarrow> wf_py (PDict (seal_record sha r))"
  by (simp add: seal_record_def wf_dset del: wf_py.simps(2))

lemma wf_copy_for_update: "wf_py (PDict r) \<Longrightarrow> wf_py (PDict (copy_record_for_update r))"
  unfolding copy_record_for_update_def by (rule wf_dsetdefault) simp_all

lemma wf_norm_dec: "norm_dec m n = (m', k) \<Longrightarrow> wf_py (PFloat m' k)"
  by (induction m n rule: norm_dec.induct) (auto split: if_split_asm)

lemma wf_percent: "wf_py (percent_value n m)"
  using wf_norm_dec by (auto simp: percent_value_def percent_of_def simp del: wf_py.simps split: prod.split)

lemma wf_progressed: "list_all wf_py completed \<Longrightarrow> wf_py (PList (progressed completed stage_id status))"
  by (simp add: progressed_def)

lemma wf_advance_record:
  assumes "wf_py (PDict updated)" and "list_all wf_py completed" and "wf_py results"
  shows "wf_py (PDict (advance_record sha updated stage_id status completed results now revision))"
  using assms wf_progressed [OF assms(2)]
  by (simp add: advance_record_def Let_def wf_seal_record wf_dset wf_percent del: wf_py.simps(2))

lemma wf_normalized_result:
  assumes "normalize_stage_result stage_id result identity = Inr normalized" and "wf_py (PDict result)" and "wf_py (PDict identity)"
  shows "wf_py (PDict normalized)"
proof -
  obtain bound where b: "map_res (\<lambda>field. bind_res (dindex identity field) (\<lambda>v. Inr (field, v)))
      (RUN_BINDING_FIELDS @ [''assessment_depth'', ''report_language'']) = Inr bound"
    and n: "normalized = dupdate (dset (dset result ''stage_id'' (PStr stage_id)) ''status'' (PStr (stage_result_status result)))
      (bound @ [(''human_review_required'', PBool True), (''client_delivery_allowed'', PBool False)])"
    using assms(1) by (auto simp: normalize_stage_result_def bind_res_eq_Inr)
  have "\<forall>y \<in> set bound. \<exists>field. bind_res (dindex identity field) (\<lambda>v. Inr (field, v)) = Inr y"
    using map_res_in_set [OF b] by blast
  then have "\<forall>(k, v) \<in> set bound. wf_py v" using wf_dindex [OF assms(3)] by (fastforce simp: bind_res_eq_Inr)
  then show ?thesis
    unfolding n by (intro wf_dupdate wf_dset assms(2)) (auto simp: wf_dset)
qed

lemma wf_stage_applied:
  assumes "apply_comprehensive_stage_result sha op now r stage_id result = Inr r'"
    and "wf_py (PDict r)" and "wf_py (PDict result)"
  shows "wf_py (PDict r')"
  using assms(1)
proof (rule apply_stageE)
  fix n identity normalized results revision
  let ?u = "copy_record_for_update r"
  assume i: "dget r ''identity'' = identity" and norm: "normalize_stage_result stage_id result (as_dict identity) = Inr normalized"
    and res: "dget ?u ''stage_results'' = PDict results"
    and out: "r' = advance_record sha ?u stage_id (stage_result_status result) (map PStr (take n COMPREHENSIVE_STAGES))
      (PDict (dset results stage_id (PDict normalized))) now revision"
  have u: "wf_py (PDict ?u)" by (rule wf_copy_for_update [OF assms(2)])
  have "wf_py (PDict (as_dict identity))" using wf_as_dict [OF wf_dget [OF assms(2)]] i by metis
  then have "wf_py (PDict normalized)" by (rule wf_normalized_result [OF norm assms(3)])
  moreover have "wf_py (PDict results)" using wf_dget [OF u, of "''stage_results''"] res by (simp only:)
  ultimately show ?thesis unfolding out by (intro wf_advance_record u wf_dset) (simp_all add: list_all_iff)
qed

lemma wf_list_or_empty: "list_or_empty v = Inr items \<Longrightarrow> wf_py v \<Longrightarrow> list_all wf_py items"
  by (auto simp: list_or_empty_def py_iter_def list_all_iff split: py.splits if_split_asm)

lemma wf_recovery_entry: "wf_py (PDict (recovery_entry record preserved stamp))"
  by (simp add: recovery_entry_def Let_def list_all_iff)

lemma wf_rewound_fields:
  assumes "wf_py (PDict updated)" and "list_all wf_py completed"
  shows "wf_py (PDict (rewound_fields updated completed stamp revision))"
proof -
  have "wf_py (if completed = [] then PNone else last completed)" using assms(2) by (simp add: list_all_iff)
  then show ?thesis
    unfolding rewound_fields_def by (intro wf_dupdate assms(1)) (auto simp: wf_percent)
qed

lemma wf_rewound_record:
  assumes "wf_py (PDict record)" and "list_all wf_py items"
  shows "wf_py (PDict (rewound_record record items revision stamp))"
proof -
  let ?results = "as_dict (dget record ''stage_results'')" and ?retained = "retained_stages record"
  let ?kept = "map (\<lambda>s. (s, dget ?results s)) (filter (has_key ?results) ?retained)"
  let ?history = "filter is_dict items @ [PDict (recovery_entry record (length ?retained) stamp)]"
  have results: "wf_py (PDict ?results)" using assms(1) by (intro wf_as_dict wf_dget)
  have "distinct ?retained" by (simp add: retained_stages_def distinct_stages)
  then have "wf_py (PDict ?kept)"
    unfolding wf_PDict_iff using wf_dget [OF results] by (simp add: comp_def)
  moreover have "wf_py (PList ?history)"
    using assms(2) wf_recovery_entry by (simp add: list_all_iff del: wf_py.simps(2))
  moreover have ids: "list_all wf_py (map PStr ?retained)" by (simp add: list_all_iff)
  ultimately have "wf_py (PDict (dupdate record [(''stage_results'', PDict ?kept), (''completed_stages'', PList (map PStr ?retained)),
      (''recovery_history'', PList ?history)]))"
    by (intro wf_dupdate assms(1)) (simp del: wf_py.simps(2))
  from wf_rewound_fields [OF this ids] show ?thesis
    unfolding rewound_record_def Let_def fold.simps comp_apply id_apply by (intro wf_dpop)
qed

lemma wf_rewound:
  assumes "rewind_blocked_run_for_final_artifact_recovery sha op record stamp = Inr r" and "wf_py (PDict record)"
  shows "wf_py (PDict r)"
proof -
  consider "r = record" | items revision where "list_or_empty (dget record ''recovery_history'') = Inr items"
    "r = seal_record sha (rewound_record record items revision stamp)"
    using assms(1) unfolding rewind_blocked_run_for_final_artifact_recovery_def Let_def
    by (simp only: bind_res_eq_Inr sum.inject split: if_split_asm) metis+
  then show ?thesis
  proof cases
    case 2
    then show ?thesis using wf_list_or_empty wf_dget [OF assms(2)] by (metis wf_seal_record wf_rewound_record assms(2))
  qed (simp add: assms(2) del: wf_py.simps)
qed

lemma wf_restored:
  assumes "restore_comprehensive_run_record sha op payload = Inr r" and "wf_py (PDict payload)"
  shows "wf_py (PDict r)"
proof -
  have c: "wf_py (PDict (copy_record_for_update payload))" by (rule wf_copy_for_update [OF assms(2)])
  have "wf_py (PDict (as_dict (dget (copy_record_for_update payload) ''identity'')))" by (intro wf_as_dict wf_dget c)
  then have identity: "wf_py (PDict (dsetdefault (dsetdefault (as_dict (dget (copy_record_for_update payload) ''identity''))
      ''assessment_depth'' (PStr ''not_recorded'')) ''report_language'' (PStr ''not_recorded'')))" (is "wf_py (PDict ?identity)")
    by (intro wf_dsetdefault) simp_all
  consider "r = copy_record_for_update payload"
    | evidence where "normalize_strategic_human_evidence sha PNone = Inr evidence"
      "r = seal_record sha (dset (dsetdefault (dset (dset (copy_record_for_update payload) ''identity'' (PDict ?identity))
            ''human_evidence'' (PDict evidence)) ''human_review_completed'' (PBool False)) ''artifact_schema'' (PStr VERSION))"
    using assms(1) by (auto simp: restore_comprehensive_run_record_def bind_res_eq_Inr Let_def split: if_split_asm)
  then show ?thesis
  proof cases
    case 2
    note evidence = empty_evidence_wf [OF 2(1)]
    show ?thesis unfolding 2(2) by (intro wf_seal_record wf_dset wf_dsetdefault c identity evidence) simp_all
  qed (simp add: c del: wf_py.simps)
qed

lemma loaded_wf:
  assumes "store_inv env db" and "load_run env run db = (Inr r, db')"
  shows "wf_py (PDict r)"
proof -
  obtain row where row: "map_of (db_runs db) (py_strip run) = Some row" "restore_row env (py_strip run) row db = Inr (r, db')"
    using assms(2) by (auto simp: load_run_def transact_Inr Let_def split: if_split_asm option.split_asm)
  obtain r0 where ok: "env_ok env" "row_holds env row (map_of (db_commitments db) (py_strip run)) r0"
    using assms(1) row(1) by (rule store_invD)
  then have "wf_py (PDict r0)" by (auto simp: row_holds_def)
  then have "wf_py (PDict (as_dict (canon (PDict r0))))" using wf_canon wf_as_dict by blast
  moreover have "restore_comprehensive_run_record (se_sha env) (se_operator env) (as_dict (canon (PDict r0))) = Inr r"
    using restore_held_row [OF ok] row(2)
    by (cases "restore_comprehensive_run_record (se_sha env) (se_operator env) (as_dict (canon (PDict r0)))") auto
  ultimately show ?thesis by (rule wf_restored [rotated])
qed

end
