(* ===== verification/PublicationGuarantees.thy ===== *)
theory PublicationGuarantees
  imports ReportPublication RecordForm
begin

text \<open>
  Every operation of the publication coordinator, beside other threads and processes that do the same, changes the
  store only by transactions: the contract \<open>guarded_actions\<close> with the invariant of the store as assertion
  and sequences of transactions as moves.
\<close>

section \<open>The coordinator works by transactions\<close>

definition good_plan :: "recovery_plan \<Rightarrow> bool" where
  "good_plan p \<longleftrightarrow> (\<forall>r. pl_rewound p = Some r \<longrightarrow> wf_py (PDict r)) \<and> (\<forall>c. pl_claim p = Some c \<longrightarrow> wf_py (PDict (cl_record c)))"

definition good_task :: "local_task \<Rightarrow> bool" where
  "good_task t \<longleftrightarrow> wf_py (PDict (tk_context t)) \<and> (\<forall>r. tk_recovery_record t = Some r \<longrightarrow> wf_py (PDict r)) \<and> good_plan (tk_plan t)"

definition good_shared :: "('c, 'd) store_env \<Rightarrow> shared \<Rightarrow> bool" where
  "good_shared se s \<longleftrightarrow> store_inv se (sh_db s) \<and> (\<forall>t \<in> set (sh_objects s). good_task t)"

definition good_world :: "('c, 'd) store_env \<Rightarrow> world \<Rightarrow> bool" where
  "good_world se w \<longleftrightarrow> good_shared se (w_shared w) \<and> good_plan (w_plan w)"

definition transacts :: "('c, 'd) store_env \<Rightarrow> world \<Rightarrow> world \<Rightarrow> bool" where
  "transacts se w w' \<longleftrightarrow> (store_step se)\<^sup>*\<^sup>* (sh_db (w_shared w)) (sh_db (w_shared w'))"

text \<open>The environment: others work by transactions too, and a float is written in normal form.\<close>

definition good_env :: "('c, 'd) pub_env \<Rightarrow> bool" where
  "good_env env \<longleftrightarrow> (\<forall>x. wf_py (pe_float env x)) \<and> (\<forall>n s. good_shared (pe_store env) s \<longrightarrow>
     good_shared (pe_store env) (pe_others env n s) \<and> (store_step (pe_store env))\<^sup>*\<^sup>* (sh_db s) (sh_db (pe_others env n s)))"

abbreviation keeps_store :: "('c, 'd) pub_env \<Rightarrow> 'a act \<Rightarrow> ('a \<Rightarrow> bool) \<Rightarrow> bool" where
  "keeps_store env \<equiv> ensures (good_world (pe_store env)) (transacts (pe_store env))"

abbreviation formed :: "dict \<Rightarrow> bool" where
  "formed r \<equiv> wf_py (PDict r)"

interpretation by_transactions: guarded_actions "good_world se" "transacts se" for se :: "('c, 'd) store_env"
  by unfold_locales (auto simp: transacts_def good_world_def intro: rtranclp_trans)

lemma acting_if: "(b \<Longrightarrow> ensures good moves m Q) \<Longrightarrow> (\<not> b \<Longrightarrow> ensures good moves m' Q) \<Longrightarrow> ensures good moves (if b then m else m') Q"
  by simp

lemma acting_option:
  "(x = None \<Longrightarrow> ensures good moves m Q) \<Longrightarrow> (\<And>y. x = Some y \<Longrightarrow> ensures good moves (f y) Q) \<Longrightarrow>
   ensures good moves (case x of None \<Rightarrow> m | Some y \<Rightarrow> f y) Q"
  by (cases x) simp_all

lemma acting_let: "(\<And>x. x = t \<Longrightarrow> ensures good moves (f x) Q) \<Longrightarrow> ensures good moves (Let t f) Q"
  by simp

lemma acting_pair: "(\<And>a b. x = (a, b) \<Longrightarrow> ensures good moves (f a b) Q) \<Longrightarrow> ensures good moves (case x of (a, b) \<Rightarrow> f a b) Q"
  by (cases x) simp

lemma tx_access:
  assumes "good_env env"
    and "\<And>s r s'. good_shared (pe_store env) s \<Longrightarrow> f s = (r, s') \<Longrightarrow>
      good_shared (pe_store env) s' \<and> (store_step (pe_store env))\<^sup>*\<^sup>* (sh_db s) (sh_db s') \<and> (\<forall>x. r = Inr x \<longrightarrow> Q x)"
  shows "keeps_store env (access env f) Q"
proof (rule by_transactions.ensures_access)
  fix w
  assume "good_world (pe_store env) w"
  then show "good_world (pe_store env) (w\<lparr>w_shared := pe_others env (w_tick w) (w_shared w)\<rparr>) \<and>
      transacts (pe_store env) w (w\<lparr>w_shared := pe_others env (w_tick w) (w_shared w)\<rparr>)"
    using assms(1) by (simp add: good_world_def transacts_def good_env_def)
next
  fix w r s
  assume "good_world (pe_store env) w" and s: "f (w_shared w) = (r, s)"
  then have w: "good_shared (pe_store env) (w_shared w)" "good_plan (w_plan w)" by (simp_all add: good_world_def)
  from assms(2) [OF w(1) s] w(2) show "good_world (pe_store env) (w\<lparr>w_shared := s\<rparr>) \<and>
      transacts (pe_store env) w (w\<lparr>w_shared := s\<rparr>) \<and> (\<forall>x. r = Inr x \<longrightarrow> Q x)"
    by (simp add: good_world_def transacts_def)
qed

lemma tx_reads:
  assumes "good_env env"
    and "\<And>s r s'. good_shared (pe_store env) s \<Longrightarrow> f s = (r, s') \<Longrightarrow>
      good_shared (pe_store env) s' \<and> sh_db s' = sh_db s \<and> (\<forall>x. r = Inr x \<longrightarrow> Q x)"
  shows "keeps_store env (access env f) Q"
proof (rule tx_access [OF assms(1)])
  fix s r s'
  assume s: "good_shared (pe_store env) s" "f s = (r, s')"
  from assms(2) [OF s] show "good_shared (pe_store env) s' \<and> (store_step (pe_store env))\<^sup>*\<^sup>* (sh_db s) (sh_db s') \<and>
      (\<forall>x. r = Inr x \<longrightarrow> Q x)" by simp
qed

lemma tx_clock: "keeps_store env (reading f) (\<lambda>_. True)"
  by (rule by_transactions.ensures_reading) simp

lemma tx_store:
  assumes "good_env env" and "\<And>db r db'. store_inv (pe_store env) db \<Longrightarrow> f db = (r, db') \<Longrightarrow>
      (store_step (pe_store env))\<^sup>*\<^sup>* db db' \<and> (\<forall>x. r = Inr x \<longrightarrow> Q x)"
  shows "keeps_store env (store_tx env f) Q"
  unfolding store_tx_def
proof (rule tx_access [OF assms(1)])
  fix s r s'
  assume s: "good_shared (pe_store env) s" and "(let (r, db) = f (sh_db s) in (r, s\<lparr>sh_db := db\<rparr>)) = (r, s')"
  then obtain db' where db': "f (sh_db s) = (r, db')" "s' = s\<lparr>sh_db := db'\<rparr>" by (auto split: prod.splits)
  from assms(2) [OF _ db'(1)] s have "(store_step (pe_store env))\<^sup>*\<^sup>* (sh_db s) db'" "\<forall>x. r = Inr x \<longrightarrow> Q x"
    by (auto simp: good_shared_def)
  then show "good_shared (pe_store env) s' \<and> (store_step (pe_store env))\<^sup>*\<^sup>* (sh_db s) (sh_db s') \<and> (\<forall>x. r = Inr x \<longrightarrow> Q x)"
    using s run_versions.always_good by (auto simp: db'(2) good_shared_def)
qed

lemma transact_Inl: "transact db m = (Inl e, db') \<Longrightarrow> db' = db"
  by (auto simp: transact_def split: sum.splits)

lemma tx_load:
  assumes "good_env env"
  shows "keeps_store env (load_record env run) formed"
  unfolding load_record_def
proof (rule tx_store [OF assms])
  fix db r db'
  assume inv: "store_inv (pe_store env) db" and l: "load_run (pe_store env) run db = (r, db')"
  show "(store_step (pe_store env))\<^sup>*\<^sup>* db db' \<and> (\<forall>x. r = Inr x \<longrightarrow> formed x)"
  proof (cases r)
    case (Inl e)
    then have "db' = db" using l transact_Inl unfolding load_run_def by blast
    then show ?thesis using Inl by simp
  next
    case (Inr x)
    then show ?thesis using l loaded_wf [OF inv] store_step.load by blast
  qed
qed

lemma saved_formed: "save_run env now rec expected lease db = (Inr r, db') \<Longrightarrow> formed rec \<Longrightarrow> formed r"
  using wf_copy_for_store by (auto elim!: save_run_Inr simp del: wf_py.simps)

lemma tx_save:
  assumes "good_env env" and "formed rec"
  shows "keeps_store env (save_record env rec expected lease) formed"
  unfolding save_record_def
proof (rule by_transactions.ensures_andthen [OF tx_clock], rule tx_store [OF assms(1)])
  fix now db r db'
  assume l: "save_run (pe_store env) now rec expected lease db = (r, db')"
  show "(store_step (pe_store env))\<^sup>*\<^sup>* db db' \<and> (\<forall>x. r = Inr x \<longrightarrow> formed x)"
  proof (cases r)
    case (Inl e)
    then have "db' = db" using l transact_Inl unfolding save_run_def by blast
    then show ?thesis using Inl by simp
  next
    case (Inr x)
    then show ?thesis using l saved_formed assms(2) store_step.save by blast
  qed
qed

lemma tx_job:
  assumes "good_env env" and "\<And>t. job_step t (snd (f t))"
  shows "keeps_store env (job_tx env f) (\<lambda>_. True)"
  unfolding job_tx_def
proof (rule tx_store [OF assms(1)])
  fix db db' :: store_db and r
  assume "(let (r, jobs) = f (db_jobs db) in (r, db\<lparr>db_jobs := jobs\<rparr>)) = (r, db')"
  then have "db' = db\<lparr>db_jobs := snd (f (db_jobs db))\<rparr>" by (auto split: prod.splits)
  then show "(store_step (pe_store env))\<^sup>*\<^sup>* db db' \<and> (\<forall>x. r = Inr x \<longrightarrow> True)"
    using store_step.jobs [OF assms(2)] by auto
qed

lemma tx_load_job: "good_env env \<Longrightarrow> keeps_store env (load_job env lease) (\<lambda>_. True)"
  unfolding load_job_def by (rule tx_reads) auto

lemma good_changed: "good_shared se s \<Longrightarrow> (\<And>t. good_task t \<Longrightarrow> good_task (f t)) \<Longrightarrow> good_shared se (change_task i f s)"
  using set_update_subset_insert [of "sh_objects s" i "f (sh_objects s ! i)"]
  by (cases "i < length (sh_objects s)") (auto simp: good_shared_def change_task_def list_update_beyond not_less)

lemma changed_db [simp]: "sh_db (change_task i f s) = sh_db s"
  by (simp add: change_task_def)

lemma tx_set_task: "good_env env \<Longrightarrow> (\<And>t. good_task t \<Longrightarrow> good_task (f t)) \<Longrightarrow> keeps_store env (set_task env i f) (\<lambda>_. True)"
  unfolding set_task_def by (rule tx_reads) (auto intro: good_changed)

lemma tx_task_field: "good_env env \<Longrightarrow> (\<And>t. good_task t \<Longrightarrow> Q (f t)) \<Longrightarrow> keeps_store env (task_field env i f) Q"
  unfolding task_field_def by (rule tx_reads) (auto simp: good_shared_def split: if_split_asm)

lemma tx_the_plan: "keeps_store env the_plan good_plan"
  by (simp add: ensures_def the_plan_def good_world_def transacts_def)

lemma tx_set_plan: "good_plan p \<Longrightarrow> keeps_store env (set_plan p) (\<lambda>_. True)"
  by (simp add: ensures_def set_plan_def good_world_def transacts_def)

lemma tx_free: "keeps_store env (lift_res r) (\<lambda>x. r = Inr x)"
  by (rule by_transactions.ensures_lift)

lemma tx_give: "Q x \<Longrightarrow> keeps_store env (give x) Q"
  by (rule by_transactions.ensures_give)

lemma acting_if_first:
  "ensures good moves (if b then m else m') (\<lambda>_. True) \<Longrightarrow> (\<And>x. ensures good moves (f x) Q) \<Longrightarrow> guarded_actions good moves \<Longrightarrow>
   ensures good moves (andthen (if b then m else m') f) Q"
  using guarded_actions.ensures_andthen [of good moves "if b then m else m'" "\<lambda>_. True"] by blast

lemma acting_option_first:
  "ensures good moves (case x of None \<Rightarrow> m | Some y \<Rightarrow> g y) (\<lambda>_. True) \<Longrightarrow> (\<And>x. ensures good moves (f x) Q) \<Longrightarrow>
   guarded_actions good moves \<Longrightarrow> ensures good moves (andthen (case x of None \<Rightarrow> m | Some y \<Rightarrow> g y) f) Q"
  using guarded_actions.ensures_andthen [of good moves "case x of None \<Rightarrow> m | Some y \<Rightarrow> g y" "\<lambda>_. True"] by blast

text \<open>What comes first in a sequence, and what comes last.\<close>

lemmas tx_flow = acting_if acting_option acting_let acting_pair by_transactions.ensures_raising tx_give

lemmas tx_first = by_transactions.ensures_andthen [OF tx_clock] by_transactions.ensures_andthen [OF tx_load]
  by_transactions.ensures_andthen [OF tx_load_job] by_transactions.ensures_andthen [OF tx_the_plan]
  by_transactions.ensures_andthen [OF tx_set_plan] by_transactions.ensures_andthen [OF tx_free]
  by_transactions.ensures_andthen [OF tx_set_task] by_transactions.ensures_andthen [OF tx_job]
  by_transactions.ensures_andthen [OF by_transactions.ensures_conflict [OF tx_save]]
  by_transactions.ensures_andthen [OF by_transactions.ensures_give [of "\<lambda>_. True", OF TrueI]]
  acting_if_first [OF _ _ by_transactions.guarded_actions_axioms] acting_option_first [OF _ _ by_transactions.guarded_actions_axioms]

lemmas tx_last = by_transactions.ensures_weaken [OF tx_load] by_transactions.ensures_weaken [OF tx_set_task]
  by_transactions.ensures_weaken [OF tx_set_plan] by_transactions.ensures_weaken [OF tx_job]

lemma tx_safe_update: "good_env env \<Longrightarrow> keeps_store env (safe_job_update env lease status) (\<lambda>_. True)"
  unfolding safe_job_update_def
  by (intro by_transactions.ensures_any tx_flow tx_first tx_last job_step.update TrueI)

lemma tx_transition: "good_env env \<Longrightarrow> keeps_store env (transition_job_to_rendering env lease started) (\<lambda>_. True)"
  unfolding transition_job_to_rendering_def
  by (intro by_transactions.ensures_any tx_flow tx_first tx_last job_step.render TrueI)

lemma tx_create_job: "good_env env \<Longrightarrow> keeps_store env (create_job env claim run) (\<lambda>_. True)"
  unfolding create_job_def by (intro tx_flow tx_first job_step.create TrueI)

lemma tx_apply_final:
  "good_env env \<Longrightarrow> formed rec \<Longrightarrow> formed result \<Longrightarrow> keeps_store env (apply_final_stage env rec result) formed"
  unfolding apply_final_stage_def
  by (intro tx_first by_transactions.ensures_weaken [OF tx_free]) (rule wf_stage_applied)

lemma formed_running: "good_env env \<Longrightarrow> formed (running_result env context lease started)"
  by (simp add: good_env_def running_result_def context_identity_def context_text_def gated_fields_def)

lemma formed_overdue: "good_env env \<Longrightarrow> formed (overdue_result env context lease deadline)"
  by (simp add: good_env_def overdue_result_def context_identity_def context_text_def gated_fields_def recovery_offer_def Let_def)

lemma formed_published:
  assumes "good_env env" and "formed result"
  shows "formed (with_publication_metadata env result lease started)"
  unfolding with_publication_metadata_def
  by (intro wf_dupdate wf_dset assms(2) wf_as_dict wf_dget) (use assms(1) in \<open>simp_all add: good_env_def gated_fields_def\<close>)

declare wf_py.simps(2) [simp del]

lemma good_task_flags [simp]:
  "good_task (t\<lparr>tk_slot_released := b\<rparr>) = good_task t" "good_task (t\<lparr>tk_slot_acquired := b\<rparr>) = good_task t"
  "good_task (t\<lparr>tk_stop := b\<rparr>) = good_task t" "good_task (t\<lparr>tk_watchdog_stop := b\<rparr>) = good_task t"
  "good_task (t\<lparr>tk_phase := p\<rparr>) = good_task t" "good_task (t\<lparr>tk_alive := b\<rparr>) = good_task t"
  by (simp_all add: good_task_def)

lemma good_shared_flags [simp]:
  "good_shared se (s\<lparr>sh_slot_free := b\<rparr>) = good_shared se s" "good_shared se (s\<lparr>sh_tasks := ts\<rparr>) = good_shared se s"
  "good_shared se (forget_task lease i s) = good_shared se s" "sh_db (forget_task lease i s) = sh_db s"
  by (simp_all add: good_shared_def forget_task_def)

lemma good_new_task: "formed context \<Longrightarrow> good_task (new_task lease context)"
  by (simp add: good_task_def new_task_def good_plan_def empty_plan_def)

lemma good_object: "good_shared se s \<Longrightarrow> find_task s lease = Some i \<Longrightarrow> good_task (sh_objects s ! i)"
  by (auto simp: good_shared_def find_task_def split: option.splits if_split_asm)

lemma tx_release: "good_env env \<Longrightarrow> keeps_store env (release_local_task_capacity env i) (\<lambda>_. True)"
  unfolding release_local_task_capacity_def
  by (intro tx_flow by_transactions.ensures_andthen [OF tx_reads] tx_reads)
    (auto split: if_split_asm intro!: good_changed)

lemma tx_register: "good_env env \<Longrightarrow> formed context \<Longrightarrow> keeps_store env (access env (register_task lease context)) (\<lambda>_. True)"
  by (rule tx_reads) (auto simp: register_task_def Let_def good_shared_def good_new_task)

lemma tx_forget: "good_env env \<Longrightarrow> keeps_store env (access env (\<lambda>s. (Inr (), forget_task lease i s))) (\<lambda>_. True)"
  by (rule tx_reads) auto

lemma tx_found: "good_env env \<Longrightarrow> keeps_store env (access env (\<lambda>s. (Inr (find_task s lease), s))) (\<lambda>_. True)"
  by (rule tx_reads) auto

lemma tx_active: "good_env env \<Longrightarrow> keeps_store env (local_task_active env lease) (\<lambda>_. True)"
  unfolding local_task_active_def by (rule tx_reads) auto

lemmas tx_next = tx_first by_transactions.ensures_andthen [OF tx_safe_update] by_transactions.ensures_andthen [OF tx_create_job]
  by_transactions.ensures_andthen [OF tx_transition] by_transactions.ensures_andthen [OF tx_apply_final]
  by_transactions.ensures_andthen [OF tx_release] by_transactions.ensures_andthen [OF tx_register]
  by_transactions.ensures_andthen [OF tx_forget] by_transactions.ensures_andthen [OF tx_found]
  by_transactions.ensures_andthen [OF tx_active]

lemmas tx_end = tx_last by_transactions.ensures_weaken [OF tx_safe_update] by_transactions.ensures_weaken [OF tx_create_job]
  by_transactions.ensures_weaken [OF tx_release] by_transactions.ensures_weaken [OF tx_load_job]

lemma tx_stop_task: "good_env env \<Longrightarrow> keeps_store env (stop_local_task env lease) (\<lambda>_. True)"
  unfolding stop_local_task_def
  by (intro tx_flow by_transactions.ensures_andthen [OF tx_reads] tx_next tx_end TrueI)
    (auto split: option.splits if_split_asm)

lemma tx_start_worker: "good_env env \<Longrightarrow> formed context \<Longrightarrow> keeps_store env (start_worker env lease context) (\<lambda>_. True)"
  unfolding start_worker_def by (intro tx_flow tx_next tx_end TrueI) auto

lemma tx_make_claim:
  "good_env env \<Longrightarrow> formed record \<Longrightarrow> keeps_store env (make_claim env record context supervised) (\<lambda>c. formed (cl_record c))"
  unfolding make_claim_def
  by (intro tx_flow tx_next tx_end TrueI formed_running) (auto simp: good_plan_def)

lemma tx_the_claim:
  "good_env env \<Longrightarrow> formed record \<Longrightarrow> keeps_store env (the_claim env record context supervised) (\<lambda>c. formed (cl_record c))"
  unfolding the_claim_def
  by (intro tx_flow tx_next tx_make_claim) (auto simp: good_plan_def split: if_split_asm)

lemma tx_launch:
  assumes "good_env env" and "formed context" and "formed (cl_record claim)"
  shows "keeps_store env (launch_claim env record context supervised claim) formed"
  unfolding launch_claim_def
  by (intro tx_flow tx_next tx_end by_transactions.ensures_andthen [OF tx_start_worker] assms TrueI) simp_all

lemma tx_claim_and_launch:
  assumes "good_env env" and "formed record" and "formed context"
  shows "keeps_store env (claim_and_launch env record context supervised) formed"
  unfolding claim_and_launch_def
  by (intro tx_flow by_transactions.ensures_andthen [OF tx_the_claim] tx_next tx_launch tx_end
      by_transactions.ensures_weaken [OF tx_start_worker] assms TrueI) simp_all

lemma tx_expire:
  assumes "good_env env" and "formed record" and "formed context"
  shows "keeps_store env (expire_publication env record lease context) formed"
  unfolding expire_publication_def
  by (intro tx_flow tx_next by_transactions.ensures_andthen [OF by_transactions.ensures_weaken [OF tx_stop_task]]
      tx_end formed_overdue assms TrueI) (simp_all add: good_task_def)

lemma rewind_attempt_formed: "rewind_attempt env record now = Some r \<Longrightarrow> formed record \<Longrightarrow> formed r"
  by (auto simp: rewind_attempt_def split: sum.splits intro: wf_rewound)

lemma tx_planned_rewind:
  assumes "good_env env" and "formed record"
  shows "keeps_store env (planned_rewind env record) (\<lambda>plan. \<forall>r. plan = Some r \<longrightarrow> formed r)"
  unfolding planned_rewind_def
  by (intro tx_flow tx_next tx_end TrueI) (use rewind_attempt_formed assms(2) in \<open>auto simp: good_plan_def\<close>)

lemma tx_relaunch:
  assumes "good_env env" and "formed persisted" and "formed context"
  shows "keeps_store env (relaunch env persisted context) formed"
  unfolding relaunch_def
proof (intro tx_next tx_claim_and_launch assms)
  fix history
  assume "list_or_empty (dget persisted ''recovery_history'') = Inr history"
  then have "list_all wf_py history" using wf_list_or_empty wf_dget [OF assms(2)] by blast
  then show "formed (dset context ''recovery_history'' (PList history))" by (intro wf_dset assms(3)) simp
qed

lemma tx_recover:
  assumes "good_env env" and "formed record" and "formed context"
  shows "keeps_store env (recover_after_deadline env record context) formed"
  unfolding recover_after_deadline_def
  by (intro tx_flow by_transactions.ensures_andthen [OF tx_planned_rewind] tx_next tx_relaunch tx_end assms TrueI) simp_all

lemma tx_with_plan:
  assumes "good_env env" and "keeps_store env m Q"
  shows "keeps_store env (with_task_plan env i m) Q"
  unfolding with_task_plan_def
  by (intro by_transactions.ensures_andthen [OF tx_task_field [where Q = good_plan]] by_transactions.ensures_catching
      by_transactions.ensures_andthen [OF assms(2)] tx_flow tx_next assms(1)) (simp_all add: good_task_def)

lemma tx_expire_and_recover:
  assumes "good_env env" and "formed record" and "formed context"
  shows "keeps_store env (expire_and_recover env record lease context) formed"
  unfolding expire_and_recover_def by (intro by_transactions.ensures_andthen [OF tx_expire] tx_recover assms)

lemma tx_replace_orphan:
  assumes "good_env env" and "formed record" and "formed context"
  shows "keeps_store env (replace_orphan env record lease context) formed"
  unfolding replace_orphan_def by (intro tx_flow tx_next tx_claim_and_launch assms)

lemma tx_advance_lease:
  assumes "good_env env" and "formed record" and "formed context"
  shows "keeps_store env (advance_lease env record lease context) formed"
  unfolding advance_lease_def
  by (intro tx_flow tx_next tx_with_plan tx_expire_and_recover tx_replace_orphan assms) (simp_all add: good_plan_def empty_plan_def)

lemma tx_advance:
  assumes "good_env env" and "formed record" and "formed context"
  shows "keeps_store env (advance_publication env record context) formed"
  unfolding advance_publication_def by (intro tx_flow tx_claim_and_launch tx_advance_lease assms)

lemma tx_publish:
  assumes "good_env env" and "formed result"
  shows "keeps_store env (publish_attempts env lease run result n) (\<lambda>_. True)"
  by (induction n) (auto simp only: publish_attempts.simps intro!: tx_flow tx_next assms)

lemma tx_heartbeat: "good_env env \<Longrightarrow> keeps_store env (heartbeat_turn env i) (\<lambda>_. True)"
  unfolding heartbeat_turn_def
  by (intro by_transactions.ensures_andthen [OF tx_task_field [where Q = "\<lambda>_. True"]] tx_flow tx_next TrueI)

lemma tx_watchdog_expiry:
  assumes "good_env env" and "formed context"
  shows "keeps_store env (watchdog_expiry env i lease context) (\<lambda>expired. \<forall>r. expired = Some r \<longrightarrow> formed r)"
  unfolding watchdog_expiry_def
  by (intro by_transactions.ensures_andthen [OF tx_task_field [where Q = "\<lambda>expired. \<forall>r. expired = Some r \<longrightarrow> formed r"]]
      by_transactions.ensures_andthen [OF tx_expire] tx_flow tx_next assms) (simp_all add: good_task_def)

lemma tx_watchdog_done: "good_env env \<Longrightarrow> keeps_store env (watchdog_done env i lease stopping) (\<lambda>_. True)"
  unfolding watchdog_done_def by (intro tx_flow tx_next TrueI) simp_all

lemma tx_watchdog: "good_env env \<Longrightarrow> keeps_store env (watchdog_turn env i) (\<lambda>_. True)"
  unfolding watchdog_turn_def
  by (intro by_transactions.ensures_andthen [OF tx_task_field [where Q = "\<lambda>(stop, lease, context). formed context"]]
      by_transactions.ensures_andthen [OF by_transactions.ensures_any [where Q = "\<lambda>_. True"]]
      by_transactions.ensures_andthen [OF tx_watchdog_expiry]
      by_transactions.ensures_andthen [OF tx_with_plan [OF _ tx_recover]] tx_watchdog_done tx_flow TrueI) (auto simp: good_task_def)

text \<open>The stage result that a renderer returns is formed when what its provider returns is.\<close>

lemma formed_defaults: "formed d \<Longrightarrow> formed (fold (\<lambda>field acc. dsetdefault acc field (context_text context field)) fs d)"
  by (induction fs arbitrary: d) (simp_all add: wf_dsetdefault context_text_def)

lemma formed_blocked: "formed execution \<Longrightarrow> formed (blocked_stage context reason message execution offered scope)"
proof -
  assume e: "formed execution"
  have "formed (dupdate execution ([(''artifact_schema'', PStr BOUNDARY_VERSION), (''mode'', PStr ''atomic_final_report_publication''),
      (''canonical_run_write_required'', PBool True), (''detached_background_execution'', PBool b)] @
      (if offered then [(''recovery_supported'', PBool True), (''recovery_scope'', PStr s)] else [])))" for b s
    using e by (intro wf_dupdate) auto
  then show ?thesis
    by (cases offered) (simp_all add: blocked_stage_def Let_def context_text_def wf_py.simps(2))
qed

lemma formed_unfinished: "formed output \<Longrightarrow> formed execution \<Longrightarrow> formed (unfinished_output context output execution)"
  unfolding unfinished_output_def by (intro wf_dset wf_dupdate formed_defaults) (auto simp: gated_fields_def)

lemma formed_evidence: "formed package \<Longrightarrow> formed (package_evidence sha package)"
  by (simp add: package_evidence_def or_actual_def Let_def wf_py.simps(2) wf_dget [of package, unfolded wf_py.simps(2)])

lemma formed_completed:
  assumes "formed output" and "formed package" and "formed evidence" and "formed execution"
  shows "formed (completed_output context output package evidence execution managed)"
proof -
  have "formed (dupdate (as_dict (dget output ''evidence'')) evidence)"
    using assms(1,3) by (intro wf_dupdate wf_as_dict wf_dget) (auto simp: wf_PDict_iff)
  moreover have "formed (dupdate execution [(''canonical_run_write_required'', PBool True),
      (''canonical_run_written_only_by_request_thread'', PBool (\<not> managed)), (''artifact_validation_complete'', PBool True),
      (''exact_identity_verified'', PBool True)])" using assms(4) by (intro wf_dupdate) auto
  ultimately show ?thesis
    unfolding completed_output_def by (intro wf_dupdate assms(1)) (auto simp: context_text_def gated_fields_def assms(2))
qed

lemma formed_boundary: "formed output \<Longrightarrow> formed execution \<Longrightarrow> formed (boundary_execution output execution)"
  unfolding boundary_execution_def by (intro wf_dset wf_dupdate wf_as_dict wf_dget) (auto simp: wf_PDict_iff)

lemma formed_finished:
  assumes "formed output" and "formed execution"
  shows "formed (finished_stage sha context output execution managed)"
proof -
  note b = formed_boundary [OF assms]
  note package = wf_dget [OF assms(1), of "''report_package''"]
  show ?thesis
    using formed_blocked [OF b] formed_unfinished [OF assms(1) b] package formed_completed [OF assms(1) _ _ b] formed_evidence
    unfolding finished_stage_def validate_package_def by (auto split: py.split option.split)
qed

lemma formed_execution: "wf_py elapsed \<Longrightarrow> formed guards \<Longrightarrow> formed (execution_fields limit managed elapsed guards)"
  unfolding execution_fields_def
  by (intro wf_dupdate) (auto simp: wf_PDict_iff split: option.split)

lemma formed_executed:
  assumes "execute_final_report_stage sha guards timeout provider managed in_time elapsed context = Inr out"
    and "\<And>v. provider context = Inr v \<Longrightarrow> wf_py v" and "\<And>g. guards = Inr g \<Longrightarrow> formed g" and "wf_py elapsed"
  shows "formed out"
proof -
  obtain g where g: "guards = Inr g" using assms(1) by (auto simp: execute_final_report_stage_def bind_res_eq_Inr)
  define execution where "execution = execution_fields (if managed then None else Some timeout) managed elapsed g"
  have e: "formed execution" unfolding execution_def using assms(3,4) g by (intro formed_execution) blast+
  show ?thesis
    using assms(1) formed_blocked [OF e] formed_finished [OF _ e] assms(2)
    unfolding execute_final_report_stage_def g bind_res_simps Let_def execution_def [symmetric] run_provider_def
    by (auto split: if_split_asm sum.splits py.splits)
qed

text \<open>What is relied on of a renderer: its provider returns values.\<close>

definition good_renderer :: "dict res \<Rightarrow> (dict \<Rightarrow> py res) \<Rightarrow> py \<Rightarrow> bool" where
  "good_renderer guards provider elapsed \<longleftrightarrow>
    (\<forall>c v. provider c = Inr v \<longrightarrow> wf_py v) \<and> (\<forall>g. guards = Inr g \<longrightarrow> formed g) \<and> wf_py elapsed"

lemma tx_acquire: "good_env env \<Longrightarrow> keeps_store env (acquire_publication_slot env i n) (\<lambda>_. True)"
proof (induction n)
  case (Suc n)
  have slot: "keeps_store env (access env (\<lambda>s. (Inr (sh_slot_free s), s\<lparr>sh_slot_free := False\<rparr>))) (\<lambda>_. True)"
    by (rule tx_reads [OF Suc.prems]) auto
  show ?case
    unfolding acquire_publication_slot.simps
    by (intro by_transactions.ensures_andthen [OF tx_task_field [where Q = "\<lambda>_. True"]]
        by_transactions.ensures_andthen [OF slot] tx_flow Suc TrueI)
qed (auto intro: tx_flow)

lemma tx_render:
  assumes "good_env env" and "good_renderer guards provider elapsed"
  shows "keeps_store env (render_and_publish env guards provider elapsed i lease context) (\<lambda>_. True)"
proof -
  have "formed out" if "execute_final_report_stage (se_sha (pe_store env)) guards 0 provider True True elapsed context = Inr out" for out
    using formed_executed [OF that] assms(2) by (auto simp: good_renderer_def)
  then show ?thesis
    unfolding render_and_publish_def publish_result_def
    by (intro tx_flow tx_next tx_publish formed_published assms(1) TrueI) simp_all
qed

lemma tx_finish: "good_env env \<Longrightarrow> keeps_store env (finish_renderer env i lease acquired outcome) (\<lambda>_. True)"
  unfolding finish_renderer_def by (intro tx_flow tx_next tx_end TrueI) simp_all

lemma tx_invoke:
  assumes "good_env env" and "good_renderer guards provider elapsed"
  shows "keeps_store env (invoke_renderer env guards provider elapsed waits i) (\<lambda>_. True)"
  unfolding invoke_renderer_def
  by (intro by_transactions.ensures_andthen [OF tx_task_field [where Q = "\<lambda>_. True"]]
      by_transactions.ensures_andthen [OF tx_acquire] tx_finish
      by_transactions.ensures_andthen [OF by_transactions.ensures_any [OF tx_render tx_give [where Q = "\<lambda>_. True"]]]
      tx_flow assms TrueI)

end
