(* ===== verification/PublicationFence.thy ===== *)
theory PublicationFence
  imports PublicationGuarantees
begin

text \<open>
  A late result is fenced, and a revision of a run starts at most one renderer, whatever other
  threads and processes do between two accesses of an operation.
\<close>

section \<open>A late result is fenced\<close>

text \<open>
  An assertion about runs and jobs that includes that the job of the lease has ended, and that others keep; a change of
  the commitments alone does not matter.
\<close>

definition fenced :: "(store_db \<Rightarrow> bool) \<Rightarrow> string \<Rightarrow> bool" where
  "fenced K lease \<longleftrightarrow> (\<forall>db c. K db \<longrightarrow> K (db\<lparr>db_commitments := c\<rparr>)) \<and>
     (\<forall>db. K db \<longrightarrow> (\<forall>row. map_of (db_jobs db) lease = Some row \<longrightarrow> jr_status row \<in> set FINAL_REPORT_JOB_TERMINAL_STATUSES))"

interpretation fence: guarded_actions "\<lambda>w. K (sh_db (w_shared w))" "\<lambda>w w'. True" for K :: "store_db \<Rightarrow> bool"
  by unfold_locales simp_all

lemma loads_only_commit:
  assumes "load_run se run db = (r, db')"
  shows "\<exists>c. db' = db\<lparr>db_commitments := c\<rparr>"
proof (cases r)
  case (Inl e)
  then have "db' = db" using assms transact_Inl unfolding load_run_def by blast
  then have "db' = db\<lparr>db_commitments := db_commitments db\<rparr>" by simp
  then show ?thesis by blast
next
  case (Inr x)
  then obtain row where "restore_row se (py_strip run) row db = Inr (x, db')"
    using assms by (auto simp: load_run_def transact_Inr Let_def split: if_split_asm option.split_asm)
  from restore_row_keeps [OF this] have "db' = db\<lparr>db_commitments := db_commitments db'\<rparr>" by (simp add: same_rows_def)
  then show ?thesis by blast
qed

lemma inactive_lease_saves_nothing:
  assumes "\<forall>row. map_of (db_jobs db) lease = Some row \<longrightarrow> jr_status row \<in> set FINAL_REPORT_JOB_TERMINAL_STATUSES"
    and "save_run se now rec expected (Some lease) db = (r, db')"
  shows "db' = db \<and> (\<exists>e. r = Inl e)"
proof (cases r)
  case (Inl e)
  then show ?thesis using assms(2) transact_Inl unfolding save_run_def by blast
next
  case (Inr x)
  then obtain job where "map_of (db_jobs db) lease = Some job" "jr_status job \<in> {''queued'', ''rendering'', ''running''}"
    using published_lease assms(2) by blast
  then show ?thesis using assms(1) active_not_terminal by blast
qed

lemma fenced_publication:
  assumes fence: "fenced K lease" and others: "\<forall>n s. K (sh_db s) \<longrightarrow> K (sh_db (pe_others env n s))"
  shows "ensures (\<lambda>w. K (sh_db (w_shared w))) (\<lambda>w w'. True) (publish_attempts env lease run result n) (\<lambda>r. r \<noteq> ''blocked'')"
proof -
  let ?ok = "ensures (\<lambda>w. K (sh_db (w_shared w))) (\<lambda>w w'. True)"
  have tx: "?ok (store_tx env f) Q"
    if "\<And>db r db'. K db \<Longrightarrow> f db = (r, db') \<Longrightarrow> K db' \<and> (\<forall>x. r = Inr x \<longrightarrow> Q x)" for f :: "store_db \<Rightarrow> ('x, store_db) tx" and Q
    unfolding store_tx_def
    by (rule fence.ensures_access) (use others that in \<open>auto split: prod.splits\<close>)
  have load: "?ok (load_record env run) (\<lambda>_. True)"
    unfolding load_record_def
  proof (rule tx)
    fix db r db'
    assume "K db" "load_run (pe_store env) run db = (r, db')"
    then show "K db' \<and> (\<forall>x. r = Inr x \<longrightarrow> True)" using fence loads_only_commit by (metis fenced_def)
  qed
  have save: "?ok (save_record env rec expected (Some lease)) (\<lambda>_. False)" for rec expected
    unfolding save_record_def
  proof (rule fence.ensures_andthen [OF fence.ensures_reading [where Q = "\<lambda>_. True", OF TrueI]], rule tx)
    fix now db r db'
    assume "K db" "save_run (pe_store env) now rec expected (Some lease) db = (r, db')"
    then have "db' = db \<and> (\<exists>e. r = Inl e)" using fence by (intro inactive_lease_saves_nothing) (auto simp: fenced_def)
    then show "K db' \<and> (\<forall>x. r = Inr x \<longrightarrow> False)" using \<open>K db\<close> by auto
  qed
  have apply_final: "?ok (apply_final_stage env rec res) (\<lambda>_. True)" for rec res
    unfolding apply_final_stage_def
    by (intro fence.ensures_andthen [OF fence.ensures_reading [where Q = "\<lambda>_. True", OF TrueI]] fence.ensures_lift TrueI)
  show ?thesis
  proof (induction n)
    case 0
    show ?case by (simp add: fence.ensures_give)
  next
    case (Suc n)
    show ?case
      unfolding publish_attempts.simps
      by (intro fence.ensures_andthen [OF load] fence.ensures_andthen [OF fence.ensures_lift [where Q = "\<lambda>_. True", OF TrueI]]
          fence.ensures_andthen [OF apply_final] fence.ensures_andthen [OF fence.ensures_conflict [OF save]]
          acting_if acting_option fence.ensures_give Suc.IH) auto
  qed
qed

text \<open>
  C31. Late results are fenced: once the job of a lease has ended (expired, superseded, failed ...), publishing a result
  under this lease changes neither the runs nor the jobs, at whatever moment of the publication others act: every assertion
  about these tables that others keep is kept, and the outcome is never that the result was published as blocked.
\<close>

theorem late_result_is_fenced:
  assumes "fenced K lease" and "\<forall>n s. K (sh_db s) \<longrightarrow> K (sh_db (pe_others env n s))"
    and "K (sh_db (w_shared w))" and "publish_result env lease run result w = (r, w')"
  shows "K (sh_db (w_shared w')) \<and> r \<noteq> Inr ''blocked''"
  using fence.ensuresD [OF fenced_publication [OF assms(1,2)] assms(3) assms(4) [unfolded publish_result_def]] by blast

text \<open>A worker whose lease expired finishes after all, while nobody else acts.\<close>

definition sample_pub :: "(unit, unit) pub_env" where
  "sample_pub = \<lparr>pe_store = sample_env, pe_others = (\<lambda>_ s. s), pe_clock = (\<lambda>_. 0), pe_now = (\<lambda>_. ''t''),
     pe_uuid = (\<lambda>_. ''u''), pe_getenv = (\<lambda>_. None), pe_float = (\<lambda>_. PInt 0), pe_starts = (\<lambda>_. True)\<rparr>"

definition late_world :: world where
  "late_world = \<lparr>w_shared = \<lparr>sh_db = sample_db 1 (sample_lease ''expired''), sh_tasks = [], sh_objects = [], sh_slot_free = True\<rparr>,
     w_tick = 0, w_plan = empty_plan\<rparr>"

theorem late_result_is_fenced_witness:
  "db_runs (sh_db (w_shared (snd (publish_result sample_pub ''w'' ''r'' [] late_world)))) = db_runs (sample_db 1 []) \<and>
   db_jobs (sh_db (w_shared (snd (publish_result sample_pub ''w'' ''r'' [] late_world)))) = sample_lease ''expired'' \<and>
   fst (publish_result sample_pub ''w'' ''r'' [] late_world) \<noteq> Inr ''blocked''"
proof -
  let ?K = "\<lambda>db. db_runs db = db_runs (sample_db 1 []) \<and> db_jobs db = sample_lease ''expired''"
  have "fenced ?K ''w''"
    by (auto simp: fenced_def sample_lease_def FINAL_REPORT_JOB_TERMINAL_STATUSES_def)
  moreover have "\<forall>n s. ?K (sh_db s) \<longrightarrow> ?K (sh_db (pe_others sample_pub n s))" by (simp add: sample_pub_def)
  moreover have "?K (sh_db (w_shared late_world))" by (simp add: late_world_def sample_db_def)
  moreover have "publish_result sample_pub ''w'' ''r'' [] late_world =
      (fst (publish_result sample_pub ''w'' ''r'' [] late_world), snd (publish_result sample_pub ''w'' ''r'' [] late_world))"
    by simp
  ultimately have "?K (sh_db (w_shared (snd (publish_result sample_pub ''w'' ''r'' [] late_world)))) \<and>
      fst (publish_result sample_pub ''w'' ''r'' [] late_world) \<noteq> Inr ''blocked''"
    by (rule late_result_is_fenced)
  then show ?thesis by (elim conjE) (intro conjI)
qed

section \<open>One renderer for a revision\<close>

text \<open>A claim launches a renderer when it returns after a new task was registered.\<close>

definition launches :: "('c, 'd) pub_env \<Rightarrow> dict \<Rightarrow> dict \<Rightarrow> world \<Rightarrow> world \<Rightarrow> bool" where
  "launches env record context w w' \<longleftrightarrow> (\<exists>claimed. claim_and_launch env record context False w = (Inr claimed, w')) \<and>
     length (sh_objects (w_shared w)) < length (sh_objects (w_shared w'))"

text \<open>The tasks of a process are its own.\<close>

definition own_tasks :: "('c, 'd) pub_env \<Rightarrow> bool" where
  "own_tasks env \<longleftrightarrow> (\<forall>n s. sh_objects (pe_others env n s) = sh_objects s)"

abbreviation steadily :: "'a act \<Rightarrow> bool" where
  "steadily m \<equiv> ensures (\<lambda>w. True) (\<lambda>w w'. sh_objects (w_shared w') = sh_objects (w_shared w)) m (\<lambda>_. True)"

interpretation steady: guarded_actions "\<lambda>w. True" "\<lambda>w w'. sh_objects (w_shared w') = sh_objects (w_shared w)"
  by unfold_locales simp_all

lemma steady_access:
  "own_tasks env \<Longrightarrow> (\<And>s. sh_objects (snd (f s)) = sh_objects s) \<Longrightarrow> steadily (access env f)"
  by (rule steady.ensures_access) (simp_all add: own_tasks_def, metis snd_conv)

lemma steady_store: "own_tasks env \<Longrightarrow> steadily (store_tx env f)"
  unfolding store_tx_def by (rule steady_access) (auto split: prod.split)

lemma steady_clock: "steadily (reading f)"
  by (rule steady.ensures_reading) simp

lemma steady_free: "steadily (lift_res r)" "steadily (give x)" "steadily (raising e)" "steadily the_plan" "steadily (set_plan p)"
  by (auto simp: ensures_def the_plan_def set_plan_def lift_res_def give_def raising_def)

lemma steady_then: "steadily m \<Longrightarrow> (\<And>x. steadily (f x)) \<Longrightarrow> steadily (andthen m f)"
  by (rule steady.ensures_andthen)

lemmas steady_rules = steady_then steady_clock steady_free acting_if acting_option acting_let steady_store

lemma steady_update: "own_tasks env \<Longrightarrow> steadily (safe_job_update env lease status)"
  unfolding safe_job_update_def load_job_def job_tx_def
  by (intro steady.ensures_any steady_rules steady_access) simp_all

lemma steady_claim: "own_tasks env \<Longrightarrow> steadily (the_claim env record context supervised)"
  unfolding the_claim_def make_claim_def apply_final_stage_def by (intro steady_rules)

lemma steady_job: "own_tasks env \<Longrightarrow> steadily (create_job env claim run)"
  unfolding create_job_def job_tx_def by (intro steady_rules)

lemma steady_load: "own_tasks env \<Longrightarrow> steadily (load_record env run)"
  unfolding load_record_def by (intro steady_rules)

lemma steadyD: "steadily m \<Longrightarrow> m w = (r, w') \<Longrightarrow> sh_objects (w_shared w') = sh_objects (w_shared w)"
  by (simp add: ensures_def)

lemma andthen_Inr: "andthen m f w = (Inr y, w') \<longleftrightarrow> (\<exists>x w1. m w = (Inr x, w1) \<and> f x w1 = (Inr y, w'))"
  by (auto simp: andthen_def split: prod.splits sum.splits)

lemma advance_identity: "dget (advance_record sha u stage status ids results now n) ''identity'' = dget u ''identity''"
  by (simp add: dget_def advance_frame ADVANCED_FIELDS_def)

lemma claim_run:
  assumes "the_claim env record context False w = (Inr claim, w')"
  shows "run_of (cl_record claim) = run_of record"
proof -
  obtain now result where "apply_comprehensive_stage_result (se_sha (pe_store env)) (se_operator (pe_store env)) now record
      FINAL_REPORT_STAGE result = Inr (cl_record claim)"
    using assms
    by (auto simp: the_claim_def make_claim_def apply_final_stage_def andthen_Inr the_plan_def reading_def Let_def lift_res_def give_def)
  then show ?thesis
  proof (rule apply_stageE)
    fix n identity normalized results revision
    assume "cl_record claim = advance_record (se_sha (pe_store env)) (copy_record_for_update record) FINAL_REPORT_STAGE
        (stage_result_status result) (map PStr (take n COMPREHENSIVE_STAGES))
        (PDict (dset results FINAL_REPORT_STAGE (PDict normalized))) now revision"
    then show ?thesis by (simp add: run_of_def advance_identity copy_record_read)
  qed
qed

lemma saved_at:
  assumes "good_env env" and "good_world (pe_store env) w" and "unless_conflict (save_record env rec n None) w = (Inr (Some r), w')"
  shows "\<exists>now db1. (store_step (pe_store env))\<^sup>*\<^sup>* (sh_db (w_shared w)) db1 \<and>
     save_run (pe_store env) now rec n None db1 = (Inr r, sh_db (w_shared w'))"
proof -
  let ?s = "pe_others env (Suc (w_tick w)) (w_shared w)"
  have "save_record env rec n None w = (Inr r, w')"
    using assms(3) by (auto simp: unless_conflict_def catching_def andthen_def give_def raising_def split: prod.splits sum.splits pyexc.splits)
  then have "save_run (pe_store env) (pe_clock env (w_tick w)) rec n None (sh_db ?s) = (Inr r, sh_db (w_shared w'))"
    by (auto simp: save_record_def store_tx_def access_def andthen_def reading_def split: prod.splits)
  moreover have "(store_step (pe_store env))\<^sup>*\<^sup>* (sh_db (w_shared w)) (sh_db ?s)"
    using assms(1,2) by (simp add: good_env_def good_world_def)
  ultimately show ?thesis by blast
qed

lemma saved_run: "save_run se now rec n lease db = (Inr r, db') \<Longrightarrow> run_of r = run_of rec \<and> (\<exists>run. run_of rec = PStr run)"
proof (erule save_run_Inr)
  fix run
  assume "r = copy_record_for_store rec" "run_of r = PStr run"
  moreover have "run_of (copy_record_for_store rec) = run_of rec" by (simp add: run_of_def copy_record_for_store_def dsetdefault_def)
  ultimately show ?thesis by simp
qed

lemma launched_claim:
  assumes env: "good_env env" "own_tasks env" and w: "good_world (pe_store env) w" and c: "formed context" "formed (cl_record claim)"
    and launch: "launch_claim env record context False claim w = (Inr claimed, w')"
    and new: "sh_objects (w_shared w') \<noteq> sh_objects (w_shared w)"
  obtains n db1 db2 run where "expected_revision record = Inr n" "run_of (cl_record claim) = PStr run"
    "(store_step (pe_store env))\<^sup>*\<^sup>* (sh_db (w_shared w)) db1" "saves_run (pe_store env) db1 run n db2"
    "(store_step (pe_store env))\<^sup>*\<^sup>* db2 (sh_db (w_shared w'))"
proof -
  let ?run = "recovery_text (dget context ''run_id'')"
  obtain n w1 saved w2 where job: "create_job env claim ?run w = (Inr (), w1)" and n: "expected_revision record = Inr n"
    and save: "unless_conflict (save_record env (cl_record claim) n None) w1 = (Inr saved, w2)"
    and fin: "(case saved of None \<Rightarrow> andthen (safe_job_update env (cl_lease claim) ''superseded'') (\<lambda>_. load_record env ?run)
       | Some claimed \<Rightarrow> andthen (start_worker env (cl_lease claim) context) (\<lambda>_. give claimed)) w2 = (Inr claimed, w')"
    using launch unfolding launch_claim_def Let_def by (auto simp: andthen_Inr lift_res_def give_def)
  have steady1: "sh_objects (w_shared w1) = sh_objects (w_shared w)" using steadyD [OF steady_job [OF env(2)] job] .
  have "steadily (save_record env (cl_record claim) n None)"
    unfolding save_record_def by (intro steady_rules env(2))
  then have "steadily (unless_conflict (save_record env (cl_record claim) n None))"
    unfolding unless_conflict_def by (intro steady.ensures_catching steady_rules) (auto split: pyexc.split intro: steady_free)
  from steadyD [OF this save] have steady2: "sh_objects (w_shared w2) = sh_objects (w_shared w1)" .
  have "saved \<noteq> None"
  proof
    assume "saved = None"
    then have "andthen (safe_job_update env (cl_lease claim) ''superseded'') (\<lambda>_. load_record env ?run) w2 = (Inr claimed, w')"
      using fin by simp
    from steadyD [OF steady_then [OF steady_update [OF env(2)] steady_load [OF env(2)]] this]
    show False using new steady1 steady2 by simp
  qed
  then obtain r where r: "saved = Some r" by blast
  note step1 = by_transactions.ensuresD [OF tx_create_job [OF env(1)] w job]
  obtain now db1 where s: "(store_step (pe_store env))\<^sup>*\<^sup>* (sh_db (w_shared w1)) db1"
    "save_run (pe_store env) now (cl_record claim) n None db1 = (Inr r, sh_db (w_shared w2))"
    using saved_at [OF env(1) _ save [unfolded r]] step1 by blast
  obtain run where run: "run_of (cl_record claim) = PStr run" "run_of r = PStr run" using saved_run [OF s(2)] by metis
  have good2: "good_world (pe_store env) w2"
    using by_transactions.ensuresD [OF by_transactions.ensures_conflict [OF tx_save [OF env(1) c(2)]] _ save] step1 by blast
  have "keeps_store env (andthen (start_worker env (cl_lease claim) context) (\<lambda>_. give r)) (\<lambda>_. True)"
    by (intro by_transactions.ensures_andthen [OF tx_start_worker [OF env(1) c(1)]] tx_give TrueI)
  from by_transactions.ensuresD [OF this good2] fin r have "transacts (pe_store env) w2 w'" by auto
  then show thesis
    using that [OF n run(1), of db1 "sh_db (w_shared w2)"] s step1 run(2)
    by (auto simp: transacts_def saves_run_def intro: rtranclp_trans)
qed

lemma launch_saves:
  assumes env: "good_env env" "own_tasks env" and w: "good_world (pe_store env) w" and c: "formed record" "formed context"
    and l: "launches env record context w w'"
  obtains n db1 db2 run where "expected_revision record = Inr n" "run_of record = PStr run"
    "(store_step (pe_store env))\<^sup>*\<^sup>* (sh_db (w_shared w)) db1" "saves_run (pe_store env) db1 run n db2"
    "(store_step (pe_store env))\<^sup>*\<^sup>* db2 (sh_db (w_shared w'))"
proof -
  obtain claim w1 claimed where claim: "the_claim env record context False w = (Inr claim, w1)"
    and launch: "launch_claim env record context False claim w1 = (Inr claimed, w')"
    using l by (auto simp: launches_def claim_and_launch_def andthen_Inr)
  note step = by_transactions.ensuresD [OF tx_the_claim [OF env(1) c(1)] w claim]
  have "sh_objects (w_shared w1) = sh_objects (w_shared w)" using steadyD [OF steady_claim [OF env(2)] claim] .
  then have new: "sh_objects (w_shared w') \<noteq> sh_objects (w_shared w1)" using l by (auto simp: launches_def)
  have good: "good_world (pe_store env) w1" and form: "formed (cl_record claim)" using step by auto
  show thesis
  proof (rule launched_claim [OF env good c(2) form launch new])
    fix n db1 db2 run
    assume saved: "expected_revision record = Inr n" "run_of (cl_record claim) = PStr run"
      "(store_step (pe_store env))\<^sup>*\<^sup>* (sh_db (w_shared w1)) db1" "saves_run (pe_store env) db1 run n db2"
      "(store_step (pe_store env))\<^sup>*\<^sup>* db2 (sh_db (w_shared w'))"
    have "(store_step (pe_store env))\<^sup>*\<^sup>* (sh_db (w_shared w)) db1"
      using step saved(3) by (auto simp: transacts_def intro: rtranclp_trans)
    then show thesis using that [OF saved(1) _ _ saved(4,5)] saved(2) claim_run [OF claim] by simp
  qed
qed

text \<open>
  One renderer for a revision: after a request launched the renderer for a run from some revision, no request of any
  process that holds the same record launches another one, whatever transactions happened in between and whatever
  others do during the two requests.
\<close>

theorem one_renderer_per_revision:
  assumes "good_env env" "own_tasks env" "good_world (pe_store env) w1" and "good_env env'" "own_tasks env'" "good_world (pe_store env) w2"
    and "pe_store env' = pe_store env" and "formed record" "formed context" "formed context'"
    and "launches env record context w1 w1'" and "(store_step (pe_store env))\<^sup>*\<^sup>* (sh_db (w_shared w1')) (sh_db (w_shared w2))"
  shows "\<not> launches env' record context' w2 w2'"
proof
  assume "launches env' record context' w2 w2'"
  then obtain n db1 db2 run where second: "expected_revision record = Inr n" "run_of record = PStr run"
    "(store_step (pe_store env))\<^sup>*\<^sup>* (sh_db (w_shared w2)) db1" "saves_run (pe_store env) db1 run n db2"
    using launch_saves [OF assms(4,5) _ assms(8,10)] assms(6,7) by metis
  obtain db3 db4 where first: "saves_run (pe_store env) db3 run n db4"
    "(store_step (pe_store env))\<^sup>*\<^sup>* db4 (sh_db (w_shared w1'))"
    using launch_saves [OF assms(1-3,8,9,11)] second by (metis Inr_inject py.inject(4))
  have "(store_step (pe_store env))\<^sup>*\<^sup>* db4 db1" using first(2) assms(12) second(3) by (meson rtranclp_trans)
  then show False using run_versions.no_lost_update first(1) second(4) by blast
qed

end
