(* ===== verification/Spec2Isabelle.thy ===== *)
theory Spec2Isabelle
  imports StageAdapter StoreGuarantees EngagementMetadata ExactArtifactSamples PublicationFence
begin

text \<open>
  Verification of the Comprehensive assessment lifecycle of NICO.

  NICO assesses a repository in a fixed sequence of stages, keeps the result as one canonical run
  record, stops for human review, and delivers a report to a client only after a human approved
  exactly that report and a human authorized its delivery. The code is \<open>src/nico\<close>; the part
  modelled here decides what a run record may say and what may be delivered. The network,
  the scanners, the text of the reports and the web front end produce or show the values that
  these rules guard; they are not modelled (below).

  How the parts interact. A run is created in the store; its stages deliver results, which the record
  rules accept one after the other and the store saves under the revision they were computed from. A
  stage that does not change is blocked by the watchdog; the last stage renders the report behind an
  execution boundary, in a background task that holds a lease in the job table, and its failure is
  recovered at most once. The finished run waits for a reviewer, whose decision is bound to the digests
  of the report; the request layer exposes the report, and a delivery receipt is issued, only while
  those digests still hold.

  Values. The program keeps all of its state in JSON-shaped Python values. \<open>PyValues\<close> is the
  prelude: the datatype \<^typ>\<open>py\<close>, dictionaries as association lists in insertion order, the
  operations of the language the sources use on them (truth value, \<open>or\<close>, \<open>str\<close>, \<open>int\<close>,
  \<open>float\<close>, \<open>strip\<close>, \<open>split\<close>, \<open>casefold\<close>, subscripts, equality) and exceptions as the left side of a
  sum with the text of the exception. A character is a code point below 256 and a float is a
  decimal; \<open>copy\<close> and \<open>deepcopy\<close> are identities on values. The hash function is a parameter
  \<open>sha\<close>; what is used of it (digests are not empty, have no outer spaces) is a named hypothesis,
  and tamper evidence is stated as: equal content, or the encoded texts of these two values are
  different texts with one digest (\<open>texts_collide\<close>). Clocks are parameters, as texts or as numbers.

  The components, in the order in which they build on each other:

  \<^item> \<open>CanonicalJson\<close> (\<open>comprehensive_run_record.py\<close>: \<open>_bounded_native_json\<close>,
    \<open>_canonical_hash_chunks\<close>, \<open>_canonical_hash\<close>): canonical JSON text, the streamed digest over a
    frame stack with its byte and node budgets, and that it equals the digest of the text.
  \<^item> \<open>JsonText\<close>: \<open>json.loads\<close> with its object hook, as a fuelled recursive descent whose fuel (the
    length of the text) is shown to be enough for every canonical text: reading a written value
    returns it, so equal texts mean equal values up to key order.
  \<^item> \<open>Seals\<close>: the locale \<open>digest_seal\<close>, the contract of a dictionary that keeps the digest of its
    other fields; sealing makes valid, and a change is detected. It is interpreted for
    the fields checked as text, and later for the record, the review manifest and the
    review certificate.
  \<^item> \<open>StageContract\<close> (\<open>comprehensive_orchestration_contract.py\<close>,
    \<open>comprehensive_capability_registry.py\<close>) and \<open>StageAdapter\<close> (\<open>comprehensive_stage_adapter.py\<close>): the
    stages in order, the contract and its validation, and the loop that runs a stage executor
    after the other and reaches review only after every stage.
  \<^item> \<open>HumanEvidence\<close> (\<open>strategic_human_evidence_v1.py\<close>, module table of
    \<open>decision_grade_human_evidence_v1.py\<close>): normalization of the intake into sealed modules;
    a module is complete only on what was submitted for it; a package verifies.
  \<^item> \<open>ReportBoundary\<close> (\<open>ordinary_bundle_boundary_v2.py\<close>): the worklist inspection that keeps report
    bundles out of the single-report path, equal to a declarative reachability.
  \<^item> \<open>AcceptedEdition\<close> (\<open>decision_grade_accepted_edition_v2.py\<close>,
    \<open>decision_grade_accepted_edition_guard_v1.py\<close>): the manifest that binds a decision to the exact
    report artifacts, and the guard that fails closed.
  \<^item> \<open>ReviewDecision\<close> (reviewer rules of \<open>comprehensive_client_delivery_contract_v1.py\<close>,
    \<open>comprehensive_review_decision_v1.py\<close>): who may decide, and the reviewed edition of a record with
    its ledger binding. The review ledger (\<open>comprehensive_review_work_v2.py\<close>) is a parameter.
  \<^item> \<open>DeliveryAuthorization\<close> (\<open>comprehensive_delivery_authorization_v1.py\<close>): the receipt that
    authorizes delivery, its validation, and that authorization returns a valid receipt.
  \<^item> \<open>RunRecord\<close> (\<open>comprehensive_run_record.py\<close>): creation, validation, stage results, review
    decisions and restoring. Operator delivery (\<open>comprehensive_operator_delivery_v1.py\<close>) is a
    parameter of the validation.
  \<^item> \<open>RunLifecycle\<close>: the records a run can reach as an inductive predicate with its invariant, the
    progress of a run through every stage to review, tamper evidence of records, and restoring.
  \<^item> \<open>ReviewLifecycle\<close>: a complete decision on a reachable run is always applied; and a
    concrete run from creation to approval, at which the properties are witnessed.
  \<^item> \<open>StorageStream\<close>, \<open>StorageTokens\<close>, \<open>StorageChunks\<close>, \<open>StorageCodec\<close>
    (\<open>comprehensive_run_storage_stream_v1.py\<close>, \<open>comprehensive_run_storage_dedup_v1.py\<close>,
    \<open>comprehensive_run_storage_chunks_v1.py\<close>, \<open>comprehensive_run_storage_codec_v1.py\<close>): how a record
    becomes the text of a database column. The locale \<open>byte_codec\<close> states what a codec promises (what was
    encoded is decoded, within its bounds); it is interpreted for the legacy compression, the
    token table and the chunk table, and the selection among them is lossless. \<open>zlib\<close> is a
    parameter, with its documented streaming behaviour (\<open>zlib_decodes\<close>).
  \<^item> \<open>StoreTables\<close>, \<open>StoreIntake\<close>, \<open>StoreJobs\<close> (\<open>comprehensive_run_store.py\<close>): tables as
    association lists of rows, the reservation of a confirmed intake and the report render jobs. The locale
    \<open>fenced_table\<close> is the contract of a table whose rows are never removed and whose terminal rows
    are final; it is interpreted for both.
  \<^item> \<open>RunStore\<close>, \<open>RecordOrder\<close>, \<open>StoreGuarantees\<close> (\<open>comprehensive_run_store.py\<close>): creating,
    loading and saving a run with its revision, its review history commitment, the publication
    fence and the column projections; that validity of a record does not depend on the order of
    its keys, so a stored record loads again; and the refinement of a map from run to version and
    record (locale \<open>versioned_store\<close>, interpreted on the store).
  \<^item> \<open>StageWatchdog\<close> (\<open>comprehensive_stage_watchdog_v1.py\<close>): a stage that does not change for
    too many continuations or too long becomes blocked, with one explicit retry, so polling a
    stage always ends.
  \<^item> \<open>BlockedRecovery\<close>, \<open>RecoveryLife\<close> (\<open>comprehensive_blocked_run_recovery_v1.py\<close>): which blocked
    runs may be recovered, the recovered record, and that recovery keeps every gate, succeeds
    when it is offered and happens at most once. Its lifecycle \<open>life_step\<close> has stage results, reviews,
    recoveries and retries; the transitions of a delivery are not part of it.
  \<^item> \<open>EngagementMetadata\<close> (\<open>comprehensive_engagement_metadata_v1.py\<close>): the sealed snapshot of who asked
    for the assessment, with the provenance of every field; a snapshot that is built verifies.
  \<^item> \<open>ExactArtifacts\<close>, \<open>ExactArtifactSamples\<close> (\<open>comprehensive_exact_artifact_hash_binding_v1.py\<close>): the
    validation of a package with a detached manifest of its eight artifacts, and a package that passes it.
  \<^item> \<open>ReportAuthority\<close> (\<open>comprehensive_api_controller.py\<close>: \<open>_canonical_final_report_outputs\<close> and the checks
    it makes): which report a request may expose, and that an approval pins its artifacts. Operator
    delivery is a boolean parameter that always answers; an exception of its validation is not modelled.
  \<^item> \<open>FinalReportBoundary\<close> (\<open>comprehensive_final_report_execution_boundary_v4.py\<close>): the bounded execution
    of the report provider; a complete result is exact, and what the request layer makes of it.
  \<^item> \<open>RecordForm\<close>: every operation on records keeps them well-formed values.
  \<^item> \<open>SharedWorld\<close>, \<open>ReportPublication\<close> (\<open>comprehensive_final_report_background_v1.py\<close>): operations as
    sequences of accesses to what threads and processes share, with anything others do before each
    access; the coordinator of the report publication, its claim, expiry, recovery and the turns of its
    three threads. Waiting for the renderer is bounded by an argument, and waiting longer raises
    \<open>NoReturn\<close>. The locale \<open>guarded_actions\<close> is the contract of such operations.
  \<^item> \<open>PublicationGuarantees\<close>, \<open>PublicationFence\<close>: whatever others do, the coordinator changes the store only by
    transactions of the store (so everything shown of those holds while it runs), a result that comes
    after its lease ended changes nothing, and one revision of a run starts at most one renderer. The
    locale is interpreted for each of the three.

  A transaction of the database is one step of the model: the statement that reads a row and the one that
  updates it are not interleaved with another writer, and two writers are two steps in either
  order. A column is the text the program writes into it. The environment of the store and of the watchdog
  (operator delivery validation, the projection builder, environment variables, clock
  formats, rounding) is a record of functions.

  Not modelled, and why. The run service (\<open>comprehensive_run_service.py\<close>) calls the modelled operations
  in the order of a request and hands the stages to executors. Report rendering, PDF and localization
  produce the artifacts as opaque text. Providers, scanners and the HTTP routes are input and output
  around the modelled operations. The approval receipt of the client delivery contract, operator delivery and the
  artifact-manifest approval are further surfaces of the same decision. Express, mid and full assessments share the
  digests and the stage names but have records of their own. Database connections and schema migrations of the store are
  input and output below the modelled statements; refreshing a browser projection (load, swap, reload) is
  one step. The hook \<open>recover_deadline\<close> of the process-isolated renderer is not set by the modelled coordinator.
\<close>

end
